(* ===== verification/Prelude.thy ===== *)
theory Prelude
  imports Main "HOL-Library.Sublist"
begin

text \<open>
  What every component of the development shares: how JavaScript values are read
  (truthiness of optional strings, \<^verbatim>\<open>Map\<close> built from pairs, template strings with numbers),
  the state monad with exceptions in which the asynchronous handlers of the control server
  are written, the table operations behind the query builder (\<^verbatim>\<open>select\<close>, \<^verbatim>\<open>update\<close>,
  \<^verbatim>\<open>delete\<close>, \<^verbatim>\<open>insert\<close>), and the locale \<open>step_rel\<close>, which lifts a reflexive and
  transitive relation on states from the primitive steps to whole handlers.
\<close>

section \<open>Collections of facts\<close>

named_theorems exm_defs \<open>definitions of the exception-state monad\<close>
named_theorems service_defs \<open>definitions of service operations, unfolded by frame proofs\<close>

section \<open>JavaScript values\<close>

text \<open>A value that is absent, null or the empty string is falsy.\<close>

definition truthy :: "string option \<Rightarrow> bool" where
  "truthy v = (case v of None \<Rightarrow> False | Some s \<Rightarrow> s \<noteq> [])"

text \<open>\<^verbatim>\<open>new Map(pairs)\<close>: a later pair with the same key replaces an earlier one.\<close>

definition js_map :: "('k \<times> 'v) list \<Rightarrow> ('k \<rightharpoonup> 'v)" where
  "js_map ps = map_of (rev ps)"

text \<open>Decimal digits of a number, as a template string prints it.\<close>

definition digit_char :: "nat \<Rightarrow> char" where
  "digit_char d = char_of (48 + d)"

fun show_nat :: "nat \<Rightarrow> string" where
  "show_nat n = (if n < 10 then [digit_char n] else show_nat (n div 10) @ [digit_char (n mod 10)])"

declare show_nat.simps [simp del]

definition is_digit :: "char \<Rightarrow> bool" where
  "is_digit c = (48 \<le> (of_char c :: nat) \<and> (of_char c :: nat) \<le> 57)"

definition digit_value :: "char \<Rightarrow> nat" where
  "digit_value c = of_char c - 48"

definition nat_of_digits :: "string \<Rightarrow> nat" where
  "nat_of_digits cs = foldl (\<lambda>n c. 10 * n + digit_value c) 0 cs"

text \<open>\<^verbatim>\<open>String.prototype.toLowerCase\<close> on the characters of the basic Latin range.\<close>

definition lower_char :: "char \<Rightarrow> char" where
  "lower_char c = (let n = (of_char c :: nat) in if 65 \<le> n \<and> n \<le> 90 then char_of (n + 32) else c)"

definition toLowerCase :: "string \<Rightarrow> string" where
  "toLowerCase = map lower_char"

section \<open>State with exceptions\<close>

text \<open>
  A handler takes the state and returns either the value it resolves to (\<open>Inr\<close>) or the
  error it throws (\<open>Inl\<close>), and the state it leaves behind in both cases: what was written
  before a throw stays written.
\<close>

type_synonym ('s, 'e, 'a) exm = "'s \<Rightarrow> ('e + 'a) \<times> 's"

definition retE :: "'a \<Rightarrow> ('s, 'e, 'a) exm" where
  [exm_defs]: "retE a = (\<lambda>s. (Inr a, s))"

definition throwE :: "'e \<Rightarrow> ('s, 'e, 'a) exm" where
  [exm_defs]: "throwE e = (\<lambda>s. (Inl e, s))"

definition bindE :: "('s, 'e, 'a) exm \<Rightarrow> ('a \<Rightarrow> ('s, 'e, 'b) exm) \<Rightarrow> ('s, 'e, 'b) exm" where
  [exm_defs]: "bindE m f = (\<lambda>s. case m s of (Inl e, t) \<Rightarrow> (Inl e, t) | (Inr a, t) \<Rightarrow> f a t)"

definition getE :: "('s \<Rightarrow> 'a) \<Rightarrow> ('s, 'e, 'a) exm" where
  [exm_defs]: "getE g = (\<lambda>s. (Inr (g s), s))"

definition modE :: "('s \<Rightarrow> 's) \<Rightarrow> ('s, 'e, unit) exm" where
  [exm_defs]: "modE f = (\<lambda>s. (Inr (), f s))"

text \<open>\<^verbatim>\<open>try\<close> with the caught error as a value, and \<^verbatim>\<open>finally\<close> with a synchronous clean-up.\<close>

definition tryE :: "('s, 'e, 'a) exm \<Rightarrow> ('s, 'e, 'e + 'a) exm" where
  [exm_defs]: "tryE m = (\<lambda>s. case m s of (r, t) \<Rightarrow> (Inr r, t))"

definition finallyE :: "('s, 'e, 'a) exm \<Rightarrow> ('s \<Rightarrow> 's) \<Rightarrow> ('s, 'e, 'a) exm" where
  [exm_defs]: "finallyE m f = (\<lambda>s. case m s of (r, t) \<Rightarrow> (r, f t))"

text \<open>Errors rewritten on the way out: \<^verbatim>\<open>.catch((error) => { throw g(error); })\<close>.\<close>

definition mapErrE :: "('e \<Rightarrow> 'e) \<Rightarrow> ('s, 'e, 'a) exm \<Rightarrow> ('s, 'e, 'a) exm" where
  [exm_defs]: "mapErrE g m = (\<lambda>s. case m s of (Inl e, t) \<Rightarrow> (Inl (g e), t) | (Inr a, t) \<Rightarrow> (Inr a, t))"

definition whenE :: "bool \<Rightarrow> ('s, 'e, unit) exm \<Rightarrow> ('s, 'e, unit) exm" where
  [exm_defs]: "whenE b m = (if b then m else retE ())"

text \<open>
  A database transaction: the body runs on the state, and a throw inside it puts the state
  back to what it was when the transaction opened.
\<close>

definition transactionE :: "('s, 'e, 'a) exm \<Rightarrow> ('s, 'e, 'a) exm" where
  [exm_defs]: "transactionE m = (\<lambda>s. case m s of (Inl e, t) \<Rightarrow> (Inl e, s) | (Inr a, t) \<Rightarrow> (Inr a, t))"

primrec mapE :: "('a \<Rightarrow> ('s, 'e, 'b) exm) \<Rightarrow> 'a list \<Rightarrow> ('s, 'e, 'b list) exm" where
  "mapE f [] = retE []"
| "mapE f (x # xs) = bindE (f x) (\<lambda>y. bindE (mapE f xs) (\<lambda>ys. retE (y # ys)))"

primrec forE :: "'a list \<Rightarrow> ('a \<Rightarrow> ('s, 'e, unit) exm) \<Rightarrow> ('s, 'e, unit) exm" where
  "forE [] f = retE ()"
| "forE (x # xs) f = bindE (f x) (\<lambda>_. forE xs f)"

text \<open>Taking an execution apart.\<close>

lemma bindE_Inr: "bindE m f s = (Inr b, t) \<longleftrightarrow> (\<exists>a u. m s = (Inr a, u) \<and> f a u = (Inr b, t))"
  by (auto simp: bindE_def split: prod.splits sum.splits)

lemma bindE_Inl:
  "bindE m f s = (Inl e, t) \<longleftrightarrow> m s = (Inl e, t) \<or> (\<exists>a u. m s = (Inr a, u) \<and> f a u = (Inl e, t))"
  by (auto simp: bindE_def split: prod.splits sum.splits)

lemma retE_eq: "retE a s = (r, t) \<longleftrightarrow> r = Inr a \<and> t = s"
  by (auto simp: retE_def)

lemma throwE_eq: "throwE e s = (r, t) \<longleftrightarrow> r = Inl e \<and> t = s"
  by (auto simp: throwE_def)

lemma getE_eq: "getE g s = (r, t) \<longleftrightarrow> r = Inr (g s) \<and> t = s"
  by (auto simp: getE_def)

lemma modE_eq: "modE f s = (r, t) \<longleftrightarrow> r = Inr () \<and> t = f s"
  by (auto simp: modE_def)

lemma tryE_eq: "tryE m s = (r, t) \<longleftrightarrow> (\<exists>v. m s = (v, t) \<and> r = Inr v)"
  by (auto simp: tryE_def split: prod.splits)

lemmas exec_simps = bindE_Inr bindE_Inl retE_eq throwE_eq getE_eq modE_eq tryE_eq

section \<open>Tables\<close>

text \<open>
  A table is the list of its rows, in the order the database returns them. \<^verbatim>\<open>where\<close>
  conditions are predicates on rows.
\<close>

definition upd :: "('r \<Rightarrow> bool) \<Rightarrow> ('r \<Rightarrow> 'r) \<Rightarrow> 'r list \<Rightarrow> 'r list" where
  "upd P f = map (\<lambda>r. if P r then f r else r)"

definition del :: "('r \<Rightarrow> bool) \<Rightarrow> 'r list \<Rightarrow> 'r list" where
  "del P = filter (\<lambda>r. \<not> P r)"

section \<open>Lemmas on values\<close>

lemma truthy_simps [simp]: "\<not> truthy None" "truthy (Some s) \<longleftrightarrow> s \<noteq> []"
  by (simp_all add: truthy_def)

lemma truthy_iff: "truthy v \<longleftrightarrow> (\<exists>s. v = Some s \<and> s \<noteq> [])"
  by (cases v) auto

lemma js_map_Nil [simp]: "js_map [] = Map.empty"
  by (simp add: js_map_def)

lemma js_map_snoc [simp]: "js_map (ps @ [(k, v)]) = (js_map ps)(k \<mapsto> v)"
  by (simp add: js_map_def)

lemma js_map_SomeD: "js_map ps k = Some v \<Longrightarrow> (k, v) \<in> set ps"
  unfolding js_map_def by (metis map_of_SomeD set_rev)

lemma js_map_None_iff: "js_map ps k = None \<longleftrightarrow> k \<notin> fst ` set ps"
  by (simp add: js_map_def map_of_eq_None_iff image_set flip: set_map)

lemma js_map_distinct: "distinct (map fst ps) \<Longrightarrow> (k, v) \<in> set ps \<Longrightarrow> js_map ps k = Some v"
  unfolding js_map_def by (metis distinct_rev map_of_is_SomeI rev_map set_rev)

lemma of_char_digit: "d < 10 \<Longrightarrow> (of_char (digit_char d) :: nat) = 48 + d"
  by (simp add: digit_char_def)

lemma is_digit_digit_char [simp]: "d < 10 \<Longrightarrow> is_digit (digit_char d)"
  by (simp add: is_digit_def of_char_digit)

lemma digit_value_digit_char [simp]: "d < 10 \<Longrightarrow> digit_value (digit_char d) = d"
  by (simp add: digit_value_def of_char_digit)

lemma show_nat_nonempty [simp]: "show_nat n \<noteq> []"
  by (subst show_nat.simps) simp

lemma show_nat_digits: "list_all is_digit (show_nat n)"
proof (induction n rule: show_nat.induct)
  case (1 n)
  then show ?case by (subst show_nat.simps) auto
qed

lemma nat_of_digits_snoc [simp]:
  "nat_of_digits (cs @ [c]) = 10 * nat_of_digits cs + digit_value c"
  by (simp add: nat_of_digits_def)

lemma nat_of_digits_show_nat [simp]: "nat_of_digits (show_nat n) = n"
proof (induction n rule: show_nat.induct)
  case (1 n)
  show ?case
  proof (cases "n < 10")
    case True
    then show ?thesis by (subst show_nat.simps) (simp add: nat_of_digits_def)
  next
    case False
    with 1 have "nat_of_digits (show_nat (n div 10)) = n div 10" by simp
    with False show ?thesis by (subst show_nat.simps) simp
  qed
qed

section \<open>Lemmas on tables\<close>

lemma upd_Nil [simp]: "upd P f [] = []"
  by (simp add: upd_def)

lemma upd_Cons [simp]: "upd P f (r # t) = (if P r then f r else r) # upd P f t"
  by (simp add: upd_def)

lemma upd_append [simp]: "upd P f (s @ t) = upd P f s @ upd P f t"
  by (simp add: upd_def)

lemma length_upd [simp]: "length (upd P f t) = length t"
  by (simp add: upd_def)

lemma in_upd_iff: "x \<in> set (upd P f t) \<longleftrightarrow> (\<exists>r \<in> set t. x = (if P r then f r else r))"
  by (auto simp: upd_def)

lemma map_upd_same: "(\<And>r. P r \<Longrightarrow> g (f r) = g r) \<Longrightarrow> map g (upd P f t) = map g t"
  by (induction t) auto

lemma upd_none: "(\<And>r. r \<in> set t \<Longrightarrow> \<not> P r) \<Longrightarrow> upd P f t = t"
  by (induction t) auto

lemma filter_upd_same:
  "(\<And>r. P r \<Longrightarrow> Q (f r) = Q r) \<Longrightarrow> length (filter Q (upd P f t)) = length (filter Q t)"
  by (induction t) auto

lemma filter_upd_le:
  "(\<And>r. P r \<Longrightarrow> Q (f r) \<Longrightarrow> Q r) \<Longrightarrow> length (filter Q (upd P f t)) \<le> length (filter Q t)"
proof (induction t)
  case Nil
  then show ?case by simp
next
  case (Cons r t)
  then have "length (filter Q (upd P f t)) \<le> length (filter Q t)" by blast
  with Cons.prems show ?case by auto
qed

lemma map_filter_upd:
  "(\<And>r. r \<in> set t \<Longrightarrow> P r \<Longrightarrow> Q (f r) = Q r \<and> (Q r \<longrightarrow> g (f r) = g r)) \<Longrightarrow>
   map g (filter Q (upd P f t)) = map g (filter Q t)"
  by (induction t) auto

lemma find_upd:
  "(\<And>r. P r \<Longrightarrow> Q (f r) = Q r) \<Longrightarrow>
   find Q (upd P f t) = map_option (\<lambda>r. if P r then f r else r) (find Q t)"
  by (induction t) auto

lemma in_del_iff [simp]: "x \<in> set (del P t) \<longleftrightarrow> x \<in> set t \<and> \<not> P x"
  by (auto simp: del_def)

lemma del_Nil [simp]: "del P [] = []"
  by (simp add: del_def)

lemma del_Cons [simp]: "del P (r # t) = (if P r then del P t else r # del P t)"
  by (simp add: del_def)

lemma filter_del_le: "length (filter Q (del P t)) \<le> length (filter Q t)"
  by (induction t) auto

lemma find_del: "(\<And>r. Q r \<Longrightarrow> \<not> P r) \<Longrightarrow> find Q (del P t) = find Q t"
  by (induction t) auto

lemma find_SomeD: "find P t = Some r \<Longrightarrow> r \<in> set t \<and> P r"
  by (induction t) (auto split: if_splits)

lemma find_NoneD: "find P t = None \<Longrightarrow> r \<in> set t \<Longrightarrow> \<not> P r"
  by (auto simp: find_None_iff)

section \<open>Relations kept by every step\<close>

definition stable :: "('s \<Rightarrow> 's \<Rightarrow> bool) \<Rightarrow> ('s, 'e, 'a) exm \<Rightarrow> bool" where
  "stable R m = (\<forall>s. R s (snd (m s)))"

lemma stableI: "(\<And>s. R s (snd (m s))) \<Longrightarrow> stable R m"
  by (simp add: stable_def)

lemma stableD: "stable R m \<Longrightarrow> m s = (r, t) \<Longrightarrow> R s t"
  unfolding stable_def by (metis snd_conv)

lemma stable_mono: "stable R m \<Longrightarrow> (\<And>s t. R s t \<Longrightarrow> R' s t) \<Longrightarrow> stable R' m"
  by (simp add: stable_def)

text \<open>
  A relation between the state before and the state after that holds of doing nothing and of
  two steps in a row holds of every handler whose primitive steps have it. An invariant is
  the special case \<open>\<lambda>s t. I s \<longrightarrow> I t\<close>, a frame condition the case of an equation.
\<close>

locale step_rel =
  fixes R :: "'s \<Rightarrow> 's \<Rightarrow> bool"
  assumes step_refl: "R s s"
    and step_trans: "R s t \<Longrightarrow> R t u \<Longrightarrow> R s u"
begin

lemma stable_ret: "stable R (retE a)"
  by (simp add: stable_def retE_def step_refl)

lemma stable_throw: "stable R (throwE e)"
  by (simp add: stable_def throwE_def step_refl)

lemma stable_get: "stable R (getE g)"
  by (simp add: stable_def getE_def step_refl)

lemma stable_mod: "(\<And>s. R s (f s)) \<Longrightarrow> stable R (modE f)"
  by (simp add: stable_def modE_def)

lemma stable_bind:
  assumes "stable R m" and "\<And>a. stable R (f a)"
  shows "stable R (bindE m f)"
proof (rule stableI)
  fix s
  obtain r t where rt: "m s = (r, t)" by fastforce
  with assms(1) have st: "R s t" by (rule stableD)
  show "R s (snd (bindE m f s))"
  proof (cases r)
    case (Inl e)
    with rt st show ?thesis by (simp add: bindE_def)
  next
    case (Inr a)
    obtain r' u where ru: "f a t = (r', u)" by fastforce
    with assms(2) have "R t u" by (rule stableD)
    with st have "R s u" by (rule step_trans)
    with rt Inr ru show ?thesis by (simp add: bindE_def)
  qed
qed

lemma stable_try: "stable R m \<Longrightarrow> stable R (tryE m)"
  by (simp add: stable_def tryE_def split: prod.split) (metis snd_conv)

lemma stable_mapErr: "stable R m \<Longrightarrow> stable R (mapErrE g m)"
  by (simp add: stable_def mapErrE_def split: prod.split sum.split) (metis snd_conv)

lemma stable_transaction: "stable R m \<Longrightarrow> stable R (transactionE m)"
  by (simp add: stable_def transactionE_def step_refl split: prod.split sum.split) (metis snd_conv)

lemma stable_finally:
  assumes "stable R m" and "\<And>t. R t (f t)"
  shows "stable R (finallyE m f)"
proof (rule stableI)
  fix s
  obtain r t where rt: "m s = (r, t)" by fastforce
  with assms(1) have "R s t" by (rule stableD)
  then have "R s (f t)" using assms(2) by (rule step_trans)
  with rt show "R s (snd (finallyE m f s))" by (simp add: finallyE_def)
qed

lemma stable_when: "stable R m \<Longrightarrow> stable R (whenE b m)"
  by (simp add: whenE_def stable_ret)

lemma stable_if: "(b \<Longrightarrow> stable R m) \<Longrightarrow> (\<not> b \<Longrightarrow> stable R n) \<Longrightarrow> stable R (if b then m else n)"
  by simp

lemma stable_option:
  "(v = None \<Longrightarrow> stable R m) \<Longrightarrow> (\<And>x. v = Some x \<Longrightarrow> stable R (f x)) \<Longrightarrow>
   stable R (case v of None \<Rightarrow> m | Some x \<Rightarrow> f x)"
  by (cases v) auto

lemma stable_sum:
  "(\<And>e. v = Inl e \<Longrightarrow> stable R (g e)) \<Longrightarrow> (\<And>x. v = Inr x \<Longrightarrow> stable R (f x)) \<Longrightarrow>
   stable R (case v of Inl e \<Rightarrow> g e | Inr x \<Rightarrow> f x)"
  by (cases v) auto

lemma stable_prod: "(\<And>a b. p = (a, b) \<Longrightarrow> stable R (f a b)) \<Longrightarrow> stable R (case p of (a, b) \<Rightarrow> f a b)"
  by (cases p) auto

lemma stable_map: "(\<And>x. stable R (f x)) \<Longrightarrow> stable R (mapE f xs)"
  by (induction xs) (auto intro!: stable_ret stable_bind)

lemma stable_for: "(\<And>x. stable R (f x)) \<Longrightarrow> stable R (forE xs f)"
  by (induction xs) (auto intro!: stable_ret stable_bind)

lemma stable_let: "stable R (f v) \<Longrightarrow> stable R (let x = v in f x)"
  by simp

lemmas stable_rules = stable_ret stable_throw stable_get stable_bind stable_try stable_mapErr
  stable_when stable_if stable_option stable_sum stable_prod stable_map stable_for stable_let

end

text \<open>The two relations used throughout: a projection of the state is kept, an invariant is kept.\<close>

definition keeps :: "('s \<Rightarrow> 'p) \<Rightarrow> 's \<Rightarrow> 's \<Rightarrow> bool" where
  "keeps f = (\<lambda>s t. f t = f s)"

definition preserves :: "('s \<Rightarrow> bool) \<Rightarrow> 's \<Rightarrow> 's \<Rightarrow> bool" where
  "preserves I = (\<lambda>s t. I s \<longrightarrow> I t)"

interpretation frame: step_rel "keeps f" for f
  by unfold_locales (simp_all add: keeps_def)

interpretation inv: step_rel "preserves I" for I
  by unfold_locales (simp_all add: preserves_def)

lemma keepsD: "stable (keeps f) m \<Longrightarrow> m s = (r, t) \<Longrightarrow> f t = f s"
  by (drule stableD) (auto simp: keeps_def)

lemma preservesD: "stable (preserves I) m \<Longrightarrow> m s = (r, t) \<Longrightarrow> I s \<Longrightarrow> I t"
  by (drule stableD) (auto simp: preserves_def)

lemma keeps_weaken: "stable (keeps f) m \<Longrightarrow> stable (keeps (\<lambda>s. g (f s))) m"
  by (erule stable_mono) (simp add: keeps_def)

lemma keeps_preserves: "stable (keeps f) m \<Longrightarrow> (\<And>s t. f t = f s \<Longrightarrow> I s \<Longrightarrow> I t) \<Longrightarrow> stable (preserves I) m"
  by (erule stable_mono) (auto simp: keeps_def preserves_def)

end
