(* ===== verification/Protocol.thy ===== *)
theory Protocol
  imports Prelude Complex_Main
begin

text \<open>
  The capability catalogue (\<^verbatim>\<open>src/api/src/agents/capabilities.ts\<close>) and the messages an agent may
  send (\<^verbatim>\<open>src/api/src/agents/protocol.ts\<close>). Reading the text of a message is
  \<^verbatim>\<open>JSON.parse\<close>, the argument \<open>json_parse\<close>; everything the code does with the value
  it returns is defined here. Messages are shown to be read back as they were written, and
  whatever is read is well-formed.
\<close>

section \<open>Capabilities\<close>

definition CAPABILITIES :: "string list" where
  "CAPABILITIES =
    [''host.inventory'', ''host.metrics'', ''container.list'', ''container.inspect'',
     ''compose.list'', ''compose.inspect'', ''container.start'', ''container.stop'',
     ''container.restart'', ''container.logs'', ''container.create'', ''container.replace'',
     ''container.remove'', ''stack.deploy'', ''stack.start'', ''stack.stop'', ''stack.restart'',
     ''stack.remove'']"

definition STREAMING_CAPABILITIES :: "string list" where
  "STREAMING_CAPABILITIES = [''container.logs'']"

definition isStreaming :: "string \<Rightarrow> bool" where
  "isStreaming capability = (capability \<in> set STREAMING_CAPABILITIES)"

definition MUTATING_CAPABILITIES :: "string list" where
  "MUTATING_CAPABILITIES =
    [''container.start'', ''container.stop'', ''container.restart'', ''container.create'',
     ''container.replace'', ''container.remove'', ''stack.deploy'', ''stack.start'',
     ''stack.stop'', ''stack.restart'', ''stack.remove'']"

definition isMutating :: "string \<Rightarrow> bool" where
  "isMutating capability = (capability \<in> set MUTATING_CAPABILITIES)"

definition isCapability :: "string \<Rightarrow> bool" where
  "isCapability value = (value \<in> set CAPABILITIES)"

definition CAPABILITY_TIMEOUT_MS :: "string \<rightharpoonup> nat" where
  "CAPABILITY_TIMEOUT_MS = map_of
    [(''host.inventory'', 10000), (''host.metrics'', 10000), (''container.list'', 20000),
     (''container.inspect'', 15000), (''compose.list'', 20000), (''compose.inspect'', 20000),
     (''container.start'', 60000), (''container.stop'', 60000), (''container.restart'', 90000),
     (''container.create'', 300000), (''container.replace'', 420000),
     (''container.remove'', 90000), (''stack.deploy'', 900000), (''stack.start'', 300000),
     (''stack.stop'', 300000), (''stack.restart'', 600000), (''stack.remove'', 600000),
     (''container.logs'', 15000)]"

section \<open>What an agent may report\<close>

definition AGENT_ERROR_CODES :: "string list" where
  "AGENT_ERROR_CODES =
    [''DOCKER_UNAVAILABLE'', ''DOCKER_PERMISSION_DENIED'', ''DOCKER_OPERATION_FAILED'',
     ''AGENT_REQUEST_EXPIRED'', ''AGENT_CAPABILITY_UNSUPPORTED'', ''CONTAINER_NOT_FOUND'',
     ''CONTAINER_ALREADY_RUNNING'', ''CONTAINER_ALREADY_STOPPED'', ''CONTAINER_NAME_IN_USE'',
     ''IMAGE_NOT_FOUND'', ''INVALID_CONTAINER_SPEC'', ''REPLACEMENT_FAILED'',
     ''STACK_RESOURCE_CONFLICT'', ''STACK_STATE_AMBIGUOUS'', ''STACK_SERVICE_MISSING'',
     ''STACK_LIFECYCLE_INCOMPLETE'', ''STACK_REMOVE_INCOMPLETE'', ''VOLUME_MISSING'',
     ''COMPOSE_PROJECT_NOT_FOUND'', ''VALIDATION_FAILED'', ''AGENT_CAPABILITY_FAILED'']"

text \<open>\<open>None\<close> is a value that is not a string.\<close>

definition agentErrorCode :: "string option \<Rightarrow> string" where
  "agentErrorCode value = (case value of
      Some code \<Rightarrow> if code \<in> set AGENT_ERROR_CODES then code else ''AGENT_CAPABILITY_FAILED''
    | None \<Rightarrow> ''AGENT_CAPABILITY_FAILED'')"

definition AGENT_ERROR_MESSAGES :: "string \<rightharpoonup> string" where
  "AGENT_ERROR_MESSAGES = map_of
    [(''DOCKER_UNAVAILABLE'',
      ''The Docker Engine on this host could not be reached.''),
     (''DOCKER_PERMISSION_DENIED'',
      ''The agent is not permitted to use the Docker socket on this host.''),
     (''DOCKER_OPERATION_FAILED'',
      ''The Docker Engine refused the operation.''),
     (''AGENT_REQUEST_EXPIRED'',
      ''The host received the request too late to act on it.''),
     (''AGENT_CAPABILITY_UNSUPPORTED'',
      ''This host does not support that operation.''),
     (''CONTAINER_NOT_FOUND'',
      ''The container no longer exists on its host.''),
     (''CONTAINER_ALREADY_RUNNING'',
      ''The container is already running.''),
     (''CONTAINER_ALREADY_STOPPED'',
      ''The container is not running.''),
     (''CONTAINER_NAME_IN_USE'',
      ''A container of that name already exists on this host.''),
     (''IMAGE_NOT_FOUND'',
      ''The image could not be found or pulled on this host.''),
     (''INVALID_CONTAINER_SPEC'',
      ''The host rejected the container configuration as invalid.''),
     (''REPLACEMENT_FAILED'',
      ''The replacement did not start, so the original container was put back.''),
     (''STACK_RESOURCE_CONFLICT'',
      ''A container, volume or network on this host has a name this stack needs and was not created by it.''),
     (''STACK_STATE_AMBIGUOUS'',
      ''The containers of this stack on the host do not say clearly which revision it is running.''),
     (''STACK_SERVICE_MISSING'',
      ''A service of this stack has no container on the host. Dockplane will not create one in its place.''),
     (''STACK_LIFECYCLE_INCOMPLETE'',
      ''Part of this stack was moved and part of it was not. Nothing was undone.''),
     (''STACK_REMOVE_INCOMPLETE'',
      ''Part of this stack was removed and part of it was not. Nothing was rebuilt.''),
     (''VOLUME_MISSING'',
      ''A volume this stack was using is not on the host. Dockplane will not create an empty one in its place.''),
     (''COMPOSE_PROJECT_NOT_FOUND'',
      ''The Compose project no longer exists on its host.''),
     (''VALIDATION_FAILED'',
      ''The host rejected the request as invalid.''),
     (''AGENT_CAPABILITY_FAILED'',
      ''The operation failed on the host.'')]"

definition agentErrorMessage :: "string \<Rightarrow> string" where
  "agentErrorMessage code = (case AGENT_ERROR_MESSAGES code of
      Some message \<Rightarrow> message
    | None \<Rightarrow> the (AGENT_ERROR_MESSAGES ''AGENT_CAPABILITY_FAILED''))"

section \<open>Messages\<close>

text \<open>What \<^verbatim>\<open>JSON.parse\<close> returns. A number is a finite one or, for \<^verbatim>\<open>1e999\<close>, infinite.\<close>

datatype js_number = Finite rat | Infinite bool

datatype json = JNull | JBool bool | JNumber js_number | JString string
  | JArray "json list" | JObject "(string \<times> json) list"

text \<open>A property of a value that is known to be an object; a later duplicate replaces an earlier.\<close>

definition property :: "json \<Rightarrow> string \<Rightarrow> json option" where
  "property value key = (case value of JObject fields \<Rightarrow> js_map fields key | _ \<Rightarrow> None)"

definition as_string :: "json option \<Rightarrow> string option" where
  "as_string v = (case v of Some (JString s) \<Rightarrow> Some s | _ \<Rightarrow> None)"

definition as_number :: "json option \<Rightarrow> js_number option" where
  "as_number v = (case v of Some (JNumber n) \<Rightarrow> Some n | _ \<Rightarrow> None)"

fun isInteger :: "js_number \<Rightarrow> bool" where
  "isInteger (Finite q) = (q = of_int \<lfloor>q\<rfloor>)"
| "isInteger (Infinite _) = False"

definition PROTOCOL_VERSION :: rat where "PROTOCOL_VERSION = 1"

definition MINIMUM_PROTOCOL_VERSION :: rat where "MINIMUM_PROTOCOL_VERSION = 1"

text \<open>\<open>None\<close> is a value that is not a number.\<close>

definition isSupportedProtocolVersion :: "js_number option \<Rightarrow> bool" where
  "isSupportedProtocolVersion version = (case version of
      Some (Finite q) \<Rightarrow> isInteger (Finite q) \<and> MINIMUM_PROTOCOL_VERSION \<le> q \<and> q \<le> PROTOCOL_VERSION
    | _ \<Rightarrow> False)"

datatype agent_error = AgentError (err_code: string) (err_message: string)

definition STREAM_END_REASONS :: "string list" where
  "STREAM_END_REASONS = [''completed'', ''cancelled'', ''failed'', ''expired'']"

datatype ClientMessage =
    HelloMessage js_number "string option" "string list"
  | HeartbeatMessage js_number
  | CertificateRenewalMessage js_number string
  | CapabilityResponseMessage js_number string string string "json option" "agent_error option"
  | StreamStartedMessage js_number string string string
  | StreamChunkMessage js_number string string rat "json option" rat
  | StreamEndMessage js_number string string string "agent_error option"

definition is_object :: "json \<Rightarrow> bool" where
  "is_object v = (case v of JObject _ \<Rightarrow> True | JArray _ \<Rightarrow> True | _ \<Rightarrow> False)"

definition parseError :: "json option \<Rightarrow> agent_error option" where
  "parseError value = (case value of
      Some v \<Rightarrow> (if is_object v then
        Some (AgentError
          (case as_string (property v ''code'') of Some c \<Rightarrow> c | None \<Rightarrow> ''AGENT_CAPABILITY_FAILED'')
          (case as_string (property v ''message'') of Some m \<Rightarrow> m | None \<Rightarrow> ''The capability failed.''))
        else None)
    | None \<Rightarrow> None)"

definition parseCapabilityResponse :: "js_number \<Rightarrow> json \<Rightarrow> ClientMessage option" where
  "parseCapabilityResponse version message =
    (case (as_string (property message ''id''), as_string (property message ''capability'')) of
       (Some rid, Some capability) \<Rightarrow>
         if \<not> isCapability capability then None
         else (case as_string (property message ''status'') of
             Some status \<Rightarrow> if status = ''success'' \<or> status = ''error''
               then Some (CapabilityResponseMessage version rid capability status
                 (property message ''payload'') (parseError (property message ''error'')))
               else None
           | None \<Rightarrow> None)
     | _ \<Rightarrow> None)"

definition parseStreamChunk :: "js_number \<Rightarrow> json \<Rightarrow> ClientMessage option" where
  "parseStreamChunk version message =
    (case (as_string (property message ''id''), as_string (property message ''streamId'')) of
       (Some rid, Some streamId) \<Rightarrow>
         (case as_number (property message ''seq'') of
            Some (Finite seq) \<Rightarrow>
              if \<not> isInteger (Finite seq) \<or> seq < 0 then None
              else let dropped = (case as_number (property message ''dropped'') of
                         Some (Finite d) \<Rightarrow> if isInteger (Finite d) \<and> d > 0 then d else 0
                       | _ \<Rightarrow> 0) in
                Some (StreamChunkMessage version rid streamId seq (property message ''payload'') dropped)
          | _ \<Rightarrow> None)
     | _ \<Rightarrow> None)"

definition parseHello :: "js_number \<Rightarrow> json \<Rightarrow> ClientMessage" where
  "parseHello version message = HelloMessage version (as_string (property message ''agentVersion''))
     (case property message ''capabilities'' of
        Some (JArray items) \<Rightarrow> List.map_filter (\<lambda>entry. as_string (Some entry)) items
      | _ \<Rightarrow> [])"

definition parseStreamStarted :: "js_number \<Rightarrow> json \<Rightarrow> ClientMessage option" where
  "parseStreamStarted version message =
    (case (as_string (property message ''id''), as_string (property message ''streamId''),
           as_string (property message ''capability'')) of
       (Some rid, Some streamId, Some capability) \<Rightarrow>
         if isCapability capability
         then Some (StreamStartedMessage version rid capability streamId) else None
     | _ \<Rightarrow> None)"

definition parseStreamEnd :: "js_number \<Rightarrow> json \<Rightarrow> ClientMessage option" where
  "parseStreamEnd version message =
    (case (as_string (property message ''id''), as_string (property message ''streamId''),
           as_string (property message ''reason'')) of
       (Some rid, Some streamId, Some reason) \<Rightarrow>
         if reason \<in> set STREAM_END_REASONS
         then Some (StreamEndMessage version rid streamId reason (parseError (property message ''error'')))
         else None
     | _ \<Rightarrow> None)"

definition parse_message :: "json \<Rightarrow> ClientMessage option" where
  "parse_message message =
    (if \<not> is_object message then None
     else (case (as_string (property message ''type''), as_number (property message ''protocolVersion'')) of
       (Some kind, Some version) \<Rightarrow>
         if kind = ''hello'' then Some (parseHello version message)
         else if kind = ''heartbeat'' then Some (HeartbeatMessage version)
         else if kind = ''certificate.renew'' then
           map_option (CertificateRenewalMessage version) (as_string (property message ''csr''))
         else if kind = ''response'' then parseCapabilityResponse version message
         else if kind = ''stream_started'' then parseStreamStarted version message
         else if kind = ''stream_chunk'' then parseStreamChunk version message
         else if kind = ''stream_end'' then parseStreamEnd version message
         else None
     | _ \<Rightarrow> None))"

definition parseClientMessage :: "(string \<Rightarrow> json option) \<Rightarrow> string \<Rightarrow> ClientMessage option" where
  "parseClientMessage json_parse raw = Option.bind (json_parse raw) parse_message"

section \<open>Writing a message\<close>

text \<open>The value an agent sends for a message, field by field as the interfaces declare them.\<close>

definition error_fields :: "agent_error option \<Rightarrow> (string \<times> json) list" where
  "error_fields err = (case err of None \<Rightarrow> []
     | Some (AgentError c m) \<Rightarrow>
         [(''error'', JObject [(''code'', JString c), (''message'', JString m)])])"

definition payload_fields :: "json option \<Rightarrow> (string \<times> json) list" where
  "payload_fields payload = (case payload of None \<Rightarrow> [] | Some v \<Rightarrow> [(''payload'', v)])"

fun write_message :: "ClientMessage \<Rightarrow> json" where
  "write_message (HelloMessage version agentVersion capabilities) =
     JObject ([(''type'', JString ''hello''), (''protocolVersion'', JNumber version),
       (''capabilities'', JArray (map JString capabilities))]
       @ (case agentVersion of None \<Rightarrow> [] | Some v \<Rightarrow> [(''agentVersion'', JString v)]))"
| "write_message (HeartbeatMessage version) =
     JObject [(''type'', JString ''heartbeat''), (''protocolVersion'', JNumber version)]"
| "write_message (CertificateRenewalMessage version csr) =
     JObject [(''type'', JString ''certificate.renew''), (''protocolVersion'', JNumber version),
       (''csr'', JString csr)]"
| "write_message (CapabilityResponseMessage version rid capability status payload err) =
     JObject ([(''type'', JString ''response''), (''protocolVersion'', JNumber version),
       (''id'', JString rid), (''capability'', JString capability), (''status'', JString status)]
       @ payload_fields payload @ error_fields err)"
| "write_message (StreamStartedMessage version rid capability streamId) =
     JObject [(''type'', JString ''stream_started''), (''protocolVersion'', JNumber version),
       (''id'', JString rid), (''capability'', JString capability), (''streamId'', JString streamId)]"
| "write_message (StreamChunkMessage version rid streamId seq payload dropped) =
     JObject ([(''type'', JString ''stream_chunk''), (''protocolVersion'', JNumber version),
       (''id'', JString rid), (''streamId'', JString streamId), (''seq'', JNumber (Finite seq)),
       (''dropped'', JNumber (Finite dropped))] @ payload_fields payload)"
| "write_message (StreamEndMessage version rid streamId reason err) =
     JObject ([(''type'', JString ''stream_end''), (''protocolVersion'', JNumber version),
       (''id'', JString rid), (''streamId'', JString streamId), (''reason'', JString reason)]
       @ error_fields err)"

text \<open>What the interfaces promise of a message beyond the types of its fields.\<close>

fun well_formed :: "ClientMessage \<Rightarrow> bool" where
  "well_formed (HelloMessage _ _ _) = True"
| "well_formed (HeartbeatMessage _) = True"
| "well_formed (CertificateRenewalMessage _ _) = True"
| "well_formed (CapabilityResponseMessage _ _ capability status _ _) =
     (isCapability capability \<and> status \<in> {''success'', ''error''})"
| "well_formed (StreamStartedMessage _ _ capability _) = isCapability capability"
| "well_formed (StreamChunkMessage _ _ _ seq _ dropped) =
     (isInteger (Finite seq) \<and> 0 \<le> seq \<and> isInteger (Finite dropped) \<and> 0 \<le> dropped)"
| "well_formed (StreamEndMessage _ _ _ reason _) = (reason \<in> set STREAM_END_REASONS)"

section \<open>Lemmas\<close>

lemma as_string_simps [simp]:
  "as_string None = None" "as_string (Some (JString s)) = Some s"
  by (simp_all add: as_string_def)

lemma as_number_simps [simp]: "as_number (Some (JNumber n)) = Some n"
  by (simp add: as_number_def)

lemma map_filter_strings: "List.map_filter (\<lambda>entry. as_string (Some entry)) (map JString xs) = xs"
  by (induction xs) (simp_all add: map_filter_simps)

lemma parseError_fields: "property (JObject (fields @ error_fields err)) ''error'' =
    (case err of None \<Rightarrow> property (JObject fields) ''error''
     | Some (AgentError c m) \<Rightarrow> Some (JObject [(''code'', JString c), (''message'', JString m)]))"
  by (simp add: property_def js_map_def error_fields_def split: option.split agent_error.split)

lemma parseError_write:
  "parseError (Some (JObject [(''code'', JString c), (''message'', JString m)])) = Some (AgentError c m)"
  by (simp add: parseError_def is_object_def property_def js_map_def)

lemma is_object_write: "is_object (write_message m)"
  by (cases m) (simp_all add: is_object_def)

lemmas write_parse_defs = parse_message_def property_def js_map_def is_object_write parseHello_def
  parseCapabilityResponse_def parseStreamStarted_def parseStreamChunk_def parseStreamEnd_def

lemma parse_write:
  assumes "well_formed m"
  shows "parse_message (write_message m) = Some m"
proof (cases m)
  case (HelloMessage version agentVersion capabilities)
  then show ?thesis
    by (cases agentVersion) (simp_all add: write_parse_defs map_filter_strings is_object_def)
next
  case (CapabilityResponseMessage version rid capability status payload err)
  then show ?thesis
    using assms
    by (cases payload; cases err; cases "the err")
      (auto simp: write_parse_defs is_object_def payload_fields_def error_fields_def
        parseError_write parseError_def [of None])
next
  case (StreamChunkMessage version rid streamId seq payload dropped)
  then show ?thesis
    using assms
    by (cases payload) (auto simp: write_parse_defs is_object_def payload_fields_def)
next
  case (StreamEndMessage version rid streamId reason err)
  then show ?thesis
    using assms
    by (cases err; cases "the err")
      (auto simp: write_parse_defs is_object_def error_fields_def parseError_write parseError_def [of None])
qed (use assms in \<open>auto simp: write_parse_defs is_object_def\<close>)

lemma isInteger_0: "isInteger (Finite 0)"
  by simp

lemma parse_well_formed: "parse_message j = Some m \<Longrightarrow> well_formed m"
  by (auto simp: parse_message_def parseHello_def parseCapabilityResponse_def parseStreamStarted_def
      parseStreamChunk_def parseStreamEnd_def Let_def isInteger_0 simp del: isInteger.simps
      split: if_splits option.splits js_number.splits)

section \<open>Properties\<close>

text \<open>
  C36: a message from an agent is read back exactly as it was written when it is well-formed, and
  whatever is read from any text at all is well-formed: a response names a capability of the
  catalogue and one of the two statuses, a chunk carries whole, non-negative counters, and a
  stream ends for one of the four reasons.
\<close>

theorem parseClientMessage_roundtrip:
  "(well_formed m \<and> json_parse raw = Some (write_message m) \<longrightarrow>
      parseClientMessage json_parse raw = Some m) \<and>
   (parseClientMessage json_parse raw = Some m \<longrightarrow> well_formed m)"
  by (auto simp: parseClientMessage_def parse_write bind_eq_Some_conv parse_well_formed)

theorem parseClientMessage_roundtrip_witness:
  "parseClientMessage (\<lambda>_. Some (write_message (StreamEndMessage (Finite 1) ''q'' ''s'' ''expired'' None))) ''...''
     = Some (StreamEndMessage (Finite 1) ''q'' ''s'' ''expired'' None)"
  using parseClientMessage_roundtrip [of "StreamEndMessage (Finite 1) ''q'' ''s'' ''expired'' None"
      "\<lambda>_. Some (write_message (StreamEndMessage (Finite 1) ''q'' ''s'' ''expired'' None))" "''...''"]
  by (simp add: STREAM_END_REASONS_def)

text \<open>
  Whatever code an agent reports, and whatever value that is not a string, the API answers
  with a code of the catalogue for agents and with the sentence it keeps for that code; and every
  capability has a timeout, the changing ones being capabilities that do not stream.
\<close>

theorem agent_reports_closed:
  "agentErrorCode value \<in> set AGENT_ERROR_CODES
   \<and> AGENT_ERROR_MESSAGES (agentErrorCode value) = Some (agentErrorMessage (agentErrorCode value))
   \<and> dom CAPABILITY_TIMEOUT_MS = set CAPABILITIES
   \<and> set MUTATING_CAPABILITIES \<subseteq> set CAPABILITIES - set STREAMING_CAPABILITIES"
proof -
  have code: "agentErrorCode value \<in> set AGENT_ERROR_CODES"
    by (simp add: agentErrorCode_def AGENT_ERROR_CODES_def split: option.split)
  have "list_all (\<lambda>c. AGENT_ERROR_MESSAGES c \<noteq> None) AGENT_ERROR_CODES"
    by code_simp
  with code have "AGENT_ERROR_MESSAGES (agentErrorCode value) \<noteq> None"
    by (simp add: list_all_iff)
  moreover have "dom CAPABILITY_TIMEOUT_MS = set CAPABILITIES"
    by (simp add: CAPABILITY_TIMEOUT_MS_def CAPABILITIES_def dom_map_of_conv_image_fst insert_commute)
  moreover have "list_all (\<lambda>c. c \<in> set CAPABILITIES \<and> c \<notin> set STREAMING_CAPABILITIES) MUTATING_CAPABILITIES"
    by code_simp
  ultimately show ?thesis
    using code by (auto simp: agentErrorMessage_def list_all_iff)
qed

end
