(* ===== verification/App_Error.thy ===== *)
theory App_Error
  imports Protocol
begin

text \<open>
  The error contract of the API, \<^verbatim>\<open>src/api/src/common/errors.ts\<close>: the catalogue of stable
  codes and the exception that carries one, with the other two things a handler can throw
  (what the database says when a constraint refuses a row, and any other error).
\<close>

definition ERROR_CODES :: "string list" where
  "ERROR_CODES =
    [''AUTH_INVALID_CREDENTIALS'', ''AUTH_MFA_REQUIRED'', ''AUTH_MFA_INVALID'',
     ''AUTH_REAUTHENTICATION_REQUIRED'', ''SESSION_EXPIRED'', ''SESSION_REVOKED'',
     ''SESSION_REQUIRED'', ''CSRF_INVALID'', ''PERMISSION_DENIED'', ''RATE_LIMITED'',
     ''VALIDATION_FAILED'', ''ENROLLMENT_TOKEN_INVALID'', ''ENROLLMENT_TOKEN_EXPIRED'',
     ''ENROLLMENT_TOKEN_CONSUMED'', ''ENROLLMENT_TOKEN_REVOKED'', ''ENROLLMENT_CSR_INVALID'',
     ''AGENT_CERT_INVALID'', ''AGENT_CERT_EXPIRED'', ''AGENT_UNKNOWN'',
     ''AGENT_IDENTITY_MISMATCH'', ''AGENT_REVOKED'', ''AGENT_PROTOCOL_UNSUPPORTED'',
     ''AGENT_MESSAGE_TOO_LARGE'', ''AGENT_REQUEST_EXPIRED'', ''AGENT_REQUEST_TIMEOUT'',
     ''AGENT_CAPABILITY_UNSUPPORTED'', ''AGENT_UPGRADE_REQUIRED'', ''AGENT_CAPABILITY_FAILED'',
     ''AGENT_RESPONSE_INVALID'', ''AGENT_NOT_CONNECTED'', ''DOCKER_UNAVAILABLE'',
     ''HOST_NOT_FOUND'', ''HOST_ARCHIVED'', ''HOST_CONNECTED'', ''HOST_SETUP_NOT_FOUND'',
     ''HOST_SETUP_NOT_PENDING'', ''HOST_SETUP_TICKET_INVALID'', ''HOST_SETUP_UNAVAILABLE'',
     ''CONTAINER_NOT_FOUND'', ''CONTAINER_DETAIL_UNAVAILABLE'', ''CONTAINER_ALREADY_RUNNING'',
     ''CONTAINER_ALREADY_STOPPED'', ''CONTAINER_IDENTITY_CONFLICT'', ''MANAGED_BY_STACK'',
     ''CONTAINER_NOT_MANAGED'', ''INVALID_CONTAINER_SPEC'', ''CONTAINER_NAME_IN_USE'',
     ''IMAGE_NOT_FOUND'', ''REPLACEMENT_FAILED'', ''STACK_RESOURCE_CONFLICT'',
     ''STACK_STATE_AMBIGUOUS'', ''CONTAINER_CREATE_FAILED'', ''CONTAINER_REMOVE_FAILED'',
     ''CONTAINER_STATE_UNRESOLVED'', ''OPERATION_OUTCOME_UNKNOWN'', ''COMPOSE_COMPILER_FAILED'',
     ''COMPOSE_COMPILER_UNAVAILABLE'', ''COMPOSE_INVALID'', ''STACK_NOT_FOUND'',
     ''STACK_NAME_CONFLICT'', ''STACK_REVISION_CONFLICT'', ''STACK_CONFIGURATION_INVALID'',
     ''STACK_ALREADY_DEPLOYED'', ''STACK_REVISION_ALREADY_DEPLOYED'', ''STACK_REPAIR_AMBIGUOUS'',
     ''STACK_APPLY_FAILED'', ''STACK_ROLLBACK_INCOMPLETE'', ''VOLUME_MISSING'',
     ''STACK_DEPLOYMENT_CONFLICT'', ''STACK_DEPLOYMENT_FAILED'', ''STACK_DEPLOYMENT_PARTIAL'',
     ''STACK_NEEDS_ATTENTION'', ''STACK_NOT_DEPLOYED'', ''STACK_OPERATION_CONFLICT'',
     ''STACK_SERVICE_MISSING'', ''STACK_START_FAILED'', ''STACK_STOP_FAILED'',
     ''STACK_RESTART_FAILED'', ''STACK_LIFECYCLE_PARTIAL'', ''STACK_DELETE_FAILED'',
     ''STACK_DELETE_PARTIAL'', ''RESOURCE_NAME_CONFLICT'', ''ACTION_CONFLICT'',
     ''ACTION_TIMEOUT'', ''AGENT_OFFLINE'', ''CAPABILITY_UNSUPPORTED'',
     ''LOG_STREAM_UNAVAILABLE'', ''LOG_STREAM_TIMEOUT'', ''LOG_STREAM_OVERFLOW'',
     ''LOG_STREAM_LIMIT_REACHED'', ''DOCKER_PERMISSION_DENIED'', ''DOCKER_OPERATION_FAILED'',
     ''COMPOSE_PROJECT_NOT_FOUND'', ''COMPOSE_DETAIL_UNAVAILABLE'', ''AGENT_NOT_FOUND'',
     ''USER_NOT_FOUND'', ''ROLE_NOT_FOUND'', ''CONFLICT'', ''NOT_FOUND'', ''INTERNAL_ERROR'']"

record error_detail =
  ed_code :: string
  ed_message :: string
  ed_path :: "string option"

record app_error =
  ae_code :: string
  ae_message :: string
  ae_status :: nat
  ae_details :: "error_detail list option"

definition AppError :: "string \<Rightarrow> string \<Rightarrow> nat \<Rightarrow> app_error" where
  "AppError code message status =
     \<lparr>ae_code = code, ae_message = message, ae_status = status, ae_details = None\<rparr>"

definition unauthorized :: "string \<Rightarrow> string \<Rightarrow> app_error" where
  "unauthorized code message = AppError code message 401"

definition forbidden :: "string \<Rightarrow> string \<Rightarrow> app_error" where
  "forbidden code message = AppError code message 403"

definition notFound :: "string \<Rightarrow> string \<Rightarrow> app_error" where
  "notFound code message = AppError code message 404"

definition conflict :: "string \<Rightarrow> string \<Rightarrow> app_error" where
  "conflict code message = AppError code message 409"

text \<open>What a handler may throw.\<close>

datatype js_error =
    AppErr app_error
  | ConstraintErr string
  | OtherErr string

text \<open>\<^verbatim>\<open>error instanceof AppError ? error.code : fallback\<close>.\<close>

definition code_or :: "string \<Rightarrow> js_error \<Rightarrow> string" where
  "code_or fallback e = (case e of AppErr a \<Rightarrow> ae_code a | _ \<Rightarrow> fallback)"

definition as_app_error :: "js_error \<Rightarrow> app_error option" where
  "as_app_error e = (case e of AppErr a \<Rightarrow> Some a | _ \<Rightarrow> None)"

lemma error_simps [simp]:
  "code_or f (AppErr a) = ae_code a" "code_or f (ConstraintErr c) = f" "code_or f (OtherErr m) = f"
  "as_app_error (AppErr a) = Some a" "as_app_error (ConstraintErr c) = None"
  "as_app_error (OtherErr m) = None"
  by (simp_all add: code_or_def as_app_error_def)

lemma AppError_simps [simp]:
  "ae_code (AppError c m s) = c" "ae_message (AppError c m s) = m" "ae_status (AppError c m s) = s"
  "ae_code (conflict c m) = c" "ae_code (notFound c m) = c" "ae_code (forbidden c m) = c"
  "ae_code (unauthorized c m) = c"
  by (simp_all add: AppError_def conflict_def notFound_def forbidden_def unauthorized_def)

text \<open>
  The codes an agent may report are codes of the API's catalogue, with exactly two
  exceptions: the two for a stack that was only partly moved or removed, which are passed
  on although the catalogue does not list them.
\<close>

theorem agent_codes_outside_catalogue:
  "set AGENT_ERROR_CODES - set ERROR_CODES = {''STACK_LIFECYCLE_INCOMPLETE'', ''STACK_REMOVE_INCOMPLETE''}"
proof -
  have "filter (\<lambda>c. c \<notin> set ERROR_CODES) AGENT_ERROR_CODES
      = [''STACK_LIFECYCLE_INCOMPLETE'', ''STACK_REMOVE_INCOMPLETE'']"
    by code_simp
  then have "set (filter (\<lambda>c. c \<notin> set ERROR_CODES) AGENT_ERROR_CODES)
      = {''STACK_LIFECYCLE_INCOMPLETE'', ''STACK_REMOVE_INCOMPLETE''}"
    by simp
  then show ?thesis by (simp add: set_diff_eq)
qed

end
