(* ===== verification/Agent_Dispatch.thy ===== *)
theory Agent_Dispatch
  imports App_Error Protocol "HOL-Library.AList"
begin

text \<open>
  How the server reaches its agents: the live connections
  (\<^verbatim>\<open>src/api/src/agents/connection-manager.service.ts\<close>) and the dispatch of requests and
  streams over them (\<^verbatim>\<open>src/api/src/agents/agent-dispatch.service.ts\<close>). A JavaScript
  \<^verbatim>\<open>Map\<close> is an association list in insertion order, a promise is known by the identifier of
  its request, and what a promise or an observer is told is appended to a log. Timers run on a
  clock of milliseconds: when time passes, every timer that has become due fires, the earliest
  first. An observer that calls back into the service is a later step, since the service does
  nothing after telling it. The step relation interleaves all of this in any order; in every
  state it reaches, requests are answered once and in time and streams are delivered in order.
\<close>

section \<open>Messages to an agent\<close>

datatype ServerMessage =
    HelloAck string nat int int
  | HeartbeatAck
  | CertificateRenewed string int int
  | ProtocolError string string
  | CapabilityRequestMessage string string "string option" int int json
  | StreamCancelMessage string string

section \<open>State\<close>

text \<open>A socket is known by a number; two sockets are the same object when the numbers agree.\<close>

type_synonym socket = nat

record AgentConnection =
  cn_agentId :: string
  cn_socket :: socket
  cn_connectedAt :: int
  cn_remoteAddress :: "string option"

text \<open>The timer of a request is the moment at which it fires.\<close>

record PendingRequest =
  pq_agentId :: string
  pq_capability :: string
  pq_socket :: socket
  pq_timer :: nat

text \<open>The timer of a stream is gone once it has been cleared.\<close>

record RunningStream =
  rs_agentId :: string
  rs_capability :: string
  rs_requestId :: string
  rs_streamId :: string
  rs_socket :: socket
  rs_next :: nat
  rs_acknowledged :: bool
  rs_ended :: bool
  rs_timer :: "nat option"

text \<open>
  What the promise of a request and the observer of a stream are told, by the identifier of
  the request. A delivery is logged with the number it carried.
\<close>

datatype told =
    Resolved string "json option"
  | Rejected string js_error
  | Started string
  | Chunk string rat "json option" rat
  | Ended string string "agent_error option"

text \<open>
  The state of both services, the sockets that were destroyed, what was written to them, and the
  identifiers handed out so far for requests and for streams.
\<close>

record hub =
  h_connections :: "(string \<times> AgentConnection) list"
  h_pending :: "(string \<times> PendingRequest) list"
  h_streams :: "(string \<times> RunningStream) list"
  h_clock :: nat
  h_destroyed :: "socket list"
  h_written :: "(socket \<times> ServerMessage) list"
  h_told :: "told list"
  h_requests :: "string list"
  h_opened :: "string list"

definition tell :: "told \<Rightarrow> hub \<Rightarrow> hub" where
  "tell e h = h\<lparr>h_told := h_told h @ [e]\<rparr>"

definition write_socket :: "socket \<Rightarrow> ServerMessage \<Rightarrow> hub \<Rightarrow> hub" where
  "write_socket s m h = h\<lparr>h_written := h_written h @ [(s, m)]\<rparr>"

definition destroy :: "socket \<Rightarrow> hub \<Rightarrow> hub" where
  "destroy s h = h\<lparr>h_destroyed := s # h_destroyed h\<rparr>"

section \<open>Live connections\<close>

text \<open>\<^verbatim>\<open>now\<close> and \<^verbatim>\<open>remoteAddress\<close> are read while the connection is registered.\<close>

definition register :: "int \<Rightarrow> string option \<Rightarrow> string \<Rightarrow> socket \<Rightarrow> hub \<Rightarrow> hub" where
  "register now remoteAddress agentId socket h =
    (let h1 = (case map_of (h_connections h) agentId of
           Some previous \<Rightarrow> if cn_socket previous \<noteq> socket then destroy (cn_socket previous) h else h
         | None \<Rightarrow> h)
     in h1\<lparr>h_connections := AList.update agentId
          \<lparr>cn_agentId = agentId, cn_socket = socket, cn_connectedAt = now,
           cn_remoteAddress = remoteAddress\<rparr> (h_connections h1)\<rparr>)"

definition release_connection :: "string \<Rightarrow> socket \<Rightarrow> hub \<Rightarrow> bool \<times> hub" where
  "release_connection agentId socket h =
    (if map_option cn_socket (map_of (h_connections h) agentId) = Some socket
     then (True, h\<lparr>h_connections := AList.delete agentId (h_connections h)\<rparr>)
     else (False, h))"

definition disconnect :: "string \<Rightarrow> hub \<Rightarrow> bool \<times> hub" where
  "disconnect agentId h = (case map_of (h_connections h) agentId of
      None \<Rightarrow> (False, h)
    | Some connection \<Rightarrow> (True, (destroy (cn_socket connection) h)
        \<lparr>h_connections := AList.delete agentId (h_connections h)\<rparr>))"

definition isConnected_agent :: "string \<Rightarrow> hub \<Rightarrow> bool" where
  "isConnected_agent agentId h = (agentId \<in> fst ` set (h_connections h))"

definition connectedAgentIds :: "hub \<Rightarrow> string list" where
  "connectedAgentIds h = map fst (h_connections h)"

definition closeAll :: "hub \<Rightarrow> hub" where
  "closeAll h = (fold (\<lambda>(_, c). destroy (cn_socket c)) (h_connections h) h)\<lparr>h_connections := []\<rparr>"

section \<open>Requests\<close>

definition capability_unsupported :: "string \<Rightarrow> js_error" where
  "capability_unsupported message = AppErr (AppError ''AGENT_CAPABILITY_UNSUPPORTED'' message 400)"

definition not_connected :: js_error where
  "not_connected = AppErr (conflict ''AGENT_NOT_CONNECTED'' ''The agent is not connected.'')"

definition timeoutMs :: "string \<Rightarrow> nat" where
  "timeoutMs capability = the (CAPABILITY_TIMEOUT_MS capability)"

text \<open>
  \<^verbatim>\<open>uuid\<close> is what \<^verbatim>\<open>randomUUID\<close> returns and \<^verbatim>\<open>issuedAt\<close> the time of day. A request that is
  sent returns its promise, known by its identifier.
\<close>

definition request_agent :: "string \<Rightarrow> int \<Rightarrow> string \<Rightarrow> string \<Rightarrow> json \<Rightarrow> hub \<Rightarrow> (js_error + string) \<times> hub" where
  "request_agent uuid issuedAt agentId capability payload h =
    (if \<not> isCapability capability
     then (Inl (capability_unsupported ''The capability is not supported.''), h)
     else (case map_of (h_connections h) agentId of
       None \<Rightarrow> (Inl not_connected, h)
     | Some connection \<Rightarrow>
         (let message = CapabilityRequestMessage uuid capability None issuedAt
                (issuedAt + int (timeoutMs capability)) payload;
              entry = \<lparr>pq_agentId = agentId, pq_capability = capability,
                pq_socket = cn_socket connection, pq_timer = h_clock h + timeoutMs capability\<rparr>
          in (Inr uuid, write_socket (cn_socket connection) message
                (h\<lparr>h_pending := AList.update uuid entry (h_pending h),
                   h_requests := h_requests h @ [uuid]\<rparr>)))))"

definition settleWithError :: "string \<Rightarrow> js_error \<Rightarrow> hub \<Rightarrow> hub" where
  "settleWithError rid error h = (case map_of (h_pending h) rid of
      None \<Rightarrow> h
    | Some _ \<Rightarrow> tell (Rejected rid error) (h\<lparr>h_pending := AList.delete rid (h_pending h)\<rparr>))"

definition request_timed_out :: "string \<Rightarrow> js_error" where
  "request_timed_out capability = AppErr (conflict ''AGENT_REQUEST_TIMEOUT''
     (''The agent did not answer '' @ capability @ '' in time.''))"

definition request_timer :: "string \<Rightarrow> hub \<Rightarrow> hub" where
  "request_timer rid h = (case map_of (h_pending h) rid of
      None \<Rightarrow> h
    | Some entry \<Rightarrow> tell (Rejected rid (request_timed_out (pq_capability entry)))
        (h\<lparr>h_pending := AList.delete rid (h_pending h)\<rparr>))"

text \<open>The callback of the write, when the request could not be sent.\<close>

definition request_not_sent :: "string \<Rightarrow> hub \<Rightarrow> hub" where
  "request_not_sent rid = settleWithError rid (OtherErr ''The request could not be sent.'')"

definition settle_reply :: "socket \<Rightarrow> string \<Rightarrow> string \<Rightarrow> string \<Rightarrow> json option \<Rightarrow> agent_error option
    \<Rightarrow> hub \<Rightarrow> bool \<times> hub" where
  "settle_reply socket rid capability status payload error h = (case map_of (h_pending h) rid of
      None \<Rightarrow> (False, h)
    | Some entry \<Rightarrow>
        if pq_socket entry \<noteq> socket then (False, h)
        else if pq_capability entry \<noteq> capability
        then (False, settleWithError rid (AppErr (AppError ''AGENT_RESPONSE_INVALID''
                ''The agent answered a different capability.'' 400)) h)
        else (let h1 = h\<lparr>h_pending := AList.delete rid (h_pending h)\<rparr> in
          if status = ''error''
          then (let code = agentErrorCode (map_option err_code error) in
            (True, tell (Rejected rid (AppErr (AppError code (agentErrorMessage code) 400))) h1))
          else (True, tell (Resolved rid payload) h1)))"

section \<open>Streams\<close>

definition endStream :: "string \<Rightarrow> string \<Rightarrow> agent_error option \<Rightarrow> hub \<Rightarrow> hub" where
  "endStream requestId reason error h = (case map_of (h_streams h) requestId of
      None \<Rightarrow> h
    | Some stream \<Rightarrow>
        if rs_ended stream then h
        else tell (Ended requestId reason error)
          (h\<lparr>h_streams := AList.delete requestId (h_streams h)\<rparr>))"

definition openStream :: "string \<Rightarrow> string \<Rightarrow> int \<Rightarrow> string \<Rightarrow> string \<Rightarrow> json \<Rightarrow> hub
    \<Rightarrow> (js_error + string) \<times> hub" where
  "openStream requestId streamId issuedAt agentId capability payload h =
    (if \<not> isStreaming capability
     then (Inl (capability_unsupported ''The capability is not a stream.''), h)
     else (case map_of (h_connections h) agentId of
       None \<Rightarrow> (Inl not_connected, h)
     | Some connection \<Rightarrow>
         (let stream = \<lparr>rs_agentId = agentId, rs_capability = capability,
                rs_requestId = requestId, rs_streamId = streamId,
                rs_socket = cn_socket connection, rs_next = 0, rs_acknowledged = False,
                rs_ended = False, rs_timer = Some (h_clock h + timeoutMs capability)\<rparr>;
              message = CapabilityRequestMessage requestId capability (Some streamId) issuedAt
                (issuedAt + int (timeoutMs capability)) payload
          in (Inr streamId, write_socket (cn_socket connection) message
                (h\<lparr>h_streams := AList.update requestId stream (h_streams h),
                   h_opened := h_opened h @ [requestId]\<rparr>)))))"

definition stream_timer :: "string \<Rightarrow> hub \<Rightarrow> hub" where
  "stream_timer requestId h = (case map_of (h_streams h) requestId of
      None \<Rightarrow> h
    | Some stream \<Rightarrow>
        if rs_acknowledged stream then h
        else endStream requestId ''failed'' (Some (AgentError ''LOG_STREAM_UNAVAILABLE''
               ''The agent did not start the stream.'')) h)"

definition stream_not_sent :: "string \<Rightarrow> hub \<Rightarrow> hub" where
  "stream_not_sent requestId = endStream requestId ''failed''
     (Some (AgentError ''LOG_STREAM_UNAVAILABLE'' ''The stream could not be requested.''))"

definition streamFor :: "socket \<Rightarrow> string \<Rightarrow> string \<Rightarrow> hub \<Rightarrow> RunningStream option" where
  "streamFor socket requestId streamId h = (case map_of (h_streams h) requestId of
      None \<Rightarrow> None
    | Some stream \<Rightarrow>
        if rs_ended stream then None
        else if rs_streamId stream \<noteq> streamId \<or> rs_socket stream \<noteq> socket then None
        else Some stream)"

definition acceptStreamStart :: "socket \<Rightarrow> string \<Rightarrow> string \<Rightarrow> string \<Rightarrow> hub \<Rightarrow> bool \<times> hub" where
  "acceptStreamStart socket rid capability streamId h = (case streamFor socket rid streamId h of
      None \<Rightarrow> (False, h)
    | Some stream \<Rightarrow>
        if rs_capability stream \<noteq> capability then (False, h)
        else (True, tell (Started rid) (h\<lparr>h_streams := AList.update rid
               (stream\<lparr>rs_timer := None, rs_acknowledged := True\<rparr>) (h_streams h)\<rparr>)))"

definition acceptStreamChunk :: "socket \<Rightarrow> string \<Rightarrow> string \<Rightarrow> rat \<Rightarrow> json option \<Rightarrow> rat \<Rightarrow> hub
    \<Rightarrow> bool \<times> hub" where
  "acceptStreamChunk socket rid streamId seq payload dropped h =
    (case streamFor socket rid streamId h of
      None \<Rightarrow> (False, h)
    | Some stream \<Rightarrow>
        if seq \<noteq> of_nat (rs_next stream)
        then (False, endStream rid ''failed'' (Some (AgentError ''LOG_STREAM_UNAVAILABLE''
               ''The stream lost its place.'')) h)
        else (True, tell (Chunk rid seq payload dropped) (h\<lparr>h_streams :=
               AList.update rid (stream\<lparr>rs_next := rs_next stream + 1\<rparr>) (h_streams h)\<rparr>)))"

definition acceptStreamEnd :: "socket \<Rightarrow> string \<Rightarrow> string \<Rightarrow> string \<Rightarrow> agent_error option \<Rightarrow> hub
    \<Rightarrow> bool \<times> hub" where
  "acceptStreamEnd socket rid streamId reason error h = (case streamFor socket rid streamId h of
      None \<Rightarrow> (False, h)
    | Some stream \<Rightarrow> (True, endStream rid reason error h))"

definition cancelStream :: "string \<Rightarrow> hub \<Rightarrow> hub" where
  "cancelStream requestId h = (case map_of (h_streams h) requestId of
      None \<Rightarrow> h
    | Some stream \<Rightarrow>
        if rs_ended stream then h
        else endStream requestId ''cancelled'' None
          (if rs_socket stream \<in> set (h_destroyed h) then h
           else write_socket (rs_socket stream)
             (StreamCancelMessage (rs_requestId stream) (rs_streamId stream)) h))"

section \<open>When a connection or a credential is gone\<close>

definition connection_closed :: js_error where
  "connection_closed = AppErr (conflict ''AGENT_NOT_CONNECTED''
     ''The connection closed before an answer.'')"

definition abandon_request :: "socket \<Rightarrow> string \<times> PendingRequest \<Rightarrow> hub \<Rightarrow> hub" where
  "abandon_request socket entry h =
    (if pq_socket (snd entry) = socket then settleWithError (fst entry) connection_closed h else h)"

definition abandon_stream :: "socket \<Rightarrow> string \<times> RunningStream \<Rightarrow> hub \<Rightarrow> hub" where
  "abandon_stream socket entry h =
    (if rs_socket (snd entry) = socket
     then endStream (fst entry) ''failed'' (Some (AgentError ''AGENT_NOT_CONNECTED''
            ''The agent disconnected.'')) h
     else h)"

definition abandon :: "socket \<Rightarrow> hub \<Rightarrow> hub" where
  "abandon socket h =
    (let h1 = fold (abandon_request socket) (h_pending h) h
     in fold (abandon_stream socket) (h_streams h1) h1)"

definition end_stream_of :: "string \<Rightarrow> agent_error \<Rightarrow> string \<times> RunningStream \<Rightarrow> hub \<Rightarrow> hub" where
  "end_stream_of agentId error entry h =
    (if rs_agentId (snd entry) = agentId then endStream (fst entry) ''failed'' (Some error) h else h)"

definition endStreamsOf :: "string \<Rightarrow> string \<Rightarrow> string \<Rightarrow> hub \<Rightarrow> nat \<times> hub" where
  "endStreamsOf agentId code message h =
    (length (filter (\<lambda>entry. rs_agentId (snd entry) = agentId) (h_streams h)),
     fold (end_stream_of agentId (AgentError code message)) (h_streams h) h)"

section \<open>Time\<close>

datatype timer = RequestTimer string | StreamTimer string

definition timers :: "hub \<Rightarrow> (nat \<times> timer) list" where
  "timers h = map (\<lambda>(rid, p). (pq_timer p, RequestTimer rid)) (h_pending h)
     @ List.map_filter (\<lambda>(rid, s). map_option (\<lambda>t. (t, StreamTimer rid)) (rs_timer s)) (h_streams h)"

definition due :: "hub \<Rightarrow> timer list" where
  "due h = map snd (sort_key fst (filter (\<lambda>(t, _). t \<le> h_clock h) (timers h)))"

fun fire :: "timer \<Rightarrow> hub \<Rightarrow> hub" where
  "fire (RequestTimer rid) h = request_timer rid h"
| "fire (StreamTimer rid) h = stream_timer rid h"

definition elapse :: "nat \<Rightarrow> hub \<Rightarrow> hub" where
  "elapse ms h = (let h1 = h\<lparr>h_clock := h_clock h + ms\<rparr> in fold fire (due h1) h1)"

section \<open>Everything that can happen\<close>

definition fresh :: "string \<Rightarrow> hub \<Rightarrow> bool" where
  "fresh rid h = (rid \<notin> set (h_requests h) \<and> rid \<notin> set (h_opened h))"

inductive hub_step :: "hub \<Rightarrow> hub \<Rightarrow> bool" where
  requested: "fresh uuid h \<Longrightarrow> hub_step h (snd (request_agent uuid now agentId capability payload h))"
| unsent: "hub_step h (request_not_sent rid h)"
| replied: "hub_step h (snd (settle_reply socket rid capability status payload error h))"
| opened: "fresh uuid h \<Longrightarrow>
    hub_step h (snd (openStream uuid streamId now agentId capability payload h))"
| stream_unsent: "hub_step h (stream_not_sent rid h)"
| started: "hub_step h (snd (acceptStreamStart socket rid capability streamId h))"
| delivered: "hub_step h (snd (acceptStreamChunk socket rid streamId seq payload dropped h))"
| finished: "hub_step h (snd (acceptStreamEnd socket rid streamId reason error h))"
| cancelled: "hub_step h (cancelStream rid h)"
| abandoned: "hub_step h (abandon socket h)"
| revoked: "hub_step h (snd (endStreamsOf agentId code message h))"
| registered: "hub_step h (register now remoteAddress agentId socket h)"
| released: "hub_step h (snd (release_connection agentId socket h))"
| disconnected: "hub_step h (snd (disconnect agentId h))"
| shut_down: "hub_step h (closeAll h)"
| destroyed: "hub_step h (destroy socket h)"
| wrote: "hub_step h (write_socket socket message h)"
| passed: "hub_step h (elapse ms h)"

definition empty_hub :: hub where
  "empty_hub = \<lparr>h_connections = [], h_pending = [], h_streams = [], h_clock = 0, h_destroyed = [],
     h_written = [], h_told = [], h_requests = [], h_opened = []\<rparr>"

section \<open>What is to be kept\<close>

definition told_answer :: "told \<Rightarrow> string option" where
  "told_answer e = (case e of Resolved rid _ \<Rightarrow> Some rid | Rejected rid _ \<Rightarrow> Some rid | _ \<Rightarrow> None)"

definition told_stream :: "told \<Rightarrow> string option" where
  "told_stream e = (case e of Started rid \<Rightarrow> Some rid | Chunk rid _ _ _ \<Rightarrow> Some rid
     | Ended rid _ _ \<Rightarrow> Some rid | _ \<Rightarrow> None)"

definition told_end :: "told \<Rightarrow> bool" where
  "told_end e = (case e of Ended _ _ _ \<Rightarrow> True | _ \<Rightarrow> False)"

definition told_seq :: "told \<Rightarrow> rat option" where
  "told_seq e = (case e of Chunk _ n _ _ \<Rightarrow> Some n | _ \<Rightarrow> None)"

text \<open>What the promise of a request, and the observer of a stream, were told, in order.\<close>

definition answers_of :: "string \<Rightarrow> hub \<Rightarrow> told list" where
  "answers_of rid h = filter (\<lambda>e. told_answer e = Some rid) (h_told h)"

definition stream_of :: "string \<Rightarrow> hub \<Rightarrow> told list" where
  "stream_of rid h = filter (\<lambda>e. told_stream e = Some rid) (h_told h)"

definition is_pending :: "string \<Rightarrow> hub \<Rightarrow> bool" where
  "is_pending rid h = (map_of (h_pending h) rid \<noteq> None)"

text \<open>Every request is waiting and unanswered, or gone and answered exactly once.\<close>

definition answered_once :: "hub \<Rightarrow> bool" where
  "answered_once h \<longleftrightarrow>
     (\<forall>rid. length (answers_of rid h) =
        (if rid \<in> set (h_requests h) \<and> \<not> is_pending rid h then 1 else 0)) \<and>
     (\<forall>rid. is_pending rid h \<longrightarrow> rid \<in> set (h_requests h))"

text \<open>
  A running stream was told the numbers from zero to its next one and no end; one that is over
  was told the numbers from zero to some number, and its end last and once.
\<close>

definition numbers :: "nat \<Rightarrow> rat list" where
  "numbers n = map of_nat [0..<n]"

definition stream_running :: "RunningStream \<Rightarrow> told list \<Rightarrow> bool" where
  "stream_running s view \<longleftrightarrow> \<not> rs_ended s \<and> filter told_end view = [] \<and>
     List.map_filter told_seq view = numbers (rs_next s)"

definition stream_over :: "told list \<Rightarrow> bool" where
  "stream_over view \<longleftrightarrow> (\<exists>n. List.map_filter told_seq view = numbers n) \<and>
     view \<noteq> [] \<and> told_end (last view) \<and> filter told_end (butlast view) = []"

definition in_order :: "hub \<Rightarrow> bool" where
  "in_order h \<longleftrightarrow> (\<forall>rid. case map_of (h_streams h) rid of
      Some s \<Rightarrow> rid \<in> set (h_opened h) \<and> stream_running s (stream_of rid h)
    | None \<Rightarrow> if rid \<in> set (h_opened h) then stream_over (stream_of rid h)
        else stream_of rid h = [])"

text \<open>No timer is overdue, and none is further away than the longest time a capability has.\<close>

definition MAX_TIMEOUT_MS :: nat where "MAX_TIMEOUT_MS = 900000"

definition in_time :: "hub \<Rightarrow> bool" where
  "in_time h \<longleftrightarrow> distinct (map fst (h_streams h)) \<and>
     (\<forall>(rid, p) \<in> set (h_pending h). pq_timer p \<in> {h_clock h <.. h_clock h + MAX_TIMEOUT_MS}) \<and>
     (\<forall>(rid, s) \<in> set (h_streams h). \<not> rs_ended s \<and>
        (if rs_acknowledged s then rs_timer s = None
         else \<exists>t \<in> {h_clock h <.. h_clock h + MAX_TIMEOUT_MS}. rs_timer s = Some t))"

text \<open>The requests and streams named were issued before and are due at a time at the latest.\<close>

definition due_by :: "string set \<Rightarrow> string set \<Rightarrow> nat \<Rightarrow> hub \<Rightarrow> bool" where
  "due_by rs ss t h \<longleftrightarrow> rs \<subseteq> set (h_requests h) \<and> ss \<subseteq> set (h_opened h) \<and>
     (\<forall>x \<in> set (h_pending h). fst x \<in> rs \<longrightarrow> pq_timer (snd x) \<le> t) \<and>
     (\<forall>x \<in> set (h_streams h). fst x \<in> ss \<longrightarrow> \<not> rs_acknowledged (snd x) \<longrightarrow>
        (\<exists>u. rs_timer (snd x) = Some u \<and> u \<le> t))"

text \<open>A request was written to a socket.\<close>

definition asked_of :: "hub \<Rightarrow> socket \<Rightarrow> string \<Rightarrow> string \<Rightarrow> string option \<Rightarrow> bool" where
  "asked_of h socket rid capability streamId \<longleftrightarrow> (\<exists>issued expires payload.
     (socket, CapabilityRequestMessage rid capability streamId issued expires payload) \<in> set (h_written h))"

section \<open>Invariants of the two services\<close>

text \<open>
  Every operation is made of seven moves. A property that each move keeps is kept by every
  step; one that does not look at the clock is kept when time passes as well.
\<close>

locale hub_moves =
  fixes I :: "hub \<Rightarrow> bool"
  assumes aside: "I h \<Longrightarrow> set (h_written h) \<subseteq> set w \<Longrightarrow>
      I (h\<lparr>h_connections := c, h_destroyed := d, h_written := w\<rparr>)"
    and ask: "I h \<Longrightarrow> fresh rid h \<Longrightarrow> pq_timer p = h_clock h + timeoutMs (pq_capability p) \<Longrightarrow>
      isCapability (pq_capability p) \<Longrightarrow>
      asked_of h (pq_socket p) rid (pq_capability p) None \<Longrightarrow>
      I (h\<lparr>h_pending := AList.update rid p (h_pending h), h_requests := h_requests h @ [rid]\<rparr>)"
    and answer: "I h \<Longrightarrow> map_of (h_pending h) rid = Some p \<Longrightarrow> told_answer e = Some rid \<Longrightarrow>
      I (tell e (h\<lparr>h_pending := AList.delete rid (h_pending h)\<rparr>))"
    and open_stream: "I h \<Longrightarrow> fresh rid h \<Longrightarrow> isStreaming (rs_capability s) \<Longrightarrow>
      rs_timer s = Some (h_clock h + timeoutMs (rs_capability s)) \<Longrightarrow>
      rs_next s = 0 \<Longrightarrow> \<not> rs_acknowledged s \<Longrightarrow> \<not> rs_ended s \<Longrightarrow>
      asked_of h (rs_socket s) rid (rs_capability s) (Some (rs_streamId s)) \<Longrightarrow>
      I (h\<lparr>h_streams := AList.update rid s (h_streams h), h_opened := h_opened h @ [rid]\<rparr>)"
    and acknowledge: "I h \<Longrightarrow> map_of (h_streams h) rid = Some s \<Longrightarrow>
      I (tell (Started rid) (h\<lparr>h_streams := AList.update rid
        (s\<lparr>rs_timer := None, rs_acknowledged := True\<rparr>) (h_streams h)\<rparr>))"
    and deliver: "I h \<Longrightarrow> map_of (h_streams h) rid = Some s \<Longrightarrow>
      I (tell (Chunk rid (of_nat (rs_next s)) payload dropped) (h\<lparr>h_streams := AList.update rid
        (s\<lparr>rs_next := rs_next s + 1\<rparr>) (h_streams h)\<rparr>))"
    and finish: "I h \<Longrightarrow> map_of (h_streams h) rid = Some s \<Longrightarrow>
      I (tell (Ended rid reason error) (h\<lparr>h_streams := AList.delete rid (h_streams h)\<rparr>))"
begin

lemma write_last:
  "(write_socket s m h)\<lparr>h_pending := p, h_requests := r\<rparr> = write_socket s m (h\<lparr>h_pending := p, h_requests := r\<rparr>)"
  "(write_socket s m h)\<lparr>h_streams := t, h_opened := r\<rparr> = write_socket s m (h\<lparr>h_streams := t, h_opened := r\<rparr>)"
  "h_pending (write_socket s m h) = h_pending h" "h_requests (write_socket s m h) = h_requests h"
  "h_streams (write_socket s m h) = h_streams h" "h_opened (write_socket s m h) = h_opened h"
  "h_clock (write_socket s m h) = h_clock h"
  by (cases h, simp add: write_socket_def)+

lemma asked_of_written: "asked_of (write_socket s (CapabilityRequestMessage rid c sid i x payload) h) s rid c sid"
  by (auto simp: asked_of_def write_socket_def)

lemma aside_simps:
  assumes "I h"
  shows "I (write_socket s m h)" "I (destroy s h)" "I (h\<lparr>h_connections := c\<rparr>)"
proof -
  show "I (write_socket s m h)"
    using aside [OF assms, where c = "h_connections h" and d = "h_destroyed h" and w = "h_written h @ [(s, m)]"]
    by (simp add: write_socket_def subset_insertI)
  show "I (destroy s h)"
    using aside [OF assms, where c = "h_connections h" and d = "s # h_destroyed h" and w = "h_written h"]
    by (simp add: destroy_def)
  show "I (h\<lparr>h_connections := c\<rparr>)"
    using aside [OF assms, where c = c and d = "h_destroyed h" and w = "h_written h"] by simp
qed

lemma settleWithError_keeps: "I h \<Longrightarrow> I (settleWithError rid e h)"
  by (simp add: settleWithError_def answer told_answer_def split: option.split)

lemma request_timer_keeps: "I h \<Longrightarrow> I (request_timer rid h)"
  by (simp add: request_timer_def answer told_answer_def split: option.split)

lemma endStream_keeps: "I h \<Longrightarrow> I (endStream rid reason e h)"
  by (simp add: endStream_def finish split: option.split)

lemma stream_timer_keeps: "I h \<Longrightarrow> I (stream_timer rid h)"
  by (simp add: stream_timer_def endStream_keeps split: option.split)

lemma request_agent_keeps:
  assumes "I h" "fresh uuid h"
  shows "I (snd (request_agent uuid now agentId capability payload h))"
proof (cases "map_of (h_connections h) agentId")
  case (Some c)
  let ?m = "CapabilityRequestMessage uuid capability None now (now + int (timeoutMs capability)) payload"
  let ?h = "write_socket (cn_socket c) ?m h"
  let ?p = "\<lparr>pq_agentId = agentId, pq_capability = capability, pq_socket = cn_socket c,
    pq_timer = h_clock h + timeoutMs capability\<rparr>"
  have "I (?h\<lparr>h_pending := AList.update uuid ?p (h_pending ?h), h_requests := h_requests ?h @ [uuid]\<rparr>)"
    if "isCapability capability"
    using assms that by (intro ask aside_simps) (simp_all add: write_last asked_of_written fresh_def)
  with Some assms(1) show ?thesis by (simp add: request_agent_def write_last Let_def)
qed (use assms(1) in \<open>simp add: request_agent_def\<close>)

lemma settle_reply_keeps: "I h \<Longrightarrow> I (snd (settle_reply socket rid capability status payload e h))"
  by (simp add: settle_reply_def Let_def settleWithError_keeps answer told_answer_def split: option.split)

lemma openStream_keeps:
  assumes "I h" "fresh uuid h"
  shows "I (snd (openStream uuid streamId now agentId capability payload h))"
proof (cases "map_of (h_connections h) agentId")
  case (Some c)
  let ?m = "CapabilityRequestMessage uuid capability (Some streamId) now
    (now + int (timeoutMs capability)) payload"
  let ?h = "write_socket (cn_socket c) ?m h"
  let ?s = "\<lparr>rs_agentId = agentId, rs_capability = capability, rs_requestId = uuid,
    rs_streamId = streamId, rs_socket = cn_socket c, rs_next = 0, rs_acknowledged = False,
    rs_ended = False, rs_timer = Some (h_clock h + timeoutMs capability)\<rparr>"
  have "I (?h\<lparr>h_streams := AList.update uuid ?s (h_streams ?h), h_opened := h_opened ?h @ [uuid]\<rparr>)"
    if "isStreaming capability"
    using assms that by (intro open_stream aside_simps) (simp_all add: write_last asked_of_written fresh_def)
  with Some assms(1) show ?thesis by (simp add: openStream_def write_last Let_def)
qed (use assms(1) in \<open>simp add: openStream_def\<close>)

lemma streamFor_SomeD: "streamFor socket rid streamId h = Some s \<Longrightarrow> map_of (h_streams h) rid = Some s"
  by (simp add: streamFor_def split: option.splits if_splits)

lemma accept_keeps:
  assumes "I h"
  shows "I (snd (acceptStreamStart socket rid capability streamId h))"
    "I (snd (acceptStreamChunk socket rid streamId seq payload dropped h))"
    "I (snd (acceptStreamEnd socket rid streamId reason e h))"
  using assms acknowledge [OF assms] deliver [OF assms]
  by (auto simp: acceptStreamStart_def acceptStreamChunk_def acceptStreamEnd_def endStream_keeps
      dest: streamFor_SomeD split: option.split)

lemma cancelStream_keeps: "I h \<Longrightarrow> I (cancelStream rid h)"
  by (simp add: cancelStream_def endStream_keeps aside_simps split: option.split)

lemma fold_keeps: "(\<And>x h. I h \<Longrightarrow> I (f x h)) \<Longrightarrow> I h \<Longrightarrow> I (fold f xs h)"
  by (induction xs arbitrary: h) simp_all

lemma abandon_keeps: "I h \<Longrightarrow> I (abandon socket h)"
  by (simp add: abandon_def Let_def fold_keeps abandon_request_def abandon_stream_def
      settleWithError_keeps endStream_keeps)

lemma endStreamsOf_keeps: "I h \<Longrightarrow> I (snd (endStreamsOf agentId code message h))"
  by (simp add: endStreamsOf_def fold_keeps end_stream_of_def endStream_keeps)

lemma connections_keep:
  assumes "I h"
  shows "I (register now remoteAddress agentId socket h)" "I (snd (release_connection agentId socket h))"
    "I (snd (disconnect agentId h))" "I (closeAll h)"
proof -
  show "I (register now remoteAddress agentId socket h)"
    using assms by (simp add: register_def Let_def aside_simps split: option.split)
  show "I (snd (release_connection agentId socket h))" "I (snd (disconnect agentId h))"
    using assms by (simp_all add: release_connection_def disconnect_def aside_simps split: option.split)
  have "I (fold (\<lambda>(_, c). destroy (cn_socket c)) (h_connections h) h)"
    using assms by (rule fold_keeps [rotated]) (auto simp: aside_simps)
  then show "I (closeAll h)" by (simp add: closeAll_def aside_simps)
qed

end

locale hub_invariant = hub_moves +
  assumes pass: "I h \<Longrightarrow> I (elapse ms h)"
begin

lemma step: "hub_step h h' \<Longrightarrow> I h \<Longrightarrow> I h'"
  by (induction rule: hub_step.induct)
    (simp_all add: request_agent_keeps request_not_sent_def settleWithError_keeps settle_reply_keeps
      openStream_keeps stream_not_sent_def endStream_keeps accept_keeps cancelStream_keeps
      abandon_keeps endStreamsOf_keeps connections_keep aside_simps pass)

lemma steps: "hub_step\<^sup>*\<^sup>* h h' \<Longrightarrow> I h \<Longrightarrow> I h'"
  by (induction rule: rtranclp_induct) (auto intro: step)

end

locale timeless_invariant = hub_moves +
  assumes tick: "I h \<Longrightarrow> I (h\<lparr>h_clock := c\<rparr>)"
begin

lemma elapse_keeps: "I h \<Longrightarrow> I (elapse ms h)"
proof -
  assume "I h"
  moreover have "I h \<Longrightarrow> I (fire t h)" for t h
    by (cases t) (simp_all add: request_timer_keeps stream_timer_keeps)
  ultimately show ?thesis by (simp add: elapse_def Let_def tick fold_keeps)
qed

end

sublocale timeless_invariant \<subseteq> hub_invariant
  by unfold_locales (rule elapse_keeps)

section \<open>Requests are answered once\<close>

lemma tell_simps [simp]:
  "h_pending (tell e h) = h_pending h" "h_streams (tell e h) = h_streams h"
  "h_clock (tell e h) = h_clock h" "h_requests (tell e h) = h_requests h"
  "h_opened (tell e h) = h_opened h" "h_told (tell e h) = h_told h @ [e]"
  by (simp_all add: tell_def)

lemma answers_of_tell:
  "answers_of rid (tell e h) = answers_of rid h @ (if told_answer e = Some rid then [e] else [])"
  by (simp add: answers_of_def)

lemma stream_of_tell:
  "stream_of rid (tell e h) = stream_of rid h @ (if told_stream e = Some rid then [e] else [])"
  by (simp add: stream_of_def)

lemma views_aside [simp]:
  "answers_of rid (h\<lparr>h_pending := p\<rparr>) = answers_of rid h"
  "answers_of rid (h\<lparr>h_pending := p, h_requests := r\<rparr>) = answers_of rid h"
  "answers_of rid (h\<lparr>h_streams := t\<rparr>) = answers_of rid h"
  "answers_of rid (h\<lparr>h_streams := t, h_opened := r\<rparr>) = answers_of rid h"
  "answers_of rid (h\<lparr>h_clock := n\<rparr>) = answers_of rid h"
  "answers_of rid (h\<lparr>h_connections := c, h_destroyed := d, h_written := w\<rparr>) = answers_of rid h"
  "stream_of rid (h\<lparr>h_pending := p\<rparr>) = stream_of rid h"
  "stream_of rid (h\<lparr>h_pending := p, h_requests := r\<rparr>) = stream_of rid h"
  "stream_of rid (h\<lparr>h_streams := t\<rparr>) = stream_of rid h"
  "stream_of rid (h\<lparr>h_streams := t, h_opened := r\<rparr>) = stream_of rid h"
  "stream_of rid (h\<lparr>h_clock := n\<rparr>) = stream_of rid h"
  "stream_of rid (h\<lparr>h_connections := c, h_destroyed := d, h_written := w\<rparr>) = stream_of rid h"
  by (simp_all add: answers_of_def stream_of_def)

lemma map_filter_append: "List.map_filter f (xs @ ys) = List.map_filter f xs @ List.map_filter f ys"
  by (simp add: List.map_filter_def)

lemma told_simps [simp]:
  "told_answer (Started rid) = None" "told_answer (Chunk rid n payload dropped) = None"
  "told_answer (Ended rid reason error) = None"
  "told_stream (Started rid) = Some rid" "told_stream (Chunk rid n payload dropped) = Some rid"
  "told_stream (Ended rid reason error) = Some rid"
  "told_end (Started rid) \<longleftrightarrow> False" "told_end (Chunk rid n payload dropped) \<longleftrightarrow> False"
  "told_end (Ended rid reason error)"
  "told_seq (Started rid) = None" "told_seq (Chunk rid n payload dropped) = Some n"
  "told_seq (Ended rid reason error) = None"
  by (simp_all add: told_answer_def told_stream_def told_end_def told_seq_def)

lemma told_answer_stream: "told_answer e = Some rid \<Longrightarrow> told_stream e = None"
  by (cases e) (simp_all add: told_answer_def told_stream_def)

lemma answered_once_same:
  assumes "answered_once h" "h_pending h' = h_pending h" "h_requests h' = h_requests h"
    and "\<And>rid. answers_of rid h' = answers_of rid h"
  shows "answered_once h'"
  using assms by (simp add: answered_once_def is_pending_def)

lemma answered_once_ask:
  assumes "answered_once h" "fresh rid h"
  shows "answered_once (h\<lparr>h_pending := AList.update rid p (h_pending h), h_requests := h_requests h @ [rid]\<rparr>)"
  using assms by (auto simp: answered_once_def is_pending_def fresh_def AList.update_conv')

lemma answered_once_answer:
  assumes "answered_once h" "map_of (h_pending h) rid = Some p" "told_answer e = Some rid"
  shows "answered_once (tell e (h\<lparr>h_pending := AList.delete rid (h_pending h)\<rparr>))"
  using assms by (auto simp: answered_once_def is_pending_def answers_of_tell AList.delete_conv')

interpretation answering: timeless_invariant answered_once
proof
qed (auto intro: answered_once_ask answered_once_answer elim: answered_once_same
    simp: answers_of_tell)

section \<open>Streams are delivered in order\<close>

lemma numbers_simps [simp]: "numbers 0 = []" "numbers (Suc n) = numbers n @ [of_nat n]"
  by (simp_all add: numbers_def)

lemma in_orderD:
  assumes "in_order h"
  shows "map_of (h_streams h) rid = Some s \<Longrightarrow>
      rid \<in> set (h_opened h) \<and> stream_running s (stream_of rid h)"
    and "map_of (h_streams h) rid = None \<Longrightarrow> rid \<in> set (h_opened h) \<Longrightarrow> stream_over (stream_of rid h)"
    and "rid \<notin> set (h_opened h) \<Longrightarrow> stream_of rid h = []"
  using assms [unfolded in_order_def, rule_format, of rid] by (auto split: option.splits)

lemma in_order_same:
  assumes "in_order h" "h_streams h' = h_streams h" "h_opened h' = h_opened h"
    and "\<And>rid. stream_of rid h' = stream_of rid h"
  shows "in_order h'"
  using in_orderD [OF assms(1)] assms(2-) by (auto simp: in_order_def split: option.split)

lemma in_order_open:
  assumes "in_order h" "fresh rid h" "rs_next s = 0" "\<not> rs_ended s"
  shows "in_order (h\<lparr>h_streams := AList.update rid s (h_streams h), h_opened := h_opened h @ [rid]\<rparr>)"
  using assms in_orderD [OF assms(1)]
  by (auto simp: in_order_def AList.update_conv' fresh_def stream_running_def map_filter_simps
      split: option.split)

lemma in_order_note:
  assumes "in_order h" "map_of (h_streams h) rid = Some s" "told_stream e = Some rid" "\<not> told_end e"
    and "rs_ended s' \<longleftrightarrow> rs_ended s"
    and "numbers (rs_next s') = numbers (rs_next s) @ (case told_seq e of Some n \<Rightarrow> [n] | None \<Rightarrow> [])"
  shows "in_order (tell e (h\<lparr>h_streams := AList.update rid s' (h_streams h)\<rparr>))"
proof -
  have "List.map_filter told_seq [e] = (case told_seq e of Some n \<Rightarrow> [n] | None \<Rightarrow> [])"
    by (simp add: map_filter_simps split: option.split)
  with assms in_orderD [OF assms(1)] show ?thesis
    by (auto simp: in_order_def AList.update_conv' stream_of_tell stream_running_def map_filter_append
        split: option.split)
qed

lemma in_order_finish:
  assumes "in_order h" "map_of (h_streams h) rid = Some s"
  shows "in_order (tell (Ended rid reason error) (h\<lparr>h_streams := AList.delete rid (h_streams h)\<rparr>))"
proof -
  have "stream_over (stream_of rid h @ [Ended rid reason error])"
    using in_orderD(1) [OF assms]
    by (auto simp: stream_running_def stream_over_def map_filter_append map_filter_simps)
  with assms in_orderD [OF assms(1)] show ?thesis
    by (auto simp: in_order_def AList.delete_conv' stream_of_tell split: option.split)
qed

interpretation ordering: timeless_invariant in_order
proof
qed (auto intro: in_order_open in_order_note in_order_finish elim: in_order_same
    simp: stream_of_tell told_answer_stream)

section \<open>Nothing waits past its time\<close>

lemma in_update: "x \<in> set (AList.update k v al) \<Longrightarrow> x = (k, v) \<or> x \<in> set al"
  by (induction al) (auto split: if_splits)

lemma in_delete: "x \<in> set (AList.delete k al) \<longleftrightarrow> x \<in> set al \<and> fst x \<noteq> k"
  by (auto simp: AList.delete_eq)

lemma timeout_bounds: "isCapability c \<Longrightarrow> 0 < timeoutMs c \<and> timeoutMs c \<le> MAX_TIMEOUT_MS"
  by (auto simp: isCapability_def CAPABILITIES_def timeoutMs_def CAPABILITY_TIMEOUT_MS_def MAX_TIMEOUT_MS_def)

lemma streaming_capability: "isStreaming c \<Longrightarrow> isCapability c"
  by (auto simp: isCapability_def CAPABILITIES_def isStreaming_def STREAMING_CAPABILITIES_def)

lemma request_timer_pending: "h_pending (request_timer rid h) = AList.delete rid (h_pending h)"
  by (simp add: request_timer_def AList.delete_id map_of_eq_None_iff split: option.split)

lemma stream_timer_pending: "h_pending (stream_timer rid h) = h_pending h"
  by (simp add: stream_timer_def endStream_def split: option.split)

lemma fire_clock: "h_clock (fire t h) = h_clock h"
  by (cases t) (simp_all add: request_timer_def stream_timer_def endStream_def split: option.split)

lemma fold_fire_clock: "h_clock (fold fire ts h) = h_clock h"
  by (induction ts arbitrary: h) (simp_all add: fire_clock)

lemma fold_fire_pending:
  "(rid, p) \<in> set (h_pending (fold fire ts h)) \<Longrightarrow>
     (rid, p) \<in> set (h_pending h) \<and> RequestTimer rid \<notin> set ts"
proof (induction ts arbitrary: h)
  case (Cons t ts)
  from Cons.IH [of "fire t h"] Cons.prems show ?case
    by (cases t) (auto simp: request_timer_pending stream_timer_pending in_delete)
qed simp

lemma timer_streams:
  "h_streams (request_timer rid h) = h_streams h"
  "h_streams (stream_timer rid h) = (case map_of (h_streams h) rid of
      Some s \<Rightarrow> if rs_acknowledged s \<or> rs_ended s then h_streams h else AList.delete rid (h_streams h)
    | None \<Rightarrow> h_streams h)"
  by (simp_all add: request_timer_def stream_timer_def endStream_def split: option.split)

lemma fire_distinct:
  "distinct (map fst (h_streams h)) \<Longrightarrow> distinct (map fst (h_streams (fire t h)))"
  by (cases t) (simp_all add: timer_streams AList.distinct_delete split: option.split)

lemma fold_fire_distinct:
  "distinct (map fst (h_streams h)) \<Longrightarrow> distinct (map fst (h_streams (fold fire ts h)))"
  by (induction ts arbitrary: h) (simp_all add: fire_distinct)

lemma fold_fire_streams:
  assumes "distinct (map fst (h_streams h))" "(rid, s) \<in> set (h_streams (fold fire ts h))"
  shows "(rid, s) \<in> set (h_streams h) \<and> (StreamTimer rid \<in> set ts \<longrightarrow> rs_acknowledged s \<or> rs_ended s)"
  using assms
proof (induction ts arbitrary: h)
  case (Cons t ts)
  then have later: "(rid, s) \<in> set (h_streams (fire t h))"
      "StreamTimer rid \<in> set ts \<Longrightarrow> rs_acknowledged s \<or> rs_ended s"
    using fire_distinct by auto
  show ?case
  proof (cases t)
    case (StreamTimer r)
    then have "(rid, s) \<in> set (h_streams h)"
      using later(1) by (auto simp: timer_streams in_delete split: option.splits if_splits)
    moreover have "rs_acknowledged s \<or> rs_ended s" if "r = rid"
    proof -
      have "map_of (h_streams h) rid = Some s" using Cons.prems(1) calculation by simp
      with later(1) StreamTimer that show ?thesis
        by (auto simp: timer_streams in_delete split: if_splits)
    qed
    ultimately show ?thesis using later(2) StreamTimer by auto
  qed (use later in \<open>auto simp: timer_streams\<close>)
qed simp

lemma dueI: "(t, timer) \<in> set (timers h) \<Longrightarrow> t \<le> h_clock h \<Longrightarrow> timer \<in> set (due h)"
  by (force simp: due_def)

lemma timersI:
  "(rid, p) \<in> set (h_pending h) \<Longrightarrow> (pq_timer p, RequestTimer rid) \<in> set (timers h)"
  "(rid, s) \<in> set (h_streams h) \<Longrightarrow> rs_timer s = Some t \<Longrightarrow> (t, StreamTimer rid) \<in> set (timers h)"
proof -
  show "(pq_timer p, RequestTimer rid) \<in> set (timers h)" if "(rid, p) \<in> set (h_pending h)"
    using that by (force simp: timers_def)
  assume s: "(rid, s) \<in> set (h_streams h)" "rs_timer s = Some t"
  define f where "f = (\<lambda>(rid, s :: RunningStream). map_option (\<lambda>t. (t, StreamTimer rid)) (rs_timer s))"
  have "f (rid, s) = Some (t, StreamTimer rid)" using s(2) by (simp add: f_def)
  with s(1) have "(t, StreamTimer rid) \<in> set (List.map_filter f (h_streams h))"
    by (force simp: List.map_filter_def)
  then show "(t, StreamTimer rid) \<in> set (timers h)" by (simp add: timers_def f_def)
qed

lemmas due_request = dueI [OF timersI(1)]
lemmas due_stream = dueI [OF timersI(2)]

definition timely :: "nat \<Rightarrow> RunningStream \<Rightarrow> bool" where
  "timely now s \<longleftrightarrow> \<not> rs_ended s \<and>
     (if rs_acknowledged s then rs_timer s = None
      else \<exists>t \<in> {now <.. now + MAX_TIMEOUT_MS}. rs_timer s = Some t)"

lemma in_time_alt:
  "in_time h \<longleftrightarrow> distinct (map fst (h_streams h)) \<and>
     (\<forall>x \<in> set (h_pending h). pq_timer (snd x) \<in> {h_clock h <.. h_clock h + MAX_TIMEOUT_MS}) \<and>
     (\<forall>x \<in> set (h_streams h). timely (h_clock h) (snd x))"
  by (auto simp: in_time_def timely_def)

lemma timely_later:
  assumes "timely now s" "\<And>t. rs_timer s = Some t \<Longrightarrow> \<not> rs_acknowledged s \<Longrightarrow> later < t" "now \<le> later"
  shows "timely later s"
  using assms by (fastforce simp: timely_def)

lemma in_time_elapse:
  assumes "in_time h"
  shows "in_time (elapse ms h)"
proof -
  define h1 where "h1 = h\<lparr>h_clock := h_clock h + ms\<rparr>"
  have after: "elapse ms h = fold fire (due h1) h1" by (simp add: elapse_def h1_def Let_def)
  have distinct: "distinct (map fst (h_streams h1))" using assms by (simp add: h1_def in_time_alt)
  have "pq_timer p \<in> {h_clock h1 <.. h_clock h1 + MAX_TIMEOUT_MS}"
    if "(rid, p) \<in> set (h_pending (fold fire (due h1) h1))" for rid p
    using fold_fire_pending [OF that] due_request [of rid p h1] assms
    by (fastforce simp: in_time_alt h1_def)
  moreover have "timely (h_clock h1) s"
    if "(rid, s) \<in> set (h_streams (fold fire (due h1) h1))" for rid s
  proof -
    have "(rid, s) \<in> set (h_streams h1)"
      and left: "StreamTimer rid \<in> set (due h1) \<Longrightarrow> rs_acknowledged s \<or> rs_ended s"
      using fold_fire_streams [OF distinct that] by auto
    then have "timely (h_clock h) s" "\<not> rs_ended s" using assms
      by (auto simp: in_time_alt h1_def timely_def)
    moreover have "h_clock h1 < t" if "rs_timer s = Some t" "\<not> rs_acknowledged s" for t
      using left due_stream [OF \<open>(rid, s) \<in> set (h_streams h1)\<close> that(1)] that(2) \<open>\<not> rs_ended s\<close>
      by fastforce
    ultimately show ?thesis using timely_later [of "h_clock h" s "h_clock h1"] by (simp add: h1_def)
  qed
  ultimately show ?thesis
    using fold_fire_distinct [OF distinct] by (auto simp: in_time_alt after fold_fire_clock)
qed

lemma in_time_update:
  assumes "in_time h" "timely (h_clock h) s"
  shows "in_time (h\<lparr>h_streams := AList.update rid s (h_streams h), h_opened := r\<rparr>)"
    "in_time (tell e (h\<lparr>h_streams := AList.update rid s (h_streams h)\<rparr>))"
  using assms by (auto simp: in_time_alt AList.distinct_update dest!: in_update)

lemma timely_running: "in_time h \<Longrightarrow> map_of (h_streams h) rid = Some s \<Longrightarrow> timely (h_clock h) s"
  by (auto simp: in_time_alt dest!: map_of_SomeD)

interpretation timing: hub_invariant in_time
proof
  fix h :: hub and rid and s :: RunningStream and payload :: "json option" and dropped
  assume kept: "in_time h"
  show "in_time (elapse ms h)" for ms using kept by (rule in_time_elapse)
  {
    assume "map_of (h_streams h) rid = Some s"
    then have s: "timely (h_clock h) s" using kept by (simp add: timely_running)
    show "in_time (tell (Started rid) (h\<lparr>h_streams := AList.update rid
        (s\<lparr>rs_timer := None, rs_acknowledged := True\<rparr>) (h_streams h)\<rparr>))"
      using kept s by (intro in_time_update) (simp_all add: timely_def)
    show "in_time (tell (Chunk rid (of_nat (rs_next s)) payload dropped) (h\<lparr>h_streams := AList.update rid
        (s\<lparr>rs_next := rs_next s + 1\<rparr>) (h_streams h)\<rparr>))"
      using kept s by (intro in_time_update) (simp_all add: timely_def)
  }
  assume "isStreaming (rs_capability s)" "rs_timer s = Some (h_clock h + timeoutMs (rs_capability s))"
    "\<not> rs_acknowledged s" "\<not> rs_ended s"
  then have "timely (h_clock h) s" by (simp add: timely_def streaming_capability timeout_bounds)
  with kept show "in_time (h\<lparr>h_streams := AList.update rid s (h_streams h), h_opened := h_opened h @ [rid]\<rparr>)"
    by (rule in_time_update)
qed (auto simp: in_time_alt AList.distinct_delete timeout_bounds in_delete dest!: in_update)

section \<open>Requests issued by a given time\<close>

lemma due_by_update:
  assumes "due_by rs ss t h" "map_of (h_streams h) rid = Some s"
    and "rs_acknowledged s' \<or> \<not> rs_acknowledged s \<and> rs_timer s' = rs_timer s"
  shows "due_by rs ss t (tell e (h\<lparr>h_streams := AList.update rid s' (h_streams h)\<rparr>))"
  using assms map_of_SomeD [OF assms(2)] by (auto simp: due_by_def dest!: in_update)

interpretation lasting: timeless_invariant "due_by rs ss t" for rs ss t
proof
  fix h :: hub and rid and s :: RunningStream and payload :: "json option" and dropped
  assume "due_by rs ss t h" "map_of (h_streams h) rid = Some s"
  then show "due_by rs ss t (tell (Started rid) (h\<lparr>h_streams := AList.update rid
        (s\<lparr>rs_timer := None, rs_acknowledged := True\<rparr>) (h_streams h)\<rparr>))"
      "due_by rs ss t (tell (Chunk rid (of_nat (rs_next s)) payload dropped) (h\<lparr>h_streams := AList.update rid
        (s\<lparr>rs_next := rs_next s + 1\<rparr>) (h_streams h)\<rparr>))"
    by (auto intro: due_by_update)
qed (auto simp: due_by_def fresh_def in_delete dest!: in_update)

lemma due_by_now: "in_time h \<Longrightarrow> due_by (set (h_requests h)) (set (h_opened h)) (h_clock h + MAX_TIMEOUT_MS) h"
  by (force simp: in_time_alt due_by_def timely_def)

lemma answered_one:
  assumes "answered_once h" "rid \<in> set (h_requests h)" "\<not> is_pending rid h"
  shows "\<exists>answer. answers_of rid h = [answer]"
proof -
  have "length (answers_of rid h) = 1" using assms by (simp add: answered_once_def)
  then show ?thesis by (auto simp: length_Suc_conv)
qed

lemma old_requests_settled:
  assumes "due_by rs ss t h" "in_time h" "t \<le> h_clock h" "rid \<in> rs"
  shows "\<not> is_pending rid h"
proof
  assume "is_pending rid h"
  then obtain p where "(rid, p) \<in> set (h_pending h)" by (auto simp: is_pending_def dest: map_of_SomeD)
  then have "pq_timer p \<le> t" "h_clock h < pq_timer p"
    using assms by (auto simp: due_by_def in_time_alt)
  with assms(3) show False by simp
qed

lemma old_streams_settled:
  assumes "due_by rs ss t h" "in_time h" "t \<le> h_clock h" "rid \<in> ss" "map_of (h_streams h) rid = Some s"
  shows "rs_acknowledged s"
proof (rule ccontr)
  assume waiting: "\<not> rs_acknowledged s"
  have "(rid, s) \<in> set (h_streams h)" using assms(5) by (rule map_of_SomeD)
  then obtain u where "rs_timer s = Some u" "u \<le> t"
    using assms(1,4) waiting unfolding due_by_def by fastforce
  moreover have "timely (h_clock h) s" using assms(2,5) by (rule timely_running)
  ultimately show False using waiting assms(3) by (auto simp: timely_def)
qed

section \<open>Replies and deliveries come from where the request went\<close>

definition traceable :: "hub \<Rightarrow> bool" where
  "traceable h \<longleftrightarrow>
     (\<forall>x \<in> set (h_pending h). asked_of h (pq_socket (snd x)) (fst x) (pq_capability (snd x)) None) \<and>
     (\<forall>x \<in> set (h_streams h). asked_of h (rs_socket (snd x)) (fst x) (rs_capability (snd x))
        (Some (rs_streamId (snd x))))"

lemma asked_of_simps [simp]:
  "asked_of (tell e h) = asked_of h" "asked_of (h\<lparr>h_pending := p\<rparr>) = asked_of h"
  "asked_of (h\<lparr>h_pending := p, h_requests := r\<rparr>) = asked_of h"
  "asked_of (h\<lparr>h_streams := t\<rparr>) = asked_of h" "asked_of (h\<lparr>h_streams := t, h_opened := r\<rparr>) = asked_of h"
  "asked_of (h\<lparr>h_clock := n\<rparr>) = asked_of h"
  by (auto simp: asked_of_def tell_def fun_eq_iff)

lemma traceable_update:
  assumes "traceable h" "map_of (h_streams h) rid = Some s"
    and "rs_socket s' = rs_socket s" "rs_capability s' = rs_capability s" "rs_streamId s' = rs_streamId s"
  shows "traceable (tell e (h\<lparr>h_streams := AList.update rid s' (h_streams h)\<rparr>))"
  using assms map_of_SomeD [OF assms(2)] by (auto simp: traceable_def dest!: in_update)

interpretation tracing: timeless_invariant traceable
proof
  fix h :: hub and c d w
  assume "traceable h" "set (h_written h) \<subseteq> set w"
  then show "traceable (h\<lparr>h_connections := c, h_destroyed := d, h_written := w\<rparr>)"
    by (fastforce simp: traceable_def asked_of_def)
next
  fix h :: hub and rid and s :: RunningStream and payload :: "json option" and dropped
  assume "traceable h" "map_of (h_streams h) rid = Some s"
  then show "traceable (tell (Started rid) (h\<lparr>h_streams := AList.update rid
        (s\<lparr>rs_timer := None, rs_acknowledged := True\<rparr>) (h_streams h)\<rparr>))"
      "traceable (tell (Chunk rid (of_nat (rs_next s)) payload dropped) (h\<lparr>h_streams := AList.update rid
        (s\<lparr>rs_next := rs_next s + 1\<rparr>) (h_streams h)\<rparr>))"
    by (auto intro: traceable_update)
qed (auto simp: traceable_def in_delete dest!: in_update)

section \<open>What callers can rely on\<close>

definition hub_reachable :: "hub \<Rightarrow> bool" where
  "hub_reachable h = hub_step\<^sup>*\<^sup>* empty_hub h"

lemma reachable_kept:
  assumes "hub_reachable h"
  shows "answered_once h" "in_order h" "in_time h" "traceable h"
proof -
  have "answered_once empty_hub" "in_order empty_hub" "in_time empty_hub" "traceable empty_hub"
    by (simp_all add: traceable_def empty_hub_def answered_once_def is_pending_def answers_of_def in_order_def
        stream_of_def in_time_def)
  with assms show "answered_once h" "in_order h" "in_time h" "traceable h"
    unfolding hub_reachable_def
    by (auto intro: answering.steps ordering.steps timing.steps tracing.steps)
qed

section \<open>An example\<close>

text \<open>
  One agent connects; it is asked for its containers and for a log, of which it sends two
  deliveries.
\<close>

definition talk_connected :: hub where
  "talk_connected = register 0 None ''a1'' 7 empty_hub"

definition talk_asked :: hub where
  "talk_asked = snd (request_agent ''r1'' 0 ''a1'' ''container.list'' (JObject []) talk_connected)"

definition talk_opened :: hub where
  "talk_opened = snd (openStream ''r2'' ''s1'' 0 ''a1'' ''container.logs'' (JObject []) talk_asked)"

definition talk_flowing :: hub where
  "talk_flowing = snd (acceptStreamChunk 7 ''r2'' ''s1'' 1 None 0
     (snd (acceptStreamChunk 7 ''r2'' ''s1'' 0 None 0
       (snd (acceptStreamStart 7 ''r2'' ''container.logs'' ''s1'' talk_opened)))))"

lemmas talk_defs = talk_flowing_def talk_opened_def talk_asked_def talk_connected_def empty_hub_def
  register_def request_agent_def openStream_def acceptStreamStart_def acceptStreamChunk_def streamFor_def
  endStream_def write_socket_def tell_def isCapability_def CAPABILITIES_def isStreaming_def
  STREAMING_CAPABILITIES_def Let_def

lemma talk_reachable: "hub_reachable talk_opened" "hub_reachable talk_flowing"
proof -
  have "hub_step empty_hub talk_connected" unfolding talk_connected_def by (rule registered)
  moreover have "hub_step talk_connected talk_asked"
    unfolding talk_asked_def by (rule requested) (simp add: fresh_def talk_connected_def register_def empty_hub_def Let_def)
  moreover have "hub_step talk_asked talk_opened"
    unfolding talk_opened_def by (rule opened) (simp add: fresh_def talk_defs)
  ultimately show opened: "hub_reachable talk_opened"
    unfolding hub_reachable_def by (meson converse_rtranclp_into_rtranclp rtranclp.rtrancl_refl)
  have "hub_step\<^sup>*\<^sup>* talk_opened talk_flowing"
    unfolding talk_flowing_def
    by (meson converse_rtranclp_into_rtranclp delivered rtranclp.rtrancl_refl started)
  with opened show "hub_reachable talk_flowing" by (simp add: hub_reachable_def)
qed

lemma talk_facts:
  "h_requests talk_opened = [''r1'']" "h_opened talk_opened = [''r2'']" "h_clock talk_opened = 0"
  "h_opened talk_flowing = [''r2'']" "is_pending ''r1'' talk_opened"
  by (simp_all add: talk_defs is_pending_def)

text \<open>
  C19: whatever happens and in whatever order, a request that was sent is either waiting and
  unanswered or no longer waiting and answered exactly once.
\<close>

theorem requests_answered_once:
  assumes "hub_reachable h" "rid \<in> set (h_requests h)"
  shows "if is_pending rid h then answers_of rid h = [] else \<exists>answer. answers_of rid h = [answer]"
  using reachable_kept(1) [OF assms(1)] answered_one [OF reachable_kept(1) [OF assms(1)] assms(2)]
  by (auto simp: answered_once_def dest: spec [of _ rid])

theorem requests_answered_once_witness:
  "hub_reachable talk_opened \<and> ''r1'' \<in> set (h_requests talk_opened) \<and> answers_of ''r1'' talk_opened = []"
  using requests_answered_once [of talk_opened "''r1''"] by (simp add: talk_reachable talk_facts)

text \<open>
  C20: once the longest time a capability has is over, every request sent before has been
  answered and every stream opened before was accepted by its agent or is over, whatever else
  happened meanwhile.
\<close>

theorem answered_in_time:
  assumes "hub_reachable h" "hub_step\<^sup>*\<^sup>* h h'" "h_clock h + MAX_TIMEOUT_MS \<le> h_clock h'"
  shows "(\<forall>rid \<in> set (h_requests h). \<exists>answer. answers_of rid h' = [answer]) \<and>
    (\<forall>rid \<in> set (h_opened h). (\<exists>s. map_of (h_streams h') rid = Some s \<and> rs_acknowledged s) \<or>
       stream_over (stream_of rid h'))"
proof -
  have "hub_reachable h'" using assms(1,2) by (simp add: hub_reachable_def)
  note later = reachable_kept [OF this]
  have old: "due_by (set (h_requests h)) (set (h_opened h)) (h_clock h + MAX_TIMEOUT_MS) h'"
    using assms(2) due_by_now [OF reachable_kept(3) [OF assms(1)]] by (rule lasting.steps)
  have "\<exists>answer. answers_of rid h' = [answer]" if "rid \<in> set (h_requests h)" for rid
    using old that answered_one [OF later(1)] old_requests_settled [OF old later(3) assms(3) that]
    by (auto simp: due_by_def)
  moreover have "(\<exists>s. map_of (h_streams h') rid = Some s \<and> rs_acknowledged s) \<or>
      stream_over (stream_of rid h')" if "rid \<in> set (h_opened h)" for rid
    using old that in_orderD(2) [OF later(2)] old_streams_settled [OF old later(3) assms(3) that]
    by (cases "map_of (h_streams h') rid") (auto simp: due_by_def)
  ultimately show ?thesis by blast
qed

theorem answered_in_time_witness:
  "hub_reachable talk_opened \<and> hub_step\<^sup>*\<^sup>* talk_opened (elapse MAX_TIMEOUT_MS talk_opened) \<and>
   h_clock talk_opened + MAX_TIMEOUT_MS \<le> h_clock (elapse MAX_TIMEOUT_MS talk_opened) \<and>
   (\<exists>answer. answers_of ''r1'' (elapse MAX_TIMEOUT_MS talk_opened) = [answer])"
proof -
  have "hub_step\<^sup>*\<^sup>* talk_opened (elapse MAX_TIMEOUT_MS talk_opened)" by (blast intro: passed)
  moreover have "h_clock (elapse MAX_TIMEOUT_MS talk_opened) = h_clock talk_opened + MAX_TIMEOUT_MS"
    by (simp add: elapse_def Let_def fold_fire_clock)
  ultimately show ?thesis
    using answered_in_time [of talk_opened "elapse MAX_TIMEOUT_MS talk_opened"]
    by (simp add: talk_reachable talk_facts)
qed

text \<open>
  C21: what the observer of a stream is told is, in every reachable state, at most the deliveries
  numbered from zero without a gap or a repeat, and nothing after its end, which comes exactly
  once: while the stream runs there is none, and afterwards it is last.
\<close>

theorem streams_in_order:
  assumes "hub_reachable h" "rid \<in> set (h_opened h)"
  shows "(\<exists>n. List.map_filter told_seq (stream_of rid h) = numbers n) \<and>
    (if map_of (h_streams h) rid = None
     then \<exists>told reason error. stream_of rid h = told @ [Ended rid reason error] \<and> filter told_end told = []
     else filter told_end (stream_of rid h) = [])"
proof (cases "map_of (h_streams h) rid")
  case None
  then have over: "stream_over (stream_of rid h)"
    using in_orderD(2) [OF reachable_kept(2) [OF assms(1)]] assms(2) by blast
  then obtain told final where view: "stream_of rid h = told @ [final]"
    by (metis append_butlast_last_id stream_over_def)
  then have "final \<in> set (stream_of rid h)" by simp
  then have "told_stream final = Some rid" by (simp add: stream_of_def)
  moreover have "told_end final" "filter told_end told = []" using over view by (simp_all add: stream_over_def)
  ultimately obtain reason error where "final = Ended rid reason error"
    by (cases final) (simp_all add: told_end_def told_stream_def)
  with None over view \<open>filter told_end told = []\<close> show ?thesis by (simp add: stream_over_def)
next
  case (Some s)
  with in_orderD(1) [OF reachable_kept(2) [OF assms(1)]] show ?thesis by (auto simp: stream_running_def)
qed

theorem streams_in_order_witness:
  "hub_reachable talk_flowing \<and> ''r2'' \<in> set (h_opened talk_flowing) \<and>
   List.map_filter told_seq (stream_of ''r2'' talk_flowing) = [0, 1] \<and>
   (\<exists>n. List.map_filter told_seq (stream_of ''r2'' talk_flowing) = numbers n)"
proof -
  have "List.map_filter told_seq (stream_of ''r2'' talk_flowing) = [0, 1]"
    by (simp add: talk_defs stream_of_def map_filter_simps)
  then show ?thesis
    using streams_in_order [of talk_flowing "''r2''"] by (simp add: talk_reachable talk_facts)
qed

text \<open>
  C22: a reply, and a message of a stream, is accepted only from the connection on which the
  server sent the request it names, and only for the capability, and the stream, that request
  named; any other leaves the answer of every request and the view of every stream as it was,
  unless it is a reply from the right connection about another capability, which fails that
  request.
\<close>

theorem replies_traceable:
  assumes "hub_reachable h"
  shows "(fst (settle_reply socket rid capability status payload error h) \<longrightarrow>
       asked_of h socket rid capability None) \<and>
    (snd (settle_reply socket rid capability status payload error h) \<noteq> h \<longrightarrow>
       (\<exists>c. asked_of h socket rid c None)) \<and>
    (snd (acceptStreamStart socket rid capability streamId h) \<noteq> h \<longrightarrow>
       asked_of h socket rid capability (Some streamId)) \<and>
    (snd (acceptStreamChunk socket rid streamId seq payload dropped h) \<noteq> h \<longrightarrow>
       (\<exists>c. asked_of h socket rid c (Some streamId))) \<and>
    (snd (acceptStreamEnd socket rid streamId reason error h) \<noteq> h \<longrightarrow>
       (\<exists>c. asked_of h socket rid c (Some streamId)))"
proof -
  have kept: "traceable h" using assms by (rule reachable_kept)
  have request_agent: "asked_of h (pq_socket p) rid (pq_capability p) None"
    if "map_of (h_pending h) rid = Some p" for p
    using kept map_of_SomeD [OF that] by (auto simp: traceable_def)
  have "asked_of h (rs_socket s) rid (rs_capability s) (Some (rs_streamId s))"
    if "map_of (h_streams h) rid = Some s" for s
    using kept map_of_SomeD [OF that] by (auto simp: traceable_def)
  then have "streamFor socket rid streamId h = Some s \<Longrightarrow>
      asked_of h socket rid (rs_capability s) (Some streamId)" for s
    by (auto simp: streamFor_def split: option.splits if_splits)
  with request_agent show ?thesis
    by (auto simp: settle_reply_def acceptStreamStart_def acceptStreamChunk_def acceptStreamEnd_def split: option.splits if_splits)
qed

theorem replies_traceable_witness:
  "hub_reachable talk_opened \<and>
   fst (settle_reply 7 ''r1'' ''container.list'' ''success'' None None talk_opened) \<and>
   asked_of talk_opened 7 ''r1'' ''container.list'' None"
proof -
  have "fst (settle_reply 7 ''r1'' ''container.list'' ''success'' None None talk_opened)"
    by (simp add: talk_defs settle_reply_def)
  then show ?thesis
    using replies_traceable [OF talk_reachable(1), of 7 "''r1''" "''container.list''" "''success''" None None]
    by (simp add: talk_reachable)
qed

end
