(* ===== verification/Semver.thy ===== *)
theory Semver
  imports Prelude "HOL-Library.Char_ord" "HOL-Library.List_Lexorder" "HOL-Library.Product_Lexorder"
    "HOL-Library.Code_Target_Nat"
begin

text \<open>
  Version ordering, \<^verbatim>\<open>src/api/src/version/semver.ts\<close>, and the one decision that rests on it,
  \<^verbatim>\<open>src/api/src/stacks/stack-attribution.ts\<close>. Versions are read by the grammar of Semantic
  Versioning, their numbers with the precision of a JavaScript number, and compared by the
  loop of the source. The comparison is shown to be the order of an abstract key in a linear
  order, for every pair of versions whose numbers are finite.
\<close>

section \<open>JavaScript numbers\<close>

text \<open>
  \<^verbatim>\<open>Number(digits)\<close> is the double nearest to the decimal, ties to even: exact below
  \<open>2 ^ 53\<close>, 53 significant bits above, and infinite from \<open>2 ^ 1024\<close> after rounding.
\<close>

datatype number = Num nat | Infinity_number

fun bit_length :: "nat \<Rightarrow> nat" where
  "bit_length n = (if n = 0 then 0 else Suc (bit_length (n div 2)))"

declare bit_length.simps [simp del]

definition round_double :: "nat \<Rightarrow> number" where
  "round_double n = (if n < 2 ^ 53 then Num n else
     let e = bit_length n - 53; q = n div 2 ^ e; r = n mod 2 ^ e; half = 2 ^ (e - 1);
         m = (if half < r \<or> half = r \<and> odd q then q + 1 else q) * 2 ^ e in
     if m < 2 ^ 1024 then Num m else Infinity_number)"

definition Number :: "string \<Rightarrow> number" where
  "Number ds = round_double (nat_of_digits ds)"

text \<open>The sign of a difference of two such numbers; infinity minus itself is \<^verbatim>\<open>NaN\<close>.\<close>

datatype difference = Negative | Zero | Positive | NaN

fun minus_number :: "number \<Rightarrow> number \<Rightarrow> difference" where
  "minus_number (Num a) (Num b) = (if a < b then Negative else if a = b then Zero else Positive)"
| "minus_number (Num a) Infinity_number = Negative"
| "minus_number Infinity_number (Num b) = Positive"
| "minus_number Infinity_number Infinity_number = NaN"

text \<open>\<^verbatim>\<open>a || b\<close>: zero and \<^verbatim>\<open>NaN\<close> are falsy.\<close>

definition or_else :: "difference \<Rightarrow> difference \<Rightarrow> difference" where
  "or_else a b = (if a \<in> {Zero, NaN} then b else a)"

section \<open>Reading a version\<close>

record ParsedVersion =
  major :: number
  minor :: number
  patch :: number
  prerelease :: "string list"

definition is_space :: "char \<Rightarrow> bool" where
  "is_space c = (let n = (of_char c :: nat) in 9 \<le> n \<and> n \<le> 13 \<or> n = 32 \<or> n = 160)"

definition trim :: "string \<Rightarrow> string" where
  "trim s = rev (dropWhile is_space (rev (dropWhile is_space s)))"

definition is_alpha :: "char \<Rightarrow> bool" where
  "is_alpha c = (let n = (of_char c :: nat) in 65 \<le> n \<and> n \<le> 90 \<or> 97 \<le> n \<and> n \<le> 122)"

definition id_char :: "char \<Rightarrow> bool" where
  "id_char c = (is_digit c \<or> is_alpha c \<or> c = CHR ''-'')"

text \<open>\<^verbatim>\<open>NUMERIC\<close>: zero, or digits without a leading zero.\<close>

definition NUMERIC :: "string \<Rightarrow> bool" where
  "NUMERIC s = (s \<noteq> [] \<and> list_all is_digit s \<and> (hd s = CHR ''0'' \<longrightarrow> s = ''0''))"

text \<open>A prerelease identifier: numeric, or identifier characters with one that is no digit.\<close>

definition prerelease_id :: "string \<Rightarrow> bool" where
  "prerelease_id s = (NUMERIC s \<or> list_all id_char s \<and> list_ex (\<lambda>c. \<not> is_digit c) s)"

definition build_id :: "string \<Rightarrow> bool" where
  "build_id s = (s \<noteq> [] \<and> list_all id_char s)"

fun split_on :: "char \<Rightarrow> string \<Rightarrow> string list" where
  "split_on d [] = [[]]"
| "split_on d (c # cs) = (if c = d then [] # split_on d cs
     else (case split_on d cs of w # ws \<Rightarrow> (c # w) # ws | [] \<Rightarrow> [[c]]))"

text \<open>A number of the version core and what follows it.\<close>

definition core_number :: "string \<Rightarrow> (string \<times> string) option" where
  "core_number s = (let ds = takeWhile is_digit s in
     if NUMERIC ds then Some (ds, dropWhile is_digit s) else None)"

definition after_dot :: "string \<Rightarrow> string option" where
  "after_dot s = (case s of [] \<Rightarrow> None | c # r \<Rightarrow> if c = CHR ''.'' then Some r else None)"

text \<open>The prerelease and the build of what follows the core; the build takes no part.\<close>

definition version_tail :: "string \<Rightarrow> string list option" where
  "version_tail s =
    (let body = takeWhile (\<lambda>c. c \<noteq> CHR ''+'') s;
         build = drop (length body) s;
         build_ok = (build = [] \<or> list_all build_id (split_on CHR ''.'' (tl build))) in
     if \<not> build_ok then None
     else (case body of
         [] \<Rightarrow> Some []
       | c # r \<Rightarrow> if c = CHR ''-'' \<and> list_all prerelease_id (split_on CHR ''.'' r)
                  then Some (split_on CHR ''.'' r) else None))"

definition PATTERN :: "string \<Rightarrow> (string \<times> string \<times> string \<times> string list) option" where
  "PATTERN s =
    (let s0 = (case s of c # r \<Rightarrow> if c = CHR ''v'' then r else s | [] \<Rightarrow> s) in
     Option.bind (core_number s0) (\<lambda>(ma, s1). Option.bind (after_dot s1) (\<lambda>s2.
     Option.bind (core_number s2) (\<lambda>(mi, s3). Option.bind (after_dot s3) (\<lambda>s4.
     Option.bind (core_number s4) (\<lambda>(pa, s5). Option.bind (version_tail s5) (\<lambda>pre.
     Some (ma, mi, pa, pre))))))))"

definition parseVersion :: "string option \<Rightarrow> ParsedVersion option" where
  "parseVersion value = (case value of
      None \<Rightarrow> None
    | Some v \<Rightarrow> (case PATTERN (trim v) of
        None \<Rightarrow> None
      | Some (ma, mi, pa, pre) \<Rightarrow>
          Some \<lparr>major = Number ma, minor = Number mi, patch = Number pa, prerelease = pre\<rparr>))"

section \<open>Comparing\<close>

text \<open>The loop over two non-empty lists of identifiers.\<close>

fun prerelease_loop :: "string list \<Rightarrow> string list \<Rightarrow> int" where
  "prerelease_loop [] [] = 0"
| "prerelease_loop [] (r # rs) = -1"
| "prerelease_loop (l # ls) [] = 1"
| "prerelease_loop (l # ls) (r # rs) =
     (if NUMERIC l \<and> NUMERIC r then
        (let difference = minus_number (Number l) (Number r) in
         if difference \<noteq> Zero then (if difference = Negative then -1 else 1)
         else prerelease_loop ls rs)
      else if NUMERIC l \<noteq> NUMERIC r then (if NUMERIC l then -1 else 1)
      else if l \<noteq> r then (if l < r then -1 else 1)
      else prerelease_loop ls rs)"

definition comparePrerelease :: "string list \<Rightarrow> string list \<Rightarrow> int" where
  "comparePrerelease a b =
     (if length a = 0 \<or> length b = 0
      then (if length a = length b then 0 else if length a = 0 then 1 else -1)
      else prerelease_loop a b)"

definition compareParsed :: "ParsedVersion \<Rightarrow> ParsedVersion \<Rightarrow> int" where
  "compareParsed a b =
    (let positional = or_else (or_else (minus_number (major a) (major b)) (minus_number (minor a) (minor b)))
                        (minus_number (patch a) (patch b)) in
     if positional \<noteq> Zero then (if positional = Negative then -1 else 1)
     else let pre = comparePrerelease (prerelease a) (prerelease b) in
       if pre = 0 then 0 else if pre < 0 then -1 else 1)"

definition compareVersions :: "string option \<Rightarrow> string option \<Rightarrow> int option" where
  "compareVersions a b = (case (parseVersion a, parseVersion b) of
      (Some left, Some right) \<Rightarrow> Some (compareParsed left right)
    | _ \<Rightarrow> None)"

definition isNewer :: "string option \<Rightarrow> string option \<Rightarrow> bool option" where
  "isNewer candidate current = map_option (\<lambda>order. order > 0) (compareVersions candidate current)"

section \<open>Stack attribution\<close>

definition STACK_ATTRIBUTION_MINIMUM_AGENT_VERSION :: string where
  "STACK_ATTRIBUTION_MINIMUM_AGENT_VERSION = ''0.3.0-rc.2''"

definition supportsStackAttribution :: "string option \<Rightarrow> bool" where
  "supportsStackAttribution version =
     (case compareVersions version (Some STACK_ATTRIBUTION_MINIMUM_AGENT_VERSION) of
        None \<Rightarrow> False | Some order \<Rightarrow> order \<ge> 0)"

section \<open>The order behind the comparison\<close>

text \<open>
  The precedence of Semantic Versioning as a key: core numbers, then a release above its own
  candidates, then the identifiers in order, numeric ones below alphanumeric ones.
\<close>

fun finite_number :: "number \<Rightarrow> bool" where
  "finite_number (Num n) = True"
| "finite_number Infinity_number = False"

fun number_key :: "number \<Rightarrow> nat" where
  "number_key (Num n) = n"
| "number_key Infinity_number = 0"

definition id_key :: "string \<Rightarrow> nat \<times> nat \<times> string" where
  "id_key s = (if NUMERIC s then (0, number_key (Number s), []) else (1, 0, s))"

definition prerelease_key :: "string list \<Rightarrow> nat \<times> (nat \<times> nat \<times> string) list" where
  "prerelease_key ids = (if ids = [] then (1, []) else (0, map id_key ids))"

definition version_key ::
    "ParsedVersion \<Rightarrow> nat \<times> nat \<times> nat \<times> nat \<times> (nat \<times> nat \<times> string) list" where
  "version_key v = (number_key (major v), number_key (minor v), number_key (patch v),
     prerelease_key (prerelease v))"

definition finite_version :: "ParsedVersion \<Rightarrow> bool" where
  "finite_version v \<longleftrightarrow> finite_number (major v) \<and> finite_number (minor v) \<and> finite_number (patch v)
     \<and> (\<forall>s \<in> set (prerelease v). NUMERIC s \<longrightarrow> finite_number (Number s))"

text \<open>The three-way comparison of two elements of a linear order.\<close>

definition three_way :: "'a :: linorder \<Rightarrow> 'a \<Rightarrow> int" where
  "three_way x y = (if x < y then -1 else if x = y then 0 else 1)"

lemma three_way_0 [simp]: "three_way x y = 0 \<longleftrightarrow> x = y"
  by (simp add: three_way_def)

lemma three_way_swap: "three_way y x = - three_way x y"
  by (auto simp: three_way_def)

lemma three_way_le: "three_way x y \<le> 0 \<longleftrightarrow> x \<le> y"
  by (auto simp: three_way_def)

lemma three_way_ge: "0 \<le> three_way x y \<longleftrightarrow> y \<le> x"
  by (auto simp: three_way_def)

lemma three_way_Pair:
  "three_way (a, x) (b, y) = (if a = b then three_way x y else three_way a b)"
  by (auto simp: three_way_def)

lemma three_way_Cons:
  "three_way (a # x) (b # y) = (if a = b then three_way x y else three_way a b)"
  by (auto simp: three_way_def)

lemma finite_numberE:
  assumes "finite_number x" obtains n where "x = Num n"
  using assms by (cases x) auto

lemma minus_number_key:
  assumes "finite_number x" and "finite_number y"
  shows "minus_number x y = Zero \<longleftrightarrow> number_key x = number_key y"
    and "minus_number x y = Negative \<longleftrightarrow> number_key x < number_key y"
    and "minus_number x y \<noteq> NaN"
  using assms by (auto elim!: finite_numberE split: if_splits)

lemma prerelease_loop_step:
  assumes "NUMERIC l \<Longrightarrow> finite_number (Number l)" and "NUMERIC r \<Longrightarrow> finite_number (Number r)"
  shows "prerelease_loop (l # ls) (r # rs) =
    (if id_key l = id_key r then prerelease_loop ls rs else three_way (id_key l) (id_key r))"
proof (cases "NUMERIC l \<and> NUMERIC r")
  case True
  with assms minus_number_key [of "Number l" "Number r"] show ?thesis
    by (auto simp: id_key_def three_way_def Let_def)
next
  case False
  then show ?thesis by (auto simp: id_key_def three_way_def)
qed

lemma prerelease_loop_key:
  assumes "\<forall>s \<in> set a \<union> set b. NUMERIC s \<longrightarrow> finite_number (Number s)"
  shows "prerelease_loop a b = three_way (map id_key a) (map id_key b)"
  using assms
proof (induction a arbitrary: b)
  case Nil
  then show ?case by (cases b) (simp_all add: three_way_def)
next
  case (Cons l ls)
  show ?case
  proof (cases b)
    case Nil
    then show ?thesis by (simp add: three_way_def)
  next
    case (Cons r rs)
    have "prerelease_loop (l # ls) (r # rs) =
        (if id_key l = id_key r then prerelease_loop ls rs else three_way (id_key l) (id_key r))"
      by (rule prerelease_loop_step) (use Cons.prems Cons in auto)
    with Cons.prems Cons.IH [of rs] Cons show ?thesis
      by (simp only: list.map three_way_Cons) simp
  qed
qed

lemma comparePrerelease_key:
  assumes "\<forall>s \<in> set a \<union> set b. NUMERIC s \<longrightarrow> finite_number (Number s)"
  shows "comparePrerelease a b = three_way (prerelease_key a) (prerelease_key b)"
  using prerelease_loop_key [OF assms]
  by (auto simp: comparePrerelease_def prerelease_key_def three_way_Pair) (simp_all add: three_way_def)

definition sign :: "difference \<Rightarrow> int" where
  "sign d = (case d of Negative \<Rightarrow> -1 | Zero \<Rightarrow> 0 | _ \<Rightarrow> 1)"

lemma sign_minus_number:
  "finite_number x \<Longrightarrow> finite_number y \<Longrightarrow> sign (minus_number x y) = three_way (number_key x) (number_key y)"
  by (auto elim!: finite_numberE simp: sign_def three_way_def)

lemma sign_or_else: "a \<noteq> NaN \<Longrightarrow> sign (or_else a b) = (if sign a = 0 then sign b else sign a)"
  by (cases a) (simp_all add: or_else_def sign_def)

lemma compareParsed_sign:
  "compareParsed a b =
    (let p = sign (or_else (or_else (minus_number (major a) (major b)) (minus_number (minor a) (minor b)))
                    (minus_number (patch a) (patch b)));
         pre = comparePrerelease (prerelease a) (prerelease b) in
     if p \<noteq> 0 then p else if pre = 0 then 0 else if pre < 0 then -1 else 1)"
  by (simp add: compareParsed_def sign_def Let_def split: difference.split)

lemma compareParsed_key:
  assumes "finite_version a" and "finite_version b"
  shows "compareParsed a b = three_way (version_key a) (version_key b)"
proof -
  have pre: "comparePrerelease (prerelease a) (prerelease b)
      = three_way (prerelease_key (prerelease a)) (prerelease_key (prerelease b))"
    using assms by (intro comparePrerelease_key) (auto simp: finite_version_def)
  have fin: "finite_number (major a)" "finite_number (minor a)" "finite_number (patch a)"
    "finite_number (major b)" "finite_number (minor b)" "finite_number (patch b)"
    using assms by (simp_all add: finite_version_def)
  have ne: "or_else (minus_number (major a) (major b)) (minus_number (minor a) (minor b)) \<noteq> NaN"
    using minus_number_key(3) fin by (simp add: or_else_def)
  have "three_way x y = (if three_way x y < 0 then -1 else 1)" if "three_way x y \<noteq> 0"
    for x y :: "nat \<times> (nat \<times> nat \<times> string) list"
    using that by (auto simp: three_way_def)
  then show ?thesis
    unfolding compareParsed_sign Let_def version_key_def three_way_Pair sign_or_else [OF ne]
      sign_or_else [OF minus_number_key(3) [OF fin(1) fin(4)]] pre
    by (simp add: sign_minus_number fin)
qed

section \<open>Lemmas on the grammar\<close>

fun join_on :: "char \<Rightarrow> string list \<Rightarrow> string" where
  "join_on d [] = []"
| "join_on d [w] = w"
| "join_on d (w # ws) = w @ d # join_on d ws"

text \<open>A version as the grammar writes it.\<close>

definition version_string ::
    "bool \<Rightarrow> string \<Rightarrow> string \<Rightarrow> string \<Rightarrow> string list \<Rightarrow> string list \<Rightarrow> string" where
  "version_string v ma mi pa pre build =
     (if v then ''v'' else []) @ ma @ ''.'' @ mi @ ''.'' @ pa
     @ (if pre = [] then [] else CHR ''-'' # join_on CHR ''.'' pre)
     @ (if build = [] then [] else CHR ''+'' # join_on CHR ''.'' build)"

lemma split_on_nonempty [simp]: "split_on d s \<noteq> []"
  by (cases "(d, s)" rule: split_on.cases) (auto split: list.split)

lemma split_on_no_sep: "d \<notin> set w \<Longrightarrow> split_on d w = [w]"
  by (induction w) auto

lemma split_on_append: "d \<notin> set w \<Longrightarrow> split_on d (w @ d # s) = w # split_on d s"
  by (induction w) auto

lemma split_on_join: "ws \<noteq> [] \<Longrightarrow> \<forall>w \<in> set ws. d \<notin> set w \<Longrightarrow> split_on d (join_on d ws) = ws"
  by (induction d ws rule: join_on.induct) (auto simp: split_on_no_sep split_on_append)

lemma join_on_split: "join_on d (split_on d s) = s"
proof (induction d s rule: split_on.induct)
  case (2 d c cs)
  then show ?case by (cases "split_on d cs"; cases "tl (split_on d cs)") auto
qed simp

lemma set_join_on: "set (join_on d ws) \<subseteq> insert d (\<Union> (set ` set ws))"
  by (induction d ws rule: join_on.induct) auto

lemma join_on_last:
  "ws \<noteq> [] \<Longrightarrow> \<forall>w \<in> set ws. w \<noteq> [] \<Longrightarrow>
   join_on d ws \<noteq> [] \<and> last (join_on d ws) \<in> \<Union> (set ` set ws)"
  by (induction d ws rule: join_on.induct) (auto simp: last_append)

lemma id_char_code: "id_char c \<Longrightarrow> \<not> is_space c \<and> c \<noteq> CHR ''.'' \<and> c \<noteq> CHR ''+''"
  by (auto simp: id_char_def is_digit_def is_alpha_def is_space_def Let_def)

lemma digit_id_char: "is_digit c \<Longrightarrow> id_char c"
  by (simp add: id_char_def)

lemma NUMERIC_id_char: "NUMERIC s \<Longrightarrow> c \<in> set s \<Longrightarrow> id_char c"
  by (auto simp: NUMERIC_def list_all_iff digit_id_char)

lemma prerelease_id_chars: "prerelease_id w \<Longrightarrow> w \<noteq> [] \<and> (\<forall>c \<in> set w. id_char c)"
  by (auto simp: prerelease_id_def NUMERIC_id_char list_all_iff) (auto simp: NUMERIC_def)

lemma build_id_chars: "build_id w \<Longrightarrow> w \<noteq> [] \<and> (\<forall>c \<in> set w. id_char c)"
  by (auto simp: build_id_def list_all_iff)

lemma join_ids:
  assumes "ws \<noteq> []" and "\<forall>w \<in> set ws. w \<noteq> [] \<and> (\<forall>c \<in> set w. id_char c)"
  shows "split_on CHR ''.'' (join_on CHR ''.'' ws) = ws"
    and "CHR ''+'' \<notin> set (join_on CHR ''.'' ws)"
    and "join_on CHR ''.'' ws \<noteq> []" and "id_char (last (join_on CHR ''.'' ws))"
proof -
  have "\<forall>w \<in> set ws. CHR ''.'' \<notin> set w" using assms(2) id_char_code by blast
  with assms(1) show "split_on CHR ''.'' (join_on CHR ''.'' ws) = ws" by (rule split_on_join)
  show "CHR ''+'' \<notin> set (join_on CHR ''.'' ws)"
    using set_join_on [of "CHR ''.''" ws] assms(2) id_char_code by fastforce
  show "join_on CHR ''.'' ws \<noteq> []" "id_char (last (join_on CHR ''.'' ws))"
    using join_on_last [of ws "CHR ''.''"] assms by auto
qed

lemma core_number_append:
  assumes "NUMERIC ds" and "rest = [] \<or> \<not> is_digit (hd rest)"
  shows "core_number (ds @ rest) = Some (ds, rest)"
proof -
  have "takeWhile is_digit (ds @ rest) = ds" "dropWhile is_digit (ds @ rest) = rest"
    using assms by (cases rest; auto simp: NUMERIC_def list_all_iff takeWhile_append dropWhile_append)+
  with assms(1) show ?thesis by (simp add: core_number_def)
qed

lemma core_numberD: "core_number s = Some (ds, rest) \<Longrightarrow> s = ds @ rest \<and> NUMERIC ds"
  by (auto simp: core_number_def Let_def split: if_splits)

lemma after_dot_iff: "after_dot s = Some r \<longleftrightarrow> s = CHR ''.'' # r"
  by (auto simp: after_dot_def split: list.split if_splits)

lemma version_tail_string:
  assumes "\<forall>w \<in> set pre. prerelease_id w" and "\<forall>w \<in> set build. build_id w"
  shows "version_tail ((if pre = [] then [] else CHR ''-'' # join_on CHR ''.'' pre)
     @ (if build = [] then [] else CHR ''+'' # join_on CHR ''.'' build)) = Some pre"
    (is "version_tail (?p @ ?b) = _")
proof -
  have pre_ids: "\<forall>w \<in> set pre. w \<noteq> [] \<and> (\<forall>c \<in> set w. id_char c)"
    using assms(1) prerelease_id_chars by blast
  have build_ids: "\<forall>w \<in> set build. w \<noteq> [] \<and> (\<forall>c \<in> set w. id_char c)"
    using assms(2) build_id_chars by blast
  have plus: "CHR ''+'' \<notin> set ?p" using join_ids(2) [OF _ pre_ids] by auto
  have body: "takeWhile (\<lambda>c. c \<noteq> CHR ''+'') (?p @ ?b) = ?p"
    using plus by (subst takeWhile_append2) auto
  show ?thesis
    unfolding version_tail_def Let_def body
    using join_ids(1) [OF _ pre_ids] join_ids(1) [OF _ build_ids] assms
    by (auto simp: list_all_iff)
qed

lemma version_tailD:
  assumes "version_tail s = Some pre"
  shows "\<exists>build. (\<forall>w \<in> set pre. prerelease_id w) \<and> (\<forall>w \<in> set build. build_id w) \<and>
    s = (if pre = [] then [] else CHR ''-'' # join_on CHR ''.'' pre)
     @ (if build = [] then [] else CHR ''+'' # join_on CHR ''.'' build)"
proof -
  define body where "body = takeWhile (\<lambda>c. c \<noteq> CHR ''+'') s"
  define rest where "rest = drop (length body) s"
  define build where "build = (if rest = [] then [] else split_on CHR ''.'' (tl rest))"
  have dw: "rest = dropWhile (\<lambda>c. c \<noteq> CHR ''+'') s"
    unfolding rest_def body_def by (simp add: dropWhile_eq_drop)
  then have s: "s = body @ rest" by (simp add: body_def)
  have "rest \<noteq> [] \<Longrightarrow> hd rest = CHR ''+''"
    using dw hd_dropWhile [of "\<lambda>c. c \<noteq> CHR ''+''" s] by auto
  then have rest: "rest = (if build = [] then [] else CHR ''+'' # join_on CHR ''.'' build)"
    by (cases rest) (auto simp: build_def join_on_split)
  from assms have bids: "\<forall>w \<in> set build. build_id w"
    unfolding version_tail_def Let_def body_def [symmetric] rest_def [symmetric]
    by (auto simp: build_def list_all_iff split: if_splits)
  from assms have pids: "\<forall>w \<in> set pre. prerelease_id w"
    and body: "body = (if pre = [] then [] else CHR ''-'' # join_on CHR ''.'' pre)"
    unfolding version_tail_def Let_def body_def [symmetric] rest_def [symmetric]
    by (auto simp: list_all_iff join_on_split split: if_splits list.splits)
  have "s = (if pre = [] then [] else CHR ''-'' # join_on CHR ''.'' pre)
     @ (if build = [] then [] else CHR ''+'' # join_on CHR ''.'' build)"
    by (simp only: s body rest)
  with bids pids show ?thesis by blast
qed

lemma PATTERN_iff:
  "PATTERN s = Some (ma, mi, pa, pre) \<longleftrightarrow>
   NUMERIC ma \<and> NUMERIC mi \<and> NUMERIC pa \<and> (\<forall>w \<in> set pre. prerelease_id w) \<and>
   (\<exists>v build. (\<forall>w \<in> set build. build_id w) \<and> s = version_string v ma mi pa pre build)"
  (is "?L \<longleftrightarrow> ?R")
proof
  assume ?L
  define s0 where "s0 = (case s of c # r \<Rightarrow> if c = CHR ''v'' then r else s | [] \<Rightarrow> s)"
  then have s0: "s = s0 \<or> s = CHR ''v'' # s0" by (auto split: list.splits if_splits)
  from \<open>?L\<close> obtain s1 s2 s3 s4 s5 where core: "core_number s0 = Some (ma, s1)" "after_dot s1 = Some s2" "core_number s2 = Some (mi, s3)"
      "after_dot s3 = Some s4" "core_number s4 = Some (pa, s5)" and tail: "version_tail s5 = Some pre"
    unfolding PATTERN_def Let_def s0_def [symmetric] by (auto simp: bind_eq_Some_conv)
  from version_tailD [OF tail] obtain build where build: "\<forall>w \<in> set pre. prerelease_id w"
      "\<forall>w \<in> set build. build_id w"
      "s5 = (if pre = [] then [] else CHR ''-'' # join_on CHR ''.'' pre)
        @ (if build = [] then [] else CHR ''+'' # join_on CHR ''.'' build)" by blast
  have "s0 = version_string False ma mi pa pre build"
    using core(1,3,5) [THEN core_numberD] core(2,4) build(3)
    by (simp add: version_string_def after_dot_iff)
  with s0 have "s = version_string False ma mi pa pre build \<or> s = version_string True ma mi pa pre build"
    by (auto simp: version_string_def)
  then show ?R using core(1,3,5) [THEN core_numberD] build(1,2) by blast
next
  assume ?R
  then obtain v build where num: "NUMERIC ma" "NUMERIC mi" "NUMERIC pa"
    and pre: "\<forall>w \<in> set pre. prerelease_id w" and build: "\<forall>w \<in> set build. build_id w"
    and s: "s = version_string v ma mi pa pre build" by blast
  define tail where "tail = (if pre = [] then [] else CHR ''-'' # join_on CHR ''.'' pre)
     @ (if build = [] then [] else CHR ''+'' # join_on CHR ''.'' build)"
  have s': "s = (if v then ''v'' else []) @ ma @ CHR ''.'' # mi @ CHR ''.'' # pa @ tail"
    by (simp add: s version_string_def tail_def)
  have nd: "\<not> is_digit CHR ''.''" "\<not> is_digit CHR ''-''" "\<not> is_digit CHR ''+''" "\<not> is_digit CHR ''v''"
    by (simp_all add: is_digit_def)
  have tail: "tail = [] \<or> \<not> is_digit (hd tail)" by (auto simp: tail_def nd)
  have "ma \<noteq> []" "hd ma \<noteq> CHR ''v''"
    using num(1) nd(4) by (auto simp: NUMERIC_def list_all_iff) (metis hd_in_set)
  then have strip: "(case s of c # r \<Rightarrow> if c = CHR ''v'' then r else s | [] \<Rightarrow> s)
      = ma @ CHR ''.'' # mi @ CHR ''.'' # pa @ tail"
    by (cases v; cases ma) (simp_all add: s')
  show ?L
    unfolding PATTERN_def Let_def strip
    using version_tail_string [OF pre build, folded tail_def] tail
    by (simp add: core_number_append num nd after_dot_def)
qed

lemma trim_padded:
  assumes "x \<noteq> []" and "\<not> is_space (hd x)" and "\<not> is_space (last x)"
    and "list_all is_space a" and "list_all is_space b"
  shows "trim (a @ x @ b) = x"
proof -
  have "dropWhile is_space (a @ x @ b) = x @ b"
    using assms by (cases x) (auto simp: dropWhile_append list_all_iff)
  moreover have "dropWhile is_space (rev (x @ b)) = rev x"
    using assms by (cases x rule: rev_cases) (auto simp: dropWhile_append list_all_iff)
  ultimately show ?thesis by (simp add: trim_def)
qed

lemma trim_decompose: "\<exists>a b. list_all is_space a \<and> list_all is_space b \<and> s = a @ trim s @ b"
proof -
  define t where "t = dropWhile is_space s"
  have "s = takeWhile is_space s @ t" by (simp add: t_def)
  moreover have "t = trim s @ rev (takeWhile is_space (rev t))"
    unfolding trim_def t_def by (metis rev_append rev_rev_ident takeWhile_dropWhile_id)
  ultimately have "s = takeWhile is_space s @ trim s @ rev (takeWhile is_space (rev t))" by simp
  moreover have "list_all is_space (takeWhile is_space s)"
      "list_all is_space (rev (takeWhile is_space (rev t)))"
    by (auto simp: list_all_iff dest: set_takeWhileD)
  ultimately show ?thesis by blast
qed

lemma version_string_ends:
  assumes "NUMERIC ma" "NUMERIC pa" "\<forall>w \<in> set pre. prerelease_id w" "\<forall>w \<in> set build. build_id w"
  shows "version_string v ma mi pa pre build \<noteq> []"
    and "\<not> is_space (hd (version_string v ma mi pa pre build))"
    and "\<not> is_space (last (version_string v ma mi pa pre build))"
proof -
  have ids: "ws \<noteq> [] \<Longrightarrow> \<forall>w \<in> set ws. prerelease_id w \<or> build_id w \<Longrightarrow>
      join_on CHR ''.'' ws \<noteq> [] \<and> \<not> is_space (last (join_on CHR ''.'' ws))" for ws
    using join_ids(3,4) [of ws] prerelease_id_chars build_id_chars id_char_code by metis
  have pa: "pa \<noteq> []" "\<not> is_space (last pa)"
    using assms(2) NUMERIC_id_char [OF assms(2)] id_char_code by (auto simp: NUMERIC_def)
  have ma: "ma \<noteq> []" "\<not> is_space (hd ma)"
    using assms(1) NUMERIC_id_char [OF assms(1)] id_char_code by (auto simp: NUMERIC_def)
  have "\<not> is_space CHR ''v''" by (simp add: is_space_def)
  then show "\<not> is_space (hd (version_string v ma mi pa pre build))"
    using ma by (simp add: version_string_def)
  show "\<not> is_space (last (version_string v ma mi pa pre build))"
    using pa ids [of pre] ids [of build] assms(3,4) by (auto simp: version_string_def last_append)
  show "version_string v ma mi pa pre build \<noteq> []" by (simp add: version_string_def)
qed

section \<open>Properties of versions\<close>

text \<open>
  C38: a string is read as a version exactly when, up to surrounding white space, it is an
  optional \<open>v\<close> and three numbers without leading zeros, with an optional dotted prerelease
  and optional build metadata; the three numbers and the prerelease identifiers are what is
  read, and the build metadata is dropped.
\<close>

theorem parseVersion_grammar:
  "parseVersion (Some s) = Some p \<longleftrightarrow>
   (\<exists>a v ma mi pa pre build b. list_all is_space a \<and> list_all is_space b
      \<and> s = a @ version_string v ma mi pa pre build @ b
      \<and> NUMERIC ma \<and> NUMERIC mi \<and> NUMERIC pa
      \<and> list_all prerelease_id pre \<and> list_all build_id build
      \<and> p = \<lparr>major = Number ma, minor = Number mi, patch = Number pa, prerelease = pre\<rparr>)"
  (is "?L \<longleftrightarrow> ?R")
proof
  assume ?L
  then obtain ma mi pa pre where pat: "PATTERN (trim s) = Some (ma, mi, pa, pre)"
    and p: "p = \<lparr>major = Number ma, minor = Number mi, patch = Number pa, prerelease = pre\<rparr>"
    by (auto simp: parseVersion_def split: option.splits)
  from trim_decompose obtain a b where "list_all is_space a" "list_all is_space b" "s = a @ trim s @ b"
    by blast
  with pat p show ?R unfolding PATTERN_iff list_all_iff by metis
next
  assume ?R
  then obtain a v ma mi pa pre build b where ab: "list_all is_space a" "list_all is_space b"
    and s: "s = a @ version_string v ma mi pa pre build @ b"
    and num: "NUMERIC ma" "NUMERIC mi" "NUMERIC pa"
    and ids: "\<forall>w \<in> set pre. prerelease_id w" "\<forall>w \<in> set build. build_id w"
    and p: "p = \<lparr>major = Number ma, minor = Number mi, patch = Number pa, prerelease = pre\<rparr>"
    by (auto simp: list_all_iff)
  have "trim s = version_string v ma mi pa pre build"
    unfolding s using version_string_ends [OF num(1,3) ids] ab by (intro trim_padded)
  then have "PATTERN (trim s) = Some (ma, mi, pa, pre)"
    using num ids PATTERN_iff by metis
  with p show ?L by (simp add: parseVersion_def)
qed

text \<open>
  C39: comparing two readable versions whose numbers are finite gives the three-way comparison
  of their precedence keys in a linear order: core numbers first, a release above all of its
  candidates, then the identifiers from left to right, numeric below alphanumeric, a shorter
  list below its extensions. On such versions the comparison is therefore total, antisymmetric up
  to equal precedence, and transitive. A number is finite when its double is, that is up to about
  308 digits; a version with a longer one is readable too and the comparison of it is no order.
\<close>

theorem compareVersions_precedence:
  assumes "parseVersion a = Some p" and "parseVersion b = Some q"
    and "finite_version p" and "finite_version q"
  shows "compareVersions a b = Some (three_way (version_key p) (version_key q))
    \<and> isNewer a b = Some (version_key q < version_key p)"
proof -
  have "compareVersions a b = Some (three_way (version_key p) (version_key q))"
    using assms by (simp add: compareVersions_def compareParsed_key)
  then show ?thesis by (auto simp: isNewer_def three_way_def)
qed

text \<open>
  Without finite numbers it is no order: a version whose patch number overflows is newer than itself.
\<close>

lemma compareVersions_overflow:
  assumes "parseVersion a = Some p" and "patch p = Infinity_number"
  shows "isNewer a a = Some True"
  using assms by (cases "major p"; cases "minor p")
    (simp_all add: isNewer_def compareVersions_def compareParsed_def or_else_def)

definition minimum_agent :: ParsedVersion where
  "minimum_agent = \<lparr>major = Num 0, minor = Num 3, patch = Num 0, prerelease = [''rc'', ''2'']\<rparr>"

lemma parse_minimum: "parseVersion (Some STACK_ATTRIBUTION_MINIMUM_AGENT_VERSION) = Some minimum_agent"
  unfolding STACK_ATTRIBUTION_MINIMUM_AGENT_VERSION_def minimum_agent_def by code_simp

lemma key_minimum: "version_key minimum_agent = (0, 3, 0, 0, [(1, 0, ''rc''), (0, 2, [])])"
  unfolding minimum_agent_def by code_simp

lemma parse_0_10_0:
  "parseVersion (Some ''v0.10.0+4f2a'') = Some \<lparr>major = Num 0, minor = Num 10, patch = Num 0, prerelease = []\<rparr>"
  by code_simp

lemma finite_minimum: "finite_version minimum_agent"
  by (simp add: finite_version_def minimum_agent_def NUMERIC_def is_digit_def Number_def
    nat_of_digits_def digit_value_def round_double_def)

theorem compareVersions_precedence_witness:
  "parseVersion (Some ''v0.10.0+4f2a'') = Some \<lparr>major = Num 0, minor = Num 10, patch = Num 0, prerelease = []\<rparr>
   \<and> isNewer (Some ''v0.10.0+4f2a'') (Some STACK_ATTRIBUTION_MINIMUM_AGENT_VERSION) = Some True"
  using compareVersions_precedence [OF parse_0_10_0 parse_minimum _ finite_minimum]
  by (simp add: parse_0_10_0 key_minimum)
    (simp add: finite_version_def version_key_def)

text \<open>
  An agent may be asked for a stack operation exactly when its version is readable and its
  precedence is at least that of 0.3.0-rc.2; a missing or unreadable version is refused.
\<close>

theorem supportsStackAttribution_iff:
  assumes "\<forall>p. parseVersion v = Some p \<longrightarrow> finite_version p"
  shows "supportsStackAttribution v \<longleftrightarrow> (\<exists>p. parseVersion v = Some p \<and>
    (0, 3, 0, 0, [(1, 0, ''rc''), (0, 2, [])]) \<le> version_key p)"
proof (cases "parseVersion v")
  case (Some p)
  with assms have "compareVersions v (Some STACK_ATTRIBUTION_MINIMUM_AGENT_VERSION)
      = Some (three_way (version_key p) (version_key minimum_agent))"
    by (simp add: compareVersions_def parse_minimum compareParsed_key finite_minimum)
  with Some show ?thesis by (simp add: supportsStackAttribution_def three_way_ge key_minimum)
qed (simp add: supportsStackAttribution_def compareVersions_def)

theorem supportsStackAttribution_iff_witness:
  "supportsStackAttribution (Some ''v0.10.0+4f2a'')"
  using supportsStackAttribution_iff [of "Some ''v0.10.0+4f2a''"]
  by (simp add: parse_0_10_0) (simp add: finite_version_def version_key_def)

end
