(* ===== verification/Agent_Gateway.thy ===== *)
theory Agent_Gateway
  imports Agent_Dispatch Semver
begin

text \<open>
  The listener agents connect to (\<^verbatim>\<open>src/api/src/agents/agent-gateway.service.ts\<close>) over the
  registry of agents (\<^verbatim>\<open>agent-registry.service.ts\<close>) and the dispatcher. Handling a message
  waits for the database several times; each wait is a place where the handler of a connection
  stands still, its \<^emph>\<open>task\<close>, while other connections, closing sockets, revocations and the
  clock go on. A chunk that arrives meanwhile waits in the queue of its connection. TLS gives
  every socket the fingerprint of its peer certificate, the certificate authority an arbitrary
  answer. The step relation interleaves everything; in every state it reaches, who a connection
  speaks for is settled once and by its certificate, and the text it is taking in stays bounded
  (the queue of chunks that wait does not).
\<close>

section \<open>The registry of agents\<close>

record agent_entry =
  ag_id :: string
  ag_certificateFingerprint :: string
  ag_certificateSerial :: string
  ag_certificateNotAfter :: int
  ag_version :: "string option"
  ag_capabilities :: "string list"
  ag_status :: string
  ag_firstSeenAt :: "int option"
  ag_lastSeenAt :: "int option"
  ag_revokedAt :: "int option"
  ag_revocationReason :: "string option"

definition findByFingerprint :: "string \<Rightarrow> agent_entry list \<Rightarrow> agent_entry option" where
  "findByFingerprint fingerprint = find (\<lambda>a. ag_certificateFingerprint a = fingerprint)"

definition findById :: "string \<Rightarrow> agent_entry list \<Rightarrow> agent_entry option" where
  "findById agentId = find (\<lambda>a. ag_id a = agentId)"

text \<open>
  A column set to \<^verbatim>\<open>undefined\<close> is left out of the update, so a hello without a version keeps the
  one that is stored. Marking an agent connected is two updates with the same time, each waited
  for.
\<close>

definition markConnected :: "int \<Rightarrow> string \<Rightarrow> string option \<Rightarrow> string list \<Rightarrow> agent_entry list \<Rightarrow> agent_entry list" where
  "markConnected now agentId agentVersion advertised =
    upd (\<lambda>a. ag_id a = agentId) (\<lambda>a. a\<lparr>ag_status := ''connected'', ag_lastSeenAt := Some now,
      ag_version := (case agentVersion of None \<Rightarrow> ag_version a | Some v \<Rightarrow> Some v),
      ag_capabilities := filter isCapability advertised\<rparr>)"

definition markFirstSeen :: "int \<Rightarrow> string \<Rightarrow> agent_entry list \<Rightarrow> agent_entry list" where
  "markFirstSeen now agentId = upd (\<lambda>a. ag_id a = agentId \<and> ag_firstSeenAt a = None)
     (\<lambda>a. a\<lparr>ag_firstSeenAt := Some now\<rparr>)"

definition touch :: "int \<Rightarrow> string \<Rightarrow> agent_entry list \<Rightarrow> agent_entry list" where
  "touch now agentId = upd (\<lambda>a. ag_id a = agentId) (\<lambda>a. a\<lparr>ag_lastSeenAt := Some now\<rparr>)"

definition markDisconnected :: "string \<Rightarrow> agent_entry list \<Rightarrow> agent_entry list" where
  "markDisconnected agentId = upd (\<lambda>a. ag_id a = agentId \<and> ag_revokedAt a = None)
     (\<lambda>a. a\<lparr>ag_status := ''disconnected''\<rparr>)"

definition resetConnectionState :: "agent_entry list \<Rightarrow> nat \<times> agent_entry list" where
  "resetConnectionState rows =
    (let stale = (\<lambda>a. ag_status a = ''connected'' \<and> ag_revokedAt a = None)
     in (length (filter stale rows), upd stale (\<lambda>a. a\<lparr>ag_status := ''disconnected''\<rparr>) rows))"

definition revoke :: "int \<Rightarrow> string \<Rightarrow> string \<Rightarrow> agent_entry list \<Rightarrow> js_error + agent_entry list" where
  "revoke now agentId reason rows =
    (if \<exists>a \<in> set rows. ag_id a = agentId \<and> ag_revokedAt a = None
     then Inr (upd (\<lambda>a. ag_id a = agentId \<and> ag_revokedAt a = None)
       (\<lambda>a. a\<lparr>ag_status := ''revoked'', ag_revokedAt := Some now, ag_revocationReason := Some reason\<rparr>) rows)
     else Inl (AppErr (case findById agentId rows of
         Some _ \<Rightarrow> conflict ''AGENT_REVOKED'' ''The agent credential is already revoked.''
       | None \<Rightarrow> notFound ''AGENT_UNKNOWN'' ''The agent does not exist.'')))"

record certificate =
  ce_pem :: string
  ce_fingerprintSha256 :: string
  ce_serialHex :: string
  ce_notAfter :: int

definition replaceCertificate :: "string \<Rightarrow> certificate \<Rightarrow> agent_entry list \<Rightarrow> agent_entry list" where
  "replaceCertificate agentId certificate = upd (\<lambda>a. ag_id a = agentId)
     (\<lambda>a. a\<lparr>ag_certificateFingerprint := ce_fingerprintSha256 certificate,
        ag_certificateSerial := ce_serialHex certificate,
        ag_certificateNotAfter := ce_notAfter certificate\<rparr>)"

section \<open>State\<close>

text \<open>
  What the handler of a connection is waiting for: the lookup of the certificate a message came
  with; the four waits of a hello; the write of a heartbeat; the three waits of a renewal.
\<close>

datatype task =
    Idle
  | Identifying ClientMessage
  | Marking string "string option" "string list"
  | MarkingFirst int string
  | Fetching string
  | Announcing string
  | Touching string
  | Issuing string string
  | Replacing string certificate
  | Auditing string certificate

text \<open>A chunk is the text it decodes to, with the number of its bytes.\<close>

type_synonym chunk = "nat \<times> string"

record ConnectionState =
  st_agentId :: "string option"
  st_helloReceived :: bool
  st_buffer :: string
  st_bytesBuffered :: nat
  st_closing :: bool
  st_queue :: "chunk list"
  st_task :: task

datatype gateway_note = Connected string | Disconnected string | Renewed string string

text \<open>
  The gateway: the dispatcher, the connections with the state of each, the registry, the agents
  being polled, the sockets whose close was handled, the disconnects still to be written, and
  what was recorded.
\<close>

record gateway =
  gw_hub :: hub
  gw_states :: "socket \<rightharpoonup> ConnectionState"
  gw_agents :: "agent_entry list"
  gw_polled :: "string list"
  gw_closed :: "socket list"
  gw_leaving :: "string list"
  gw_notes :: "gateway_note list"

text \<open>
  What the gateway is given: \<^verbatim>\<open>JSON.parse\<close>, how a number is printed, the fingerprint of the
  certificate a peer presented, its address, and the configuration.
\<close>

record gateway_env =
  ge_json_parse :: "string \<Rightarrow> json option"
  ge_show_number :: "js_number \<Rightarrow> string"
  ge_peer :: "socket \<Rightarrow> string option"
  ge_remoteAddress :: "socket \<Rightarrow> string option"
  ge_maxMessageBytes :: nat
  ge_renewBefore :: int

definition HEARTBEAT_INTERVAL_SECONDS :: nat where "HEARTBEAT_INTERVAL_SECONDS = 30"

definition is_destroyed :: "gateway \<Rightarrow> socket \<Rightarrow> bool" where
  "is_destroyed g socket = (socket \<in> set (h_destroyed (gw_hub g)))"

definition on_state :: "socket \<Rightarrow> (ConnectionState \<Rightarrow> ConnectionState) \<Rightarrow> gateway \<Rightarrow> gateway" where
  "on_state socket f g = g\<lparr>gw_states := (gw_states g)(socket := map_option f (gw_states g socket))\<rparr>"

definition wait_for :: "task \<Rightarrow> socket \<Rightarrow> gateway \<Rightarrow> gateway" where
  "wait_for t socket = on_state socket (\<lambda>st. st\<lparr>st_task := t\<rparr>)"

definition in_hub :: "(hub \<Rightarrow> hub) \<Rightarrow> gateway \<Rightarrow> gateway" where
  "in_hub f g = g\<lparr>gw_hub := f (gw_hub g)\<rparr>"

definition in_registry :: "(agent_entry list \<Rightarrow> agent_entry list) \<Rightarrow> gateway \<Rightarrow> gateway" where
  "in_registry f g = g\<lparr>gw_agents := f (gw_agents g)\<rparr>"

definition take_note :: "gateway_note \<Rightarrow> gateway \<Rightarrow> gateway" where
  "take_note n g = g\<lparr>gw_notes := gw_notes g @ [n]\<rparr>"

section \<open>Answering\<close>

definition send :: "socket \<Rightarrow> ServerMessage \<Rightarrow> gateway \<Rightarrow> gateway" where
  "send socket message g =
    (if is_destroyed g socket then g else in_hub (write_socket socket message) g)"

definition fail_message :: "socket \<Rightarrow> string \<Rightarrow> string \<Rightarrow> bool \<Rightarrow> gateway \<Rightarrow> gateway" where
  "fail_message socket code message close g = (case gw_states g socket of
      None \<Rightarrow> g
    | Some st \<Rightarrow>
        if st_closing st then g
        else (let g1 = send socket (ProtocolError code message) g
          in if close then on_state socket (\<lambda>st. st\<lparr>st_closing := True\<rparr>) g1 else g1))"

definition start_polling :: "string \<Rightarrow> gateway \<Rightarrow> gateway" where
  "start_polling agentId g = g\<lparr>gw_polled := List.insert agentId (gw_polled g)\<rparr>"

definition stop_polling :: "string \<Rightarrow> gateway \<Rightarrow> gateway" where
  "stop_polling agentId g = g\<lparr>gw_polled := removeAll agentId (gw_polled g)\<rparr>"

section \<open>Reading\<close>

text \<open>
  The bytes of a text in UTF-8. A HOL character is one of 256, so the texts of the model have
  characters of one and of two bytes only; a chunk may still have more bytes than characters
  (\<open>chunk_ok\<close>), and no property rests on the exact count, only on a text having at least as many
  bytes as characters.
\<close>

definition byteLength :: "string \<Rightarrow> nat" where
  "byteLength s = (\<Sum>c\<leftarrow>s. if (of_char c :: nat) < 128 then 1 else 2)"

text \<open>The text before the first line feed and the text after it.\<close>

fun split_line :: "string \<Rightarrow> (string \<times> string) option" where
  "split_line [] = None"
| "split_line (c # cs) = (if c = CHR 0x0A then Some ([], cs)
     else map_option (\<lambda>(line, rest). (c # line, rest)) (split_line cs))"

fun message_version :: "ClientMessage \<Rightarrow> js_number" where
  "message_version (HelloMessage v _ _) = v"
| "message_version (HeartbeatMessage v) = v"
| "message_version (CertificateRenewalMessage v _) = v"
| "message_version (CapabilityResponseMessage v _ _ _ _ _) = v"
| "message_version (StreamStartedMessage v _ _ _) = v"
| "message_version (StreamChunkMessage v _ _ _ _ _) = v"
| "message_version (StreamEndMessage v _ _ _ _) = v"

text \<open>The handling of a message up to its first wait, the lookup of the certificate.\<close>

definition onMessage :: "gateway_env \<Rightarrow> socket \<Rightarrow> string \<Rightarrow> gateway \<Rightarrow> gateway" where
  "onMessage env socket line g = (case parseClientMessage (ge_json_parse env) line of
      None \<Rightarrow> fail_message socket ''AGENT_PROTOCOL_UNSUPPORTED'' ''The message could not be understood.'' True g
    | Some message \<Rightarrow>
        if \<not> isSupportedProtocolVersion (Some (message_version message))
        then fail_message socket ''AGENT_PROTOCOL_UNSUPPORTED'' (''Protocol version ''
               @ ge_show_number env (message_version message) @ '' is not supported.'') True g
        else if ge_peer env socket = None
        then fail_message socket ''AGENT_CERT_INVALID'' ''A client certificate is required.'' True g
        else wait_for (Identifying message) socket g)"

definition standing :: "gateway \<Rightarrow> socket \<Rightarrow> bool" where
  "standing g socket = (case gw_states g socket of
      None \<Rightarrow> True
    | Some st \<Rightarrow> st_task st \<noteq> Idle \<or> st_closing st \<or> is_destroyed g socket)"

definition buffer_of :: "gateway \<Rightarrow> socket \<Rightarrow> string" where
  "buffer_of g socket = (case gw_states g socket of None \<Rightarrow> [] | Some st \<Rightarrow> st_buffer st)"

definition take_line :: "string \<Rightarrow> socket \<Rightarrow> gateway \<Rightarrow> gateway" where
  "take_line rest socket = on_state socket
     (\<lambda>st. st\<lparr>st_buffer := rest, st_bytesBuffered := byteLength rest\<rparr>)"

lemma split_line_length: "split_line s = Some (line, rest) \<Longrightarrow> length s = length line + 1 + length rest"
  by (induction s arbitrary: line) (auto split: if_splits)

lemma buffer_of_onMessage: "buffer_of (onMessage env socket line g) s = buffer_of g s"
  by (auto simp: onMessage_def fail_message_def send_def in_hub_def wait_for_def on_state_def buffer_of_def
      Let_def split: option.split)

lemma buffer_of_take_line: "length (buffer_of (take_line rest socket g) socket) \<le> length rest"
  by (simp add: buffer_of_def take_line_def on_state_def split: option.split)

text \<open>The loop over the lines of the buffer, until a message has to wait or the connection is refused.\<close>

function read_lines :: "gateway_env \<Rightarrow> socket \<Rightarrow> gateway \<Rightarrow> gateway" where
  "read_lines env socket g = (case split_line (buffer_of g socket) of
      None \<Rightarrow> g
    | Some (raw, rest) \<Rightarrow>
        (let g1 = take_line rest socket g; line = trim raw
         in if line = [] then read_lines env socket g1
            else let g2 = onMessage env socket line g1
              in if standing g2 socket then g2 else read_lines env socket g2))"
  by pat_completeness auto

termination read_lines
proof (relation "measure (\<lambda>(env, socket, g). length (buffer_of g socket))")
  fix env :: gateway_env and socket and g :: gateway and entry raw rest
  assume entry: "split_line (buffer_of g socket) = Some entry" "(raw, rest) = entry"
  then have shorter: "length (buffer_of (take_line rest socket g) socket) < length (buffer_of g socket)"
    using buffer_of_take_line [of rest socket g] split_line_length [of "buffer_of g socket" raw rest] by auto
  show "((env, socket, g1), env, socket, g) \<in> measure (\<lambda>(env, socket, g). length (buffer_of g socket))"
    if "g1 = take_line rest socket g" for g1
    using shorter that by simp
  show "((env, socket, g2), env, socket, g) \<in> measure (\<lambda>(env, socket, g). length (buffer_of g socket))"
    if "g1 = take_line rest socket g" "g2 = onMessage env socket line g1" for g1 g2 line
    using shorter that by (simp add: buffer_of_onMessage)
qed simp

declare read_lines.simps [simp del]

definition onData :: "gateway_env \<Rightarrow> socket \<Rightarrow> chunk \<Rightarrow> gateway \<Rightarrow> gateway" where
  "onData env socket chunk g = (case gw_states g socket of
      None \<Rightarrow> g
    | Some st \<Rightarrow>
        if st_closing st then g
        else if st_bytesBuffered st + fst chunk > ge_maxMessageBytes env
        then on_state socket (\<lambda>st. st\<lparr>st_buffer := [], st_bytesBuffered := 0\<rparr>)
          (fail_message socket ''AGENT_MESSAGE_TOO_LARGE'' ''The message exceeds the permitted size.'' True g)
        else read_lines env socket (on_state socket (\<lambda>st. st\<lparr>st_buffer := st_buffer st @ snd chunk,
               st_bytesBuffered := st_bytesBuffered st + fst chunk\<rparr>) g))"

text \<open>A message has been handled: the loop goes on unless the connection is to close.\<close>

definition handled :: "gateway_env \<Rightarrow> socket \<Rightarrow> gateway \<Rightarrow> gateway" where
  "handled env socket g =
    (let g1 = wait_for Idle socket g in if standing g1 socket then g1 else read_lines env socket g1)"

section \<open>Handling\<close>

definition say_hello_first :: "socket \<Rightarrow> gateway \<Rightarrow> gateway" where
  "say_hello_first socket =
     fail_message socket ''AGENT_PROTOCOL_UNSUPPORTED'' ''Send hello before any other message.'' True"

fun onStreamMessage :: "socket \<Rightarrow> ClientMessage \<Rightarrow> gateway \<Rightarrow> gateway" where
  "onStreamMessage socket (StreamStartedMessage _ rid capability streamId) g =
     in_hub (\<lambda>h. snd (acceptStreamStart socket rid capability streamId h)) g"
| "onStreamMessage socket (StreamChunkMessage _ rid streamId seq payload dropped) g =
     in_hub (\<lambda>h. snd (acceptStreamChunk socket rid streamId seq payload dropped h)) g"
| "onStreamMessage socket (StreamEndMessage _ rid streamId reason error) g =
     in_hub (\<lambda>h. snd (acceptStreamEnd socket rid streamId reason error h)) g"
| "onStreamMessage socket _ g = g"

definition start_hello :: "gateway_env \<Rightarrow> int \<Rightarrow> socket \<Rightarrow> string \<Rightarrow> string option \<Rightarrow> string list
    \<Rightarrow> gateway \<Rightarrow> gateway" where
  "start_hello env now socket agentId agentVersion capabilities g =
     wait_for (Marking agentId agentVersion capabilities) socket
       (in_hub (register now (ge_remoteAddress env socket) agentId socket)
         (on_state socket (\<lambda>st. st\<lparr>st_agentId := Some agentId, st_helloReceived := True\<rparr>) g))"

fun dispatch_message :: "gateway_env \<Rightarrow> int \<Rightarrow> socket \<Rightarrow> string \<Rightarrow> bool \<Rightarrow> ClientMessage
    \<Rightarrow> gateway \<Rightarrow> gateway" where
  "dispatch_message env now socket agentId hello (HelloMessage _ agentVersion capabilities) g =
     start_hello env now socket agentId agentVersion capabilities g"
| "dispatch_message env now socket agentId hello (HeartbeatMessage _) g =
     (if \<not> hello then handled env socket (say_hello_first socket g)
      else wait_for (Touching agentId) socket g)"
| "dispatch_message env now socket agentId hello (CertificateRenewalMessage _ csr) g =
     (if \<not> hello then handled env socket (say_hello_first socket g)
      else wait_for (Issuing agentId csr) socket g)"
| "dispatch_message env now socket agentId hello
     (CapabilityResponseMessage _ rid capability status payload error) g =
     (if \<not> hello then handled env socket (say_hello_first socket g)
      else let (accepted, h) = settle_reply socket rid capability status payload error (gw_hub g);
               g1 = g\<lparr>gw_hub := h\<rparr>
        in handled env socket (if accepted then g1
             else fail_message socket ''AGENT_RESPONSE_INVALID''
               ''The reply does not match an outstanding request.'' True g1))"
| "dispatch_message env now socket agentId hello message g =
     handled env socket (if \<not> hello then say_hello_first socket g else onStreamMessage socket message g)"

text \<open>The certificate has been looked up.\<close>

definition identified :: "gateway_env \<Rightarrow> int \<Rightarrow> socket \<Rightarrow> ConnectionState \<Rightarrow> ClientMessage
    \<Rightarrow> gateway \<Rightarrow> gateway" where
  "identified env now socket st message g =
    (case findByFingerprint (the (ge_peer env socket)) (gw_agents g) of
      None \<Rightarrow> handled env socket (fail_message socket ''AGENT_UNKNOWN''
        ''The certificate is not associated with an agent.'' True g)
    | Some agent \<Rightarrow>
        if ag_revokedAt agent \<noteq> None
        then handled env socket (fail_message socket ''AGENT_REVOKED''
          ''The agent credential has been revoked.'' True g)
        else if ag_certificateNotAfter agent \<le> now
        then handled env socket (fail_message socket ''AGENT_CERT_EXPIRED''
          ''The agent certificate has expired.'' True g)
        else if truthy (st_agentId st) \<and> st_agentId st \<noteq> Some (ag_id agent)
        then handled env socket (fail_message socket ''AGENT_IDENTITY_MISMATCH''
          ''The connection identity changed.'' True g)
        else dispatch_message env now socket (ag_id agent) (st_helloReceived st) message g)"

definition renewAfter :: "gateway_env \<Rightarrow> int \<Rightarrow> int" where
  "renewAfter env notAfter = notAfter - ge_renewBefore env * 1000"

text \<open>What the certificate authority answers: an error with a sentence of its own, another error, a certificate.\<close>

datatype issue_outcome = RequestRefused string | IssueFailed | Issued certificate

text \<open>One wait is over: the rest of the handler up to its next wait.\<close>

definition resume :: "gateway_env \<Rightarrow> int \<Rightarrow> issue_outcome \<Rightarrow> socket \<Rightarrow> gateway \<Rightarrow> gateway" where
  "resume env now issued socket g = (case gw_states g socket of
      None \<Rightarrow> g
    | Some st \<Rightarrow> (case st_task st of
        Idle \<Rightarrow> g
      | Identifying message \<Rightarrow> identified env now socket st message g
      | Marking agentId agentVersion capabilities \<Rightarrow>
          wait_for (MarkingFirst now agentId) socket
            (in_registry (markConnected now agentId agentVersion capabilities) g)
      | MarkingFirst seenAt agentId \<Rightarrow>
          wait_for (Fetching agentId) socket (in_registry (markFirstSeen seenAt agentId) g)
      | Fetching agentId \<Rightarrow>
          (let notAfter = (case findById agentId (gw_agents g) of
                 Some agent \<Rightarrow> ag_certificateNotAfter agent | None \<Rightarrow> now)
           in wait_for (Announcing agentId) socket (start_polling agentId
             (send socket (HelloAck agentId HEARTBEAT_INTERVAL_SECONDS notAfter (renewAfter env notAfter)) g)))
      | Announcing agentId \<Rightarrow> handled env socket (take_note (Connected agentId) g)
      | Touching agentId \<Rightarrow>
          handled env socket (send socket HeartbeatAck (in_registry (touch now agentId) g))
      | Issuing agentId csr \<Rightarrow> (case issued of
          RequestRefused message \<Rightarrow>
            handled env socket (fail_message socket ''ENROLLMENT_CSR_INVALID'' message False g)
        | IssueFailed \<Rightarrow> handled env socket (fail_message socket ''ENROLLMENT_CSR_INVALID''
            ''The certificate request was not accepted.'' False g)
        | Issued certificate \<Rightarrow> wait_for (Replacing agentId certificate) socket g)
      | Replacing agentId certificate \<Rightarrow> wait_for (Auditing agentId certificate) socket
          (in_registry (replaceCertificate agentId certificate) g)
      | Auditing agentId certificate \<Rightarrow> handled env socket
          (send socket (CertificateRenewed (ce_pem certificate) (ce_notAfter certificate)
             (renewAfter env (ce_notAfter certificate)))
           (take_note (Renewed agentId (ce_serialHex certificate)) g))))"

text \<open>A wait ended in an error: the connection is destroyed and the handler of this chunk is over.\<close>

definition threw :: "socket \<Rightarrow> gateway \<Rightarrow> gateway" where
  "threw socket g = wait_for Idle socket (in_hub (destroy socket) g)"

section \<open>Connections come and go\<close>

definition fresh_state :: ConnectionState where
  "fresh_state = \<lparr>st_agentId = None, st_helloReceived = False, st_buffer = [], st_bytesBuffered = 0,
     st_closing = False, st_queue = [], st_task = Idle\<rparr>"

definition onConnection :: "socket \<Rightarrow> gateway \<Rightarrow> gateway" where
  "onConnection socket g = g\<lparr>gw_states := (gw_states g)(socket \<mapsto> fresh_state)\<rparr>"

definition arrive :: "socket \<Rightarrow> chunk \<Rightarrow> gateway \<Rightarrow> gateway" where
  "arrive socket chunk = on_state socket (\<lambda>st. st\<lparr>st_queue := st_queue st @ [chunk]\<rparr>)"

definition take_chunk :: "gateway_env \<Rightarrow> socket \<Rightarrow> gateway \<Rightarrow> gateway" where
  "take_chunk env socket g = (case gw_states g socket of
      Some st \<Rightarrow> (case (st_task st, st_queue st) of
          (Idle, chunk # rest) \<Rightarrow>
            onData env socket chunk (on_state socket (\<lambda>st. st\<lparr>st_queue := rest\<rparr>) g)
        | _ \<Rightarrow> g)
    | None \<Rightarrow> g)"

definition onClose :: "socket \<Rightarrow> gateway \<Rightarrow> gateway" where
  "onClose socket g =
    (let g1 = in_hub (abandon socket) (g\<lparr>gw_closed := socket # gw_closed g\<rparr>)
     in case Option.bind (gw_states g socket) st_agentId of
          None \<Rightarrow> g1
        | Some agentId \<Rightarrow>
            if agentId \<noteq> [] \<and> fst (release_connection agentId socket (gw_hub g1))
            then stop_polling agentId ((in_hub (\<lambda>h. snd (release_connection agentId socket h)) g1)
              \<lparr>gw_leaving := gw_leaving g @ [agentId]\<rparr>)
            else g1)"

text \<open>The detached writes of a disconnect: both, the first only, or none.\<close>

definition recordDisconnect :: "string \<Rightarrow> nat \<Rightarrow> gateway \<Rightarrow> gateway" where
  "recordDisconnect agentId writes g =
    (let g0 = g\<lparr>gw_leaving := remove1 agentId (gw_leaving g)\<rparr>;
         g1 = (if writes \<ge> 1 then in_registry (markDisconnected agentId) g0 else g0)
     in if writes \<ge> 2 then take_note (Disconnected agentId) g1 else g1)"

text \<open>
  Revoking a credential waits for the registry first; polling, streams and the live connection
  are ended after that wait, at some later time.
\<close>

definition revoke_agent :: "int \<Rightarrow> string \<Rightarrow> string \<Rightarrow> gateway \<Rightarrow> (js_error + unit) \<times> gateway" where
  "revoke_agent now agentId reason g = (case revoke now agentId reason (gw_agents g) of
      Inl error \<Rightarrow> (Inl error, g)
    | Inr rows \<Rightarrow> (Inr (), g\<lparr>gw_agents := rows\<rparr>))"

definition cut_off :: "string \<Rightarrow> gateway \<Rightarrow> gateway" where
  "cut_off agentId g = in_hub (\<lambda>h. snd (disconnect agentId
      (snd (endStreamsOf agentId ''AGENT_REVOKED'' ''The agent credential was revoked.'' h))))
    (stop_polling agentId g)"

definition onModuleInit :: "agent_entry list \<Rightarrow> gateway" where
  "onModuleInit rows = \<lparr>gw_hub = empty_hub, gw_states = Map.empty,
     gw_agents = snd (resetConnectionState rows), gw_polled = [], gw_closed = [], gw_leaving = [],
     gw_notes = []\<rparr>"

section \<open>Everything that can happen\<close>

text \<open>
  A chunk decodes to at most as many characters as it has bytes. A socket is new when it
  connects. An agent may be cut off at any time, so at any time after it was revoked too. The
  last rules are the callers of the dispatcher, the clock and enrolment.
\<close>

definition chunk_ok :: "chunk \<Rightarrow> bool" where
  "chunk_ok chunk \<longleftrightarrow> length (snd chunk) \<le> fst chunk"

inductive gateway_step :: "gateway_env \<Rightarrow> gateway \<Rightarrow> gateway \<Rightarrow> bool" for env where
  connects: "gw_states g socket = None \<Longrightarrow> gateway_step env g (onConnection socket g)"
| arrives: "\<not> is_destroyed g socket \<Longrightarrow> chunk_ok chunk \<Longrightarrow>
    gateway_step env g (arrive socket chunk g)"
| takes: "gateway_step env g (take_chunk env socket g)"
| resumes: "gateway_step env g (resume env now issued socket g)"
| throws: "gateway_step env g (threw socket g)"
| drops: "gateway_step env g (in_hub (destroy socket) g)"
| closes: "gateway_step env g (onClose socket g)"
| leaves: "gateway_step env g (recordDisconnect agentId writes g)"
| revokes: "gateway_step env g (snd (revoke_agent now agentId reason g))"
| cuts_off: "gateway_step env g (cut_off agentId g)"
| asks: "fresh uuid (gw_hub g) \<Longrightarrow>
    gateway_step env g (in_hub (\<lambda>h. snd (request_agent uuid now agentId capability payload h)) g)"
| opens: "fresh uuid (gw_hub g) \<Longrightarrow>
    gateway_step env g (in_hub (\<lambda>h. snd (openStream uuid streamId now agentId capability payload h)) g)"
| asks_in_vain: "gateway_step env g (in_hub (request_not_sent rid) g)"
| opens_in_vain: "gateway_step env g (in_hub (stream_not_sent rid) g)"
| cancels: "gateway_step env g (in_hub (cancelStream rid) g)"
| waits: "gateway_step env g (in_hub (elapse ms) g)"
| shuts_down: "gateway_step env g (in_hub closeAll g)"
| enrols: "ag_id agent \<noteq> [] \<Longrightarrow> gateway_step env g (in_registry (\<lambda>rows. rows @ [agent]) g)"

definition gateway_reachable :: "gateway_env \<Rightarrow> gateway \<Rightarrow> bool" where
  "gateway_reachable env g \<longleftrightarrow> (\<exists>rows. (\<forall>a \<in> set rows. ag_id a \<noteq> []) \<and>
     (gateway_step env)\<^sup>*\<^sup>* (onModuleInit rows) g)"

section \<open>What one handler changes\<close>

text \<open>
  Reading lines and refusing messages writes to the socket and moves the state of its own
  connection, apart from who it speaks for and what waits in its queue.
\<close>

definition kept_of :: "ConnectionState option \<Rightarrow> (string option \<times> bool \<times> chunk list) option" where
  "kept_of = map_option (\<lambda>st. (st_agentId st, st_helloReceived st, st_queue st))"

definition only_writes :: "socket \<Rightarrow> hub \<Rightarrow> hub \<Rightarrow> bool" where
  "only_writes socket h h' \<longleftrightarrow> (\<exists>messages. h' = fold (write_socket socket) messages h)"

definition local_to :: "socket \<Rightarrow> gateway \<Rightarrow> gateway \<Rightarrow> bool" where
  "local_to socket g g' \<longleftrightarrow>
     (\<forall>s. s \<noteq> socket \<longrightarrow> gw_states g' s = gw_states g s) \<and>
     kept_of (gw_states g' socket) = kept_of (gw_states g socket) \<and>
     gw_agents g' = gw_agents g \<and> gw_polled g' = gw_polled g \<and> gw_closed g' = gw_closed g \<and>
     gw_leaving g' = gw_leaving g \<and> gw_notes g' = gw_notes g \<and>
     only_writes socket (gw_hub g) (gw_hub g')"

lemma only_writes_refl: "only_writes socket h h"
  unfolding only_writes_def by (rule exI [of _ "[]"]) simp

lemma only_writes_one: "only_writes socket h (write_socket socket m h)"
  unfolding only_writes_def by (rule exI [of _ "[m]"]) simp

lemma only_writes_trans: "only_writes socket h h' \<Longrightarrow> only_writes socket h' h'' \<Longrightarrow> only_writes socket h h''"
  unfolding only_writes_def by (metis comp_apply fold_append)

lemma local_refl: "local_to socket g g"
  by (simp add: local_to_def only_writes_refl)

lemma local_trans: "local_to socket g g' \<Longrightarrow> local_to socket g' g'' \<Longrightarrow> local_to socket g g''"
  unfolding local_to_def using only_writes_trans by auto

lemma local_on_state:
  "(\<And>st. kept_of (Some (f st)) = kept_of (Some st)) \<Longrightarrow> local_to socket g (on_state socket f g)"
  using local_refl [of socket g] by (simp add: local_to_def on_state_def kept_of_def option.map_comp comp_def)

lemma local_send: "local_to socket g (send socket m g)"
  by (simp add: send_def in_hub_def local_to_def only_writes_one only_writes_refl)

lemma local_fail: "local_to socket g (fail_message socket code message close g)"
  by (auto simp: fail_message_def Let_def kept_of_def local_refl split: option.split
      intro!: local_send local_trans [OF local_send local_on_state])

lemma local_wait_for: "local_to socket g (wait_for t socket g)"
  unfolding wait_for_def by (rule local_on_state) (simp add: kept_of_def)

lemma local_take_line: "local_to socket g (take_line rest socket g)"
  unfolding take_line_def by (rule local_on_state) (simp add: kept_of_def)

lemma local_onMessage: "local_to socket g (onMessage env socket line g)"
  by (auto simp: onMessage_def intro: local_fail local_wait_for split: option.split)

lemma local_read_lines: "local_to socket g (read_lines env socket g)"
proof (induction env socket g rule: read_lines.induct)
  case (1 env socket g)
  show ?case
  proof (cases "split_line (buffer_of g socket)")
    case (Some entry)
    then obtain raw rest where entry: "split_line (buffer_of g socket) = Some (raw, rest)"
      by (cases entry) auto
    have line: "local_to socket g (take_line rest socket g)" by (rule local_take_line)
    have message: "local_to socket g (onMessage env socket (trim raw) (take_line rest socket g))"
      using line local_onMessage by (rule local_trans)
    show ?thesis
      using 1 [OF entry refl refl refl] line message local_trans
      by (subst read_lines.simps) (auto simp: entry Let_def)
  qed (subst read_lines.simps, simp add: local_refl)
qed

lemma local_handled: "local_to socket g (handled env socket g)"
  unfolding handled_def Let_def
  using local_wait_for local_trans [OF local_wait_for local_read_lines] by (auto split: if_splits)

lemma local_onData: "local_to socket g (onData env socket chunk g)"
proof -
  have state: "local_to socket g (on_state socket f g)"
    if "\<And>st. kept_of (Some (f st)) = kept_of (Some st)" for f g
    using that by (rule local_on_state)
  show ?thesis
    by (auto simp: onData_def kept_of_def local_refl split: option.split
        intro!: local_trans [OF state local_read_lines] local_trans [OF local_fail state])
qed

section \<open>The state of one connection\<close>

definition task_agent :: "task \<Rightarrow> string option" where
  "task_agent t = (case t of Idle \<Rightarrow> None | Identifying _ \<Rightarrow> None | Marking a _ _ \<Rightarrow> Some a
     | MarkingFirst _ a \<Rightarrow> Some a | Fetching a \<Rightarrow> Some a | Announcing a \<Rightarrow> Some a | Touching a \<Rightarrow> Some a | Issuing a _ \<Rightarrow> Some a
     | Replacing a _ \<Rightarrow> Some a | Auditing a _ \<Rightarrow> Some a)"

text \<open>
  The buffer is bounded and counted; who speaks is known exactly after a hello, and a handler
  that knows it works for nobody else; a refused connection has no handler; only a peer with a
  certificate is listened to.
\<close>

definition buffer_ok :: "gateway_env \<Rightarrow> ConnectionState \<Rightarrow> bool" where
  "buffer_ok env st \<longleftrightarrow> length (st_buffer st) \<le> st_bytesBuffered st \<and>
     length (st_buffer st) \<le> ge_maxMessageBytes env \<and>
     list_all chunk_ok (st_queue st)"

definition speaker_ok :: "ConnectionState \<Rightarrow> bool" where
  "speaker_ok st \<longleftrightarrow> (st_helloReceived st \<longleftrightarrow> st_agentId st \<noteq> None) \<and> st_agentId st \<noteq> Some []"

definition task_ok :: "gateway_env \<Rightarrow> socket \<Rightarrow> ConnectionState \<Rightarrow> bool" where
  "task_ok env socket st \<longleftrightarrow>
     (\<forall>a. task_agent (st_task st) = Some a \<longrightarrow> st_agentId st = Some a) \<and>
     (st_closing st \<longrightarrow> st_task st = Idle) \<and>
     (st_task st \<noteq> Idle \<longrightarrow> ge_peer env socket \<noteq> None)"

definition state_ok :: "gateway_env \<Rightarrow> socket \<Rightarrow> ConnectionState \<Rightarrow> bool" where
  "state_ok env socket st \<longleftrightarrow> buffer_ok env st \<and> speaker_ok st \<and> task_ok env socket st"

text \<open>As \<open>state_ok\<close>, for a handler that is about to go on or to stop.\<close>

definition running_ok :: "gateway_env \<Rightarrow> ConnectionState option \<Rightarrow> bool" where
  "running_ok env s \<longleftrightarrow> (\<forall>st. s = Some st \<longrightarrow> buffer_ok env st \<and> speaker_ok st)"

definition conn_ok :: "gateway_env \<Rightarrow> gateway \<Rightarrow> socket \<Rightarrow> bool" where
  "conn_ok env g socket \<longleftrightarrow> (\<forall>st. gw_states g socket = Some st \<longrightarrow> state_ok env socket st)"

lemma task_agent_simps [simp]:
  "task_agent Idle = None" "task_agent (Identifying m) = None" "task_agent (Marking a v c) = Some a"
  "task_agent (MarkingFirst t a) = Some a"
  "task_agent (Fetching a) = Some a" "task_agent (Announcing a) = Some a" "task_agent (Touching a) = Some a"
  "task_agent (Issuing a csr) = Some a" "task_agent (Replacing a ce) = Some a" "task_agent (Auditing a ce) = Some a"
  by (simp_all add: task_agent_def)

lemma states_simps [simp]:
  "gw_states (in_hub f g) = gw_states g" "gw_states (in_registry r g) = gw_states g"
  "gw_states (take_note n g) = gw_states g" "gw_states (start_polling a g) = gw_states g"
  "gw_states (stop_polling a g) = gw_states g" "gw_states (send socket m g) = gw_states g"
  "gw_states (on_state socket k g) s = (if s = socket then map_option k (gw_states g s) else gw_states g s)"
  "gw_hub (in_hub f g) = f (gw_hub g)" "gw_hub (in_registry r g) = gw_hub g"
  "gw_hub (take_note n g) = gw_hub g" "gw_hub (start_polling a g) = gw_hub g"
  "gw_hub (stop_polling a g) = gw_hub g" "gw_hub (on_state socket k g) = gw_hub g"
  "gw_agents (in_hub f g) = gw_agents g" "gw_agents (in_registry r g) = r (gw_agents g)"
  "gw_agents (take_note n g) = gw_agents g" "gw_agents (start_polling a g) = gw_agents g"
  "gw_agents (stop_polling a g) = gw_agents g" "gw_agents (send socket m g) = gw_agents g"
  "gw_agents (on_state socket k g) = gw_agents g"
  by (simp_all add: in_hub_def in_registry_def take_note_def start_polling_def stop_polling_def
      on_state_def send_def)

lemma states_fail:
  "gw_states (fail_message socket code message close g) socket =
     map_option (\<lambda>st. st\<lparr>st_closing := close \<or> st_closing st\<rparr>) (gw_states g socket)"
  by (auto simp: fail_message_def Let_def split: option.split)

lemma length_byteLength: "length s \<le> byteLength s"
proof (induction s)
  case (Cons c s)
  then show ?case by (simp add: byteLength_def)
qed simp

lemma running_ok_simps:
  assumes "running_ok env (gw_states g socket)"
  shows "running_ok env (gw_states (fail_message socket code message close g) socket)"
    "running_ok env (gw_states (wait_for t socket g) socket)"
  using assms by (auto simp: running_ok_def states_fail wait_for_def buffer_ok_def speaker_ok_def)

lemma running_ok_take_line:
  assumes "running_ok env (gw_states g socket)" "split_line (buffer_of g socket) = Some (raw, rest)"
  shows "running_ok env (gw_states (take_line rest socket g) socket)"
  using assms split_line_length [OF assms(2)] length_byteLength [of rest]
  by (auto simp: running_ok_def take_line_def buffer_of_def buffer_ok_def speaker_ok_def)

text \<open>A handler that stands still leaves its connection in order.\<close>

definition ready :: "gateway \<Rightarrow> socket \<Rightarrow> bool" where
  "ready g socket \<longleftrightarrow> (\<forall>st. gw_states g socket = Some st \<longrightarrow> st_task st = Idle \<and> \<not> st_closing st)"

lemma conn_ok_running: "conn_ok env g socket \<Longrightarrow> running_ok env (gw_states g socket)"
  by (auto simp: conn_ok_def running_ok_def state_ok_def)

lemma ready_standing: "\<not> standing g socket \<Longrightarrow> ready g socket"
  by (auto simp: standing_def ready_def)

lemma idle_ok:
  assumes "running_ok env (gw_states g socket)" "\<And>st. gw_states g socket = Some st \<Longrightarrow> st_task st = Idle"
  shows "conn_ok env g socket"
  using assms by (auto simp: conn_ok_def running_ok_def state_ok_def task_ok_def)

lemma fail_ready_ok:
  assumes "running_ok env (gw_states g socket)" "ready g socket"
  shows "conn_ok env (fail_message socket code message close g) socket"
  using assms by (intro idle_ok running_ok_simps) (auto simp: states_fail ready_def)

lemma onMessage_ok:
  assumes "running_ok env (gw_states g socket)" "ready g socket"
  shows "conn_ok env (onMessage env socket line g) socket"
proof -
  have "conn_ok env (wait_for (Identifying message) socket g) socket" if "ge_peer env socket \<noteq> None" for message
    using assms that
    by (auto simp: conn_ok_def running_ok_def state_ok_def task_ok_def buffer_ok_def speaker_ok_def
        wait_for_def ready_def)
  then show ?thesis using fail_ready_ok [OF assms] by (simp add: onMessage_def split: option.split)
qed

lemma ready_take_line: "ready g socket \<Longrightarrow> ready (take_line rest socket g) socket"
  by (auto simp: ready_def take_line_def)

lemma read_lines_ok:
  "running_ok env (gw_states g socket) \<Longrightarrow> ready g socket \<Longrightarrow> conn_ok env (read_lines env socket g) socket"
proof (induction env socket g rule: read_lines.induct)
  case (1 env socket g)
  show ?case
  proof (cases "split_line (buffer_of g socket)")
    case (Some entry)
    then obtain raw rest where entry: "split_line (buffer_of g socket) = Some (raw, rest)"
      by (cases entry) auto
    let ?g1 = "take_line rest socket g" and ?g2 = "onMessage env socket (trim raw) (take_line rest socket g)"
    have g1: "running_ok env (gw_states ?g1 socket)" "ready ?g1 socket"
      using running_ok_take_line [OF 1(3) entry] ready_take_line [OF 1(4)] by simp_all
    have g2: "conn_ok env ?g2 socket" using g1 by (rule onMessage_ok)
    show ?thesis
      using 1(1,2) [OF entry refl refl refl] g1 g2 conn_ok_running [OF g2] ready_standing [of ?g2 socket]
      by (subst read_lines.simps) (auto simp: entry Let_def)
  next
    case None
    with 1 show ?thesis by (subst read_lines.simps) (auto simp: ready_def intro: idle_ok)
  qed
qed

lemma handled_ok:
  assumes "running_ok env (gw_states g socket)"
  shows "conn_ok env (handled env socket g) socket"
proof -
  have "running_ok env (gw_states (wait_for Idle socket g) socket)" using assms by (rule running_ok_simps)
  moreover from this have "conn_ok env (wait_for Idle socket g) socket"
    by (rule idle_ok) (auto simp: wait_for_def)
  ultimately show ?thesis
    by (simp add: handled_def Let_def read_lines_ok ready_standing)
qed

lemma onData_ok:
  assumes "conn_ok env g socket" "ready g socket" "chunk_ok chunk"
  shows "conn_ok env (onData env socket chunk g) socket"
proof (cases "gw_states g socket")
  case (Some st)
  let ?text = "on_state socket (\<lambda>st. st\<lparr>st_buffer := st_buffer st @ snd chunk,
    st_bytesBuffered := st_bytesBuffered st + fst chunk\<rparr>) g"
  let ?failed = "fail_message socket ''AGENT_MESSAGE_TOO_LARGE'' ''The message exceeds the permitted size.'' True g"
  have running: "running_ok env (gw_states g socket)" using assms(1) by (rule conn_ok_running)
  have "conn_ok env ?failed socket" using running assms(2) by (rule fail_ready_ok)
  then have "conn_ok env (on_state socket (\<lambda>st. st\<lparr>st_buffer := [], st_bytesBuffered := 0\<rparr>) ?failed) socket"
    by (auto simp: conn_ok_def state_ok_def buffer_ok_def speaker_ok_def task_ok_def)
  moreover have "conn_ok env (read_lines env socket ?text) socket"
    if "st_bytesBuffered st + fst chunk \<le> ge_maxMessageBytes env"
    using running assms(2,3) Some that
    by (intro read_lines_ok)
      (auto simp: running_ok_def buffer_ok_def speaker_ok_def ready_def chunk_ok_def)
  ultimately show ?thesis using Some assms(1) by (simp add: onData_def not_less)
qed (use assms in \<open>simp add: onData_def\<close>)

section \<open>Which connections are registered\<close>

text \<open>What the dispatcher does for requests and streams leaves the connections alone.\<close>

lemma fold_same: "(\<And>x h. view (f x h) = view h) \<Longrightarrow> view (fold f xs h) = view h"
  by (induction xs arbitrary: h) simp_all

lemma connections_simps [simp]:
  "h_connections (tell e h) = h_connections h" "h_connections (write_socket s m h) = h_connections h"
  "h_connections (destroy s h) = h_connections h"
  by (simp_all add: tell_def write_socket_def destroy_def)

lemma connections_ends [simp]:
  "h_connections (settleWithError rid e h) = h_connections h"
  "h_connections (endStream rid reason err h) = h_connections h"
  "h_connections (request_timer rid h) = h_connections h"
  by (simp_all add: settleWithError_def endStream_def request_timer_def split: option.split)

lemma connections_fire [simp]:
  "h_connections (stream_timer rid h) = h_connections h" "h_connections (fire t h) = h_connections h"
proof -
  show "h_connections (stream_timer rid h) = h_connections h" for rid h
    by (simp add: stream_timer_def split: option.split)
  then show "h_connections (fire t h) = h_connections h" by (cases t) simp_all
qed

lemma connections_kept [simp]:
  "h_connections (snd (request_agent uuid now a c body h)) = h_connections h"
  "h_connections (snd (openStream uuid sid now a c body h)) = h_connections h"
  "h_connections (snd (settle_reply s rid c status payload err h)) = h_connections h"
  "h_connections (snd (acceptStreamStart s rid c sid h)) = h_connections h"
  "h_connections (snd (acceptStreamChunk s rid sid seq payload dropped h)) = h_connections h"
  "h_connections (snd (acceptStreamEnd s rid sid reason err h)) = h_connections h"
  "h_connections (cancelStream rid h) = h_connections h"
  "h_connections (request_not_sent rid h) = h_connections h"
  "h_connections (stream_not_sent rid h) = h_connections h"
  by (simp_all add: request_agent_def openStream_def settle_reply_def acceptStreamStart_def acceptStreamChunk_def
      acceptStreamEnd_def cancelStream_def request_not_sent_def stream_not_sent_def Let_def
      split: option.split)

lemma connections_folds [simp]:
  "h_connections (abandon s h) = h_connections h"
  "h_connections (snd (endStreamsOf a code message h)) = h_connections h"
  "h_connections (elapse ms h) = h_connections h"
proof -
  have "h_connections (abandon_request s x h) = h_connections h" for x h
    by (simp add: abandon_request_def)
  moreover have "h_connections (abandon_stream s x h) = h_connections h" for x h
    by (simp add: abandon_stream_def)
  ultimately show "h_connections (abandon s h) = h_connections h"
    by (simp add: abandon_def Let_def fold_same [where view = h_connections])
  have "h_connections (end_stream_of a (AgentError code message) x h) = h_connections h" for x h
    by (simp add: end_stream_of_def)
  then show "h_connections (snd (endStreamsOf a code message h)) = h_connections h"
    by (simp add: endStreamsOf_def fold_same [where view = h_connections])
  show "h_connections (elapse ms h) = h_connections h"
    by (simp add: elapse_def Let_def fold_same [where view = h_connections])
qed

definition registered_ok :: "gateway \<Rightarrow> bool" where
  "registered_ok g \<longleftrightarrow> (\<forall>a c. map_of (h_connections (gw_hub g)) a = Some c \<longrightarrow>
     cn_agentId c = a \<and> Option.bind (gw_states g (cn_socket c)) st_agentId = Some a)"

definition nearly_ok :: "gateway_env \<Rightarrow> socket \<Rightarrow> gateway \<Rightarrow> bool" where
  "nearly_ok env socket g \<longleftrightarrow> (\<forall>s. s \<noteq> socket \<longrightarrow> conn_ok env g s) \<and>
     running_ok env (gw_states g socket) \<and> hub_reachable (gw_hub g) \<and> registered_ok g \<and>
     (\<forall>a \<in> set (gw_agents g). ag_id a \<noteq> [])"

definition gateway_ok :: "gateway_env \<Rightarrow> gateway \<Rightarrow> bool" where
  "gateway_ok env g \<longleftrightarrow> (\<forall>s. conn_ok env g s) \<and> hub_reachable (gw_hub g) \<and> registered_ok g \<and>
     (\<forall>a \<in> set (gw_agents g). ag_id a \<noteq> [])"

lemma gateway_nearly_ok: "gateway_ok env g \<Longrightarrow> nearly_ok env socket g"
  by (auto simp: gateway_ok_def nearly_ok_def conn_ok_running)

lemma nearly_gateway_ok: "nearly_ok env socket g \<Longrightarrow> conn_ok env g socket \<Longrightarrow> gateway_ok env g"
  unfolding gateway_ok_def nearly_ok_def by metis

lemma only_writes_hub:
  assumes "only_writes socket h h'"
  shows "h_connections h' = h_connections h" "hub_reachable h \<Longrightarrow> hub_reachable h'"
proof -
  obtain ms where ms: "h' = fold (write_socket socket) ms h" using assms by (auto simp: only_writes_def)
  show "h_connections h' = h_connections h" by (simp add: ms fold_same [where view = h_connections])
  have "hub_step\<^sup>*\<^sup>* h (fold (write_socket socket) ms h)"
    by (induction ms arbitrary: h) (auto intro: converse_rtranclp_into_rtranclp wrote)
  then show "hub_reachable h \<Longrightarrow> hub_reachable h'" by (simp add: hub_reachable_def ms)
qed

lemma hub_reachable_step: "hub_reachable h \<Longrightarrow> hub_step h h' \<Longrightarrow> hub_reachable h'"
  unfolding hub_reachable_def by (rule rtranclp.rtrancl_into_rtrancl)

lemma local_agentId: "local_to socket g g' \<Longrightarrow> Option.bind (gw_states g' s) st_agentId = Option.bind (gw_states g s) st_agentId"
  by (cases "s = socket"; cases "gw_states g s"; cases "gw_states g' s")
    (auto simp: local_to_def kept_of_def)

lemma registered_ok_same:
  assumes "registered_ok g" "h_connections (gw_hub g') = h_connections (gw_hub g)"
    and "\<And>s. Option.bind (gw_states g' s) st_agentId = Option.bind (gw_states g s) st_agentId"
  shows "registered_ok g'"
  using assms by (simp add: registered_ok_def)

lemma registered_on_state:
  assumes "registered_ok g" "\<And>st. st_agentId (f st) = st_agentId st"
  shows "registered_ok (on_state socket f g)"
  using assms by (intro registered_ok_same [OF assms(1)]) (auto split: option.split simp: Option.bind_map_option comp_def)

lemma nearly_ok_local:
  assumes "local_to socket g g'" "nearly_ok env socket g" "running_ok env (gw_states g' socket)"
  shows "nearly_ok env socket g'"
proof -
  have "only_writes socket (gw_hub g) (gw_hub g')" using assms(1) by (simp add: local_to_def)
  note writes = only_writes_hub [OF this]
  show ?thesis
    using assms(2) writes local_agentId [OF assms(1)] assms(1,3)
    by (auto simp: nearly_ok_def registered_ok_def local_to_def conn_ok_def)
qed

lemma local_ok:
  assumes "local_to socket g g'" "nearly_ok env socket g" "conn_ok env g' socket"
  shows "gateway_ok env g'"
  using nearly_ok_local [OF assms(1,2) conn_ok_running [OF assms(3)]] assms(3) by (rule nearly_gateway_ok)

lemma handled_gateway_ok: "nearly_ok env socket g \<Longrightarrow> gateway_ok env (handled env socket g)"
  by (rule local_ok [OF local_handled]) (auto simp: nearly_ok_def intro: handled_ok)

lemma fail_nearly_ok: "nearly_ok env socket g \<Longrightarrow> nearly_ok env socket (fail_message socket code message close g)"
  by (rule nearly_ok_local [OF local_fail]) (auto simp: nearly_ok_def intro: running_ok_simps)

lemma send_nearly_ok: "nearly_ok env socket g \<Longrightarrow> nearly_ok env socket (send socket m g)"
  by (rule nearly_ok_local [OF local_send]) (auto simp: nearly_ok_def)

lemma wait_gateway_ok:
  assumes "nearly_ok env socket g"
    and "\<And>st. gw_states g socket = Some st \<Longrightarrow> \<not> st_closing st \<and> ge_peer env socket \<noteq> None \<and>
      (\<forall>a. task_agent t = Some a \<longrightarrow> st_agentId st = Some a)"
  shows "gateway_ok env (wait_for t socket g)"
proof (rule local_ok [OF local_wait_for assms(1)])
  show "conn_ok env (wait_for t socket g) socket"
    using assms by (auto simp: conn_ok_def nearly_ok_def running_ok_def state_ok_def task_ok_def
        wait_for_def buffer_ok_def speaker_ok_def)
qed

lemma aside_nearly_ok:
  assumes "nearly_ok env socket g"
  shows "nearly_ok env socket (take_note n g)" "nearly_ok env socket (start_polling a g)"
    "nearly_ok env socket (stop_polling a g)"
    "map ag_id (r (gw_agents g)) = map ag_id (gw_agents g) \<Longrightarrow> nearly_ok env socket (in_registry r g)"
proof -
  show "nearly_ok env socket (take_note n g)" "nearly_ok env socket (start_polling a g)"
      "nearly_ok env socket (stop_polling a g)"
    using assms by (simp_all add: nearly_ok_def conn_ok_def registered_ok_def)
  assume "map ag_id (r (gw_agents g)) = map ag_id (gw_agents g)"
  then have "ag_id ` set (r (gw_agents g)) = ag_id ` set (gw_agents g)" by (metis list.set_map)
  moreover have "[] \<notin> ag_id ` set (gw_agents g)" using assms by (auto simp: nearly_ok_def)
  ultimately have "\<forall>a \<in> set (r (gw_agents g)). ag_id a \<noteq> []" by (metis image_eqI)
  then show "nearly_ok env socket (in_registry r g)"
    using assms by (simp add: nearly_ok_def conn_ok_def registered_ok_def)
qed

lemma registry_ids [simp]:
  "map ag_id (markConnected now a v c rows) = map ag_id rows" "map ag_id (markFirstSeen now a rows) = map ag_id rows"
  "map ag_id (touch now a rows) = map ag_id rows"
  "map ag_id (markDisconnected a rows) = map ag_id rows"
  "map ag_id (replaceCertificate a ce rows) = map ag_id rows"
  by (simp_all add: markConnected_def markFirstSeen_def touch_def markDisconnected_def replaceCertificate_def map_upd_same)

text \<open>The connections may shrink, and the dispatcher may move, at any time.\<close>

lemma in_hub_ok:
  assumes "hub_step\<^sup>*\<^sup>* (gw_hub g) (f (gw_hub g))"
    and "map_of (h_connections (f (gw_hub g))) \<subseteq>\<^sub>m map_of (h_connections (gw_hub g))"
  shows "nearly_ok env socket g \<Longrightarrow> nearly_ok env socket (in_hub f g)"
    "gateway_ok env g \<Longrightarrow> gateway_ok env (in_hub f g)"
proof -
  have "hub_reachable (gw_hub g) \<Longrightarrow> hub_reachable (f (gw_hub g))" using assms(1) by (simp add: hub_reachable_def)
  moreover have "registered_ok g \<Longrightarrow> registered_ok (in_hub f g)"
    using assms(2) by (fastforce simp: registered_ok_def map_le_def dom_def)
  ultimately show "nearly_ok env socket g \<Longrightarrow> nearly_ok env socket (in_hub f g)"
      "gateway_ok env g \<Longrightarrow> gateway_ok env (in_hub f g)"
    by (simp_all add: nearly_ok_def gateway_ok_def conn_ok_def)
qed

lemmas hub_moves_once = r_into_rtranclp [of hub_step]

lemma start_hello_ok:
  assumes "nearly_ok env socket g" "gw_states g socket = Some st" "\<not> st_closing st"
    and "ge_peer env socket \<noteq> None" "a \<noteq> []" "st_agentId st = None \<or> st_agentId st = Some a"
  shows "gateway_ok env (start_hello env now socket a v c g)"
  unfolding start_hello_def
proof (rule wait_gateway_ok)
  let ?g = "on_state socket (\<lambda>st. st\<lparr>st_agentId := Some a, st_helloReceived := True\<rparr>) g"
  let ?h = "register now (ge_remoteAddress env socket) a socket (gw_hub g)"
  have reached: "hub_reachable ?h"
    using assms(1) by (auto simp: nearly_ok_def intro: hub_reachable_step registered)
  have here: "map_of (h_connections ?h) = (map_of (h_connections (gw_hub g)))(a \<mapsto>
      \<lparr>cn_agentId = a, cn_socket = socket, cn_connectedAt = now, cn_remoteAddress = ge_remoteAddress env socket\<rparr>)"
    by (simp add: register_def Let_def AList.update_conv' split: option.split)
  have "registered_ok (in_hub (register now (ge_remoteAddress env socket) a socket) ?g)"
    unfolding registered_ok_def
  proof (intro allI impI)
    fix b d
    assume d: "map_of (h_connections (gw_hub (in_hub (register now (ge_remoteAddress env socket) a socket) ?g))) b = Some d"
    show "cn_agentId d = b \<and> Option.bind (gw_states (in_hub (register now
        (ge_remoteAddress env socket) a socket) ?g) (cn_socket d)) st_agentId = Some b"
    proof (cases "b = a")
      case True
      with d here assms(2) show ?thesis by auto
    next
      case False
      with d here have "map_of (h_connections (gw_hub g)) b = Some d" by simp
      with assms(1) have "cn_agentId d = b" "Option.bind (gw_states g (cn_socket d)) st_agentId = Some b"
        by (simp_all add: nearly_ok_def registered_ok_def)
      moreover from this(2) have "cn_socket d \<noteq> socket" using False assms(2,6) by auto
      ultimately show ?thesis by simp
    qed
  qed
  then show "nearly_ok env socket (in_hub (register now (ge_remoteAddress env socket) a socket) ?g)"
    using assms(1,5) reached
    by (auto simp: nearly_ok_def conn_ok_def running_ok_def buffer_ok_def speaker_ok_def)
qed (use assms in auto)

lemma onStreamMessage_ok: "nearly_ok env socket g \<Longrightarrow> nearly_ok env socket (onStreamMessage socket m g)"
  by (cases m) (auto intro!: in_hub_ok(1) hub_moves_once hub_step.intros)

lemma settle_nearly_ok:
  assumes "nearly_ok env socket g"
  shows "nearly_ok env socket (g\<lparr>gw_hub := snd (settle_reply socket rid c status payload err (gw_hub g))\<rparr>)"
proof -
  have "nearly_ok env socket (in_hub (\<lambda>h. snd (settle_reply socket rid c status payload err h)) g)"
    using assms by (auto intro!: in_hub_ok(1) hub_moves_once hub_step.intros)
  then show ?thesis by (simp add: in_hub_def)
qed

lemma dispatch_message_ok:
  assumes "nearly_ok env socket g" "gw_states g socket = Some st" "\<not> st_closing st"
    and "ge_peer env socket \<noteq> None" "a \<noteq> []" "st_agentId st = None \<or> st_agentId st = Some a"
    and "hello = st_helloReceived st" "speaker_ok st"
  shows "gateway_ok env (dispatch_message env now socket a hello message g)"
proof -
  have refuse: "gateway_ok env (handled env socket (say_hello_first socket g))"
    unfolding say_hello_first_def using assms(1) by (intro handled_gateway_ok fail_nearly_ok)
  have waits: "gateway_ok env (wait_for t socket g)" if "hello" "task_agent t = Some a" for t
    using assms that by (intro wait_gateway_ok) (auto simp: speaker_ok_def)
  show ?thesis
  proof (cases message)
    case (HelloMessage v av caps)
    then show ?thesis using start_hello_ok [OF assms(1-6)] by simp
  next
    case (CapabilityResponseMessage v rid c status payload err)
    have "nearly_ok env socket (g\<lparr>gw_hub := snd (settle_reply socket rid c status payload err (gw_hub g))\<rparr>)"
      using assms(1) by (rule settle_nearly_ok)
    with CapabilityResponseMessage refuse show ?thesis
      by (auto simp: Let_def split: prod.split intro!: handled_gateway_ok fail_nearly_ok)
  qed (use assms(1) refuse waits in \<open>auto intro!: handled_gateway_ok onStreamMessage_ok
      simp del: onStreamMessage.simps simp: say_hello_first_def\<close>)
qed

lemma identified_ok:
  assumes "gateway_ok env g" "gw_states g socket = Some st" "st_task st = Identifying message"
  shows "gateway_ok env (identified env now socket st message g)"
proof -
  have st: "state_ok env socket st" using assms(1,2) by (auto simp: gateway_ok_def conn_ok_def)
  have refuse: "gateway_ok env (handled env socket (fail_message socket code why True g))" for code why
    using gateway_nearly_ok [OF assms(1)] by (intro handled_gateway_ok fail_nearly_ok)
  have "gateway_ok env (dispatch_message env now socket (ag_id agent) (st_helloReceived st) message g)"
    if "findByFingerprint (the (ge_peer env socket)) (gw_agents g) = Some agent"
      "\<not> (truthy (st_agentId st) \<and> st_agentId st \<noteq> Some (ag_id agent))" for agent
  proof (rule dispatch_message_ok)
    have "agent \<in> set (gw_agents g)" using that(1) by (auto simp: findByFingerprint_def dest: find_SomeD)
    then show "ag_id agent \<noteq> []" using assms(1) by (auto simp: gateway_ok_def)
    show "st_agentId st = None \<or> st_agentId st = Some (ag_id agent)"
      using that(2) st by (auto simp: truthy_iff state_ok_def speaker_ok_def)
  qed (use assms st gateway_nearly_ok [OF assms(1)] in \<open>auto simp: state_ok_def task_ok_def\<close>)
  with refuse show ?thesis by (auto simp: identified_def split: option.split)
qed

lemma resume_ok:
  assumes "gateway_ok env g"
  shows "gateway_ok env (resume env now issued socket g)"
proof (cases "gw_states g socket")
  case (Some st)
  have near: "nearly_ok env socket g" using assms by (rule gateway_nearly_ok)
  have st: "state_ok env socket st" using assms Some by (auto simp: gateway_ok_def conn_ok_def)
  have go: "\<not> st_closing st" "ge_peer env socket \<noteq> None" if "st_task st \<noteq> Idle"
    using st that by (auto simp: state_ok_def task_ok_def)
  have who: "st_agentId st = Some a" if "task_agent (st_task st) = Some a" for a
    using st that by (auto simp: state_ok_def task_ok_def)
  have near': "nearly_ok env socket (in_registry r g)"
    if "map ag_id (r (gw_agents g)) = map ag_id (gw_agents g)" for r
    using near that by (rule aside_nearly_ok)
  show ?thesis
  proof (cases "st_task st")
    case (Identifying message)
    with Some assms show ?thesis by (simp add: resume_def identified_ok)
  next
    case (Marking a v c)
    with Some go who near' show ?thesis
      by (auto simp: resume_def intro!: wait_gateway_ok)
  next
    case (MarkingFirst t a)
    with Some go who near' show ?thesis
      by (auto simp: resume_def intro!: wait_gateway_ok)
  next
    case (Fetching a)
    with Some go who near show ?thesis
      by (auto simp: resume_def Let_def intro!: wait_gateway_ok aside_nearly_ok send_nearly_ok)
  next
    case (Issuing a csr)
    with Some go who near show ?thesis
      by (cases issued) (auto simp: resume_def intro!: wait_gateway_ok handled_gateway_ok fail_nearly_ok)
  next
    case (Replacing a ce)
    with Some go who near' show ?thesis
      by (auto simp: resume_def intro!: wait_gateway_ok)
  qed (use Some near near' assms in \<open>auto simp: resume_def
      intro!: handled_gateway_ok send_nearly_ok aside_nearly_ok\<close>)
qed (use assms in \<open>simp add: resume_def\<close>)

lemma take_chunk_ok:
  assumes "gateway_ok env g"
  shows "gateway_ok env (take_chunk env socket g)"
proof (cases "gw_states g socket")
  case (Some st)
  have ok: "state_ok env socket st" using assms Some by (auto simp: gateway_ok_def conn_ok_def)
  show ?thesis
  proof (cases "st_queue st")
    case (Cons chunk rest)
    let ?g = "on_state socket (\<lambda>st. st\<lparr>st_queue := rest\<rparr>) g"
    have near: "nearly_ok env socket ?g" and here: "conn_ok env ?g socket"
      using gateway_nearly_ok [OF assms, of socket] Some ok Cons
      by (auto simp: nearly_ok_def conn_ok_def running_ok_def state_ok_def buffer_ok_def
          speaker_ok_def task_ok_def intro: registered_on_state)
    have "gateway_ok env (onData env socket chunk ?g)" if "st_task st = Idle"
    proof (cases "st_closing st")
      case True
      with Some have "onData env socket chunk ?g = ?g" by (simp add: onData_def)
      with nearly_gateway_ok [OF near here] show ?thesis by simp
    next
      case False
      with that Some ok Cons have "ready ?g socket" "chunk_ok chunk"
        by (auto simp: ready_def state_ok_def buffer_ok_def)
      with here have "conn_ok env (onData env socket chunk ?g) socket" by (rule onData_ok)
      with local_onData near show ?thesis by (rule local_ok)
    qed
    with Some Cons assms show ?thesis by (simp add: take_chunk_def split: task.split)
  qed (use assms Some in \<open>simp add: take_chunk_def split: task.split\<close>)
qed (use assms in \<open>simp add: take_chunk_def\<close>)

lemma gateway_ok_same:
  assumes "gateway_ok env g" "gw_states g' = gw_states g" "gw_hub g' = gw_hub g"
    and "ag_id ` set (gw_agents g') = ag_id ` set (gw_agents g)"
  shows "gateway_ok env g'"
proof -
  have "[] \<notin> ag_id ` set (gw_agents g')" using assms(1,4) by (auto simp: gateway_ok_def)
  then have "\<forall>a \<in> set (gw_agents g'). ag_id a \<noteq> []" by (metis image_eqI)
  then show ?thesis using assms by (simp add: gateway_ok_def conn_ok_def registered_ok_def)
qed

lemma onConnection_ok:
  assumes "gateway_ok env g" "gw_states g socket = None"
  shows "gateway_ok env (onConnection socket g)"
proof -
  have "registered_ok (onConnection socket g)"
    by (rule registered_ok_same [of g]) (use assms in \<open>auto simp: gateway_ok_def onConnection_def fresh_state_def\<close>)
  moreover have "conn_ok env (onConnection socket g) s" for s
    using assms(1) by (auto simp: gateway_ok_def conn_ok_def onConnection_def fresh_state_def state_ok_def
        buffer_ok_def speaker_ok_def task_ok_def)
  ultimately show ?thesis using assms(1) by (simp add: gateway_ok_def) (simp add: onConnection_def)
qed

lemma arrive_ok: "gateway_ok env g \<Longrightarrow> chunk_ok chunk \<Longrightarrow> gateway_ok env (arrive socket chunk g)"
  by (auto simp: gateway_ok_def conn_ok_def arrive_def state_ok_def buffer_ok_def speaker_ok_def
      task_ok_def intro: registered_on_state)

lemma threw_ok:
  assumes "gateway_ok env g"
  shows "gateway_ok env (threw socket g)"
proof -
  have "gateway_ok env (in_hub (destroy socket) g)"
    using assms by (auto intro!: in_hub_ok(2) hub_moves_once hub_step.intros)
  then have "nearly_ok env socket (in_hub (destroy socket) g)" by (rule gateway_nearly_ok)
  moreover from this have "conn_ok env (wait_for Idle socket (in_hub (destroy socket) g)) socket"
    by (intro idle_ok running_ok_simps) (auto simp: nearly_ok_def wait_for_def)
  ultimately show ?thesis unfolding threw_def by (intro local_ok [OF local_wait_for])
qed

lemma release_le: "map_of (h_connections (snd (release_connection a s h))) \<subseteq>\<^sub>m map_of (h_connections h)"
  by (auto simp: release_connection_def AList.delete_conv' map_le_def)

lemma disconnect_le: "map_of (h_connections (snd (disconnect a h))) \<subseteq>\<^sub>m map_of (h_connections h)"
  by (auto simp: disconnect_def AList.delete_conv' map_le_def split: option.splits)

lemma onClose_ok:
  assumes "gateway_ok env g"
  shows "gateway_ok env (onClose socket g)"
proof -
  have "gateway_ok env (g\<lparr>gw_closed := socket # gw_closed g\<rparr>)" by (rule gateway_ok_same [OF assms]) simp_all
  then have gone: "gateway_ok env (in_hub (abandon socket) (g\<lparr>gw_closed := socket # gw_closed g\<rparr>))"
    by (auto intro!: in_hub_ok(2) hub_moves_once hub_step.intros)
  let ?g = "\<lambda>a. in_hub (\<lambda>h. snd (release_connection a socket h))
    (in_hub (abandon socket) (g\<lparr>gw_closed := socket # gw_closed g\<rparr>))"
  have "gateway_ok env (stop_polling a (?g a\<lparr>gw_leaving := l\<rparr>))" for a l
  proof -
    have "gateway_ok env (?g a)"
      using gone release_le by (auto intro!: in_hub_ok(2) hub_moves_once hub_step.intros)
    then show ?thesis by (rule gateway_ok_same) simp_all
  qed
  with gone show ?thesis by (auto simp: onClose_def Let_def split: option.split)
qed

lemma recordDisconnect_ok:
  assumes "gateway_ok env g"
  shows "gateway_ok env (recordDisconnect a n g)"
proof (rule gateway_ok_same [OF assms])
  have "ag_id ` set (markDisconnected a (gw_agents g)) = ag_id ` set (gw_agents g)"
    by (metis list.set_map registry_ids(4))
  then show "ag_id ` set (gw_agents (recordDisconnect a n g)) = ag_id ` set (gw_agents g)"
    by (simp add: recordDisconnect_def Let_def)
qed (simp_all add: recordDisconnect_def Let_def)

lemma revoke_ids: "revoke now a reason rows = Inr rows' \<Longrightarrow> map ag_id rows' = map ag_id rows"
  by (auto simp: revoke_def map_upd_same split: if_splits)

lemma revoke_agent_ok: "gateway_ok env g \<Longrightarrow> gateway_ok env (snd (revoke_agent now a reason g))"
proof (cases "revoke now a reason (gw_agents g)")
  case (Inr rows)
  assume "gateway_ok env g"
  then have "gateway_ok env (g\<lparr>gw_agents := rows\<rparr>)"
    by (rule gateway_ok_same) (use arg_cong [OF revoke_ids [OF Inr], of set] in simp_all)
  then show ?thesis by (simp add: revoke_agent_def Inr)
qed (simp add: revoke_agent_def)

lemma cut_off_ok:
  assumes "gateway_ok env g"
  shows "gateway_ok env (cut_off a g)"
proof -
  let ?ends = "endStreamsOf a ''AGENT_REVOKED'' ''The agent credential was revoked.''"
  have "gateway_ok env (stop_polling a g)" by (rule gateway_ok_same [OF assms]) simp_all
  then have "gateway_ok env (in_hub (\<lambda>h. snd (?ends h)) (stop_polling a g))"
    by (auto intro!: in_hub_ok(2) hub_moves_once hub_step.intros)
  then have "gateway_ok env (in_hub (\<lambda>h. snd (disconnect a h)) (in_hub (\<lambda>h. snd (?ends h)) (stop_polling a g)))"
    using disconnect_le by (auto intro!: in_hub_ok(2) hub_moves_once hub_step.intros)
  then show ?thesis by (simp add: cut_off_def in_hub_def)
qed

lemma gateway_step_ok:
  assumes "gateway_step env g g'" "gateway_ok env g"
  shows "gateway_ok env g'"
  using assms
proof (induction rule: gateway_step.induct)
  case (enrols agent g)
  then show ?case by (auto simp: gateway_ok_def conn_ok_def registered_ok_def)
qed (auto simp: closeAll_def intro: onConnection_ok arrive_ok take_chunk_ok resume_ok threw_ok onClose_ok recordDisconnect_ok
    revoke_agent_ok cut_off_ok intro!: in_hub_ok(2) hub_moves_once hub_step.intros)

lemma reachable_ok:
  assumes "gateway_reachable env g"
  shows "gateway_ok env g"
proof -
  obtain rows where rows: "\<forall>a \<in> set rows. ag_id a \<noteq> []" "(gateway_step env)\<^sup>*\<^sup>* (onModuleInit rows) g"
    using assms by (auto simp: gateway_reachable_def)
  have "map ag_id (snd (resetConnectionState rows)) = map ag_id rows"
    by (simp add: resetConnectionState_def Let_def map_upd_same)
  from arg_cong [OF this, of set] have "ag_id ` set (snd (resetConnectionState rows)) = ag_id ` set rows" by simp
  with rows(1) have "\<forall>a \<in> set (snd (resetConnectionState rows)). ag_id a \<noteq> []" by (metis imageE image_eqI)
  then have "gateway_ok env (onModuleInit rows)"
    by (simp add: gateway_ok_def conn_ok_def registered_ok_def onModuleInit_def hub_reachable_def empty_hub_def)
  with rows(2) show ?thesis by (induction rule: rtranclp_induct) (auto intro: gateway_step_ok)
qed

section \<open>Who a connection speaks for\<close>

definition speaker :: "gateway \<Rightarrow> socket \<Rightarrow> string option" where
  "speaker g socket = Option.bind (gw_states g socket) st_agentId"

lemma speaker_local: "local_to socket g g' \<Longrightarrow> speaker g' s = speaker g s"
  unfolding speaker_def by (rule local_agentId)

lemma speaker_simps [simp]:
  "speaker (in_hub f g) = speaker g" "speaker (in_registry r g) = speaker g"
  "speaker (take_note n g) = speaker g" "speaker (start_polling a g) = speaker g"
  "speaker (stop_polling a g) = speaker g" "speaker (send socket m g) = speaker g"
  "speaker (g\<lparr>gw_hub := h\<rparr>) = speaker g"
  by (simp_all add: speaker_def fun_eq_iff)

lemma speaker_handlers [simp]:
  "speaker (handled env socket g) = speaker g" "speaker (fail_message socket code message close g) = speaker g"
  "speaker (wait_for t socket g) = speaker g" "speaker (onData env socket chunk g) = speaker g"
  using speaker_local [OF local_handled] speaker_local [OF local_fail] speaker_local [OF local_wait_for]
    speaker_local [OF local_onData] by (simp_all add: fun_eq_iff)

lemma speaker_on_state:
  "(\<And>st. st_agentId (f st) = st_agentId st) \<Longrightarrow> speaker (on_state socket f g) = speaker g"
  by (auto simp: speaker_def fun_eq_iff Option.bind_map_option comp_def)

lemma speaker_onStreamMessage [simp]: "speaker (onStreamMessage socket m g) = speaker g"
  by (cases m) simp_all

lemma speaker_hello:
  "speaker (on_state socket (\<lambda>st. st\<lparr>st_agentId := Some a, st_helloReceived := True\<rparr>) g) s =
     (if s = socket \<and> gw_states g s \<noteq> None then Some a else speaker g s)"
  by (auto simp: speaker_def)

lemma speaker_dispatch:
  assumes "speaker (dispatch_message env now socket a hello m g) s \<noteq> speaker g s"
  shows "s = socket \<and> speaker (dispatch_message env now socket a hello m g) s = Some a"
  using assms
  by (cases m) (auto simp: start_hello_def say_hello_first_def Let_def speaker_hello
      split: if_splits prod.splits)

lemma speaker_resume:
  assumes "gateway_ok env g" "speaker (resume env now issued socket g) s \<noteq> speaker g s"
  shows "s = socket \<and> speaker g s = None \<and> (\<exists>agent \<in> set (gw_agents g).
    speaker (resume env now issued socket g) s = Some (ag_id agent) \<and>
    ge_peer env s = Some (ag_certificateFingerprint agent) \<and> ag_revokedAt agent = None \<and>
    now < ag_certificateNotAfter agent)"
proof -
  obtain st m where st: "gw_states g socket = Some st" "st_task st = Identifying m"
    using assms(2)
    by (auto simp: resume_def Let_def split: option.splits task.splits issue_outcome.splits)
  then have resumed: "resume env now issued socket g = identified env now socket st m g"
    by (simp add: resume_def)
  obtain agent where agent: "findByFingerprint (the (ge_peer env socket)) (gw_agents g) = Some agent"
      "ag_revokedAt agent = None" "now < ag_certificateNotAfter agent"
      "\<not> (truthy (st_agentId st) \<and> st_agentId st \<noteq> Some (ag_id agent))"
      "resume env now issued socket g = dispatch_message env now socket (ag_id agent) (st_helloReceived st) m g"
    using assms(2) unfolding resumed identified_def by (auto split: option.splits if_splits)
  have "s = socket" and after: "speaker (resume env now issued socket g) s = Some (ag_id agent)"
    using speaker_dispatch assms(2) unfolding agent(5) by blast+
  moreover have ok: "state_ok env socket st" using assms(1) st(1) by (auto simp: gateway_ok_def conn_ok_def)
  moreover have "agent \<in> set (gw_agents g)" "ag_certificateFingerprint agent = the (ge_peer env socket)"
    using agent(1) by (auto simp: findByFingerprint_def dest: find_SomeD)
  ultimately show ?thesis
    using agent(2-4) st assms(2)
    by (auto simp: state_ok_def speaker_ok_def task_ok_def speaker_def truthy_iff)
qed

lemma speaker_take_chunk [simp]: "speaker (take_chunk env socket g) = speaker g"
  by (auto simp: take_chunk_def speaker_on_state split: option.split task.split list.split)

lemma speaker_comes_and_goes [simp]:
  "speaker (arrive socket chunk g) = speaker g" "speaker (threw socket g) = speaker g"
  "speaker (onClose socket g) = speaker g" "speaker (recordDisconnect a n g) = speaker g"
  "speaker (snd (revoke_agent now a reason g)) = speaker g" "speaker (cut_off a g) = speaker g"
  by (simp_all add: arrive_def speaker_on_state threw_def onClose_def recordDisconnect_def
      revoke_agent_def cut_off_def Let_def fun_eq_iff split: option.split sum.split) (simp_all add: speaker_def)

lemma refused_state:
  assumes "gw_states g socket = Some st"
  shows "local_to socket g (handled env socket (fail_message socket code message True g))"
    "gw_states (handled env socket (fail_message socket code message True g)) socket
       = Some (st\<lparr>st_closing := True, st_task := Idle\<rparr>)"
proof -
  show "local_to socket g (handled env socket (fail_message socket code message True g))"
    using local_fail local_handled by (rule local_trans)
  have "standing (wait_for Idle socket (fail_message socket code message True g)) socket"
    using assms by (simp add: standing_def wait_for_def states_fail)
  then show "gw_states (handled env socket (fail_message socket code message True g)) socket
      = Some (st\<lparr>st_closing := True, st_task := Idle\<rparr>)"
    using assms by (simp add: handled_def Let_def wait_for_def states_fail)
qed

section \<open>What waits in the queue\<close>

definition queued_bytes :: "ConnectionState \<Rightarrow> nat" where
  "queued_bytes st = sum_list (map fst (st_queue st))"

text \<open>Chunks of a single byte are enough.\<close>

lemma queue_grows:
  assumes "gateway_reachable env g" "gw_states g socket = Some st" "\<not> is_destroyed g socket"
  shows "\<exists>g' st'. gateway_reachable env g' \<and> gw_states g' socket = Some st' \<and>
    st_buffer st' = st_buffer st \<and> st_task st' = st_task st \<and> \<not> is_destroyed g' socket \<and>
    n \<le> queued_bytes st'"
proof (induction n)
  case 0
  with assms show ?case by auto
next
  case (Suc n)
  then obtain g' st' where grown: "gateway_reachable env g'" "gw_states g' socket = Some st'"
      "st_buffer st' = st_buffer st" "st_task st' = st_task st" "\<not> is_destroyed g' socket" "n \<le> queued_bytes st'"
    by blast
  let ?g = "arrive socket (1, ''x'') g'" and ?st = "st'\<lparr>st_queue := st_queue st' @ [(1, ''x'')]\<rparr>"
  have "gateway_step env g' ?g" using grown(5) by (rule arrives) (simp add: chunk_ok_def)
  then have "gateway_reachable env ?g"
    using grown(1) unfolding gateway_reachable_def by (meson rtranclp.rtrancl_into_rtrancl)
  moreover have "gw_states ?g socket = Some ?st" using grown(2) by (simp add: arrive_def)
  moreover have "\<not> is_destroyed ?g socket" using grown(5) by (simp add: arrive_def is_destroyed_def)
  moreover have "Suc n \<le> queued_bytes ?st" using grown(6) by (simp add: queued_bytes_def)
  ultimately show ?case using grown(3,4) by (intro exI [of _ ?g] exI [of _ ?st]) simp
qed

section \<open>An example\<close>

text \<open>One agent, its peer certificate, and a connection that sends a hello.\<close>

definition door_agent :: agent_entry where
  "door_agent = \<lparr>ag_id = ''a1'', ag_certificateFingerprint = ''f1'', ag_certificateSerial = ''01'',
     ag_certificateNotAfter = 1000, ag_version = None, ag_capabilities = [], ag_status = ''disconnected'',
     ag_firstSeenAt = None, ag_lastSeenAt = None, ag_revokedAt = None, ag_revocationReason = None\<rparr>"

definition door_env :: gateway_env where
  "door_env = \<lparr>ge_json_parse = (\<lambda>_. Some (write_message (HelloMessage (Finite 1) None []))),
     ge_show_number = (\<lambda>_. ''1''), ge_peer = (\<lambda>_. Some ''f1''), ge_remoteAddress = (\<lambda>_. None),
     ge_maxMessageBytes = 1024, ge_renewBefore = 0\<rparr>"

definition door_reading :: gateway where
  "door_reading = take_chunk door_env 7 (arrive 7 (3, [CHR ''{'', CHR ''}'', CHR 0x0A])
     (onConnection 7 (onModuleInit [door_agent])))"

definition door_connected :: gateway where
  "door_connected = resume door_env 0 IssueFailed 7 door_reading"

definition door_revoked :: gateway where
  "door_revoked = snd (revoke_agent 5 ''a1'' ''lost'' door_reading)"

lemma door_states:
  "map_option st_task (gw_states door_reading 7) = Some (Identifying (HelloMessage (Finite 1) None []))"
  "speaker door_reading 7 = None" "speaker door_connected 7 = Some ''a1''"
  "map_option (\<lambda>c. cn_socket c) (map_of (h_connections (gw_hub door_connected)) ''a1'') = Some 7"
  "map_option (\<lambda>a. ag_revokedAt a) (findByFingerprint ''f1'' (gw_agents door_revoked)) = Some (Some 5)"
  "map_option st_task (gw_states door_revoked 7) = Some (Identifying (HelloMessage (Finite 1) None []))"
  "\<not> is_destroyed door_reading 7"
  by code_simp+

lemma door_reachable:
  "gateway_reachable door_env door_reading" "gateway_reachable door_env door_connected"
  "gateway_reachable door_env door_revoked"
proof -
  let ?g0 = "onModuleInit [door_agent]"
  let ?g1 = "onConnection 7 ?g0"
  let ?g2 = "arrive 7 (3, [CHR ''{'', CHR ''}'', CHR 0x0A]) ?g1"
  have "gateway_step door_env ?g0 ?g1" by (rule connects) (simp add: onModuleInit_def)
  moreover have "gateway_step door_env ?g1 ?g2"
    by (rule arrives)
      (simp_all add: chunk_ok_def is_destroyed_def onConnection_def onModuleInit_def empty_hub_def)
  moreover have "gateway_step door_env ?g2 door_reading" unfolding door_reading_def by (rule takes)
  ultimately have reading: "(gateway_step door_env)\<^sup>*\<^sup>* ?g0 door_reading"
    by (meson converse_rtranclp_into_rtranclp rtranclp.rtrancl_refl)
  moreover have "gateway_step door_env door_reading door_connected"
    unfolding door_connected_def by (rule resumes)
  moreover have "gateway_step door_env door_reading door_revoked"
    unfolding door_revoked_def by (rule revokes)
  moreover have "\<forall>a \<in> set [door_agent]. ag_id a \<noteq> []" by (simp add: door_agent_def)
  ultimately show "gateway_reachable door_env door_reading" "gateway_reachable door_env door_connected"
      "gateway_reachable door_env door_revoked"
    unfolding gateway_reachable_def by (meson rtranclp.rtrancl_into_rtrancl)+
qed

lemma door_step: "gateway_step door_env door_reading door_connected"
  unfolding door_connected_def by (rule resumes)

text \<open>
  C23: who a connection speaks for changes in no step of the gateway but once, from nobody to
  an agent, and only where the wait for the lookup of a certificate is over on that very
  connection. At whatever time it is over, the agent is one whose registered certificate the peer
  presented, whose credential is not revoked, and whose certificate expires later than that time.
\<close>

theorem identity_from_certificate:
  assumes "gateway_reachable env g" "gateway_step env g g'" "speaker g' socket \<noteq> speaker g socket"
  shows "speaker g socket = None \<and> (\<exists>now issued. g' = resume env now issued socket g) \<and>
    (\<forall>now issued. g' = resume env now issued socket g \<longrightarrow> (\<exists>agent \<in> set (gw_agents g).
      speaker g' socket = Some (ag_id agent) \<and>
      ge_peer env socket = Some (ag_certificateFingerprint agent) \<and>
      ag_revokedAt agent = None \<and> now < ag_certificateNotAfter agent))"
proof -
  note resumed = speaker_resume [OF reachable_ok [OF assms(1)]]
  have "\<exists>now issued s. g' = resume env now issued s g"
    using assms(2,3)
    by cases (auto simp: speaker_def onConnection_def fresh_state_def split: if_splits)
  with assms(3) resumed show ?thesis by metis
qed

theorem identity_from_certificate_witness:
  "gateway_reachable door_env door_reading \<and> gateway_step door_env door_reading door_connected \<and>
   speaker door_connected 7 \<noteq> speaker door_reading 7 \<and> door_connected = resume door_env 0 IssueFailed 7 door_reading \<and>
   (\<exists>agent \<in> set (gw_agents door_reading). speaker door_connected 7 = Some (ag_id agent) \<and>
      ge_peer door_env 7 = Some (ag_certificateFingerprint agent) \<and> 0 < ag_certificateNotAfter agent)"
  using identity_from_certificate [OF door_reachable(1) door_step, of 7] door_connected_def
  by (simp add: door_reachable door_step door_states) blast

text \<open>
  C24: in every state the gateway can reach, the connection an agent is reached over is a socket
  whose hello was accepted for exactly that agent, so no socket carries two agents, and the
  dispatcher keeps its promises: requests are answered at most once, streams are in order, and
  replies are traceable to the socket they were sent over.
\<close>

theorem connections_identified:
  assumes "gateway_reachable env g" "map_of (h_connections (gw_hub g)) a = Some c"
  shows "speaker g (cn_socket c) = Some a \<and>
    (\<forall>b d. map_of (h_connections (gw_hub g)) b = Some d \<and> cn_socket d = cn_socket c \<longrightarrow> b = a) \<and>
    answered_once (gw_hub g) \<and> in_order (gw_hub g) \<and> traceable (gw_hub g)"
proof -
  have "gateway_ok env g" using assms(1) by (rule reachable_ok)
  then show ?thesis
    using assms(2) reachable_kept [of "gw_hub g"]
    by (auto simp: gateway_ok_def registered_ok_def speaker_def) (metis option.inject)
qed

theorem connections_identified_witness:
  "gateway_reachable door_env door_connected \<and>
   (\<exists>c. map_of (h_connections (gw_hub door_connected)) ''a1'' = Some c \<and> speaker door_connected (cn_socket c) = Some ''a1'')"
proof -
  obtain c where "map_of (h_connections (gw_hub door_connected)) ''a1'' = Some c"
    using door_states(4) by auto
  then show ?thesis using connections_identified [OF door_reachable(2)] door_reachable(2) by blast
qed



text \<open>
  C26: a message of an agent whose credential was revoked is refused whatever it is: the
  connection is marked for closing and nothing but the refusal happens, and a connection so
  marked handles nothing any more.
\<close>

theorem revoked_refused:
  assumes "gateway_reachable env g" "gw_states g socket = Some st"
  shows "(\<forall>message agent. st_task st = Identifying message \<and>
      findByFingerprint (the (ge_peer env socket)) (gw_agents g) = Some agent \<and> ag_revokedAt agent \<noteq> None \<longrightarrow>
      local_to socket g (resume env now issued socket g) \<and>
      (\<exists>st'. gw_states (resume env now issued socket g) socket = Some st' \<and> st_closing st')) \<and>
    (st_closing st \<longrightarrow> resume env now issued socket g = g \<and>
      gw_hub (take_chunk env socket g) = gw_hub g \<and> gw_agents (take_chunk env socket g) = gw_agents g)"
proof (intro conjI allI impI)
  have "state_ok env socket st" using reachable_ok [OF assms(1)] assms(2) by (auto simp: gateway_ok_def conn_ok_def)
  moreover assume "st_closing st"
  ultimately have "st_task st = Idle" by (simp add: state_ok_def task_ok_def)
  with \<open>st_closing st\<close> assms(2) show "resume env now issued socket g = g"
      "gw_hub (take_chunk env socket g) = gw_hub g" "gw_agents (take_chunk env socket g) = gw_agents g"
    by (simp_all add: resume_def take_chunk_def onData_def split: list.split)
next
  fix message agent
  assume revoked: "st_task st = Identifying message \<and>
    findByFingerprint (the (ge_peer env socket)) (gw_agents g) = Some agent \<and> ag_revokedAt agent \<noteq> None"
  then have "resume env now issued socket g = handled env socket (fail_message socket ''AGENT_REVOKED''
      ''The agent credential has been revoked.'' True g)"
    using assms(2) by (simp add: resume_def identified_def)
  with refused_state [OF assms(2)] show "local_to socket g (resume env now issued socket g)"
      "\<exists>st'. gw_states (resume env now issued socket g) socket = Some st' \<and> st_closing st'"
    by simp_all
qed

theorem revoked_refused_witness:
  "gateway_reachable door_env door_revoked \<and> local_to 7 door_revoked (resume door_env 6 IssueFailed 7 door_revoked)"
proof -
  obtain st where st: "gw_states door_revoked 7 = Some st" "st_task st = Identifying (HelloMessage (Finite 1) None [])"
    using door_states(6) by auto
  obtain agent where "findByFingerprint ''f1'' (gw_agents door_revoked) = Some agent" "ag_revokedAt agent = Some 5"
    using door_states(5) by auto
  then have "findByFingerprint (the (ge_peer door_env 7)) (gw_agents door_revoked) = Some agent"
      "ag_revokedAt agent \<noteq> None" by (simp_all add: door_env_def)
  with revoked_refused [OF door_reachable(3) st(1), of 6 IssueFailed] st(2) door_reachable(3)
  show ?thesis by blast
qed

text \<open>
  C27: a hello whose certificate is still being looked up when its connection closes is carried
  out all the same: the closed socket is registered as the connection of the agent, and since
  its close has been handled already nothing removes it but a new hello of that agent.
\<close>

theorem hello_after_close:
  assumes "gw_states g socket = Some st" "st_task st = Identifying (HelloMessage version agentVersion capabilities)"
    and "st_agentId st = None" "ge_peer env socket = Some fingerprint"
    and "findByFingerprint fingerprint (gw_agents g) = Some agent"
    and "ag_revokedAt agent = None" "now < ag_certificateNotAfter agent"
  shows "socket \<in> set (gw_closed (resume env now issued socket (onClose socket g))) \<and>
    map_option cn_socket (map_of (h_connections (gw_hub (resume env now issued socket (onClose socket g)))) (ag_id agent))
      = Some socket"
proof -
  have "onClose socket g = in_hub (abandon socket) (g\<lparr>gw_closed := socket # gw_closed g\<rparr>)"
    using assms(1,3) by (simp add: onClose_def Let_def)
  with assms have "resume env now issued socket (onClose socket g) = start_hello env now socket (ag_id agent)
      agentVersion capabilities (in_hub (abandon socket) (g\<lparr>gw_closed := socket # gw_closed g\<rparr>))"
    by (simp add: resume_def identified_def)
  moreover have "map_option cn_socket (map_of (h_connections (register now r a socket h)) a) = Some socket" for r a h
    by (simp add: register_def Let_def AList.update_conv' split: option.split)
  ultimately show ?thesis
    by (simp add: start_hello_def wait_for_def) (simp add: on_state_def in_hub_def)
qed

theorem hello_after_close_witness:
  "gateway_reachable door_env door_reading \<and>
   map_option cn_socket (map_of (h_connections (gw_hub (resume door_env 0 IssueFailed 7 (onClose 7 door_reading)))) ''a1'')
     = Some 7"
proof -
  obtain st where st: "gw_states door_reading 7 = Some st" "st_task st = Identifying (HelloMessage (Finite 1) None [])"
    using door_states(1) by auto
  then have "st_agentId st = None" using door_states(2) by (simp add: speaker_def)
  moreover have "findByFingerprint ''f1'' (gw_agents door_reading) = Some door_agent" by code_simp
  ultimately show ?thesis
    using hello_after_close [OF st, of door_env "''f1''" door_agent 0 IssueFailed] door_reachable(1)
    by (simp add: door_env_def door_agent_def)
qed

end
