(* ===== verification/Stack_Plan.thy ===== *)
theory Stack_Plan
  imports App_Error
begin

text \<open>
  Turning a compiled Compose file into what an agent is asked to deploy:
  \<^verbatim>\<open>src/api/src/stacks/stack-plan.ts\<close>, on the plan type of
  \<^verbatim>\<open>compose-compiler.service.ts\<close>. A field that the source spreads only when it is present is an
  optional field here. The plan an agent receives is shown to name exactly the services of
  the compiled plan, each with the container allocated for it, and to refer to networks and
  volumes by the names the same plan creates.
\<close>

section \<open>The compiled plan\<close>

datatype mount_type = volume | bind

record plan_port =
  containerPort :: int
  hostPort :: "int option"
  protocol :: string
  hostIp :: "string option"

record plan_mount =
  m_type :: mount_type
  m_source :: string
  m_target :: string
  m_readOnly :: "bool option"

record plan_healthcheck =
  hc_test :: "string list"
  hc_intervalMs :: "int option"
  hc_timeoutMs :: "int option"
  hc_startPeriodMs :: "int option"
  hc_retries :: "int option"
  hc_disabled :: "bool option"

record plan_service =
  ps_serviceName :: string
  ps_containerName :: "string option"
  ps_image :: string
  ps_hostname :: "string option"
  ps_command :: "string list option"
  ps_entrypoint :: "string list option"
  ps_environment :: "(string \<times> string) list option"
  ps_ports :: "plan_port list option"
  ps_mounts :: "plan_mount list option"
  ps_networks :: "string list option"
  ps_restartPolicy :: string
  ps_labels :: "(string \<times> string) list option"
  ps_healthcheck :: "plan_healthcheck option"
  ps_dependsOn :: "string list option"

record plan_resource =
  pr_name :: string
  pr_dockerName :: "string option"
  pr_external :: bool
  pr_driver :: "string option"

record StackDeploymentPlan =
  sp_projectName :: string
  sp_services :: "plan_service list"
  sp_networks :: "plan_resource list"
  sp_volumes :: "plan_resource list"

section \<open>What the agent receives\<close>

record agent_healthcheck =
  ah_test :: "string list"
  ah_intervalMs :: "int option"
  ah_timeoutMs :: "int option"
  ah_startPeriodMs :: "int option"
  ah_retries :: "int option"

record agent_spec =
  as_name :: string
  as_image :: string
  as_hostname :: "string option"
  as_command :: "string list option"
  as_entrypoint :: "string list option"
  as_env :: "(string \<times> string) list"
  as_ports :: "plan_port list"
  as_mounts :: "plan_mount list"
  as_networks :: "string list"
  as_restartPolicy :: string
  as_labels :: "(string \<times> string) list option"
  as_healthcheck :: "agent_healthcheck option"

record AgentStackService =
  ag_serviceName :: string
  ag_containerId :: string
  ag_containerName :: string
  ag_dependsOn :: "string list option"
  ag_spec :: agent_spec

record agent_network =
  an_name :: string
  an_dockerName :: string
  an_driver :: "string option"

record agent_volume =
  av_name :: string
  av_dockerName :: string
  av_driver :: "string option"
  av_mustExist :: "bool option"

record AgentStackPlan =
  ap_planVersion :: nat
  ap_stackId :: string
  ap_revisionId :: string
  ap_projectName :: string
  ap_networks :: "agent_network list"
  ap_volumes :: "agent_volume list"
  ap_services :: "AgentStackService list"

definition STACK_PLAN_VERSION :: nat where "STACK_PLAN_VERSION = 2"

section \<open>Building it\<close>

text \<open>\<^verbatim>\<open>...(x ? {field: x} : {})\<close> and the same with the length of a list.\<close>

definition when_truthy :: "string option \<Rightarrow> string option" where
  "when_truthy v = (if truthy v then v else None)"

definition when_nonempty :: "'a list option \<Rightarrow> 'a list option" where
  "when_nonempty v = (case v of Some (x # xs) \<Rightarrow> v | _ \<Rightarrow> None)"

definition when_nonzero :: "int option \<Rightarrow> int option" where
  "when_nonzero v = (case v of Some n \<Rightarrow> if n = 0 then None else v | None \<Rightarrow> None)"

definition or_empty :: "'a list option \<Rightarrow> 'a list" where
  "or_empty v = (case v of Some xs \<Rightarrow> xs | None \<Rightarrow> [])"

definition no_container_name :: js_error where
  "no_container_name = AppErr (AppError ''STACK_CONFIGURATION_INVALID''
     ''This build cannot deploy the compiled plan: a service has no container name.'' 500)"

text \<open>The entries of the map, in the order of the services; the first service without a name throws.\<close>

fun container_name_entries :: "plan_service list \<Rightarrow> js_error + (string \<times> string) list" where
  "container_name_entries [] = Inr []"
| "container_name_entries (service # rest) = (case ps_containerName service of
      Some name \<Rightarrow> if name = [] then Inl no_container_name
        else (case container_name_entries rest of
            Inl e \<Rightarrow> Inl e
          | Inr entries \<Rightarrow> Inr ((ps_serviceName service, name) # entries))
    | None \<Rightarrow> Inl no_container_name)"

definition containerNames :: "StackDeploymentPlan \<Rightarrow> js_error + (string \<times> string) list" where
  "containerNames plan = container_name_entries (sp_services plan)"

definition healthcheckFor :: "plan_healthcheck \<Rightarrow> agent_healthcheck" where
  "healthcheckFor healthcheck =
    (if hc_disabled healthcheck = Some True
     then \<lparr>ah_test = [''NONE''], ah_intervalMs = None, ah_timeoutMs = None,
           ah_startPeriodMs = None, ah_retries = None\<rparr>
     else \<lparr>ah_test = hc_test healthcheck,
           ah_intervalMs = when_nonzero (hc_intervalMs healthcheck),
           ah_timeoutMs = when_nonzero (hc_timeoutMs healthcheck),
           ah_startPeriodMs = when_nonzero (hc_startPeriodMs healthcheck),
           ah_retries = when_nonzero (hc_retries healthcheck)\<rparr>)"

text \<open>Names resolved by a map from the logical name, the name itself where the map has none.\<close>

definition docker_names :: "plan_resource list \<Rightarrow> (string \<rightharpoonup> string)" where
  "docker_names resources = js_map (map (\<lambda>r. (pr_name r,
     (case pr_dockerName r of Some n \<Rightarrow> n | None \<Rightarrow> pr_name r))) resources)"

definition or_self :: "(string \<rightharpoonup> string) \<Rightarrow> string \<Rightarrow> string" where
  "or_self names name = (case names name of Some n \<Rightarrow> n | None \<Rightarrow> name)"

definition service_spec :: "(string \<rightharpoonup> string) \<Rightarrow> (string \<rightharpoonup> string) \<Rightarrow> string \<Rightarrow> plan_service \<Rightarrow> agent_spec" where
  "service_spec networkNames volumeNames containerName service =
    \<lparr>as_name = containerName,
     as_image = ps_image service,
     as_hostname = when_truthy (ps_hostname service),
     as_command = when_nonempty (ps_command service),
     as_entrypoint = when_nonempty (ps_entrypoint service),
     as_env = or_empty (ps_environment service),
     as_ports = or_empty (ps_ports service),
     as_mounts = map (\<lambda>mount. mount\<lparr>m_source := (if m_type mount = volume
         then or_self volumeNames (m_source mount) else m_source mount)\<rparr>) (or_empty (ps_mounts service)),
     as_networks = map (or_self networkNames) (or_empty (ps_networks service)),
     as_restartPolicy = ps_restartPolicy service,
     as_labels = ps_labels service,
     as_healthcheck = map_option healthcheckFor (ps_healthcheck service)\<rparr>"

definition deployment_not_prepared :: js_error where
  "deployment_not_prepared = AppErr (AppError ''STACK_DEPLOYMENT_FAILED''
     ''This deployment could not be prepared.'' 500)"

fun agent_services :: "(string \<rightharpoonup> string) \<Rightarrow> (string \<rightharpoonup> string) \<Rightarrow> (string \<rightharpoonup> string) \<Rightarrow> (string \<rightharpoonup> string)
    \<Rightarrow> plan_service list \<Rightarrow> js_error + AgentStackService list" where
  "agent_services networkNames volumeNames names containers [] = Inr []"
| "agent_services networkNames volumeNames names containers (service # rest) =
    (if \<not> truthy (containers (ps_serviceName service)) then Inl deployment_not_prepared
     else let containerName = the (names (ps_serviceName service)) in
       (case agent_services networkNames volumeNames names containers rest of
          Inl e \<Rightarrow> Inl e
        | Inr services \<Rightarrow> Inr (
            \<lparr>ag_serviceName = ps_serviceName service,
             ag_containerId = the (containers (ps_serviceName service)),
             ag_containerName = containerName,
             ag_dependsOn = when_nonempty (ps_dependsOn service),
             ag_spec = service_spec networkNames volumeNames containerName service\<rparr> # services)))"

definition agentPlanFor :: "string \<Rightarrow> string \<Rightarrow> StackDeploymentPlan \<Rightarrow> (string \<times> string) list
    \<Rightarrow> string list \<Rightarrow> js_error + AgentStackPlan" where
  "agentPlanFor stackId revisionId plan containers existingVolumes =
    (let networkNames = docker_names (sp_networks plan); volumeNames = docker_names (sp_volumes plan) in
     case containerNames plan of
       Inl e \<Rightarrow> Inl e
     | Inr names \<Rightarrow>
         (case agent_services networkNames volumeNames (js_map names) (js_map containers) (sp_services plan) of
            Inl e \<Rightarrow> Inl e
          | Inr services \<Rightarrow> Inr
             \<lparr>ap_planVersion = STACK_PLAN_VERSION,
              ap_stackId = stackId,
              ap_revisionId = revisionId,
              ap_projectName = sp_projectName plan,
              ap_networks = map (\<lambda>n. \<lparr>an_name = pr_name n, an_dockerName = the (networkNames (pr_name n)),
                  an_driver = when_truthy (pr_driver n)\<rparr>) (sp_networks plan),
              ap_volumes = map (\<lambda>v. \<lparr>av_name = pr_name v, av_dockerName = the (volumeNames (pr_name v)),
                  av_driver = when_truthy (pr_driver v),
                  av_mustExist = (if pr_name v \<in> set existingVolumes then Some True else None)\<rparr>)
                  (sp_volumes plan),
              ap_services = services\<rparr>))"

section \<open>Lemmas\<close>

lemma container_name_entries_Inr:
  "container_name_entries services = Inr entries \<longleftrightarrow>
   entries = map (\<lambda>s. (ps_serviceName s, the (ps_containerName s))) services
   \<and> (\<forall>s \<in> set services. truthy (ps_containerName s))"
proof (induction services arbitrary: entries)
  case (Cons s services)
  then show ?case by (cases "ps_containerName s") (auto split: sum.splits)
qed auto

lemma agent_services_Inr:
  "agent_services nn vn names containers services = Inr result \<longleftrightarrow>
   result = map (\<lambda>s. \<lparr>ag_serviceName = ps_serviceName s,
       ag_containerId = the (containers (ps_serviceName s)),
       ag_containerName = the (names (ps_serviceName s)),
       ag_dependsOn = when_nonempty (ps_dependsOn s),
       ag_spec = service_spec nn vn (the (names (ps_serviceName s))) s\<rparr>) services
   \<and> (\<forall>s \<in> set services. truthy (containers (ps_serviceName s)))"
proof (induction services arbitrary: result)
  case (Cons s services)
  then show ?case
    by (cases "agent_services nn vn names containers services") (auto simp: Let_def)
qed auto

lemma docker_names_total: "r \<in> set resources \<Longrightarrow> docker_names resources (pr_name r) \<noteq> None"
  unfolding docker_names_def js_map_None_iff by (auto simp: image_iff)

lemma agentPlanFor_Inr:
  "agentPlanFor stackId revisionId plan containers existing = Inr p \<Longrightarrow>
   (\<forall>s \<in> set (sp_services plan). truthy (ps_containerName s) \<and> truthy (js_map containers (ps_serviceName s)))
   \<and> agent_services (docker_names (sp_networks plan)) (docker_names (sp_volumes plan))
      (js_map (map (\<lambda>s. (ps_serviceName s, the (ps_containerName s))) (sp_services plan)))
      (js_map containers) (sp_services plan) = Inr (ap_services p)"
  by (auto simp: agentPlanFor_def containerNames_def container_name_entries_Inr agent_services_Inr Let_def
    split: sum.splits)

text \<open>What a mount and a network of the agent's plan have to do with what the Compose file wrote.\<close>

definition mount_refers :: "StackDeploymentPlan \<Rightarrow> AgentStackPlan \<Rightarrow> plan_mount \<Rightarrow> plan_mount \<Rightarrow> bool" where
  "mount_refers plan p given written \<longleftrightarrow>
     m_target given = m_target written \<and> m_type given = m_type written \<and>
     (m_type written = bind \<longrightarrow> m_source given = m_source written) \<and>
     (m_type written = volume \<and> m_source written \<in> pr_name ` set (sp_volumes plan) \<longrightarrow>
        (\<exists>v \<in> set (ap_volumes p). av_name v = m_source written \<and> av_dockerName v = m_source given))"

definition network_refers :: "StackDeploymentPlan \<Rightarrow> AgentStackPlan \<Rightarrow> string \<Rightarrow> string \<Rightarrow> bool" where
  "network_refers plan p given written \<longleftrightarrow> (written \<in> pr_name ` set (sp_networks plan) \<longrightarrow>
     (\<exists>n \<in> set (ap_networks p). an_name n = written \<and> an_dockerName n = given))"

lemma agentPlanFor_resources:
  assumes "agentPlanFor stackId revisionId plan containers existing = Inr p"
  shows "ap_networks p = map (\<lambda>n. \<lparr>an_name = pr_name n,
        an_dockerName = the (docker_names (sp_networks plan) (pr_name n)),
        an_driver = when_truthy (pr_driver n)\<rparr>) (sp_networks plan)"
    and "ap_volumes p = map (\<lambda>v. \<lparr>av_name = pr_name v,
        av_dockerName = the (docker_names (sp_volumes plan) (pr_name v)),
        av_driver = when_truthy (pr_driver v),
        av_mustExist = (if pr_name v \<in> set existing then Some True else None)\<rparr>) (sp_volumes plan)"
  using assms by (auto simp: agentPlanFor_def Let_def split: sum.splits)

lemma or_self_docker: "r \<in> set resources \<Longrightarrow>
    or_self (docker_names resources) (pr_name r) = the (docker_names resources (pr_name r))"
  using docker_names_total [of r resources] by (auto simp: or_self_def)

lemma service_spec_refers:
  assumes "agentPlanFor stackId revisionId plan containers existing = Inr p"
  shows "list_all2 (mount_refers plan p)
      (as_mounts (service_spec (docker_names (sp_networks plan)) (docker_names (sp_volumes plan)) n s))
      (or_empty (ps_mounts s))"
    and "list_all2 (network_refers plan p)
      (as_networks (service_spec (docker_names (sp_networks plan)) (docker_names (sp_volumes plan)) n s))
      (or_empty (ps_networks s))"
proof -
  have "mount_refers plan p (m\<lparr>m_source := (if m_type m = volume
      then or_self (docker_names (sp_volumes plan)) (m_source m) else m_source m)\<rparr>) m" for m
    by (auto simp: mount_refers_def agentPlanFor_resources(2) [OF assms] or_self_docker)
  then show "list_all2 (mount_refers plan p)
      (as_mounts (service_spec (docker_names (sp_networks plan)) (docker_names (sp_volumes plan)) n s))
      (or_empty (ps_mounts s))"
    by (simp add: service_spec_def list_all2_map1 list_all2_same)
  have "network_refers plan p (or_self (docker_names (sp_networks plan)) x) x" for x
    by (auto simp: network_refers_def agentPlanFor_resources(1) [OF assms] or_self_docker)
  then show "list_all2 (network_refers plan p)
      (as_networks (service_spec (docker_names (sp_networks plan)) (docker_names (sp_volumes plan)) n s))
      (or_empty (ps_networks s))"
    by (simp add: service_spec_def list_all2_map1 list_all2_same)
qed

lemma agentPlanFor_ok_iff:
  "(\<exists>p. agentPlanFor stackId revisionId plan containers existing = Inr p) \<longleftrightarrow>
   (\<forall>s \<in> set (sp_services plan). truthy (ps_containerName s) \<and> truthy (js_map containers (ps_serviceName s)))"
proof (cases "container_name_entries (sp_services plan)")
  case (Inl e)
  then have "\<not> (\<forall>s \<in> set (sp_services plan). truthy (ps_containerName s))"
    using container_name_entries_Inr [of "sp_services plan"] by auto
  with Inl show ?thesis by (auto simp: agentPlanFor_def containerNames_def Let_def)
next
  case (Inr entries)
  then have names: "\<forall>s \<in> set (sp_services plan). truthy (ps_containerName s)"
    by (simp add: container_name_entries_Inr)
  define result where "result = agent_services (docker_names (sp_networks plan))
    (docker_names (sp_volumes plan)) (js_map entries) (js_map containers) (sp_services plan)"
  have "(\<exists>services. result = Inr services) \<longleftrightarrow>
      (\<forall>s \<in> set (sp_services plan). truthy (js_map containers (ps_serviceName s)))"
    unfolding result_def agent_services_Inr by blast
  then show ?thesis
    using Inr names
    by (cases result) (auto simp: agentPlanFor_def containerNames_def Let_def simp flip: result_def)
qed

section \<open>Properties\<close>

text \<open>
  The agent is asked for exactly the services of the compiled plan, in order, each as the
  container resource allocated for it and under the container name the compiler resolved; a
  plan is refused exactly when some service lacks one of the two.
\<close>

theorem agentPlanFor_services:
  assumes "distinct (map ps_serviceName (sp_services plan))"
  shows "(\<forall>p. agentPlanFor stackId revisionId plan containers existing = Inr p \<longrightarrow>
      ap_stackId p = stackId \<and> ap_revisionId p = revisionId \<and>
      map (\<lambda>a. (ag_serviceName a, Some (ag_containerId a), Some (ag_containerName a))) (ap_services p)
        = map (\<lambda>s. (ps_serviceName s, js_map containers (ps_serviceName s), ps_containerName s))
            (sp_services plan)) \<and>
    ((\<exists>e. agentPlanFor stackId revisionId plan containers existing = Inl e) \<longleftrightarrow>
     (\<exists>s \<in> set (sp_services plan). \<not> truthy (ps_containerName s)
        \<or> \<not> truthy (js_map containers (ps_serviceName s))))"
proof -
  let ?names = "js_map (map (\<lambda>s. (ps_serviceName s, the (ps_containerName s))) (sp_services plan))"
  have names: "?names (ps_serviceName s) = Some (the (ps_containerName s))"
    if "s \<in> set (sp_services plan)" for s
    using that assms by (intro js_map_distinct) (auto simp: comp_def)
  show ?thesis
  proof (cases "agentPlanFor stackId revisionId plan containers existing")
    case (Inl e)
    then show ?thesis using agentPlanFor_ok_iff [of stackId revisionId plan containers existing] by auto
  next
    case (Inr p)
    note facts = agentPlanFor_Inr [OF Inr]
    then have "ap_services p = map (\<lambda>s. \<lparr>ag_serviceName = ps_serviceName s,
         ag_containerId = the (js_map containers (ps_serviceName s)),
         ag_containerName = the (?names (ps_serviceName s)),
         ag_dependsOn = when_nonempty (ps_dependsOn s),
         ag_spec = service_spec (docker_names (sp_networks plan)) (docker_names (sp_volumes plan))
           (the (?names (ps_serviceName s))) s\<rparr>) (sp_services plan)"
      by (simp only: agent_services_Inr)
    moreover have "ap_stackId p = stackId \<and> ap_revisionId p = revisionId"
      using Inr by (auto simp: agentPlanFor_def Let_def split: sum.splits)
    ultimately show ?thesis
      using Inr facts names by (auto simp: truthy_iff)
  qed
qed

definition shop_plan :: StackDeploymentPlan where
  "shop_plan = \<lparr>sp_projectName = ''shop'',
     sp_services = [\<lparr>ps_serviceName = ''web'', ps_containerName = Some ''shop-web-1'', ps_image = ''nginx'',
       ps_hostname = None, ps_command = None, ps_entrypoint = None, ps_environment = None,
       ps_ports = None, ps_mounts = Some [\<lparr>m_type = volume, m_source = ''data'', m_target = ''/d'',
         m_readOnly = None\<rparr>], ps_networks = Some [''default''], ps_restartPolicy = ''no'',
       ps_labels = None, ps_healthcheck = None, ps_dependsOn = None\<rparr>],
     sp_networks = [\<lparr>pr_name = ''default'', pr_dockerName = Some ''shop_default'', pr_external = False,
       pr_driver = None\<rparr>],
     sp_volumes = [\<lparr>pr_name = ''data'', pr_dockerName = Some ''shop_data'', pr_external = False,
       pr_driver = None\<rparr>]\<rparr>"

theorem agentPlanFor_services_witness:
  "distinct (map ps_serviceName (sp_services shop_plan)) \<and>
   (\<exists>p. agentPlanFor ''s'' ''r'' shop_plan [(''web'', ''c1'')] [] = Inr p)"
  using agentPlanFor_services [of shop_plan "''s''" "''r''" "[(''web'', ''c1'')]" "[]"]
  by (cases "agentPlanFor ''s'' ''r'' shop_plan [(''web'', ''c1'')] []")
    (simp_all add: shop_plan_def js_map_def)

text \<open>
  What a service is given refers to what the same plan creates: the source of a volume
  mount that the Compose file declares is the Docker name of a volume of the plan, a network
  likewise, a path that is bound is passed on as written, and a volume has to exist already
  exactly when the running revision used it.
\<close>

theorem agentPlanFor_resolves:
  assumes "agentPlanFor stackId revisionId plan containers existing = Inr p"
  shows "(\<forall>a \<in> set (ap_services p). \<exists>s \<in> set (sp_services plan).
      ag_serviceName a = ps_serviceName s \<and>
      list_all2 (mount_refers plan p) (as_mounts (ag_spec a)) (or_empty (ps_mounts s)) \<and>
      list_all2 (network_refers plan p) (as_networks (ag_spec a)) (or_empty (ps_networks s))) \<and>
    (\<forall>v \<in> set (ap_volumes p). av_mustExist v = Some True \<longleftrightarrow> av_name v \<in> set existing)"
proof -
  from agentPlanFor_Inr [OF assms] have "ap_services p = map (\<lambda>s. \<lparr>ag_serviceName = ps_serviceName s,
      ag_containerId = the (js_map containers (ps_serviceName s)),
      ag_containerName = the (js_map (map (\<lambda>s. (ps_serviceName s, the (ps_containerName s)))
         (sp_services plan)) (ps_serviceName s)),
      ag_dependsOn = when_nonempty (ps_dependsOn s),
      ag_spec = service_spec (docker_names (sp_networks plan)) (docker_names (sp_volumes plan))
        (the (js_map (map (\<lambda>s. (ps_serviceName s, the (ps_containerName s)))
         (sp_services plan)) (ps_serviceName s))) s\<rparr>) (sp_services plan)"
    by (simp only: agent_services_Inr)
  then have "\<exists>s \<in> set (sp_services plan). ag_serviceName a = ps_serviceName s
      \<and> list_all2 (mount_refers plan p) (as_mounts (ag_spec a)) (or_empty (ps_mounts s))
      \<and> list_all2 (network_refers plan p) (as_networks (ag_spec a)) (or_empty (ps_networks s))"
    if "a \<in> set (ap_services p)" for a
    using that service_spec_refers [OF assms] by auto
  moreover have "\<forall>v \<in> set (ap_volumes p). av_mustExist v = Some True \<longleftrightarrow> av_name v \<in> set existing"
    by (simp add: agentPlanFor_resources(2) [OF assms])
  ultimately show ?thesis by blast
qed

theorem agentPlanFor_resolves_witness:
  "\<exists>p. agentPlanFor ''s'' ''r'' shop_plan [(''web'', ''c1'')] [''data''] = Inr p \<and>
     (\<forall>v \<in> set (ap_volumes p). av_mustExist v = Some True \<longleftrightarrow> av_name v \<in> set [''data''])"
proof (cases "agentPlanFor ''s'' ''r'' shop_plan [(''web'', ''c1'')] [''data'']")
  case (Inl e)
  then show ?thesis
    by (simp add: agentPlanFor_def shop_plan_def containerNames_def js_map_def Let_def)
next
  case (Inr p)
  then show ?thesis using agentPlanFor_resolves [OF Inr] by blast
qed

end
