(* ===== verification/Js_Date.thy ===== *)
theory Js_Date
  imports Prelude
begin

text \<open>
  \<^verbatim>\<open>Date.parse\<close>, which the classifiers use to compare two start times reported by Docker. The
  date-time format of ECMAScript (a date, a time with seconds and an optional fraction, \<^verbatim>\<open>Z\<close>
  or a numeric offset) is parsed here; for every other string the language leaves the result
  to the engine, which is the argument \<open>legacy\<close>. \<open>None\<close> is \<^verbatim>\<open>NaN\<close>.
\<close>

section \<open>Calendar\<close>

definition leap_year :: "int \<Rightarrow> bool" where
  "leap_year y = (y mod 4 = 0 \<and> (y mod 100 \<noteq> 0 \<or> y mod 400 = 0))"

definition days_in_month :: "int \<Rightarrow> nat \<Rightarrow> nat" where
  "days_in_month y m = (if m = 2 then (if leap_year y then 29 else 28)
     else if m \<in> {4, 6, 9, 11} then 30 else 31)"

text \<open>Days from the first of January 1970, for a year, a month counted from 1 and a day.\<close>

definition days_before_year :: "int \<Rightarrow> int" where
  "days_before_year y = 365 * (y - 1970) + (y - 1969) div 4 - (y - 1901) div 100 + (y - 1601) div 400"

definition day_number :: "int \<Rightarrow> nat \<Rightarrow> nat \<Rightarrow> int" where
  "day_number y m d = days_before_year y + (\<Sum>k\<leftarrow>[1..<m]. int (days_in_month y k)) + int d - 1"

section \<open>The date-time format\<close>

text \<open>Exactly \<open>k\<close> digits, and what is left of the string.\<close>

definition take_digits :: "nat \<Rightarrow> string \<Rightarrow> (nat \<times> string) option" where
  "take_digits k s = (let ds = take k s in
     if length ds = k \<and> list_all is_digit ds then Some (nat_of_digits ds, drop k s) else None)"

definition take_char :: "char \<Rightarrow> string \<Rightarrow> string option" where
  "take_char c s = (case s of [] \<Rightarrow> None | d # r \<Rightarrow> if d = c then Some r else None)"

text \<open>Milliseconds of a fraction: its first three digits, padded on the right.\<close>

definition fraction_ms :: "string \<Rightarrow> nat" where
  "fraction_ms ds = nat_of_digits (take 3 (ds @ ''000''))"

definition take_fraction :: "string \<Rightarrow> (nat \<times> string) option" where
  "take_fraction s = (case s of
      CHR ''.'' # r \<Rightarrow> (let ds = takeWhile is_digit r in
        if ds = [] then None else Some (fraction_ms ds, dropWhile is_digit r))
    | _ \<Rightarrow> Some (0, s))"

text \<open>The offset in minutes; the whole of the rest has to be the offset.\<close>

definition take_offset :: "string \<Rightarrow> int option" where
  "take_offset s = (if s = ''Z'' then Some 0 else (case s of
      c # r \<Rightarrow> if c = CHR ''+'' \<or> c = CHR ''-'' then
          (case take_digits 2 r of None \<Rightarrow> None | Some (h, r1) \<Rightarrow>
            (case take_char CHR '':'' r1 of None \<Rightarrow> None | Some r2 \<Rightarrow>
              (case take_digits 2 r2 of
                  Some (m, []) \<Rightarrow> if h < 24 \<and> m < 60
                    then Some ((if c = CHR ''+'' then 1 else -1) * int (60 * h + m)) else None
                | _ \<Rightarrow> None)))
        else None
    | [] \<Rightarrow> None))"

definition take_two :: "char \<Rightarrow> string \<Rightarrow> (nat \<times> string) option" where
  "take_two c s = Option.bind (take_char c s) (take_digits 2)"

definition iso_parse :: "string \<Rightarrow> int option" where
  "iso_parse s =
     Option.bind (take_digits 4 s) (\<lambda>(y, s1). Option.bind (take_two CHR ''-'' s1) (\<lambda>(mo, s2).
     Option.bind (take_two CHR ''-'' s2) (\<lambda>(d, s3). Option.bind (take_two CHR ''T'' s3) (\<lambda>(h, s4).
     Option.bind (take_two CHR '':'' s4) (\<lambda>(mi, s5). Option.bind (take_two CHR '':'' s5) (\<lambda>(sec, s6).
     Option.bind (take_fraction s6) (\<lambda>(ms, s7). Option.bind (take_offset s7) (\<lambda>off.
       if 1 \<le> mo \<and> mo \<le> 12 \<and> 1 \<le> d \<and> d \<le> days_in_month (int y) mo \<and> h < 24 \<and> mi < 60 \<and> sec < 60
       then Some (((day_number (int y) mo d * 24 + int h) * 60 + int mi - off) * 60000
                  + int (1000 * sec + ms))
       else None))))))))"

definition Date_parse :: "(string \<Rightarrow> int option) \<Rightarrow> string \<Rightarrow> int option" where
  "Date_parse legacy s = (case iso_parse s of Some t \<Rightarrow> Some t | None \<Rightarrow> legacy s)"

text \<open>\<^verbatim>\<open>Date.parse(a) > Date.parse(b)\<close>: false as soon as one of them is not a date.\<close>

definition started_later :: "(string \<Rightarrow> int option) \<Rightarrow> string \<Rightarrow> string \<Rightarrow> bool" where
  "started_later legacy a b = (case (Date_parse legacy a, Date_parse legacy b) of
      (Some x, Some y) \<Rightarrow> y < x
    | _ \<Rightarrow> False)"

lemma started_later_irrefl: "\<not> started_later legacy a a"
  by (simp add: started_later_def split: option.split)

lemma started_later_trans:
  "started_later legacy a b \<Longrightarrow> started_later legacy b c \<Longrightarrow> started_later legacy a c"
  by (auto simp: started_later_def split: option.splits)

lemma iso_parse_epoch: "iso_parse ''1970-01-01T00:00:00Z'' = Some 0"
  by code_simp

lemma iso_parse_docker: "iso_parse ''2026-07-01T10:00:00.123456789+02:00'' = Some 1782892800123"
  by code_simp

end
