(* ===== verification/Stack_Classify.thy ===== *)
theory Stack_Classify
  imports Js_Date "HOL-Library.Multiset"
begin

text \<open>
  The three pure classifiers of \<^verbatim>\<open>src/api/src/stacks\<close> that turn a reading of a host into what a
  mutation of a stack turned out to have done: applying a revision
  (\<^verbatim>\<open>stack-deployment.ts\<close>), starting, stopping or restarting
  (\<^verbatim>\<open>stack-lifecycle.ts\<close>), and deleting (\<^verbatim>\<open>stack-delete.ts\<close>). Each outcome is
  characterised by what the host holds, each classifier is shown to conclude nothing from an
  incomplete reading (the locale \<open>reading_classifier\<close>), and none depends on the order
  in which the host was read.
\<close>

section \<open>Applying a revision\<close>

datatype StackApplyOutcome =
    SA_finalize_target
  | SA_finalize_from
  | SA_finalize_not_applied
  | SA_needs_attention string
  | SA_unknown string

record ObservedService =
  os_serviceName :: string
  os_containerId :: string
  os_dockerId :: "string option"
  os_state :: "string option"
  os_revisionId :: "string option"

record StackApplyInput =
  sa_fromRevisionId :: "string option"
  sa_targetRevisionId :: string
  sa_targetServices :: "string list"
  sa_fromServices :: "string list option"
  sa_observed :: "ObservedService list"
  sa_snapshotComplete :: bool

text \<open>The first element that is in the set of those before it, as the loop finds it.\<close>

fun first_repeat :: "string set \<Rightarrow> string list \<Rightarrow> string option" where
  "first_repeat seen [] = None"
| "first_repeat seen (x # xs) = (if x \<in> seen then Some x else first_repeat (insert x seen) xs)"

definition matches :: "ObservedService list \<Rightarrow> string list \<Rightarrow> string \<Rightarrow> bool \<Rightarrow> bool" where
  "matches live expected revisionId requireRunning =
     (if length live \<noteq> length expected then False
      else list_all (\<lambda>service. os_serviceName service \<in> set expected
             \<and> os_revisionId service = Some revisionId
             \<and> (\<not> requireRunning \<or> os_state service = Some ''running'')) live)"

definition classifyStackApply :: "StackApplyInput \<Rightarrow> StackApplyOutcome" where
  "classifyStackApply input =
     (if \<not> sa_snapshotComplete input then SA_unknown ''the host was not read completely''
      else let live = filter (\<lambda>service. os_dockerId service \<noteq> None) (sa_observed input) in
      (case first_repeat {} (map os_serviceName live) of
         Some name \<Rightarrow> SA_needs_attention (''two containers are service '' @ name)
       | None \<Rightarrow>
         if length live = 0 then
           (if sa_fromRevisionId input = None then SA_finalize_not_applied
            else SA_needs_attention ''the stack that was running is gone'')
         else if matches live (sa_targetServices input) (sa_targetRevisionId input) True
         then SA_finalize_target
         else (case (sa_fromRevisionId input, sa_fromServices input) of
             (Some from_id, Some from_services) \<Rightarrow>
               if matches live from_services from_id False then SA_finalize_from
               else SA_needs_attention (show_nat (length live)
                 @ '' containers are running and they are not one revision'')
           | _ \<Rightarrow> SA_needs_attention (show_nat (length live)
                 @ '' containers are running and they are not one revision''))))"

section \<open>Starting, stopping and restarting\<close>

datatype StackLifecycleKind = start | stop | restart

datatype StackLifecycleOutcome =
    SL_applied
  | SL_not_applied
  | SL_needs_attention string
  | SL_unknown string

record ObservedRuntime =
  or_serviceName :: string
  or_containerId :: string
  or_dockerId :: "string option"
  or_state :: "string option"
  or_revisionId :: "string option"
  or_startedAt :: "string option"

record RuntimeFingerprint =
  rf_serviceName :: string
  rf_containerId :: string
  rf_dockerId :: string
  rf_startedAt :: "string option"

record StackLifecycleInput =
  sl_operation :: StackLifecycleKind
  sl_revisionId :: string
  sl_expectedServices :: "string list"
  sl_observed :: "ObservedRuntime list"
  sl_fingerprint :: "RuntimeFingerprint list option"
  sl_snapshotComplete :: bool

definition isRunning :: "string option \<Rightarrow> bool" where
  "isRunning state = (state = Some ''running'')"

text \<open>The loop of \<^verbatim>\<open>restartOutcome\<close>: \<open>Inl\<close> is its early return, \<open>Inr\<close> its two counters.\<close>

fun restart_loop :: "(string \<Rightarrow> int option) \<Rightarrow> (string \<rightharpoonup> RuntimeFingerprint) \<Rightarrow> ObservedRuntime list
    \<Rightarrow> nat \<Rightarrow> nat \<Rightarrow> StackLifecycleOutcome + (nat \<times> nat)" where
  "restart_loop legacy before [] restarted unchanged = Inr (restarted, unchanged)"
| "restart_loop legacy before (service # services) restarted unchanged =
     (if \<not> isRunning (or_state service)
      then Inl (SL_needs_attention (or_serviceName service @ '' is not running''))
      else (case before (or_serviceName service) of
          None \<Rightarrow> Inl (SL_unknown (or_serviceName service @ '' is not the container the restart was for''))
        | Some previous \<Rightarrow>
            if Some (rf_dockerId previous) \<noteq> or_dockerId service
            then Inl (SL_unknown (or_serviceName service @ '' is not the container the restart was for''))
            else (case (rf_startedAt previous, or_startedAt service) of
                (Some earlier, Some now) \<Rightarrow>
                  if started_later legacy now earlier
                  then restart_loop legacy before services (restarted + 1) unchanged
                  else restart_loop legacy before services restarted (unchanged + 1)
              | _ \<Rightarrow> Inl (SL_unknown (''the host does not say when ''
                       @ or_serviceName service @ '' was started'')))))"

definition restartOutcome :: "(string \<Rightarrow> int option) \<Rightarrow> ObservedRuntime list
    \<Rightarrow> RuntimeFingerprint list option \<Rightarrow> StackLifecycleOutcome" where
  "restartOutcome legacy services fingerprint = (case fingerprint of
      None \<Rightarrow> SL_unknown ''there is nothing to compare the restart against''
    | Some rows \<Rightarrow>
        (case restart_loop legacy (js_map (map (\<lambda>f. (rf_serviceName f, f)) rows)) services 0 0 of
           Inl outcome \<Rightarrow> outcome
         | Inr (restarted, unchanged) \<Rightarrow>
             if restarted = length services then SL_applied
             else if unchanged = length services then SL_not_applied
             else SL_needs_attention ''part of the stack was restarted and part was not''))"

text \<open>The loop over the expected services: the first one that is missing or another revision.\<close>

fun expected_loop :: "(string \<rightharpoonup> ObservedRuntime) \<Rightarrow> string \<Rightarrow> string list \<Rightarrow> string option" where
  "expected_loop byService revision [] = None"
| "expected_loop byService revision (name # names) = (case byService name of
      None \<Rightarrow> Some (name @ '' has no container on the host'')
    | Some service \<Rightarrow>
        if or_dockerId service = None then Some (name @ '' has no container on the host'')
        else if or_revisionId service \<noteq> None \<and> or_revisionId service \<noteq> Some revision
        then Some (name @ '' is running another revision'')
        else expected_loop byService revision names)"

definition by_service :: "ObservedRuntime list \<Rightarrow> (string \<rightharpoonup> ObservedRuntime)" where
  "by_service observed = js_map (map (\<lambda>s. (or_serviceName s, s)) observed)"

definition classifyStackLifecycle ::
    "(string \<Rightarrow> int option) \<Rightarrow> StackLifecycleInput \<Rightarrow> StackLifecycleOutcome" where
  "classifyStackLifecycle legacy input =
     (if \<not> sl_snapshotComplete input then SL_unknown ''the host was not read completely''
      else let byService = by_service (sl_observed input) in
      (case expected_loop byService (sl_revisionId input) (sl_expectedServices input) of
         Some reason \<Rightarrow> SL_needs_attention reason
       | None \<Rightarrow>
         (case filter (\<lambda>s. or_dockerId s \<noteq> None \<and> or_serviceName s \<notin> set (sl_expectedServices input))
                 (sl_observed input) of
            extra # _ \<Rightarrow> SL_needs_attention (''the host holds '' @ or_serviceName extra
                @ '', which this stack'' @ [CHR 0x27] @ ''s revision does not describe'')
          | [] \<Rightarrow>
            let services = map (\<lambda>name. the (byService name)) (sl_expectedServices input);
                running = filter (\<lambda>s. isRunning (or_state s)) services in
            (case sl_operation input of
               stop \<Rightarrow>
                 if length running = 0 then SL_applied
                 else if length running = length services then SL_not_applied
                 else SL_needs_attention ''part of the stack is stopped and part is running''
             | start \<Rightarrow>
                 if length running = length services then SL_applied
                 else if length running = 0 then SL_not_applied
                 else SL_needs_attention ''part of the stack is running and part is not''
             | restart \<Rightarrow> restartOutcome legacy services (sl_fingerprint input)))))"

section \<open>Deleting\<close>

datatype StackDeleteOutcome =
    SD_finalize_deleted
  | SD_finalize_not_applied
  | SD_needs_attention string
  | SD_unknown string

record ObservedClaim =
  oc_serviceName :: string
  oc_containerId :: string
  oc_dockerId :: "string option"

record StackDeleteInput =
  sd_expectedServices :: "string list"
  sd_observed :: "ObservedClaim list"
  sd_snapshotComplete :: bool

definition classifyStackDelete :: "StackDeleteInput \<Rightarrow> StackDeleteOutcome" where
  "classifyStackDelete input =
     (if \<not> sd_snapshotComplete input then SD_unknown ''the host was not read completely''
      else let present = filter (\<lambda>claim. oc_dockerId claim \<noteq> None) (sd_observed input) in
      if length present = 0 then SD_finalize_deleted
      else (case find (\<lambda>claim. oc_serviceName claim \<notin> set (sd_expectedServices input)) present of
          Some unexpected \<Rightarrow> SD_needs_attention (''the host still holds '' @ oc_serviceName unexpected
              @ '', which the deleted revision does not describe'')
        | None \<Rightarrow>
            if card (set (map oc_serviceName present)) = card (set (sd_expectedServices input))
            then SD_finalize_not_applied
            else SD_needs_attention ''part of the stack was removed and part of it was not''))"

section \<open>What a reading promises\<close>

text \<open>
  Every classifier reads a host through a snapshot that may be incomplete. The contract they
  share: an incomplete reading gives an inconclusive outcome, so whatever acts only on a
  conclusive outcome acts only on a complete reading.
\<close>

locale reading_classifier =
  fixes classify :: "'i \<Rightarrow> 'o"
    and complete :: "'i \<Rightarrow> bool"
    and inconclusive :: "'o \<Rightarrow> bool"
  assumes incomplete: "\<not> complete i \<Longrightarrow> inconclusive (classify i)"
begin

lemma conclusive_complete: "\<not> inconclusive (classify i) \<Longrightarrow> complete i"
  using incomplete by blast

lemma first_conclusive_complete:
  "find (\<lambda>i. \<not> inconclusive (classify i)) readings = Some i \<Longrightarrow> i \<in> set readings \<and> complete i"
  using conclusive_complete by (auto dest: find_SomeD)

lemma act_only_when_complete:
  "(if inconclusive (classify i) then x else f (classify i)) \<noteq> x \<Longrightarrow> complete i"
  by (cases "inconclusive (classify i)") (auto intro: conclusive_complete)

end

definition apply_unknown :: "StackApplyOutcome \<Rightarrow> bool" where
  "apply_unknown out = (case out of SA_unknown _ \<Rightarrow> True | _ \<Rightarrow> False)"

definition lifecycle_unknown :: "StackLifecycleOutcome \<Rightarrow> bool" where
  "lifecycle_unknown out = (case out of SL_unknown _ \<Rightarrow> True | _ \<Rightarrow> False)"

definition delete_unknown :: "StackDeleteOutcome \<Rightarrow> bool" where
  "delete_unknown out = (case out of SD_unknown _ \<Rightarrow> True | _ \<Rightarrow> False)"

interpretation apply_reading:
  reading_classifier classifyStackApply sa_snapshotComplete apply_unknown
  by unfold_locales (simp add: classifyStackApply_def apply_unknown_def)

interpretation lifecycle_reading:
  reading_classifier "classifyStackLifecycle legacy" sl_snapshotComplete lifecycle_unknown
  for legacy
  by unfold_locales (simp add: classifyStackLifecycle_def lifecycle_unknown_def)

interpretation delete_reading:
  reading_classifier classifyStackDelete sd_snapshotComplete delete_unknown
  by unfold_locales (simp add: classifyStackDelete_def delete_unknown_def)

section \<open>Lemmas on applying\<close>

abbreviation live_services :: "StackApplyInput \<Rightarrow> ObservedService list" where
  "live_services input \<equiv> filter (\<lambda>service. os_dockerId service \<noteq> None) (sa_observed input)"

abbreviation live_names :: "StackApplyInput \<Rightarrow> string list" where
  "live_names input \<equiv> map os_serviceName (live_services input)"

lemma first_repeat_None_iff:
  "first_repeat seen xs = None \<longleftrightarrow> distinct xs \<and> set xs \<inter> seen = {}"
  by (induction seen xs rule: first_repeat.induct) auto

lemma same_length_subset_iff:
  assumes "distinct xs" and "distinct ys"
  shows "length xs = length ys \<and> set xs \<subseteq> set ys \<longleftrightarrow> set xs = set ys"
  using assms by (metis card_subset_eq distinct_card List.finite_set subset_refl)

lemma matches_iff:
  assumes "distinct (map os_serviceName live)" and "distinct expected"
  shows "matches live expected r running \<longleftrightarrow>
    os_serviceName ` set live = set expected \<and>
    (\<forall>s \<in> set live. os_revisionId s = Some r \<and> (running \<longrightarrow> os_state s = Some ''running''))"
  using same_length_subset_iff [OF assms] by (auto simp: matches_def list_all_iff)

lemma matches_revision: "matches live expected r running \<Longrightarrow> s \<in> set live \<Longrightarrow> os_revisionId s = Some r"
  by (auto simp: matches_def list_all_iff split: if_splits)

lemma matches_mset:
  assumes "mset live = mset live'"
  shows "matches live expected r running = matches live' expected r running"
  using mset_eq_length [OF assms] mset_eq_setD [OF assms] by (simp add: matches_def list_all_iff)

text \<open>The kind of an outcome, without the sentence that goes with it.\<close>

definition apply_kind :: "StackApplyOutcome \<Rightarrow> string" where
  "apply_kind out = (case out of
      SA_finalize_target \<Rightarrow> ''finalize_target''
    | SA_finalize_from \<Rightarrow> ''finalize_from''
    | SA_finalize_not_applied \<Rightarrow> ''finalize_not_applied''
    | SA_needs_attention _ \<Rightarrow> ''needs_attention''
    | SA_unknown _ \<Rightarrow> ''unknown'')"

lemma apply_kind_simps [simp]:
  "apply_kind SA_finalize_target = ''finalize_target''"
  "apply_kind SA_finalize_from = ''finalize_from''"
  "apply_kind SA_finalize_not_applied = ''finalize_not_applied''"
  "apply_kind (SA_needs_attention r) = ''needs_attention''"
  "apply_kind (SA_unknown r) = ''unknown''"
  by (simp_all add: apply_kind_def)

text \<open>The classifier as a table over five questions about the host.\<close>

lemma apply_kind_table:
  "apply_kind (classifyStackApply input) =
    (if \<not> sa_snapshotComplete input then ''unknown''
     else if \<not> distinct (live_names input) then ''needs_attention''
     else if live_services input = [] then
       (if sa_fromRevisionId input = None then ''finalize_not_applied'' else ''needs_attention'')
     else if matches (live_services input) (sa_targetServices input) (sa_targetRevisionId input) True
       then ''finalize_target''
     else if \<exists>f fs. sa_fromRevisionId input = Some f \<and> sa_fromServices input = Some fs
          \<and> matches (live_services input) fs f False
       then ''finalize_from''
     else ''needs_attention'')"
proof (cases "first_repeat {} (live_names input)")
  case None
  then have "distinct (live_names input)" by (simp add: first_repeat_None_iff)
  with None show ?thesis
    by (auto simp: classifyStackApply_def Let_def split: option.split)
next
  case (Some name)
  then have "\<not> distinct (live_names input)"
    using first_repeat_None_iff [of "{}" "live_names input"] by simp
  with Some show ?thesis by (simp add: classifyStackApply_def Let_def)
qed

lemma finalize_target_kind:
  "classifyStackApply input = SA_finalize_target \<longleftrightarrow>
   apply_kind (classifyStackApply input) = ''finalize_target''"
  by (simp add: apply_kind_def split: StackApplyOutcome.split)

lemma finalize_from_kind:
  "classifyStackApply input = SA_finalize_from \<longleftrightarrow>
   apply_kind (classifyStackApply input) = ''finalize_from''"
  by (simp add: apply_kind_def split: StackApplyOutcome.split)

section \<open>Properties of applying\<close>

text \<open>
  C28: applying a revision is recorded as done exactly when the host was read completely and
  holds the target and nothing else: at least one container, one container per service, the
  services of the target revision, each labelled with the target revision and running.
\<close>

theorem classifyStackApply_target_iff:
  assumes "distinct (sa_targetServices input)"
  shows "classifyStackApply input = SA_finalize_target \<longleftrightarrow>
    sa_snapshotComplete input \<and> live_services input \<noteq> [] \<and> distinct (live_names input) \<and>
    set (live_names input) = set (sa_targetServices input) \<and>
    (\<forall>s \<in> set (live_services input).
       os_revisionId s = Some (sa_targetRevisionId input) \<and> os_state s = Some ''running'')"
proof (cases "distinct (live_names input)")
  case True
  then show ?thesis
    unfolding finalize_target_kind apply_kind_table
    using matches_iff [OF True assms, of "sa_targetRevisionId input" True] by auto
next
  case False
  then show ?thesis unfolding finalize_target_kind apply_kind_table by auto
qed

definition web_service :: "string \<Rightarrow> string \<Rightarrow> string option \<Rightarrow> ObservedService" where
  "web_service name revision state = \<lparr>os_serviceName = name, os_containerId = ''c-'' @ name,
     os_dockerId = Some (''d-'' @ name), os_state = state, os_revisionId = Some revision\<rparr>"

definition moved_to_r2 :: StackApplyInput where
  "moved_to_r2 = \<lparr>sa_fromRevisionId = Some ''r1'', sa_targetRevisionId = ''r2'',
     sa_targetServices = [''web'', ''db''], sa_fromServices = Some [''web''],
     sa_observed = [web_service ''db'' ''r2'' (Some ''running''),
                    web_service ''web'' ''r2'' (Some ''running'')],
     sa_snapshotComplete = True\<rparr>"

lemmas moved_to_r2_defs = moved_to_r2_def web_service_def

theorem classifyStackApply_target_iff_witness:
  "distinct (sa_targetServices moved_to_r2) \<and> classifyStackApply moved_to_r2 = SA_finalize_target"
  using classifyStackApply_target_iff [of moved_to_r2] by (auto simp: moved_to_r2_defs)

text \<open>
  The attempt is recorded as not having taken, with the previous revision kept, exactly when
  the host was read completely and holds the previous revision and nothing else (running or
  not) and does not hold the target.
\<close>

theorem classifyStackApply_from_iff:
  assumes "sa_fromRevisionId input = Some f" and "sa_fromServices input = Some fs"
    and "distinct fs" and "f \<noteq> sa_targetRevisionId input"
  shows "classifyStackApply input = SA_finalize_from \<longleftrightarrow>
    sa_snapshotComplete input \<and> live_services input \<noteq> [] \<and> distinct (live_names input) \<and>
    set (live_names input) = set fs \<and>
    (\<forall>s \<in> set (live_services input). os_revisionId s = Some f)"
proof (cases "distinct (live_names input) \<and> live_services input \<noteq> []")
  case True
  then have dist: "distinct (live_names input)" by simp
  have "\<not> matches (live_services input) (sa_targetServices input) (sa_targetRevisionId input) True"
    if "\<forall>s \<in> set (live_services input). os_revisionId s = Some f"
    using True that assms(4) matches_revision [OF _ hd_in_set] by (metis hd_in_set option.inject)
  then show ?thesis
    unfolding finalize_from_kind apply_kind_table
    using True assms(1,2) matches_iff [OF dist assms(3), of f False] by auto
next
  case False
  then show ?thesis unfolding finalize_from_kind apply_kind_table by auto
qed

definition back_at_r1 :: StackApplyInput where
  "back_at_r1 = moved_to_r2\<lparr>sa_observed := [web_service ''web'' ''r1'' (Some ''exited'')]\<rparr>"

theorem classifyStackApply_from_iff_witness:
  "sa_fromRevisionId back_at_r1 = Some ''r1'' \<and> sa_fromServices back_at_r1 = Some [''web'']
   \<and> distinct [''web''] \<and> ''r1'' \<noteq> sa_targetRevisionId back_at_r1
   \<and> classifyStackApply back_at_r1 = SA_finalize_from"
  using classifyStackApply_from_iff [of back_at_r1 "''r1''" "[''web'']"]
  by (auto simp: back_at_r1_def moved_to_r2_defs)

text \<open>
  What an attempt is concluded to have done does not depend on the order in which the
  containers of the stack were read.
\<close>

theorem classifyStackApply_order:
  assumes "mset rows = mset (sa_observed input)"
  shows "apply_kind (classifyStackApply (input\<lparr>sa_observed := rows\<rparr>))
    = apply_kind (classifyStackApply input)"
proof -
  let ?live = "filter (\<lambda>service. os_dockerId service \<noteq> None)"
  have live: "mset (?live rows) = mset (?live (sa_observed input))"
    using assms by simp
  have "mset (map os_serviceName (?live rows)) = mset (live_names input)"
    using live by simp
  then have names: "distinct (map os_serviceName (?live rows)) = distinct (live_names input)"
    by (metis mset_eq_imp_distinct_iff)
  have empty: "(?live rows = []) = (live_services input = [])"
    using live by (metis mset_zero_iff)
  let ?input = "input\<lparr>sa_observed := rows\<rparr>"
  have sel: "sa_snapshotComplete ?input = sa_snapshotComplete input" "sa_observed ?input = rows"
    "sa_fromRevisionId ?input = sa_fromRevisionId input" "sa_fromServices ?input = sa_fromServices input"
    "sa_targetRevisionId ?input = sa_targetRevisionId input"
    "sa_targetServices ?input = sa_targetServices input" by simp_all
  show ?thesis by (simp only: apply_kind_table sel names empty matches_mset [OF live])
qed

theorem classifyStackApply_order_witness:
  "mset (rev (sa_observed moved_to_r2)) = mset (sa_observed moved_to_r2)
   \<and> apply_kind (classifyStackApply (moved_to_r2\<lparr>sa_observed := rev (sa_observed moved_to_r2)\<rparr>))
     = apply_kind (classifyStackApply moved_to_r2)"
  using classifyStackApply_order [of "rev (sa_observed moved_to_r2)" moved_to_r2] by simp

section \<open>Lemmas on starting, stopping and restarting\<close>

lemma by_service_SomeD:
  "by_service observed name = Some s \<Longrightarrow> s \<in> set observed \<and> or_serviceName s = name"
  unfolding by_service_def by (drule js_map_SomeD) auto

lemma by_service_distinct:
  "distinct (map or_serviceName observed) \<Longrightarrow> s \<in> set observed \<Longrightarrow>
   by_service observed (or_serviceName s) = Some s"
  unfolding by_service_def by (rule js_map_distinct) (auto simp: comp_def)

text \<open>
  A host is as recorded when it was read completely, every service of the deployed revision
  has a container that does not name another revision, and nothing else of the stack is there.
\<close>

definition as_recorded :: "StackLifecycleInput \<Rightarrow> bool" where
  "as_recorded input \<longleftrightarrow> sl_snapshotComplete input \<and>
     (\<forall>n \<in> set (sl_expectedServices input). \<exists>s. by_service (sl_observed input) n = Some s
        \<and> or_dockerId s \<noteq> None \<and> or_revisionId s \<in> {None, Some (sl_revisionId input)}) \<and>
     (\<forall>s \<in> set (sl_observed input). or_dockerId s \<noteq> None
        \<longrightarrow> or_serviceName s \<in> set (sl_expectedServices input))"

abbreviation service_of :: "StackLifecycleInput \<Rightarrow> string \<Rightarrow> ObservedRuntime" where
  "service_of input name \<equiv> the (by_service (sl_observed input) name)"

abbreviation service_running :: "StackLifecycleInput \<Rightarrow> string \<Rightarrow> bool" where
  "service_running input name \<equiv> isRunning (or_state (service_of input name))"

lemma expected_loop_None_iff:
  "expected_loop byService revision names = None \<longleftrightarrow>
   (\<forall>n \<in> set names. \<exists>s. byService n = Some s \<and> or_dockerId s \<noteq> None
      \<and> or_revisionId s \<in> {None, Some revision})"
  by (induction names) (auto split: option.splits)

lemma length_filter_eq_iff: "length (filter P xs) = length xs \<longleftrightarrow> (\<forall>x \<in> set xs. P x)"
  by (metis filter_id_conv length_filter_less linorder_neq_iff)

lemma as_recorded_alt:
  "as_recorded input \<longleftrightarrow> sl_snapshotComplete input
    \<and> expected_loop (by_service (sl_observed input)) (sl_revisionId input) (sl_expectedServices input) = None
    \<and> filter (\<lambda>s. or_dockerId s \<noteq> None \<and> or_serviceName s \<notin> set (sl_expectedServices input))
        (sl_observed input) = []"
  by (auto simp: as_recorded_def expected_loop_None_iff filter_empty_conv)

lemma lifecycle_not_recorded:
  "\<not> as_recorded input \<Longrightarrow> \<exists>reason. classifyStackLifecycle legacy input \<in>
     {SL_unknown reason, SL_needs_attention reason}"
  by (auto simp: as_recorded_alt classifyStackLifecycle_def Let_def split: option.split list.split)

lemma lifecycle_recorded:
  "as_recorded input \<Longrightarrow> classifyStackLifecycle legacy input =
    (let services = map (service_of input) (sl_expectedServices input);
         running = filter (\<lambda>s. isRunning (or_state s)) services in
     case sl_operation input of
       stop \<Rightarrow> if length running = 0 then SL_applied
               else if length running = length services then SL_not_applied
               else SL_needs_attention ''part of the stack is stopped and part is running''
     | start \<Rightarrow> if length running = length services then SL_applied
               else if length running = 0 then SL_not_applied
               else SL_needs_attention ''part of the stack is running and part is not''
     | restart \<Rightarrow> restartOutcome legacy services (sl_fingerprint input))"
  by (simp add: as_recorded_alt classifyStackLifecycle_def Let_def)

lemma running_counts:
  "length (filter (\<lambda>s. isRunning (or_state s)) (map (service_of input) names)) = length names
    \<longleftrightarrow> (\<forall>n \<in> set names. service_running input n)"
  "length (filter (\<lambda>s. isRunning (or_state s)) (map (service_of input) names)) = 0
    \<longleftrightarrow> (\<forall>n \<in> set names. \<not> service_running input n)"
  using length_filter_eq_iff [of "\<lambda>s. isRunning (or_state s)" "map (service_of input) names"]
  by (simp_all add: filter_empty_conv)

text \<open>What the loop of a restart establishes of one service.\<close>

definition comparable :: "(string \<rightharpoonup> RuntimeFingerprint) \<Rightarrow> ObservedRuntime \<Rightarrow> bool" where
  "comparable before s \<longleftrightarrow> isRunning (or_state s) \<and> or_startedAt s \<noteq> None \<and>
     (\<exists>p. before (or_serviceName s) = Some p \<and> Some (rf_dockerId p) = or_dockerId s
        \<and> rf_startedAt p \<noteq> None)"

definition moved_on :: "(string \<Rightarrow> int option) \<Rightarrow> (string \<rightharpoonup> RuntimeFingerprint) \<Rightarrow> ObservedRuntime \<Rightarrow> bool"
  where "moved_on legacy before s \<longleftrightarrow> (\<exists>p e n. before (or_serviceName s) = Some p
     \<and> rf_startedAt p = Some e \<and> or_startedAt s = Some n \<and> started_later legacy n e)"

lemma restart_loop_Inr:
  "restart_loop legacy before ss r u = Inr (r', u') \<longleftrightarrow>
   list_all (comparable before) ss
   \<and> r' = r + length (filter (moved_on legacy before) ss)
   \<and> u' = u + length (filter (\<lambda>s. \<not> moved_on legacy before s) ss)"
proof (induction legacy before ss r u rule: restart_loop.induct)
  case (2 legacy before s ss r u)
  then show ?case
    by (auto simp: comparable_def moved_on_def split: option.splits)
qed auto

lemma restart_loop_Inl:
  "restart_loop legacy before ss r u = Inl out \<Longrightarrow> \<exists>reason. out \<in> {SL_unknown reason, SL_needs_attention reason}"
  by (induction legacy before ss r u rule: restart_loop.induct) (auto split: if_splits option.splits)

lemma restartOutcome_applied_iff:
  "restartOutcome legacy services fp = SL_applied \<longleftrightarrow> (\<exists>rows. fp = Some rows \<and>
    (\<forall>s \<in> set services. comparable (js_map (map (\<lambda>f. (rf_serviceName f, f)) rows)) s
       \<and> moved_on legacy (js_map (map (\<lambda>f. (rf_serviceName f, f)) rows)) s))"
proof (cases fp)
  case (Some rows)
  let ?before = "js_map (map (\<lambda>f. (rf_serviceName f, f)) rows)"
  show ?thesis
  proof (cases "restart_loop legacy ?before services 0 0")
    case (Inl out)
    then have "\<not> list_all (comparable ?before) services"
      by (metis Inl_Inr_False restart_loop_Inr)
    with Inl Some restart_loop_Inl [OF Inl] show ?thesis
      by (auto simp: restartOutcome_def list_all_iff)
  next
    case (Inr counts)
    obtain r u where ru: "counts = (r, u)" by (cases counts)
    with Inr have "list_all (comparable ?before) services"
      and "r = length (filter (moved_on legacy ?before) services)"
      by (simp_all add: restart_loop_Inr)
    moreover have "restartOutcome legacy services fp = SL_applied \<longleftrightarrow> r = length services"
      using Inr Some ru by (simp add: restartOutcome_def)
    ultimately show ?thesis
      using Some length_filter_eq_iff [of "moved_on legacy ?before" services]
      by (auto simp: list_all_iff)
  qed
qed (simp add: restartOutcome_def)

section \<open>Properties of starting, stopping and restarting\<close>

text \<open>
  C29: a start is recorded as applied exactly when the host is as recorded and every service
  runs, and as not applied exactly when it is as recorded and none does; a stop the other way
  round. Every other reading of the host, a partial one included, concludes nothing.
\<close>

theorem classifyStackLifecycle_start_stop:
  assumes "sl_expectedServices input \<noteq> []"
  shows "(sl_operation input = start \<longrightarrow>
      (classifyStackLifecycle legacy input = SL_applied \<longleftrightarrow> as_recorded input
         \<and> (\<forall>n \<in> set (sl_expectedServices input). service_running input n)) \<and>
      (classifyStackLifecycle legacy input = SL_not_applied \<longleftrightarrow> as_recorded input
         \<and> (\<forall>n \<in> set (sl_expectedServices input). \<not> service_running input n))) \<and>
    (sl_operation input = stop \<longrightarrow>
      (classifyStackLifecycle legacy input = SL_applied \<longleftrightarrow> as_recorded input
         \<and> (\<forall>n \<in> set (sl_expectedServices input). \<not> service_running input n)) \<and>
      (classifyStackLifecycle legacy input = SL_not_applied \<longleftrightarrow> as_recorded input
         \<and> (\<forall>n \<in> set (sl_expectedServices input). service_running input n)))"
proof (cases "as_recorded input")
  case True
  from assms obtain n where "n \<in> set (sl_expectedServices input)"
    by (cases "sl_expectedServices input") auto
  then show ?thesis
    unfolding lifecycle_recorded [OF True] Let_def length_map running_counts
    using True by auto
next
  case False
  then show ?thesis using lifecycle_not_recorded [OF False, of legacy] by auto
qed

definition api_runtime :: "string \<Rightarrow> string \<Rightarrow> ObservedRuntime" where
  "api_runtime state started = \<lparr>or_serviceName = ''api'', or_containerId = ''c1'',
     or_dockerId = Some ''d1'', or_state = Some state, or_revisionId = Some ''r1'',
     or_startedAt = Some started\<rparr>"

definition one_service :: "StackLifecycleKind \<Rightarrow> string \<Rightarrow> StackLifecycleInput" where
  "one_service kind state = \<lparr>sl_operation = kind, sl_revisionId = ''r1'',
     sl_expectedServices = [''api''], sl_observed = [api_runtime state ''2026-07-01T10:00:01Z''],
     sl_fingerprint = Some [\<lparr>rf_serviceName = ''api'', rf_containerId = ''c1'', rf_dockerId = ''d1'',
       rf_startedAt = Some ''2026-07-01T10:00:00Z''\<rparr>], sl_snapshotComplete = True\<rparr>"

lemma by_service_one: "by_service (sl_observed (one_service kind state)) ''api''
    = Some (api_runtime state ''2026-07-01T10:00:01Z'')"
  by (simp add: by_service_def js_map_def one_service_def api_runtime_def)

lemma as_recorded_one: "as_recorded (one_service kind state)"
  using by_service_one [of kind state]
  by (auto simp: as_recorded_def one_service_def api_runtime_def)

theorem classifyStackLifecycle_start_stop_witness:
  "sl_expectedServices (one_service start ''running'') \<noteq> []
   \<and> classifyStackLifecycle (\<lambda>_. None) (one_service start ''running'') = SL_applied
   \<and> classifyStackLifecycle (\<lambda>_. None) (one_service stop ''running'') = SL_not_applied"
  using classifyStackLifecycle_start_stop [of "one_service start ''running''" "\<lambda>_. None"]
    classifyStackLifecycle_start_stop [of "one_service stop ''running''" "\<lambda>_. None"]
    as_recorded_one [of start "''running''"] as_recorded_one [of stop "''running''"]
    by_service_one [of start "''running''"] by_service_one [of stop "''running''"]
  by (simp add: one_service_def api_runtime_def isRunning_def)

text \<open>
  C30: a restart is recorded as applied exactly when the host is as recorded, a fingerprint was
  taken before it, and every service is running in the very container of its fingerprint with
  a start time that is later than the one it had. A start time that is missing or is not a
  date on either side is never evidence of a restart.
\<close>

theorem classifyStackLifecycle_restart_iff:
  assumes "sl_operation input = restart"
  shows "classifyStackLifecycle legacy input = SL_applied \<longleftrightarrow> as_recorded input \<and>
    (\<exists>rows. sl_fingerprint input = Some rows \<and> (\<forall>n \<in> set (sl_expectedServices input).
       service_running input n \<and>
       (\<exists>p earlier now. js_map (map (\<lambda>f. (rf_serviceName f, f)) rows) n = Some p
          \<and> Some (rf_dockerId p) = or_dockerId (service_of input n)
          \<and> rf_startedAt p = Some earlier \<and> or_startedAt (service_of input n) = Some now
          \<and> started_later legacy now earlier)))"
proof (cases "as_recorded input")
  case True
  then have "or_serviceName (service_of input n) = n" if "n \<in> set (sl_expectedServices input)" for n
    using that by (fastforce simp: as_recorded_def dest: by_service_SomeD)
  then show ?thesis
    unfolding lifecycle_recorded [OF True] Let_def using True assms
    by (fastforce simp: restartOutcome_applied_iff comparable_def moved_on_def)
next
  case False
  then show ?thesis using lifecycle_not_recorded [OF False, of legacy] by auto
qed

lemma restarted_later: "started_later legacy ''2026-07-01T10:00:01Z'' ''2026-07-01T10:00:00Z''"
proof -
  have "iso_parse ''2026-07-01T10:00:01Z'' = Some 1782900001000"
    and "iso_parse ''2026-07-01T10:00:00Z'' = Some 1782900000000" by code_simp+
  then show ?thesis by (simp add: started_later_def Date_parse_def)
qed

theorem classifyStackLifecycle_restart_iff_witness:
  "sl_operation (one_service restart ''running'') = restart
   \<and> classifyStackLifecycle (\<lambda>_. None) (one_service restart ''running'') = SL_applied"
  using classifyStackLifecycle_restart_iff [of "one_service restart ''running''" "\<lambda>_. None"]
    as_recorded_one [of restart "''running''"] by_service_one [of restart "''running''"]
    restarted_later [of "\<lambda>_. None"]
  by (simp add: one_service_def api_runtime_def isRunning_def js_map_def)

section \<open>Properties of deleting\<close>

text \<open>
  A stack is concluded to be gone exactly when the host was read completely and no container
  claims to be part of it, and to be untouched exactly when it was read completely and the
  services that still have a container are those of the deployed revision.
\<close>

theorem classifyStackDelete_iff:
  "(classifyStackDelete input = SD_finalize_deleted \<longleftrightarrow>
      sd_snapshotComplete input \<and> filter (\<lambda>c. oc_dockerId c \<noteq> None) (sd_observed input) = []) \<and>
   (classifyStackDelete input = SD_finalize_not_applied \<longleftrightarrow>
      sd_snapshotComplete input \<and> filter (\<lambda>c. oc_dockerId c \<noteq> None) (sd_observed input) \<noteq> [] \<and>
      oc_serviceName ` set (filter (\<lambda>c. oc_dockerId c \<noteq> None) (sd_observed input))
        = set (sd_expectedServices input))"
proof -
  define present where "present = filter (\<lambda>c. oc_dockerId c \<noteq> None) (sd_observed input)"
  have counts: "card (oc_serviceName ` set present) = card (set (sd_expectedServices input)) \<longleftrightarrow>
      oc_serviceName ` set present = set (sd_expectedServices input)"
    if "oc_serviceName ` set present \<subseteq> set (sd_expectedServices input)"
    using that by (metis List.finite_set card_subset_eq)
  have "find (\<lambda>c. oc_serviceName c \<notin> set (sd_expectedServices input)) present = None \<longleftrightarrow>
      oc_serviceName ` set present \<subseteq> set (sd_expectedServices input)"
    by (auto simp: find_None_iff)
  moreover have "classifyStackDelete input =
     (if \<not> sd_snapshotComplete input then SD_unknown ''the host was not read completely''
      else if present = [] then SD_finalize_deleted
      else (case find (\<lambda>c. oc_serviceName c \<notin> set (sd_expectedServices input)) present of
          Some c \<Rightarrow> SD_needs_attention (''the host still holds '' @ oc_serviceName c
              @ '', which the deleted revision does not describe'')
        | None \<Rightarrow>
            if card (oc_serviceName ` set present) = card (set (sd_expectedServices input))
            then SD_finalize_not_applied
            else SD_needs_attention ''part of the stack was removed and part of it was not''))"
    by (simp add: classifyStackDelete_def Let_def present_def)
  ultimately show ?thesis
    unfolding present_def [symmetric] using counts by (auto split: option.splits)
qed

end
