(* ===== verification/Database.thy ===== *)
theory Database
  imports Stack_Plan Stack_Classify Semver
begin

text \<open>
  The state the control server works on. The tables are those of
  \<^verbatim>\<open>src/api/src/database/schema.ts\<close> that the stack services and discovery read or write, each a
  list of rows with the columns those services use; the unique indexes and the foreign-key
  actions of the schema are part of the operations that write. Besides the database there
  are the locks of the running process, the agents that are connected, the requests handed
  to agents so far, the clock, and the set of resources discovery was told to leave alone. What an agent answers, how a Compose file compiles, what a
  random identifier is and what the cipher does come from outside and are the fields of the
  record \<open>env\<close>. Columns that only record when a row was created or last touched are
  not modelled, and neither is logging.
\<close>

section \<open>Rows\<close>

record host_row =
  h_id :: string
  h_hostname :: string
  h_os :: "string option"
  h_architecture :: "string option"
  h_kernel :: "string option"
  h_dockerVersion :: "string option"
  h_agentVersion :: "string option"
  h_metrics :: "json option"
  h_metadata :: "json option"
  h_archivedAt :: "int option"

record agent_row =
  a_id :: string
  a_hostId :: string
  a_version :: "string option"
  a_revokedAt :: "int option"

record detail_port =
  dp_containerPort :: rat
  dp_protocol :: string
  dp_hostPort :: "string option"
  dp_hostIp :: "string option"

record detail_mount =
  dm_type :: string
  dm_name :: "string option"
  dm_readOnly :: bool

record detail_limits =
  dl_memoryBytes :: "rat option"
  dl_nanoCpus :: "rat option"
  dl_pidsLimit :: "rat option"

record ContainerDetail =
  cd_dockerId :: string
  cd_name :: string
  cd_image :: string
  cd_imageId :: "string option"
  cd_state :: string
  cd_status :: string
  cd_health :: string
  cd_restartCount :: rat
  cd_restartPolicy :: "string option"
  cd_createdAt :: "string option"
  cd_startedAt :: "string option"
  cd_finishedAt :: "string option"
  cd_exitCode :: "rat option"
  cd_ports :: "detail_port list"
  cd_networks :: "string list"
  cd_mounts :: "detail_mount list"
  cd_limits :: "detail_limits option"
  cd_labels :: "(string \<times> string) list"

record container_row =
  c_id :: string
  c_hostId :: string
  c_dockerId :: "string option"
  c_name :: string
  c_image :: string
  c_imageId :: "string option"
  c_state :: string
  c_health :: string
  c_restartCount :: rat
  c_composeProjectId :: "string option"
  c_stackId :: "string option"
  c_stackService :: "string option"
  c_stackRevisionId :: "string option"
  c_dockerCreatedAt :: "int option"
  c_metadata :: "string option \<times> string option"
  c_detail :: "ContainerDetail option"
  c_detailObservedAt :: "int option"
  c_identityConflict :: "string list option"
  c_observedDesiredConfigId :: "string option"
  c_snapshotId :: "string option"
  c_observedAt :: "int option"

record project_row =
  p_id :: string
  p_hostId :: string
  p_projectName :: string
  p_status :: string
  p_serviceCount :: int
  p_runningCount :: int
  p_services :: "json option"
  p_detailObservedAt :: "int option"
  p_snapshotId :: "string option"
  p_observedAt :: "int option"

record action_row =
  act_id :: string
  act_actorUserId :: "string option"
  act_actorKind :: string
  act_capability :: string
  act_targetType :: "string option"
  act_targetId :: "string option"
  act_hostId :: "string option"
  act_status :: string
  act_requestedAt :: int
  act_startedAt :: "int option"
  act_completedAt :: "int option"
  act_errorCode :: "string option"
  act_correlationId :: string

record event_row =
  ev_hostId :: "string option"
  ev_type :: string
  ev_severity :: string
  ev_resource :: string
  ev_message :: string
  ev_correlationId :: "string option"

record audit_row =
  au_actorUserId :: "string option"
  au_actorLabel :: string
  au_action :: string
  au_targetType :: "string option"
  au_targetId :: "string option"
  au_targetLabel :: "string option"
  au_result :: string
  au_reasonCode :: "string option"
  au_sourceIp :: "string option"
  au_userAgent :: "string option"
  au_requestId :: "string option"

record stack_row =
  s_id :: string
  s_hostId :: string
  s_name :: string
  s_status :: string
  s_latestRevisionId :: "string option"
  s_currentRevisionId :: "string option"
  s_desiredRevisionId :: "string option"
  s_lastDeployedAt :: "int option"

record revision_summary =
  rs_services :: "string list"
  rs_networks :: "string list"
  rs_volumes :: "string list"
  rs_dependsOn :: "(string \<times> string list) list option"

record revision_row =
  r_id :: string
  r_stackId :: string
  r_number :: int
  r_composeSourceEncrypted :: string
  r_summary :: "revision_summary option"

record variable_row =
  v_revisionId :: string
  v_key :: string
  v_value :: "string option"
  v_valueEncrypted :: "string option"
  v_isSecret :: bool

record service_detail =
  sd_serviceName :: string
  sd_containerId :: string
  sd_state :: "string option"

record deployment_row =
  d_id :: string
  d_stackId :: string
  d_revisionId :: string
  d_fromRevisionId :: "string option"
  d_hostId :: string
  d_kind :: string
  d_status :: string
  d_actionId :: "string option"
  d_startedBy :: "string option"
  d_detail :: "service_detail list option"
  d_failureCode :: "string option"
  d_resolvedAt :: "int option"

record operation_row =
  o_id :: string
  o_stackId :: string
  o_revisionId :: string
  o_hostId :: string
  o_type :: string
  o_status :: string
  o_actionId :: "string option"
  o_startedBy :: "string option"
  o_fingerprint :: "RuntimeFingerprint list option"
  o_detail :: "service_detail list option"
  o_failureCode :: "string option"
  o_resolvedAt :: "int option"

text \<open>What a managed container is meant to be.\<close>

record port_spec =
  po_containerPort :: int
  po_hostPort :: int
  po_protocol :: string
  po_hostIp :: "string option"

record mount_spec =
  mo_type :: string
  mo_source :: string
  mo_target :: string
  mo_readOnly :: bool

record healthcheck_spec =
  hc_test :: "string list"
  hc_intervalMs :: "int option"
  hc_timeoutMs :: "int option"
  hc_startPeriodMs :: "int option"
  hc_retries :: "int option"

record Configuration =
  cf_image :: string
  cf_hostname :: "string option"
  cf_command :: "string list option"
  cf_entrypoint :: "string list option"
  cf_ports :: "port_spec list"
  cf_mounts :: "mount_spec list"
  cf_networks :: "string list"
  cf_restartPolicy :: string
  cf_labels :: "(string \<times> string) list"
  cf_healthcheck :: "healthcheck_spec option"

record config_row =
  dc_id :: string
  dc_containerId :: string
  dc_state :: string
  dc_actionId :: "string option"
  dc_createdBy :: "string option"
  dc_configuration :: Configuration

record StoredVariable =
  sv_key :: string
  sv_value :: "string option"
  sv_valueEncrypted :: "string option"
  sv_isSecret :: bool

record config_variable_row =
  cv_desiredConfigId :: string
  cv_variable :: StoredVariable

record database =
  hosts :: "host_row list"
  agents :: "agent_row list"
  containers :: "container_row list"
  composeProjects :: "project_row list"
  actions :: "action_row list"
  events :: "event_row list"
  auditEntries :: "audit_row list"
  stacks :: "stack_row list"
  stackRevisions :: "revision_row list"
  stackRevisionEnvironment :: "variable_row list"
  stackDeployments :: "deployment_row list"
  stackOperations :: "operation_row list"
  containerDesiredConfigs :: "config_row list"
  containerEnvironmentVariables :: "config_variable_row list"

section \<open>Requests to agents\<close>

record lifecycle_service =
  lp_serviceName :: string
  lp_containerId :: string
  lp_dependsOn :: "string list option"

record AgentLifecyclePlan =
  lp_planVersion :: nat
  lp_stackId :: string
  lp_revisionId :: string
  lp_services :: "lifecycle_service list"

text \<open>What an agent is told a container should be; the secrets are in plain text here and nowhere else.\<close>

record ContainerSpec =
  sp_name :: string
  sp_image :: string
  sp_hostname :: "string option"
  sp_command :: "string list option"
  sp_entrypoint :: "string list option"
  sp_env :: "(string \<times> string) list"
  sp_ports :: "port_spec list"
  sp_mounts :: "mount_spec list"
  sp_spec_networks :: "string list"
  sp_restartPolicy :: string
  sp_labels :: "(string \<times> string) list"
  sp_healthcheck :: "healthcheck_spec option"

datatype payload =
    NoPayload
  | ApplyPlan AgentStackPlan
  | LifecyclePlan AgentLifecyclePlan
  | InspectContainer string
  | InspectProject string
  | OperateContainer string
  | CreateContainer string string ContainerSpec
  | ReplaceContainer string string string ContainerSpec
  | RemoveContainer string bool

record request =
  rq_agentId :: string
  rq_capability :: string
  rq_payload :: payload

text \<open>What discovery reads of an answer: the declared shapes, every field of which may be absent.\<close>

record HostInventory =
  hi_hostname :: "string option"
  hi_os :: "string option"
  hi_osVersion :: "string option"
  hi_architecture :: "string option"
  hi_kernel :: "string option"
  hi_uptimeSeconds :: "json option"
  hi_cpuCount :: "json option"
  hi_cpuModel :: "json option"
  hi_memoryTotalBytes :: "json option"
  hi_dockerVersion :: "string option"
  hi_agentVersion :: "string option"

record ContainerSummary =
  cs_dockerId :: "string option"
  cs_name :: "string option"
  cs_image :: "string option"
  cs_imageId :: "string option"
  cs_state :: "string option"
  cs_status :: "string option"
  cs_health :: "string option"
  cs_createdAt :: "string option"
  cs_labels :: "(string \<times> string) list"

record ComposeProject =
  cp_projectName :: "string option"
  cp_status :: "string option"
  cp_serviceCount :: "int option"
  cp_runningCount :: "int option"
  cp_services :: "json option"

record AgentResult =
  rs_state :: "string option"
  rs_health :: "string option"

datatype answer =
    InventoryAnswer HostInventory
  | MetricsAnswer json
  | ContainersAnswer "ContainerSummary list"
  | ProjectsAnswer "ComposeProject list"
  | InspectAnswer "json option"
  | InspectProjectAnswer "json option"
  | ResultAnswer "AgentResult option"
  | Done

section \<open>What comes from outside\<close>

record compile_request =
  cr_projectName :: string
  cr_compose :: string
  cr_environment :: "(string \<times> string) list"

datatype compile_result = Compiled StackDeploymentPlan | Problems "error_detail list"

text \<open>
  The environment of the process: what an agent answers to a request, given every request
  before it; the identifiers the database and \<^verbatim>\<open>randomUUID\<close> hand out, numbered; the Compose
  compiler; decryption; how the engine reads a date outside the standard format; how
  PostgreSQL reads the text of a \<^verbatim>\<open>uuid\<close> (\<open>None\<close> for text it refuses); the identifier
  of the current request; and how long a request takes.
\<close>

record env =
  e_answer :: "request list \<Rightarrow> request \<Rightarrow> js_error + answer"
  e_uuid :: "nat \<Rightarrow> string"
  e_compile :: "compile_request \<Rightarrow> js_error + compile_result"
  e_decrypt :: "string \<Rightarrow> js_error + string"
  e_encrypt :: "nat \<Rightarrow> string \<Rightarrow> string"
  e_legacy_date :: "string \<Rightarrow> int option"
  e_pg_uuid :: "string \<Rightarrow> string option"
  e_requestId :: "string option"
  e_takes :: "request \<Rightarrow> nat"

section \<open>The world and its primitive steps\<close>

record world =
  w_db :: database
  w_held :: "string \<rightharpoonup> string"
  w_connected :: "string list"
  w_sent :: "request list"
  w_clock :: int
  w_fresh :: nat
  w_registered :: "string list option"

type_synonym 'a handler = "(world, js_error, 'a) exm"

definition read_db :: "(database \<Rightarrow> 'a) \<Rightarrow> 'a handler" where
  [exm_defs]: "read_db f = getE (\<lambda>w. f (w_db w))"

definition write_db :: "(database \<Rightarrow> database) \<Rightarrow> unit handler" where
  [exm_defs]: "write_db f = modE (\<lambda>w. w\<lparr>w_db := f (w_db w)\<rparr>)"

definition now :: "int handler" where
  [exm_defs]: "now = getE w_clock"

definition randomUUID :: "env \<Rightarrow> string handler" where
  "randomUUID E = (\<lambda>w. (Inr (e_uuid E (w_fresh w)), w\<lparr>w_fresh := Suc (w_fresh w)\<rparr>))"

definition throw_app :: "app_error \<Rightarrow> 'a handler" where
  [exm_defs]: "throw_app e = throwE (AppErr e)"

text \<open>A value that is either there or thrown.\<close>

definition liftE :: "js_error + 'a \<Rightarrow> 'a handler" where
  [exm_defs]: "liftE v = (case v of Inl e \<Rightarrow> throwE e | Inr a \<Rightarrow> retE a)"

text \<open>A transaction: a throw inside it puts the tables back as they were.\<close>

definition transaction :: "'a handler \<Rightarrow> 'a handler" where
  "transaction m = (\<lambda>w. case m w of
      (Inl e, t) \<Rightarrow> (Inl e, t\<lparr>w_db := w_db w\<rparr>)
    | (Inr a, t) \<Rightarrow> (Inr a, t))"

text \<open>The dispatcher as the services see it: the request is handed over and answered.\<close>

definition dispatch_request :: "env \<Rightarrow> string \<Rightarrow> string \<Rightarrow> payload \<Rightarrow> answer handler" where
  "dispatch_request E agentId capability payload = (\<lambda>w.
     let rq = \<lparr>rq_agentId = agentId, rq_capability = capability, rq_payload = payload\<rparr> in
     (e_answer E (w_sent w) rq,
      w\<lparr>w_sent := w_sent w @ [rq], w_clock := w_clock w + int (e_takes E rq)\<rparr>))"

text \<open>The requests so far that ask a host to change something.\<close>

definition mutations :: "world \<Rightarrow> request list" where
  "mutations w = filter (\<lambda>rq. isMutating (rq_capability rq)) (w_sent w)"

definition isConnected :: "string \<Rightarrow> bool handler" where
  [exm_defs]: "isConnected agentId = getE (\<lambda>w. agentId \<in> set (w_connected w))"

section \<open>Constraints\<close>

definition unresolved :: "string \<Rightarrow> bool" where
  "unresolved status = (status \<in> {''pending'', ''running'', ''interrupted''})"

text \<open>The unique indexes on containers, in the order they were created.\<close>

definition containers_host_docker_id_unique :: "container_row list \<Rightarrow> bool" where
  "containers_host_docker_id_unique rows =
     distinct (map (\<lambda>c. (c_hostId c, c_dockerId c)) (filter (\<lambda>c. c_dockerId c \<noteq> None) rows))"

definition containers_host_pending_name_unique :: "container_row list \<Rightarrow> bool" where
  "containers_host_pending_name_unique rows =
     distinct (map (\<lambda>c. (c_hostId c, toLowerCase (c_name c))) (filter (\<lambda>c. c_dockerId c = None) rows))"

definition containers_stack_service_unique :: "container_row list \<Rightarrow> bool" where
  "containers_stack_service_unique rows =
     distinct (map (\<lambda>c. (c_stackId c, c_stackService c))
       (filter (\<lambda>c. c_stackId c \<noteq> None \<and> c_stackService c \<noteq> None) rows))"

definition container_violation :: "container_row list \<Rightarrow> string option" where
  "container_violation rows =
    (if \<not> distinct (map c_id rows) then Some ''containers_pkey''
     else if \<not> containers_host_docker_id_unique rows then Some ''containers_host_docker_id_unique''
     else if \<not> containers_host_pending_name_unique rows then Some ''containers_host_pending_name_unique''
     else if \<not> containers_stack_service_unique rows then Some ''containers_stack_service_unique''
     else None)"

text \<open>A write that leaves the table as it was and throws when an index refuses the result.\<close>

definition put_containers :: "(container_row list \<Rightarrow> container_row list) \<Rightarrow> unit handler" where
  "put_containers f = (\<lambda>w. let rows = f (containers (w_db w)) in
     case container_violation rows of
       Some constraint \<Rightarrow> (Inl (ConstraintErr constraint), w)
     | None \<Rightarrow> (Inr (), w\<lparr>w_db := (w_db w)\<lparr>containers := rows\<rparr>\<rparr>))"

text \<open>Deleting a container takes its configurations and their variables with it.\<close>

definition drop_configs :: "(config_row \<Rightarrow> bool) \<Rightarrow> database \<Rightarrow> database" where
  "drop_configs P db =
    (let gone = set (map dc_id (filter P (containerDesiredConfigs db))) in
     db\<lparr>containerDesiredConfigs := del P (containerDesiredConfigs db),
        containerEnvironmentVariables := del (\<lambda>v. cv_desiredConfigId v \<in> gone) (containerEnvironmentVariables db)\<rparr>)"

definition drop_containers :: "(container_row \<Rightarrow> bool) \<Rightarrow> database \<Rightarrow> database" where
  "drop_containers P db =
    (let gone = set (map c_id (filter P (containers db))) in
     (drop_configs (\<lambda>d. dc_containerId d \<in> gone) db)\<lparr>containers := del P (containers db)\<rparr>)"

definition delete_containers :: "(container_row \<Rightarrow> bool) \<Rightarrow> unit handler" where
  [exm_defs]: "delete_containers P = write_db (drop_containers P)"

definition delete_configs :: "(config_row \<Rightarrow> bool) \<Rightarrow> unit handler" where
  [exm_defs]: "delete_configs P = write_db (drop_configs P)"

text \<open>The configurations: at most one current and one candidate per container.\<close>

definition config_violation :: "config_row list \<Rightarrow> string option" where
  "config_violation rows =
    (if \<not> distinct (map dc_id rows) then Some ''container_desired_configs_pkey''
     else if \<not> distinct (map dc_containerId (filter (\<lambda>d. dc_state d = ''current'') rows))
     then Some ''container_desired_current_unique''
     else if \<not> distinct (map dc_containerId (filter (\<lambda>d. dc_state d = ''pending'') rows))
     then Some ''container_desired_pending_unique''
     else None)"

definition put_configs :: "(config_row list \<Rightarrow> config_row list) \<Rightarrow> unit handler" where
  "put_configs f = (\<lambda>w. let rows = f (containerDesiredConfigs (w_db w)) in
     case config_violation rows of
       Some constraint \<Rightarrow> (Inl (ConstraintErr constraint), w)
     | None \<Rightarrow> (Inr (), w\<lparr>w_db := (w_db w)\<lparr>containerDesiredConfigs := rows\<rparr>\<rparr>))"

text \<open>A variable is a secret with an envelope or a plain value, and a configuration has one of each name.\<close>

definition secret_storage :: "StoredVariable \<Rightarrow> bool" where
  "secret_storage v = (if sv_isSecret v then sv_valueEncrypted v \<noteq> None \<and> sv_value v = None
     else sv_valueEncrypted v = None)"

definition variable_violation :: "config_variable_row list \<Rightarrow> string option" where
  "variable_violation rows =
    (if \<not> list_all (\<lambda>v. secret_storage (cv_variable v)) rows then Some ''container_environment_secret_storage''
     else if \<not> distinct (map (\<lambda>v. (cv_desiredConfigId v, sv_key (cv_variable v))) rows)
     then Some ''container_environment_config_key_unique'' else None)"

definition insert_variables :: "config_variable_row list \<Rightarrow> unit handler" where
  "insert_variables news = (\<lambda>w. let rows = containerEnvironmentVariables (w_db w) @ news in
     case variable_violation rows of
       Some constraint \<Rightarrow> (Inl (ConstraintErr constraint), w)
     | None \<Rightarrow> (Inr (), w\<lparr>w_db := (w_db w)\<lparr>containerEnvironmentVariables := rows\<rparr>\<rparr>))"

definition insert_deployment :: "deployment_row \<Rightarrow> unit handler" where
  "insert_deployment row = (\<lambda>w. let rows = stackDeployments (w_db w) in
     if d_id row \<in> set (map d_id rows) then (Inl (ConstraintErr ''stack_deployments_pkey''), w)
     else if unresolved (d_status row)
        \<and> list_ex (\<lambda>d. d_stackId d = d_stackId row \<and> unresolved (d_status d)) rows
     then (Inl (ConstraintErr ''stack_deployments_unresolved_unique''), w)
     else (Inr (), w\<lparr>w_db := (w_db w)\<lparr>stackDeployments := rows @ [row]\<rparr>\<rparr>))"

definition insert_operation :: "operation_row \<Rightarrow> unit handler" where
  "insert_operation row = (\<lambda>w. let rows = stackOperations (w_db w) in
     if o_id row \<in> set (map o_id rows) then (Inl (ConstraintErr ''stack_operations_pkey''), w)
     else if unresolved (o_status row)
        \<and> list_ex (\<lambda>d. o_stackId d = o_stackId row \<and> unresolved (o_status d)) rows
     then (Inl (ConstraintErr ''stack_operations_unresolved_unique''), w)
     else (Inr (), w\<lparr>w_db := (w_db w)\<lparr>stackOperations := rows @ [row]\<rparr>\<rparr>))"

definition insert_action :: "action_row \<Rightarrow> unit handler" where
  "insert_action row = (\<lambda>w. let rows = actions (w_db w) in
     if act_id row \<in> set (map act_id rows) then (Inl (ConstraintErr ''actions_pkey''), w)
     else (Inr (), w\<lparr>w_db := (w_db w)\<lparr>actions := rows @ [row]\<rparr>\<rparr>))"

text \<open>Updates by primary key.\<close>

definition update_stack :: "string \<Rightarrow> (stack_row \<Rightarrow> stack_row) \<Rightarrow> unit handler" where
  [exm_defs]: "update_stack sid f = write_db (\<lambda>db. db\<lparr>stacks := upd (\<lambda>s. s_id s = sid) f (stacks db)\<rparr>)"

definition update_deployment :: "string \<Rightarrow> (deployment_row \<Rightarrow> deployment_row) \<Rightarrow> unit handler" where
  [exm_defs]: "update_deployment did f = write_db (\<lambda>db.
     db\<lparr>stackDeployments := upd (\<lambda>d. d_id d = did) f (stackDeployments db)\<rparr>)"

definition update_operation :: "string \<Rightarrow> (operation_row \<Rightarrow> operation_row) \<Rightarrow> unit handler" where
  [exm_defs]: "update_operation oid f = write_db (\<lambda>db.
     db\<lparr>stackOperations := upd (\<lambda>d. o_id d = oid) f (stackOperations db)\<rparr>)"

definition update_action :: "string \<Rightarrow> (action_row \<Rightarrow> action_row) \<Rightarrow> unit handler" where
  [exm_defs]: "update_action aid f = write_db (\<lambda>db. db\<lparr>actions := upd (\<lambda>a. act_id a = aid) f (actions db)\<rparr>)"

text \<open>
  Deleting a stack takes its revisions, their environment, its deployments and its operations
  with it, and leaves the containers that named it without a stack.
\<close>

definition cascade_stack :: "string \<Rightarrow> database \<Rightarrow> database" where
  "cascade_stack sid db =
    (let gone = set (map r_id (filter (\<lambda>r. r_stackId r = sid) (stackRevisions db))) in
     db\<lparr>stacks := del (\<lambda>s. s_id s = sid) (stacks db),
        stackRevisions := del (\<lambda>r. r_stackId r = sid) (stackRevisions db),
        stackRevisionEnvironment := del (\<lambda>v. v_revisionId v \<in> gone) (stackRevisionEnvironment db),
        stackDeployments := del (\<lambda>d. d_stackId d = sid) (stackDeployments db),
        stackOperations := del (\<lambda>d. o_stackId d = sid) (stackOperations db),
        containers := upd (\<lambda>c. c_stackId c = Some sid) (\<lambda>c. c\<lparr>c_stackId := None\<rparr>) (containers db)\<rparr>)"

definition delete_stack :: "string \<Rightarrow> unit handler" where
  [exm_defs]: "delete_stack sid = write_db (cascade_stack sid)"

section \<open>The audit trail and operational events\<close>

record AuditRecord =
  ar_action :: string
  ar_result :: string
  ar_actorUserId :: "string option"
  ar_actorLabel :: string
  ar_targetType :: "string option"
  ar_targetId :: "string option"
  ar_targetLabel :: "string option"
  ar_reasonCode :: "string option"
  ar_sourceIp :: "string option"
  ar_userAgent :: "string option"

definition audit_record :: "env \<Rightarrow> AuditRecord \<Rightarrow> unit handler" where
  [exm_defs]: "audit_record E entry = write_db (\<lambda>db. db\<lparr>auditEntries := auditEntries db @
     [\<lparr>au_actorUserId = ar_actorUserId entry, au_actorLabel = ar_actorLabel entry,
       au_action = ar_action entry, au_targetType = ar_targetType entry,
       au_targetId = ar_targetId entry, au_targetLabel = ar_targetLabel entry,
       au_result = ar_result entry, au_reasonCode = ar_reasonCode entry,
       au_sourceIp = ar_sourceIp entry, au_userAgent = map_option (take 256) (ar_userAgent entry),
       au_requestId = e_requestId E\<rparr>]\<rparr>)"

record EventInput =
  ei_hostId :: "string option"
  ei_type :: string
  ei_severity :: "string option"
  ei_resource :: string
  ei_message :: string
  ei_correlationId :: "string option"

definition event_of :: "EventInput \<Rightarrow> event_row" where
  "event_of e = \<lparr>ev_hostId = ei_hostId e, ev_type = ei_type e,
     ev_severity = (case ei_severity e of Some s \<Rightarrow> s | None \<Rightarrow> ''info''),
     ev_resource = ei_resource e, ev_message = ei_message e, ev_correlationId = ei_correlationId e\<rparr>"

definition events_record :: "EventInput \<Rightarrow> unit handler" where
  [exm_defs]: "events_record e = write_db (\<lambda>db. db\<lparr>events := events db @ [event_of e]\<rparr>)"

section \<open>Executing the primitive steps\<close>

lemma drop_configs_simps [simp]:
  "hosts (drop_configs Q db) = hosts db" "agents (drop_configs Q db) = agents db"
  "containers (drop_configs Q db) = containers db" "composeProjects (drop_configs Q db) = composeProjects db"
  "actions (drop_configs Q db) = actions db" "events (drop_configs Q db) = events db"
  "auditEntries (drop_configs Q db) = auditEntries db" "stacks (drop_configs Q db) = stacks db"
  "stackRevisions (drop_configs Q db) = stackRevisions db"
  "stackRevisionEnvironment (drop_configs Q db) = stackRevisionEnvironment db"
  "stackDeployments (drop_configs Q db) = stackDeployments db"
  "stackOperations (drop_configs Q db) = stackOperations db"
  "containerDesiredConfigs (drop_configs Q db) = del Q (containerDesiredConfigs db)"
  by (simp_all add: drop_configs_def Let_def)

lemma drop_containers_simps [simp]:
  "hosts (drop_containers P db) = hosts db" "agents (drop_containers P db) = agents db"
  "containers (drop_containers P db) = del P (containers db)" "composeProjects (drop_containers P db) = composeProjects db"
  "actions (drop_containers P db) = actions db" "events (drop_containers P db) = events db"
  "auditEntries (drop_containers P db) = auditEntries db" "stacks (drop_containers P db) = stacks db"
  "stackRevisions (drop_containers P db) = stackRevisions db"
  "stackRevisionEnvironment (drop_containers P db) = stackRevisionEnvironment db"
  "stackDeployments (drop_containers P db) = stackDeployments db"
  "stackOperations (drop_containers P db) = stackOperations db"
  by (simp_all add: drop_containers_def Let_def)

lemma read_db_eq: "read_db f w = (r, t) \<longleftrightarrow> r = Inr (f (w_db w)) \<and> t = w"
  by (auto simp: read_db_def getE_eq)

lemma write_db_eq: "write_db f w = (r, t) \<longleftrightarrow> r = Inr () \<and> t = w\<lparr>w_db := f (w_db w)\<rparr>"
  by (auto simp: write_db_def modE_eq)

lemma now_eq: "now w = (r, t) \<longleftrightarrow> r = Inr (w_clock w) \<and> t = w"
  by (auto simp: now_def getE_eq)

lemma throw_app_eq: "throw_app e w = (r, t) \<longleftrightarrow> r = Inl (AppErr e) \<and> t = w"
  by (auto simp: throw_app_def throwE_eq)

lemma isConnected_eq: "isConnected a w = (r, t) \<longleftrightarrow> r = Inr (a \<in> set (w_connected w)) \<and> t = w"
  by (auto simp: isConnected_def getE_eq)

lemma transaction_Inr: "transaction m w = (Inr a, t) \<longleftrightarrow> m w = (Inr a, t)"
  by (auto simp: transaction_def split: prod.splits sum.splits)

lemma transaction_Inl:
  "transaction m w = (Inl e, t) \<longleftrightarrow> (\<exists>u. m w = (Inl e, u) \<and> t = u\<lparr>w_db := w_db w\<rparr>)"
  by (auto simp: transaction_def split: prod.splits sum.splits)

lemmas db_exec = exec_simps read_db_eq write_db_eq now_eq throw_app_eq isConnected_eq transaction_Inr

text \<open>
  Running a handler on a state, by rewriting: each rule performs the first step of a handler
  whose outcome is known and leaves the rest to be run on the state that follows.
\<close>

named_theorems run \<open>rules that run a handler step by step\<close>

lemma run_bind [run]: "bindE (bindE m f) g w = bindE m (\<lambda>x. bindE (f x) g) w"
  by (simp add: bindE_def split: prod.split sum.split)

lemma run_ret [run]: "bindE (retE a) f w = f a w" "retE a w = (Inr a, w)"
  by (simp_all add: bindE_def retE_def)

lemma run_throw [run]: "bindE (throwE e) f w = (Inl e, w)" "throwE e w = (Inl e, w)"
  by (simp_all add: bindE_def throwE_def)

lemma run_throw_app [run]: "bindE (throw_app e) f w = (Inl (AppErr e), w)" "throw_app e w = (Inl (AppErr e), w)"
  by (simp_all add: bindE_def throw_app_def throwE_def)

lemma bind_read_db [run]: "bindE (read_db g) f w = f (g (w_db w)) w"
  by (simp add: bindE_def read_db_def getE_def)

lemma run_write [run]:
  "bindE (write_db g) f w = f () (w\<lparr>w_db := g (w_db w)\<rparr>)" "write_db g w = (Inr (), w\<lparr>w_db := g (w_db w)\<rparr>)"
  by (simp_all add: bindE_def write_db_def modE_def)

lemma run_now [run]: "bindE now f w = f (w_clock w) w"
  by (simp add: bindE_def now_def getE_def)

lemma run_isConnected [run]: "bindE (isConnected a) f w = f (a \<in> set (w_connected w)) w"
  by (simp add: bindE_def isConnected_def getE_def)

lemma run_if [run]:
  "bindE (if b then m else n) f w = (if b then bindE m f w else bindE n f w)"
  "(if b then m else n) w = (if b then m w else n w)"
  by simp_all

lemma run_option [run]:
  "bindE (case v of None \<Rightarrow> m | Some x \<Rightarrow> h x) f w = (case v of None \<Rightarrow> bindE m f w | Some x \<Rightarrow> bindE (h x) f w)"
  "(case v of None \<Rightarrow> m | Some x \<Rightarrow> h x) w = (case v of None \<Rightarrow> m w | Some x \<Rightarrow> h x w)"
  by (simp_all split: option.split)

lemma run_when [run]: "bindE (whenE b m) f w = (if b then bindE m f w else f () w)"
  by (simp add: whenE_def bindE_def retE_def)

lemma run_liftE [run]: "bindE (liftE v) f w = (case v of Inl e \<Rightarrow> (Inl e, w) | Inr a \<Rightarrow> f a w)"
  by (simp add: liftE_def bindE_def throwE_def retE_def split: sum.split)

lemma run_dispatch [run]:
  "bindE (dispatch_request E a c p) f w =
    (let rq = \<lparr>rq_agentId = a, rq_capability = c, rq_payload = p\<rparr>;
         t = w\<lparr>w_sent := w_sent w @ [rq], w_clock := w_clock w + int (e_takes E rq)\<rparr> in
     case e_answer E (w_sent w) rq of Inl e \<Rightarrow> (Inl e, t) | Inr v \<Rightarrow> f v t)"
  by (simp add: bindE_def dispatch_request_def Let_def split: sum.split)

lemma run_uuid [run]: "bindE (randomUUID E) f w = f (e_uuid E (w_fresh w)) (w\<lparr>w_fresh := Suc (w_fresh w)\<rparr>)"
  by (simp add: bindE_def randomUUID_def)

lemma run_insert_action [run]:
  "bindE (insert_action row) f w = (if act_id row \<in> act_id ` set (actions (w_db w))
     then (Inl (ConstraintErr ''actions_pkey''), w)
     else f () (w\<lparr>w_db := (w_db w)\<lparr>actions := actions (w_db w) @ [row]\<rparr>\<rparr>))"
  by (simp add: bindE_def insert_action_def Let_def)

lemma run_insert_deployment [run]:
  "bindE (insert_deployment row) f w = (if d_id row \<in> d_id ` set (stackDeployments (w_db w))
     then (Inl (ConstraintErr ''stack_deployments_pkey''), w)
     else if unresolved (d_status row) \<and>
       list_ex (\<lambda>d. d_stackId d = d_stackId row \<and> unresolved (d_status d)) (stackDeployments (w_db w))
     then (Inl (ConstraintErr ''stack_deployments_unresolved_unique''), w)
     else f () (w\<lparr>w_db := (w_db w)\<lparr>stackDeployments := stackDeployments (w_db w) @ [row]\<rparr>\<rparr>))"
  by (simp add: bindE_def insert_deployment_def Let_def)

lemma run_insert_operation [run]:
  "bindE (insert_operation row) f w = (if o_id row \<in> o_id ` set (stackOperations (w_db w))
     then (Inl (ConstraintErr ''stack_operations_pkey''), w)
     else if unresolved (o_status row) \<and>
       list_ex (\<lambda>d. o_stackId d = o_stackId row \<and> unresolved (o_status d)) (stackOperations (w_db w))
     then (Inl (ConstraintErr ''stack_operations_unresolved_unique''), w)
     else f () (w\<lparr>w_db := (w_db w)\<lparr>stackOperations := stackOperations (w_db w) @ [row]\<rparr>\<rparr>))"
  by (simp add: bindE_def insert_operation_def Let_def)

lemma run_put_containers [run]:
  "bindE (put_containers g) f w = (case container_violation (g (containers (w_db w))) of
      Some constraint \<Rightarrow> (Inl (ConstraintErr constraint), w)
    | None \<Rightarrow> f () (w\<lparr>w_db := (w_db w)\<lparr>containers := g (containers (w_db w))\<rparr>\<rparr>))"
  by (simp add: bindE_def put_containers_def Let_def split: option.split)

lemma run_put_configs [run]:
  "bindE (put_configs g) f w = (case config_violation (g (containerDesiredConfigs (w_db w))) of
      Some constraint \<Rightarrow> (Inl (ConstraintErr constraint), w)
    | None \<Rightarrow> f () (w\<lparr>w_db := (w_db w)\<lparr>containerDesiredConfigs := g (containerDesiredConfigs (w_db w))\<rparr>\<rparr>))"
  by (simp add: bindE_def put_configs_def Let_def split: option.split)

lemma run_insert_variables [run]:
  "bindE (insert_variables news) f w = (case variable_violation (containerEnvironmentVariables (w_db w) @ news) of
      Some constraint \<Rightarrow> (Inl (ConstraintErr constraint), w)
    | None \<Rightarrow> f () (w\<lparr>w_db := (w_db w)\<lparr>containerEnvironmentVariables :=
        containerEnvironmentVariables (w_db w) @ news\<rparr>\<rparr>))"
  by (simp add: bindE_def insert_variables_def Let_def split: option.split)

lemmas [run] = delete_containers_def delete_configs_def update_stack_def update_deployment_def update_operation_def
  update_action_def delete_stack_def audit_record_def events_record_def

lemma run_transaction [run]:
  "bindE (transaction m) f w = (case m w of
      (Inl e, t) \<Rightarrow> (Inl e, t\<lparr>w_db := w_db w\<rparr>)
    | (Inr a, t) \<Rightarrow> f a t)"
  by (simp add: bindE_def transaction_def split: prod.split sum.split)

lemma run_try: "bindE (tryE m) f w = (case m w of (r, t) \<Rightarrow> f r t)"
  by (simp add: bindE_def tryE_def split: prod.split)

section \<open>What the primitive steps leave alone\<close>

text \<open>The tables other than those a step writes, and the rest of the world.\<close>

lemma stable_read_db [intro!, simp]: "stable (keeps f) (read_db g)"
  unfolding read_db_def by (rule frame.stable_get)

lemma stable_now [intro!, simp]: "stable (keeps f) now"
  unfolding now_def by (rule frame.stable_get)

lemma stable_throw_app [intro!, simp]: "stable (keeps f) (throw_app e)"
  unfolding throw_app_def by (rule frame.stable_throw)

lemma stable_liftE [intro!, simp]: "stable (keeps f) (liftE v)"
  by (cases v) (simp_all add: liftE_def frame.stable_throw frame.stable_ret)

lemma stable_isConnected [intro!, simp]: "stable (keeps f) (isConnected a)"
  unfolding isConnected_def by (rule frame.stable_get)

lemma stable_write_db:
  "(\<And>w. f (w\<lparr>w_db := g (w_db w)\<rparr>) = f w) \<Longrightarrow> stable (keeps f) (write_db g)"
  unfolding write_db_def by (rule frame.stable_mod) (simp add: keeps_def)

lemma stable_randomUUID:
  "(\<And>w n. f (w\<lparr>w_fresh := n\<rparr>) = f w) \<Longrightarrow> stable (keeps f) (randomUUID E)"
  by (rule stableI) (simp add: randomUUID_def keeps_def)

lemma stable_dispatch:
  "(\<And>w sent clock. f (w\<lparr>w_sent := sent, w_clock := clock\<rparr>) = f w) \<Longrightarrow>
   stable (keeps f) (dispatch_request E a c p)"
  by (rule stableI) (simp add: dispatch_request_def keeps_def Let_def)

lemma stable_harmless_dispatch:
  assumes "\<not> isMutating c"
    and "\<And>w rq clock. \<not> isMutating (rq_capability rq) \<Longrightarrow>
      f (w\<lparr>w_sent := w_sent w @ [rq], w_clock := clock\<rparr>) = f w"
  shows "stable (keeps f) (dispatch_request E a c p)"
  by (rule stableI) (simp add: dispatch_request_def keeps_def Let_def assms)

lemma mutations_simps [simp]:
  "mutations (w\<lparr>w_db := db\<rparr>) = mutations w" "mutations (w\<lparr>w_fresh := n\<rparr>) = mutations w"
  "mutations (w\<lparr>w_held := h\<rparr>) = mutations w" "mutations (w\<lparr>w_clock := t\<rparr>) = mutations w"
  "\<not> isMutating (rq_capability rq) \<Longrightarrow> mutations (w\<lparr>w_sent := w_sent w @ [rq]\<rparr>) = mutations w"
  "isMutating (rq_capability rq) \<Longrightarrow> mutations (w\<lparr>w_sent := w_sent w @ [rq]\<rparr>) = mutations w @ [rq]"
  by (simp_all add: mutations_def)

lemma stable_db_transaction:
  assumes "stable (keeps f) m" and "\<And>w t. f t = f w \<Longrightarrow> f (t\<lparr>w_db := w_db w\<rparr>) = f w"
  shows "stable (keeps f) (transaction m)"
proof (rule stableI)
  fix w
  obtain r t where m: "m w = (r, t)" by fastforce
  with assms(1) have "f t = f w" by (rule keepsD)
  with m assms(2) show "keeps f w (snd (transaction m w))"
    by (cases r) (simp_all add: transaction_def keeps_def)
qed

lemma stable_put_containers:
  "(\<And>w rows. f (w\<lparr>w_db := (w_db w)\<lparr>containers := rows\<rparr>\<rparr>) = f w) \<Longrightarrow> stable (keeps f) (put_containers g)"
  by (rule stableI) (simp add: put_containers_def keeps_def Let_def split: option.split)

lemma stable_insert_action:
  "(\<And>w rows. f (w\<lparr>w_db := (w_db w)\<lparr>actions := rows\<rparr>\<rparr>) = f w) \<Longrightarrow> stable (keeps f) (insert_action row)"
  by (rule stableI) (simp add: insert_action_def keeps_def Let_def)

lemma stable_insert_deployment:
  "(\<And>w rows. f (w\<lparr>w_db := (w_db w)\<lparr>stackDeployments := rows\<rparr>\<rparr>) = f w) \<Longrightarrow>
   stable (keeps f) (insert_deployment row)"
  by (rule stableI) (simp add: insert_deployment_def keeps_def Let_def)

lemma stable_insert_operation:
  "(\<And>w rows. f (w\<lparr>w_db := (w_db w)\<lparr>stackOperations := rows\<rparr>\<rparr>) = f w) \<Longrightarrow>
   stable (keeps f) (insert_operation row)"
  by (rule stableI) (simp add: insert_operation_def keeps_def Let_def)

lemma stable_put_configs:
  "(\<And>w rows. f (w\<lparr>w_db := (w_db w)\<lparr>containerDesiredConfigs := rows\<rparr>\<rparr>) = f w) \<Longrightarrow> stable (keeps f) (put_configs g)"
  by (rule stableI) (simp add: put_configs_def keeps_def Let_def split: option.split)

lemma stable_insert_variables:
  "(\<And>w rows. f (w\<lparr>w_db := (w_db w)\<lparr>containerEnvironmentVariables := rows\<rparr>\<rparr>) = f w) \<Longrightarrow>
   stable (keeps f) (insert_variables news)"
  by (rule stableI) (simp add: insert_variables_def keeps_def Let_def split: option.split)

text \<open>One bundle for frame proofs: the steps that write a table need only that the projection ignores it.\<close>

lemmas frame_steps = stable_write_db stable_randomUUID stable_dispatch stable_db_transaction
  stable_put_containers stable_insert_action stable_insert_deployment stable_insert_operation
  stable_put_configs stable_insert_variables

lemmas frame_rules = frame.stable_rules stable_read_db stable_now stable_throw_app stable_liftE
  stable_isConnected frame_steps

end
