(* ===== verification/Mutation_Registry.thy ===== *)
theory Mutation_Registry
  imports Database
begin

text \<open>
  The locks of the running process, \<^verbatim>\<open>src/api/src/operations/mutation-registry.ts\<close>, and the one
  refusal every operation on a host shares, \<^verbatim>\<open>src/api/src/inventory/host-archive.ts\<close>. The
  closure that \<^verbatim>\<open>acquire\<close> returns is a \<open>lease\<close>: the key it frees and whether it has
  been called. The locale \<open>lock_table\<close> states what a client of the registry relies on.
\<close>

section \<open>The registry\<close>

record lease =
  l_key :: string
  l_released :: bool

definition acquire :: "string \<Rightarrow> string \<Rightarrow> (string \<rightharpoonup> string) \<Rightarrow> js_error + (lease \<times> (string \<rightharpoonup> string))" where
  "acquire key operation held =
    (case held key of
       Some existing \<Rightarrow> if existing \<noteq> []
         then Inl (AppErr (conflict ''ACTION_CONFLICT''
           (''Another operation is already running on this resource: '' @ existing @ ''.'')))
         else Inr (\<lparr>l_key = key, l_released = False\<rparr>, held(key \<mapsto> operation))
     | None \<Rightarrow> Inr (\<lparr>l_key = key, l_released = False\<rparr>, held(key \<mapsto> operation)))"

definition release :: "lease \<Rightarrow> (string \<rightharpoonup> string) \<Rightarrow> lease \<times> (string \<rightharpoonup> string)" where
  "release lease held = (if l_released lease then (lease, held)
     else (lease\<lparr>l_released := True\<rparr>, held(l_key lease := None)))"

definition isBusy :: "string \<Rightarrow> (string \<rightharpoonup> string) \<Rightarrow> bool" where
  "isBusy key held = (held key \<noteq> None)"

definition inFlight :: "(string \<rightharpoonup> string) \<Rightarrow> string set" where
  "inFlight held = dom held"

definition nameKey :: "string \<Rightarrow> string \<Rightarrow> string" where
  "nameKey hostId name = ''name:'' @ hostId @ '':'' @ toLowerCase name"

text \<open>
  \<^verbatim>\<open>const release = acquire(key, operation); try { body } finally { release(); }\<close>, the way
  every stack operation uses the registry.
\<close>

definition with_lock :: "string \<Rightarrow> string \<Rightarrow> 'a handler \<Rightarrow> 'a handler" where
  "with_lock key operation body = (\<lambda>w. case acquire key operation (w_held w) of
      Inl e \<Rightarrow> (Inl e, w)
    | Inr (lease, held) \<Rightarrow>
        finallyE body (\<lambda>t. t\<lparr>w_held := snd (release lease (w_held t))\<rparr>) (w\<lparr>w_held := held\<rparr>))"

section \<open>Archived hosts\<close>

definition isArchived :: "host_row \<Rightarrow> bool" where
  "isArchived host = (h_archivedAt host \<noteq> None)"

definition assertNotArchived :: "host_row \<Rightarrow> string \<Rightarrow> unit handler" where
  "assertNotArchived host what = (if isArchived host
     then throw_app (conflict ''HOST_ARCHIVED''
       (''The host is archived, so '' @ what @ ''. Restore it first if it is in use again.''))
     else retE ())"

section \<open>What a client relies on\<close>

text \<open>
  A table of locks: whoever takes a free lock holds it, nobody takes a lock that is held, a
  lease given back once restores the table, and giving it back again changes nothing.
\<close>

locale lock_table =
  fixes acq :: "'k \<Rightarrow> 'p \<Rightarrow> 't \<Rightarrow> 'e + ('l \<times> 't)"
    and rel :: "'l \<Rightarrow> 't \<Rightarrow> 'l \<times> 't"
    and busy :: "'k \<Rightarrow> 't \<Rightarrow> bool"
    and marked :: "'p \<Rightarrow> bool"
  assumes acq_free: "\<not> busy k t \<Longrightarrow> \<exists>l u. acq k p t = Inr (l, u)"
    and acq_holds: "acq k p t = Inr (l, u) \<Longrightarrow> marked p \<Longrightarrow> busy k u \<and> (\<exists>e. acq k q u = Inl e)"
    and acq_others: "acq k p t = Inr (l, u) \<Longrightarrow> k' \<noteq> k \<Longrightarrow> busy k' u = busy k' t"
    and rel_restores: "\<not> busy k t \<Longrightarrow> acq k p t = Inr (l, u) \<Longrightarrow> snd (rel l u) = t"
    and rel_once: "snd (rel (fst (rel l t)) u) = u"
begin

text \<open>Two clients of the same lock never hold it together, and the second gets it afterwards.\<close>

lemma exclusive:
  "acq k p t = Inr (l, u) \<Longrightarrow> marked p \<Longrightarrow> \<nexists>l' v. acq k q u = Inr (l', v)"
  using acq_holds by (metis Inr_Inl_False)

lemma next_in_line:
  "\<not> busy k t \<Longrightarrow> acq k p t = Inr (l, u) \<Longrightarrow> \<exists>l' v. acq k q (snd (rel l u)) = Inr (l', v)"
  using acq_free rel_restores by metis

text \<open>A lease that was given back cannot free the lock of whoever holds it now.\<close>

lemma stale_lease:
  assumes "acq k p t = Inr (l, u)" and "marked q"
    and "acq k q (snd (rel l u)) = Inr (l', v)"
  shows "busy k (snd (rel (fst (rel l u)) v))"
  using acq_holds [OF assms(3,2)] by (simp add: rel_once)

end

interpretation registry: lock_table acquire release isBusy "\<lambda>operation. operation \<noteq> []"
proof
  fix k p and t :: "string \<rightharpoonup> string"
  show "\<not> isBusy k t \<Longrightarrow> \<exists>l u. acquire k p t = Inr (l, u)"
    by (simp add: isBusy_def acquire_def)
next
  fix k p q l and t u :: "string \<rightharpoonup> string"
  show "acquire k p t = Inr (l, u) \<Longrightarrow> p \<noteq> [] \<Longrightarrow> isBusy k u \<and> (\<exists>e. acquire k q u = Inl e)"
    by (auto simp: isBusy_def acquire_def split: option.splits if_splits)
next
  fix k p l k' and t u :: "string \<rightharpoonup> string"
  show "acquire k p t = Inr (l, u) \<Longrightarrow> k' \<noteq> k \<Longrightarrow> isBusy k' u = isBusy k' t"
    by (auto simp: isBusy_def acquire_def split: option.splits if_splits)
next
  fix k p l and t u :: "string \<rightharpoonup> string"
  show "\<not> isBusy k t \<Longrightarrow> acquire k p t = Inr (l, u) \<Longrightarrow> snd (release l u) = t"
    by (auto simp: isBusy_def acquire_def release_def split: option.splits if_splits)
next
  fix l and t u :: "string \<rightharpoonup> string"
  show "snd (release (fst (release l t)) u) = u"
    by (simp add: release_def)
qed

section \<open>Lemmas\<close>

lemma stable_assertNotArchived [intro!, simp]: "stable (keeps f) (assertNotArchived host what)"
  unfolding assertNotArchived_def by (intro frame.stable_if frame.stable_ret stable_throw_app)

lemma acquire_held: "acquire k p held = Inr (l, u) \<Longrightarrow> u = held(k \<mapsto> p) \<and> l = \<lparr>l_key = k, l_released = False\<rparr>"
  by (auto simp: acquire_def split: option.splits if_splits)

lemma with_lock_busy:
  "w_held w key = Some existing \<Longrightarrow> existing \<noteq> [] \<Longrightarrow>
   \<exists>e. with_lock key operation body w = (Inl (AppErr e), w) \<and> ae_code e = ''ACTION_CONFLICT''"
  by (simp add: with_lock_def acquire_def)

text \<open>Running under a lock keeps whatever the body keeps and does not depend on the locks.\<close>

lemma stable_with_lock:
  assumes "stable (keeps f) body" and "\<And>w h. f (w\<lparr>w_held := h\<rparr>) = f w"
  shows "stable (keeps f) (with_lock key operation body)"
proof (rule stableI)
  fix w
  show "keeps f w (snd (with_lock key operation body w))"
  proof (cases "acquire key operation (w_held w)")
    case (Inl e)
    then show ?thesis by (simp add: with_lock_def keeps_def)
  next
    case (Inr lu)
    obtain l u where lu: "lu = (l, u)" by (cases lu)
    obtain r t where "body (w\<lparr>w_held := u\<rparr>) = (r, t)" by fastforce
    with keepsD [OF assms(1) this] Inr lu assms(2) show ?thesis
      by (simp add: with_lock_def keeps_def finallyE_def)
  qed
qed

text \<open>
  An operation that runs under a lock leaves the locks exactly as it found them, whether it
  returns or throws.
\<close>

lemma with_lock_restores:
  assumes "stable (keeps w_held) body" and "w_held w key \<noteq> Some []"
  shows "w_held (snd (with_lock key operation body w)) = w_held w"
proof (cases "w_held w key")
  case (Some existing)
  with assms(2) have "existing \<noteq> []" by auto
  from with_lock_busy [OF Some this, of operation body] show ?thesis by auto
next
  case None
  then have free: "\<not> isBusy key (w_held w)" by (simp add: isBusy_def)
  then obtain l u where lu: "acquire key operation (w_held w) = Inr (l, u)"
    using registry.acq_free by blast
  obtain r t where "body (w\<lparr>w_held := u\<rparr>) = (r, t)" by fastforce
  with keepsD [OF assms(1) this] lu registry.rel_restores [OF free lu] show ?thesis
    by (simp add: with_lock_def finallyE_def)
qed

definition empty_db :: database where
  "empty_db = \<lparr>hosts = [], agents = [], containers = [], composeProjects = [], actions = [],
     events = [], auditEntries = [], stacks = [], stackRevisions = [], stackRevisionEnvironment = [],
     stackDeployments = [], stackOperations = [],
     containerDesiredConfigs = [], containerEnvironmentVariables = []\<rparr>"

definition empty_world :: world where
  "empty_world = \<lparr>w_db = empty_db, w_held = Map.empty, w_connected = [], w_sent = [], w_clock = 0,
     w_fresh = 0, w_registered = None\<rparr>"

section \<open>Properties\<close>

text \<open>
  C37: while one operation holds a lock nobody else gets it; given back, the lock can be taken
  again; and a release that is called a second time does not free the lock of whoever has
  taken it since.
\<close>

theorem registry_exclusive:
  assumes "\<not> isBusy key held" and "acquire key operation held = Inr (lease, held')"
    and "operation \<noteq> []" and "operation' \<noteq> []"
  shows "(\<nexists>l t. acquire key operation' held' = Inr (l, t)) \<and>
    (\<exists>lease' held''. acquire key operation' (snd (release lease held')) = Inr (lease', held'')
       \<and> isBusy key (snd (release (fst (release lease held')) held'')))"
proof -
  obtain l' v where "acquire key operation' (snd (release lease held')) = Inr (l', v)"
    using registry.next_in_line [OF assms(1,2)] by blast
  with registry.exclusive [OF assms(2,3)] registry.stale_lease [OF assms(2,4)] show ?thesis
    by blast
qed

theorem registry_exclusive_witness:
  "\<exists>lease held. acquire ''stack:s'' ''stop'' Map.empty = Inr (lease, held) \<and>
     (\<nexists>l t. acquire ''stack:s'' ''deploy'' held = Inr (l, t))"
  using registry_exclusive [of "''stack:s''" Map.empty "''stop''"
      "\<lparr>l_key = ''stack:s'', l_released = False\<rparr>" "[''stack:s'' \<mapsto> ''stop'']" "''deploy''"]
  by (simp add: isBusy_def acquire_def)

end
