(* ===== verification/Discovery.thy ===== *)
theory Discovery
  imports Mutation_Registry
begin

text \<open>
  Discovery, \<^verbatim>\<open>src/api/src/discovery/discovery.service.ts\<close>: one pass over a host asks its agent for
  the inventory, the metrics, the containers and the Compose projects, writes what it is told,
  and, only when every step succeeded, removes what the pass did not see. The pass is shown to
  leave alone everything the stack services own, to remove nothing unless it was complete,
  and to write to rows of another host only through a claimed identity.
\<close>

section \<open>Labels and identifiers\<close>

definition DOCKPLANE_CONTAINER_ID :: string where "DOCKPLANE_CONTAINER_ID = ''io.dockplane.container-id''"
definition DOCKPLANE_MANAGED :: string where "DOCKPLANE_MANAGED = ''io.dockplane.managed''"
definition DOCKPLANE_DESIRED_CONFIG_ID :: string where
  "DOCKPLANE_DESIRED_CONFIG_ID = ''io.dockplane.desired-config-id''"
definition DOCKPLANE_STACK_ID :: string where "DOCKPLANE_STACK_ID = ''io.dockplane.stack-id''"
definition DOCKPLANE_STACK_SERVICE :: string where
  "DOCKPLANE_STACK_SERVICE = ''io.dockplane.stack-service''"
definition DOCKPLANE_STACK_REVISION_ID :: string where
  "DOCKPLANE_STACK_REVISION_ID = ''io.dockplane.stack-revision-id''"

definition is_service_char :: "char \<Rightarrow> bool" where
  "is_service_char c = (is_digit c \<or> is_alpha c \<or> c \<in> {CHR ''_'', CHR ''.'', CHR ''-''})"

definition SERVICE_NAME :: "string \<Rightarrow> bool" where
  "SERVICE_NAME s = (case s of
      [] \<Rightarrow> False
    | c # r \<Rightarrow> (is_digit c \<or> is_alpha c) \<and> list_all is_service_char r \<and> length r \<le> 63)"

definition is_hex :: "char \<Rightarrow> bool" where
  "is_hex c = (is_digit c \<or> c \<in> set ''abcdefABCDEF'')"

definition UUID :: "string \<Rightarrow> bool" where
  "UUID s = (case split_on CHR ''-'' s of
      [a, b, c, d, e] \<Rightarrow> map length [a, b, c, d, e] = [8, 4, 4, 4, 12]
        \<and> list_all is_hex (a @ b @ c @ d @ e)
    | _ \<Rightarrow> False)"

definition label :: "ContainerSummary \<Rightarrow> string \<Rightarrow> string option" where
  "label item name = js_map (cs_labels item) name"

definition parseDate :: "env \<Rightarrow> string option \<Rightarrow> int option" where
  "parseDate E value = (if truthy value then Date_parse (e_legacy_date E) (the value) else None)"

definition joinOs :: "string option \<Rightarrow> string option \<Rightarrow> string option" where
  "joinOs os version = (if \<not> truthy os then None
     else if truthy version then Some (the os @ '' '' @ the version) else os)"

text \<open>\<^verbatim>\<open>a || b\<close> and \<^verbatim>\<open>a ?? b\<close> on optional strings.\<close>

definition or_truthy :: "string option \<Rightarrow> string option \<Rightarrow> string option" where
  "or_truthy a b = (if truthy a then a else b)"

definition or_null :: "'a option \<Rightarrow> 'a option \<Rightarrow> 'a option" where
  "or_null a b = (case a of Some _ \<Rightarrow> a | None \<Rightarrow> b)"

section \<open>What a container says it is\<close>

definition observedConfig :: "ContainerSummary \<Rightarrow> string option" where
  "observedConfig item =
    (if label item DOCKPLANE_MANAGED \<noteq> Some ''true'' then None
     else let claimed = label item DOCKPLANE_DESIRED_CONFIG_ID in
       if \<not> truthy claimed then None
       else if \<not> UUID (the claimed) then None
       else claimed)"

type_synonym stack_claim = "string option \<times> string option \<times> string option"

definition observedStack :: "ContainerSummary \<Rightarrow> stack_claim" where
  "observedStack item =
    (if label item DOCKPLANE_MANAGED \<noteq> Some ''true'' then (None, None, None)
     else let stackId = label item DOCKPLANE_STACK_ID; service = label item DOCKPLANE_STACK_SERVICE in
       if \<not> truthy stackId \<and> \<not> truthy service then (None, None, None)
       else if \<not> truthy stackId \<or> \<not> truthy service \<or> \<not> UUID (the stackId) \<or> \<not> SERVICE_NAME (the service)
       then (None, None, None)
       else let revision = label item DOCKPLANE_STACK_REVISION_ID in
         (stackId, service, if truthy revision \<and> UUID (the revision) then revision else None))"

text \<open>The services held so far in this pass: a stack and a service to whoever holds it.\<close>

type_synonym service_holders = "(string \<times> string) \<rightharpoonup> string"

definition attributeToStack :: "ContainerSummary \<Rightarrow> string option \<Rightarrow> string list \<Rightarrow> service_holders
    \<Rightarrow> stack_claim \<times> service_holders" where
  "attributeToStack item rowId known heldBy =
    (case observedStack item of (stackId, service, revision) \<Rightarrow>
      if \<not> truthy stackId \<or> \<not> truthy service then ((stackId, service, revision), heldBy)
      else if the stackId \<notin> set known then ((None, None, None), heldBy)
      else let key = (the stackId, the service); holder = heldBy key in
        if truthy holder \<and> holder \<noteq> rowId then ((None, None, None), heldBy)
        else ((stackId, service, revision),
          heldBy(key \<mapsto> (case rowId of Some r \<Rightarrow> r | None \<Rightarrow> ''docker:'' @ the (cs_dockerId item)))))"

definition mutating :: "string \<Rightarrow> bool handler" where
  "mutating containerId = getE (\<lambda>w. case w_registered w of None \<Rightarrow> False | Some xs \<Rightarrow> containerId \<in> set xs)"

definition registerInFlight :: "string list \<Rightarrow> unit handler" where
  "registerInFlight resources = modE (\<lambda>w. w\<lparr>w_registered := Some resources\<rparr>)"

section \<open>Writing what was observed\<close>

definition emit :: "string \<Rightarrow> string \<Rightarrow> string \<Rightarrow> string \<Rightarrow> string \<Rightarrow> unit handler" where
  "emit hostId type severity resource message = events_record
     \<lparr>ei_hostId = Some hostId, ei_type = type, ei_severity = Some severity, ei_resource = resource,
      ei_message = message, ei_correlationId = None\<rparr>"

definition changedInventory :: "host_row option \<Rightarrow> HostInventory \<Rightarrow> bool" where
  "changedInventory previous inventory = (case previous of
      None \<Rightarrow> True
    | Some p \<Rightarrow> h_os p \<noteq> joinOs (hi_os inventory) (hi_osVersion inventory)
        \<or> h_kernel p \<noteq> hi_kernel inventory \<or> h_dockerVersion p \<noteq> hi_dockerVersion inventory)"

definition present_field :: "string \<Rightarrow> json option \<Rightarrow> (string \<times> json) list" where
  "present_field name v = (case v of None \<Rightarrow> [] | Some j \<Rightarrow> [(name, j)])"

definition applyInventory :: "string \<Rightarrow> HostInventory \<Rightarrow> string option \<Rightarrow> unit handler" where
  "applyInventory hostId inventory agentVersion =
    bindE (read_db (\<lambda>db. find (\<lambda>h. h_id h = hostId) (hosts db))) (\<lambda>previous.
    let before = (\<lambda>sel. Option.bind previous sel) in
    bindE (write_db (\<lambda>db. db\<lparr>hosts := upd (\<lambda>h. h_id h = hostId) (\<lambda>h. h\<lparr>
        h_hostname := the (or_truthy (hi_hostname inventory)
          (or_truthy (map_option h_hostname previous) (Some ''unidentified-host''))),
        h_os := or_null (joinOs (hi_os inventory) (hi_osVersion inventory)) (before h_os),
        h_architecture := or_null (hi_architecture inventory) (before h_architecture),
        h_kernel := or_null (hi_kernel inventory) (before h_kernel),
        h_dockerVersion := (case or_truthy (hi_dockerVersion inventory) (before h_dockerVersion) of
            Some v \<Rightarrow> if v = [] then None else Some v | None \<Rightarrow> None),
        h_agentVersion := or_null (hi_agentVersion inventory) (or_null agentVersion (before h_agentVersion)),
        h_metadata := Some (JObject (present_field ''cpuCount'' (hi_cpuCount inventory)
          @ present_field ''cpuModel'' (hi_cpuModel inventory)
          @ present_field ''memoryTotalBytes'' (hi_memoryTotalBytes inventory)
          @ present_field ''uptimeSeconds'' (hi_uptimeSeconds inventory)))\<rparr>) (hosts db)\<rparr>)) (\<lambda>_.
    whenE (changedInventory previous inventory)
      (emit hostId ''host.inventory.updated'' ''info'' (''host:'' @ hostId) ''Host inventory changed.'')))"

text \<open>Metrics that are \<^verbatim>\<open>undefined\<close> are left out of the update.\<close>

definition applyMetrics :: "string \<Rightarrow> json option \<Rightarrow> unit handler" where
  "applyMetrics hostId metrics = write_db (\<lambda>db. db\<lparr>hosts :=
     upd (\<lambda>h. h_id h = hostId) (\<lambda>h. h\<lparr>h_metrics := or_null metrics (h_metrics h)\<rparr>) (hosts db)\<rparr>)"

text \<open>\<^verbatim>\<open>where id = $1\<close> with text that came from a host: PostgreSQL reads it as a \<^verbatim>\<open>uuid\<close> or refuses.\<close>

definition update_container_by_text :: "env \<Rightarrow> string \<Rightarrow> (container_row \<Rightarrow> container_row) \<Rightarrow> unit handler" where
  "update_container_by_text E text f = (case e_pg_uuid E text of
      None \<Rightarrow> throwE (OtherErr ''invalid input syntax for type uuid'')
    | Some cid \<Rightarrow> write_db (\<lambda>db. db\<lparr>containers := upd (\<lambda>c. c_id c = cid) f (containers db)\<rparr>))"

definition keep :: "env \<Rightarrow> string \<Rightarrow> string \<Rightarrow> int \<Rightarrow> unit handler" where
  "keep E containerId snapshotId observedAt =
     update_container_by_text E containerId (\<lambda>c. c\<lparr>c_snapshotId := Some snapshotId, c_observedAt := Some observedAt\<rparr>)"

definition recordIdentityConflict :: "env \<Rightarrow> string \<Rightarrow> string list \<Rightarrow> unit handler" where
  "recordIdentityConflict E containerId dockerIds =
     update_container_by_text E containerId (\<lambda>c. c\<lparr>c_identityConflict := Some dockerIds\<rparr>)"

text \<open>The primary key and the unique index of the Compose projects.\<close>

definition project_violation :: "project_row list \<Rightarrow> string option" where
  "project_violation rows =
    (if \<not> distinct (map p_id rows) then Some ''compose_projects_pkey''
     else if \<not> distinct (map (\<lambda>p. (p_hostId p, p_projectName p)) rows) then Some ''compose_host_project_unique''
     else None)"

definition insert_project :: "project_row \<Rightarrow> unit handler" where
  "insert_project row =
    bindE (read_db (\<lambda>db. project_violation (composeProjects db @ [row]))) (\<lambda>violated.
    case violated of
      Some constraint \<Rightarrow> throwE (ConstraintErr constraint)
    | None \<Rightarrow> write_db (\<lambda>db. db\<lparr>composeProjects := composeProjects db @ [row]\<rparr>))"

definition projectId :: "env \<Rightarrow> string \<Rightarrow> string \<Rightarrow> string \<Rightarrow> int \<Rightarrow> string handler" where
  "projectId E hostId projectName snapshotId observedAt =
    bindE (read_db (\<lambda>db. find (\<lambda>p. p_hostId p = hostId \<and> p_projectName p = projectName) (composeProjects db)))
    (\<lambda>existing. case existing of
       Some p \<Rightarrow> retE (p_id p)
     | None \<Rightarrow> bindE (randomUUID E) (\<lambda>pid.
         bindE (insert_project \<lparr>p_id = pid, p_hostId = hostId, p_projectName = projectName,
           p_status = ''unknown'', p_serviceCount = 0, p_runningCount = 0, p_services = None, p_detailObservedAt = None,
           p_snapshotId = Some snapshotId, p_observedAt = Some observedAt\<rparr>) (\<lambda>_. retE pid)))"

text \<open>The Docker identifiers that claim one Dockplane identity in this report.\<close>

definition claimants :: "ContainerSummary list \<Rightarrow> string \<Rightarrow> string list" where
  "claimants reported identity = List.map_filter (\<lambda>item.
     if label item DOCKPLANE_CONTAINER_ID = Some identity \<and> truthy (cs_dockerId item)
     then cs_dockerId item else None) reported"

definition observed_row :: "env \<Rightarrow> string \<Rightarrow> string \<Rightarrow> int \<Rightarrow> ContainerSummary \<Rightarrow> stack_claim
    \<Rightarrow> string option \<Rightarrow> container_row \<Rightarrow> container_row" where
  "observed_row E hostId snapshotId observedAt item claim project row =
     row\<lparr>c_hostId := hostId,
         c_dockerId := cs_dockerId item,
         c_observedDesiredConfigId := observedConfig item,
         c_stackId := fst claim,
         c_stackService := fst (snd claim),
         c_stackRevisionId := snd (snd claim),
         c_name := the (or_null (cs_name item) (Some '''')),
         c_image := the (or_null (cs_image item) (Some '''')),
         c_imageId := cs_imageId item,
         c_state := the (or_null (cs_state item) (Some ''unknown'')),
         c_health := the (or_null (cs_health item) (Some ''none'')),
         c_composeProjectId := project,
         c_dockerCreatedAt := parseDate E (cs_createdAt item),
         c_metadata := (label item ''com.docker.compose.service'', cs_status item),
         c_snapshotId := Some snapshotId,
         c_observedAt := Some observedAt\<rparr>"

definition blank_row :: "string \<Rightarrow> string \<Rightarrow> container_row" where
  "blank_row cid hostId = \<lparr>c_id = cid, c_hostId = hostId, c_dockerId = None, c_name = '''', c_image = '''',
     c_imageId = None, c_state = '''', c_health = ''none'', c_restartCount = 0, c_composeProjectId = None,
     c_stackId = None, c_stackService = None, c_stackRevisionId = None, c_dockerCreatedAt = None,
     c_metadata = (None, None), c_detail = None, c_detailObservedAt = None, c_identityConflict = None,
     c_observedDesiredConfigId = None, c_snapshotId = None, c_observedAt = None\<rparr>"

text \<open>One reported container that is neither contested nor being moved by a mutation.\<close>

definition apply_container :: "env \<Rightarrow> string \<Rightarrow> string \<Rightarrow> int \<Rightarrow> container_row option \<Rightarrow> stack_claim
    \<Rightarrow> ContainerSummary \<Rightarrow> unit handler" where
  "apply_container E hostId snapshotId observedAt previous claim item =
    bindE (if truthy (label item ''com.docker.compose.project'')
           then bindE (projectId E hostId (the (label item ''com.docker.compose.project'')) snapshotId observedAt)
                  (\<lambda>pid. retE (Some pid))
           else retE None) (\<lambda>project.
    let values = observed_row E hostId snapshotId observedAt item claim project;
        resource = ''container:'' @ the (cs_dockerId item) in
    case previous of
      Some p \<Rightarrow>
        bindE (put_containers (upd (\<lambda>c. c_id c = c_id p) values)) (\<lambda>_.
        bindE (whenE (c_state p \<noteq> c_state (values p))
          (emit hostId ''container.state.changed'' (if c_state (values p) = ''running'' then ''info'' else ''warning'')
             resource (c_name (values p) @ '' is '' @ c_state (values p) @ ''.''))) (\<lambda>_.
        whenE (c_health p \<noteq> c_health (values p))
          (emit hostId ''container.health.changed'' (if c_health (values p) = ''unhealthy'' then ''critical'' else ''info'')
             resource (c_name (values p) @ '' reports health '' @ c_health (values p) @ ''.''))))
    | None \<Rightarrow>
        bindE (randomUUID E) (\<lambda>cid.
        bindE (put_containers (\<lambda>rows. rows @ [values (blank_row cid hostId)])) (\<lambda>_.
        emit hostId ''container.discovered'' ''info'' resource
          (c_name (values (blank_row cid hostId)) @ '' was discovered.''))))"

text \<open>The loop over the report; \<open>existing\<close> is what the table held when the loop began.\<close>

fun apply_reported :: "env \<Rightarrow> string \<Rightarrow> string \<Rightarrow> int \<Rightarrow> ContainerSummary list \<Rightarrow> container_row list \<Rightarrow> string list
    \<Rightarrow> service_holders \<Rightarrow> ContainerSummary list \<Rightarrow> unit handler" where
  "apply_reported E hostId snapshotId observedAt reported existing known heldBy [] = retE ()"
| "apply_reported E hostId snapshotId observedAt reported existing known heldBy (item # items) =
    (if \<not> truthy (cs_dockerId item)
     then apply_reported E hostId snapshotId observedAt reported existing known heldBy items
     else let identity = label item DOCKPLANE_CONTAINER_ID in
       bindE (mutating (the (or_null identity (Some '''')))) (\<lambda>busy.
       if truthy identity \<and> length (claimants reported (the identity)) > 1 \<and> \<not> busy then
         bindE (recordIdentityConflict E (the identity) (claimants reported (the identity))) (\<lambda>_.
         bindE (keep E (the identity) snapshotId observedAt) (\<lambda>_.
         apply_reported E hostId snapshotId observedAt reported existing known heldBy items))
       else if truthy identity \<and> busy then
         bindE (keep E (the identity) snapshotId observedAt) (\<lambda>_.
         apply_reported E hostId snapshotId observedAt reported existing known heldBy items)
       else
         let previous = or_null
               (if truthy identity then js_map (map (\<lambda>r. (c_id r, r)) existing) (the identity) else None)
               (js_map (List.map_filter (\<lambda>r. map_option (\<lambda>d. (d, r)) (c_dockerId r)) existing)
                  (the (cs_dockerId item))) in
         case attributeToStack item (map_option c_id previous) known heldBy of (claim, heldBy') \<Rightarrow>
           bindE (apply_container E hostId snapshotId observedAt previous claim item) (\<lambda>_.
           apply_reported E hostId snapshotId observedAt reported existing known heldBy' items)))"

definition applyContainers :: "env \<Rightarrow> string \<Rightarrow> ContainerSummary list \<Rightarrow> string \<Rightarrow> nat handler" where
  "applyContainers E hostId reported snapshotId =
    bindE now (\<lambda>observedAt.
    bindE (read_db (\<lambda>db. filter (\<lambda>c. c_hostId c = hostId) (containers db))) (\<lambda>existing.
    let heldBy = js_map (List.map_filter (\<lambda>r.
          if truthy (c_stackId r) \<and> truthy (c_stackService r)
          then Some ((the (c_stackId r), the (c_stackService r)), c_id r) else None) existing) in
    bindE (read_db (\<lambda>db. map s_id (filter (\<lambda>s. s_hostId s = hostId) (stacks db)))) (\<lambda>known.
    bindE (apply_reported E hostId snapshotId observedAt reported existing known heldBy reported) (\<lambda>_.
    retE (length reported)))))"

definition apply_project :: "env \<Rightarrow> string \<Rightarrow> string \<Rightarrow> int \<Rightarrow> ComposeProject \<Rightarrow> unit handler" where
  "apply_project E hostId snapshotId observedAt project =
    (if \<not> truthy (cp_projectName project) then retE ()
     else let name = the (cp_projectName project); status = the (or_null (cp_status project) (Some ''unknown''));
         values = (\<lambda>p. p\<lparr>p_hostId := hostId, p_projectName := name, p_status := status,
           p_serviceCount := the (or_null (cp_serviceCount project) (Some 0)),
           p_runningCount := the (or_null (cp_runningCount project) (Some 0)),
           p_services := or_null (cp_services project) (Some (JArray [])),
           p_snapshotId := Some snapshotId, p_observedAt := Some observedAt\<rparr>) in
       bindE (read_db (\<lambda>db. find (\<lambda>p. p_hostId p = hostId \<and> p_projectName p = name) (composeProjects db)))
       (\<lambda>previous. case previous of
          Some p \<Rightarrow>
            bindE (write_db (\<lambda>db. db\<lparr>composeProjects := upd (\<lambda>q. p_id q = p_id p) values (composeProjects db)\<rparr>)) (\<lambda>_.
            whenE (p_status p \<noteq> status)
              (emit hostId ''compose.state.changed'' (if status = ''running'' then ''info'' else ''warning'')
                (''compose:'' @ name) (name @ '' is '' @ status @ ''.'')))
        | None \<Rightarrow>
            bindE (randomUUID E) (\<lambda>pid.
            bindE (insert_project (values \<lparr>p_id = pid, p_hostId = hostId, p_projectName = name,
              p_status = status, p_serviceCount = 0, p_runningCount = 0, p_services = None, p_detailObservedAt = None,
              p_snapshotId = None, p_observedAt = None\<rparr>)) (\<lambda>_.
            emit hostId ''compose.discovered'' ''info'' (''compose:'' @ name) (name @ '' was discovered.'')))))"

definition applyProjects :: "env \<Rightarrow> string \<Rightarrow> ComposeProject list \<Rightarrow> string \<Rightarrow> nat handler" where
  "applyProjects E hostId reported snapshotId =
    bindE now (\<lambda>observedAt.
    bindE (forE reported (apply_project E hostId snapshotId observedAt)) (\<lambda>_. retE (length reported)))"

section \<open>The pass\<close>

text \<open>\<^verbatim>\<open>ne(column, value)\<close>: a null column is not different from anything.\<close>

definition sql_ne :: "'a option \<Rightarrow> 'a \<Rightarrow> bool" where
  "sql_ne column value = (case column of None \<Rightarrow> False | Some v \<Rightarrow> v \<noteq> value)"

definition stale_container :: "string \<Rightarrow> string \<Rightarrow> container_row \<Rightarrow> bool" where
  "stale_container hostId snapshotId c =
     (c_hostId c = hostId \<and> c_dockerId c \<noteq> None \<and> sql_ne (c_snapshotId c) snapshotId)"

definition stale_project :: "string \<Rightarrow> string \<Rightarrow> project_row \<Rightarrow> bool" where
  "stale_project hostId snapshotId p = (p_hostId p = hostId \<and> sql_ne (p_snapshotId p) snapshotId)"

definition reconcile :: "string \<Rightarrow> string \<Rightarrow> nat handler" where
  "reconcile hostId snapshotId = transaction (
    bindE (read_db (\<lambda>db. filter (stale_container hostId snapshotId) (containers db))) (\<lambda>staleContainers.
    bindE (delete_containers (stale_container hostId snapshotId)) (\<lambda>_.
    bindE (read_db (\<lambda>db. filter (stale_project hostId snapshotId) (composeProjects db))) (\<lambda>staleProjects.
    bindE (write_db (\<lambda>db. db\<lparr>composeProjects := del (stale_project hostId snapshotId) (composeProjects db)\<rparr>)) (\<lambda>_.
    bindE (forE staleContainers (\<lambda>c. emit hostId ''container.removed'' ''info''
        (''container:'' @ the (c_dockerId c)) (c_name c @ '' is no longer present.''))) (\<lambda>_.
    bindE (forE staleProjects (\<lambda>p. emit hostId ''compose.removed'' ''info''
        (''compose:'' @ p_projectName p) (p_projectName p @ '' is no longer present.''))) (\<lambda>_.
    retE (length staleContainers + length staleProjects))))))))"

definition recordFailure :: "string \<Rightarrow> string \<Rightarrow> unit handler" where
  "recordFailure hostId capability = emit hostId ''inventory.sync.failed'' ''warning''
     (''capability:'' @ capability) (capability @ '' did not complete.'')"

record SyncResult =
  sy_snapshotId :: string
  sy_hostId :: string
  sy_complete :: bool
  sy_containers :: nat
  sy_projects :: nat
  sy_removed :: nat

text \<open>One step of the pass: ask, apply, and on any error record the failure and go on.\<close>

definition sync_step :: "env \<Rightarrow> string \<Rightarrow> string \<Rightarrow> string \<Rightarrow> (answer \<Rightarrow> nat handler) \<Rightarrow> (bool \<times> nat) handler" where
  "sync_step E agentId hostId capability apply =
    bindE (tryE (bindE (dispatch_request E agentId capability NoPayload) apply)) (\<lambda>result.
    case result of
      Inr n \<Rightarrow> retE (True, n)
    | Inl e \<Rightarrow> bindE (recordFailure hostId capability) (\<lambda>_. retE (False, 0)))"

definition no_inventory :: HostInventory where
  "no_inventory = \<lparr>hi_hostname = None, hi_os = None, hi_osVersion = None, hi_architecture = None,
     hi_kernel = None, hi_uptimeSeconds = None, hi_cpuCount = None, hi_cpuModel = None,
     hi_memoryTotalBytes = None, hi_dockerVersion = None, hi_agentVersion = None\<rparr>"

definition inventory_of :: "answer \<Rightarrow> HostInventory" where
  "inventory_of a = (case a of InventoryAnswer i \<Rightarrow> i | _ \<Rightarrow> no_inventory)"

definition metrics_of :: "answer \<Rightarrow> json option" where
  "metrics_of a = (case a of MetricsAnswer m \<Rightarrow> Some m | _ \<Rightarrow> None)"

definition containers_of :: "answer \<Rightarrow> ContainerSummary list" where
  "containers_of a = (case a of ContainersAnswer cs \<Rightarrow> cs | _ \<Rightarrow> [])"

definition projects_of :: "answer \<Rightarrow> ComposeProject list" where
  "projects_of a = (case a of ProjectsAnswer ps \<Rightarrow> ps | _ \<Rightarrow> [])"

text \<open>The four steps, with whether all of them succeeded and what two of them counted.\<close>

definition sync_steps :: "env \<Rightarrow> agent_row \<Rightarrow> string \<Rightarrow> (bool \<times> nat \<times> nat) handler" where
  "sync_steps E agent snapshotId =
    (let agentId = a_id agent; hostId = a_hostId agent in
      bindE (sync_step E agentId hostId ''host.inventory'' (\<lambda>a.
          bindE (applyInventory hostId (inventory_of a) (a_version agent)) (\<lambda>_. retE 0))) (\<lambda>(ok1, _).
      bindE (sync_step E agentId hostId ''host.metrics'' (\<lambda>a.
          bindE (applyMetrics hostId (metrics_of a)) (\<lambda>_. retE 0))) (\<lambda>(ok2, _).
      bindE (sync_step E agentId hostId ''container.list'' (\<lambda>a.
          applyContainers E hostId (containers_of a) snapshotId)) (\<lambda>(ok3, containerCount).
      bindE (sync_step E agentId hostId ''compose.list'' (\<lambda>a.
          applyProjects E hostId (projects_of a) snapshotId)) (\<lambda>(ok4, projectCount).
      retE (ok1 \<and> ok2 \<and> ok3 \<and> ok4, containerCount, projectCount))))))"

definition sync :: "env \<Rightarrow> string \<Rightarrow> SyncResult handler" where
  "sync E agentId =
    bindE (read_db (\<lambda>db. find (\<lambda>a. a_id a = agentId) (agents db))) (\<lambda>found.
    case found of
      None \<Rightarrow> throwE (OtherErr (''no such agent: '' @ agentId))
    | Some agent \<Rightarrow>
      bindE (randomUUID E) (\<lambda>snapshotId.
      bindE (sync_steps E agent snapshotId) (\<lambda>(complete, containerCount, projectCount).
      bindE (if complete then reconcile (a_hostId agent) snapshotId else retE 0) (\<lambda>removed.
      retE \<lparr>sy_snapshotId = snapshotId, sy_hostId = a_hostId agent, sy_complete = complete,
        sy_containers = containerCount, sy_projects = projectCount, sy_removed = removed\<rparr>))))"

section \<open>What a pass leaves alone\<close>

text \<open>Everything but what a host reports of itself, the containers, the projects, the events and the traffic.\<close>

definition outside_discovery :: "world \<Rightarrow> agent_row list \<times> action_row list \<times> audit_row list \<times> stack_row list
    \<times> revision_row list \<times> variable_row list \<times> deployment_row list \<times> operation_row list
    \<times> (string \<rightharpoonup> string) \<times> string list \<times> string list option \<times> (string \<times> int option) list \<times> request list" where
  "outside_discovery w = (agents (w_db w), actions (w_db w), auditEntries (w_db w), stacks (w_db w),
     stackRevisions (w_db w), stackRevisionEnvironment (w_db w), stackDeployments (w_db w),
     stackOperations (w_db w), w_held w, w_connected w, w_registered w,
     map (\<lambda>h. (h_id h, h_archivedAt h)) (hosts (w_db w)), mutations w)"

named_theorems discovery_frame \<open>steps of a pass that keep what is outside discovery\<close>

lemma emit_outside [discovery_frame]: "stable (keeps outside_discovery) (emit h t s r m)"
  unfolding emit_def events_record_def by (intro stable_write_db) (simp add: outside_discovery_def)

lemma mutating_outside [discovery_frame]: "stable (keeps outside_discovery) (mutating c)"
  unfolding mutating_def by (rule frame.stable_get)

lemma applyInventory_outside [discovery_frame]: "stable (keeps outside_discovery) (applyInventory h i v)"
  unfolding applyInventory_def Let_def
  by (intro frame_rules discovery_frame) (simp_all add: outside_discovery_def map_upd_same)

lemma applyMetrics_outside [discovery_frame]: "stable (keeps outside_discovery) (applyMetrics h m)"
  unfolding applyMetrics_def by (intro stable_write_db) (simp add: outside_discovery_def map_upd_same)

lemma update_by_text_outside [discovery_frame]:
  "stable (keeps outside_discovery) (update_container_by_text E t f)"
  unfolding update_container_by_text_def
  by (intro frame_rules) (simp_all add: outside_discovery_def)

lemma insert_project_outside [discovery_frame]: "stable (keeps outside_discovery) (insert_project row)"
  unfolding insert_project_def by (intro frame_rules) (simp add: outside_discovery_def)

lemma randomUUID_outside [discovery_frame]: "stable (keeps outside_discovery) (randomUUID E)"
  by (rule stable_randomUUID) (simp add: outside_discovery_def)

lemma dispatch_outside: "\<not> isMutating c \<Longrightarrow> stable (keeps outside_discovery) (dispatch_request E a c p)"
  by (rule stable_harmless_dispatch) (simp_all add: outside_discovery_def)

lemma put_containers_outside [discovery_frame]: "stable (keeps outside_discovery) (put_containers f)"
  by (rule stable_put_containers) (simp add: outside_discovery_def)

lemma projectId_outside [discovery_frame]: "stable (keeps outside_discovery) (projectId E h n s t)"
  unfolding projectId_def by (intro frame.stable_rules stable_read_db discovery_frame)

lemma apply_container_outside [discovery_frame]:
  "stable (keeps outside_discovery) (apply_container E h s t p claim item)"
  unfolding apply_container_def Let_def by (intro frame.stable_rules discovery_frame)

lemma keep_outside [discovery_frame]: "stable (keeps outside_discovery) (keep E c s t)"
  unfolding keep_def by (rule discovery_frame)

lemma recordIdentityConflict_outside [discovery_frame]:
  "stable (keeps outside_discovery) (recordIdentityConflict E c ds)"
  unfolding recordIdentityConflict_def by (rule discovery_frame)

lemma apply_reported_outside [discovery_frame]:
  "stable (keeps outside_discovery) (apply_reported E h s t reported existing known heldBy items)"
proof (induction items arbitrary: heldBy)
  case (Cons item items)
  then show ?case
    unfolding apply_reported.simps Let_def
    by (intro frame.stable_rules discovery_frame Cons.IH)
qed (simp add: frame.stable_ret)

lemma applyContainers_outside [discovery_frame]:
  "stable (keeps outside_discovery) (applyContainers E h reported s)"
  unfolding applyContainers_def Let_def by (intro frame.stable_rules stable_now stable_read_db discovery_frame)

lemma apply_project_outside [discovery_frame]: "stable (keeps outside_discovery) (apply_project E h s t p)"
  unfolding apply_project_def Let_def
  by (intro frame.stable_rules stable_read_db discovery_frame stable_write_db)
    (simp add: outside_discovery_def)

lemma applyProjects_outside [discovery_frame]: "stable (keeps outside_discovery) (applyProjects E h ps s)"
  unfolding applyProjects_def by (intro frame.stable_rules stable_now discovery_frame)

lemma reconcile_outside [discovery_frame]: "stable (keeps outside_discovery) (reconcile h s)"
  unfolding reconcile_def delete_containers_def
  by (intro stable_db_transaction frame.stable_rules stable_read_db discovery_frame stable_write_db)
    (simp_all add: outside_discovery_def)

lemma sync_step_outside:
  "\<not> isMutating c \<Longrightarrow> (\<And>a. stable (keeps outside_discovery) (apply a)) \<Longrightarrow>
   stable (keeps outside_discovery) (sync_step E agentId h c apply)"
  unfolding sync_step_def recordFailure_def by (intro frame.stable_rules discovery_frame dispatch_outside)

lemma sync_steps_outside [discovery_frame]: "stable (keeps outside_discovery) (sync_steps E agent s)"
  unfolding sync_steps_def Let_def
  by (intro frame.stable_rules discovery_frame sync_step_outside)
    (simp_all add: isMutating_def MUTATING_CAPABILITIES_def)

lemma sync_outside [discovery_frame]: "stable (keeps outside_discovery) (sync E agentId)"
  unfolding sync_def by (intro frame.stable_rules stable_read_db discovery_frame)

section \<open>Rows that were seen\<close>

text \<open>
  Before anything is swept, every row is still there, and every row of the table either has the
  Docker identifier and the snapshot it had before or carries the snapshot of this pass.
\<close>

definition as_before :: "container_row \<Rightarrow> container_row \<Rightarrow> bool" where
  "as_before c c' \<longleftrightarrow> c_id c' = c_id c \<and> c_dockerId c' = c_dockerId c \<and> c_snapshotId c' = c_snapshotId c"

definition seen_rel :: "string \<Rightarrow> world \<Rightarrow> world \<Rightarrow> bool" where
  "seen_rel snap w w' \<longleftrightarrow>
     (\<forall>c \<in> set (containers (w_db w)). \<exists>c' \<in> set (containers (w_db w')).
        as_before c c' \<or> c_id c' = c_id c \<and> c_snapshotId c' = Some snap) \<and>
     (\<forall>c' \<in> set (containers (w_db w')). c_snapshotId c' = Some snap \<or> (\<exists>c \<in> set (containers (w_db w)). as_before c c'))"

lemma seen_rel_refl: "seen_rel snap w w"
  by (auto simp: seen_rel_def as_before_def)

lemma seen_rel_trans:
  assumes "seen_rel snap u v" and "seen_rel snap v w"
  shows "seen_rel snap u w"
proof -
  have "\<exists>c' \<in> set (containers (w_db w)). as_before c c' \<or> c_id c' = c_id c \<and> c_snapshotId c' = Some snap"
    if "c \<in> set (containers (w_db u))" for c
  proof -
    from assms(1) that obtain d where d: "d \<in> set (containers (w_db v))"
      "as_before c d \<or> c_id d = c_id c \<and> c_snapshotId d = Some snap" unfolding seen_rel_def by blast
    from assms(2) d(1) obtain e where "e \<in> set (containers (w_db w))"
      "as_before d e \<or> c_id e = c_id d \<and> c_snapshotId e = Some snap" unfolding seen_rel_def by blast
    with d(2) show ?thesis by (auto simp: as_before_def)
  qed
  moreover have "c_snapshotId e = Some snap \<or> (\<exists>c \<in> set (containers (w_db u)). as_before c e)"
    if "e \<in> set (containers (w_db w))" for e
  proof (cases "c_snapshotId e = Some snap")
    case False
    with assms(2) that obtain d where d: "d \<in> set (containers (w_db v))" "as_before d e" unfolding seen_rel_def by blast
    with assms(1) False obtain c where "c \<in> set (containers (w_db u))" "as_before c d"
      unfolding seen_rel_def as_before_def by metis
    with d(2) show ?thesis by (auto simp: as_before_def)
  qed simp
  ultimately show ?thesis unfolding seen_rel_def by blast
qed

interpretation seen: step_rel "seen_rel snap" for snap
  by unfold_locales (rule seen_rel_refl, erule (1) seen_rel_trans)

lemma seen_keeps: "stable (keeps (\<lambda>w. containers (w_db w))) m \<Longrightarrow> stable (seen_rel snap) m"
  by (erule stable_mono) (auto simp: keeps_def seen_rel_def as_before_def)

lemma seen_upd:
  assumes "\<And>c. c_id (f c) = c_id c" and "\<And>c. c_snapshotId (f c) = Some snap \<or>
    c_dockerId (f c) = c_dockerId c \<and> c_snapshotId (f c) = c_snapshotId c"
  shows "seen_rel snap w (w\<lparr>w_db := (w_db w)\<lparr>containers := upd P f (containers (w_db w))\<rparr>\<rparr>)"
proof -
  let ?g = "\<lambda>c. if P c then f c else c"
  have step: "as_before c (?g c) \<or> c_id (?g c) = c_id c \<and> c_snapshotId (?g c) = Some snap" for c
    using assms [of c] by (simp add: as_before_def) blast
  have rows: "set (containers (w_db (w\<lparr>w_db := (w_db w)\<lparr>containers := upd P f (containers (w_db w))\<rparr>\<rparr>)))
      = ?g ` set (containers (w_db w))" by (simp add: upd_def)
  show ?thesis unfolding seen_rel_def rows using step by blast
qed

lemma seen_put:
  assumes "\<And>w. seen_rel snap w (w\<lparr>w_db := (w_db w)\<lparr>containers := g (containers (w_db w))\<rparr>\<rparr>)"
  shows "stable (seen_rel snap) (put_containers g)"
  by (rule stableI) (simp add: put_containers_def Let_def assms seen_rel_refl split: option.split)

named_theorems seen_steps \<open>steps of a pass that keep every row seen or as it was\<close>

lemma seen_emit [seen_steps]: "stable (seen_rel snap) (emit h t s r m)"
  unfolding emit_def events_record_def by (rule seen_keeps, rule stable_write_db) simp

lemma seen_now [seen_steps]: "stable (seen_rel snap) now"
  by (rule seen_keeps) (rule stable_now)

lemma seen_read [seen_steps]: "stable (seen_rel snap) (read_db g)"
  by (rule seen_keeps) (rule stable_read_db)

lemma seen_uuid [seen_steps]: "stable (seen_rel snap) (randomUUID E)"
  by (rule seen_keeps, rule stable_randomUUID) simp

lemma seen_dispatch [seen_steps]: "stable (seen_rel snap) (dispatch_request E a c p)"
  by (rule seen_keeps, rule stable_dispatch) simp

lemma seen_mutating [seen_steps]: "stable (seen_rel snap) (mutating c)"
  unfolding mutating_def by (rule seen.stable_get)

lemma seen_applyInventory [seen_steps]: "stable (seen_rel snap) (applyInventory h i v)"
  unfolding applyInventory_def Let_def
  by (intro seen.stable_rules seen_steps; rule seen_keeps, rule stable_write_db) simp

lemma seen_applyMetrics [seen_steps]: "stable (seen_rel snap) (applyMetrics h m)"
  unfolding applyMetrics_def by (rule seen_keeps, rule stable_write_db) simp

lemma seen_insert_project [seen_steps]: "stable (seen_rel snap) (insert_project row)"
  unfolding insert_project_def by (rule seen_keeps) (intro frame_rules, simp)

lemma seen_by_text:
  assumes "\<And>c. c_id (f c) = c_id c" and "\<And>c. c_snapshotId (f c) = Some snap \<or>
    c_dockerId (f c) = c_dockerId c \<and> c_snapshotId (f c) = c_snapshotId c"
  shows "stable (seen_rel snap) (update_container_by_text E t f)"
  unfolding update_container_by_text_def write_db_def
  by (intro seen.stable_rules seen.stable_mod seen_upd assms)

lemma seen_keep [seen_steps]: "stable (seen_rel snap) (keep E c snap t)"
  unfolding keep_def by (rule seen_by_text) simp_all

lemma seen_conflict [seen_steps]: "stable (seen_rel snap) (recordIdentityConflict E c ds)"
  unfolding recordIdentityConflict_def by (rule seen_by_text) simp_all

lemma seen_projectId [seen_steps]: "stable (seen_rel snap) (projectId E h n s t)"
  unfolding projectId_def by (intro seen.stable_rules seen_steps)

lemma seen_apply_container [seen_steps]: "stable (seen_rel snap) (apply_container E h snap t p claim item)"
proof -
  have "stable (seen_rel snap) (put_containers (upd P (observed_row E h snap t item claim project)))" for P project
    by (rule seen_put, rule seen_upd) (simp_all add: observed_row_def)
  moreover have "stable (seen_rel snap) (put_containers (\<lambda>rows. rows @ [observed_row E h snap t item claim project row]))"
    for project row
    by (rule seen_put) (auto simp: seen_rel_def observed_row_def as_before_def)
  ultimately show ?thesis
    unfolding apply_container_def Let_def by (intro seen.stable_rules seen_steps)
qed

lemma seen_apply_reported [seen_steps]:
  "stable (seen_rel snap) (apply_reported E h snap t reported existing known heldBy items)"
proof (induction items arbitrary: heldBy)
  case (Cons item items)
  then show ?case
    unfolding apply_reported.simps Let_def by (intro seen.stable_rules seen_steps Cons.IH)
qed (simp add: seen.stable_ret)

lemma seen_applyContainers [seen_steps]: "stable (seen_rel snap) (applyContainers E h reported snap)"
  unfolding applyContainers_def Let_def by (intro seen.stable_rules seen_steps)

lemma seen_applyProjects [seen_steps]: "stable (seen_rel snap) (applyProjects E h ps s)"
  unfolding applyProjects_def apply_project_def Let_def
  by (intro seen.stable_rules seen_steps; rule seen_keeps, rule stable_write_db) simp

lemma seen_sync_step [seen_steps]:
  "(\<And>a. stable (seen_rel snap) (apply a)) \<Longrightarrow> stable (seen_rel snap) (sync_step E agentId h c apply)"
  unfolding sync_step_def recordFailure_def by (intro seen.stable_rules seen_steps)

lemma seen_sync_steps: "stable (seen_rel snap) (sync_steps E agent snap)"
  unfolding sync_steps_def Let_def by (intro seen.stable_rules seen_steps)

lemma emit_containers: "stable (keeps (\<lambda>w. containers (w_db w))) (emit h t s r m)"
  unfolding emit_def events_record_def by (rule stable_write_db) simp

lemma reconcile_containers:
  assumes "reconcile h snap w = (Inr n, w')"
  shows "containers (w_db w') = del (stale_container h snap) (containers (w_db w))"
proof -
  have loop: "containers (w_db u) = containers (w_db v)"
    if "forE xs (\<lambda>x. emit h (t x) (s x) (r x) (m x)) v = (res, u)" for xs t s r m u v res
    using keepsD [OF frame.stable_for [of "\<lambda>w. containers (w_db w)"] that] emit_containers by blast
  from assms show ?thesis
    unfolding reconcile_def delete_containers_def by (auto simp: db_exec dest!: loop)
qed

section \<open>Rows of other hosts\<close>

text \<open>A row without the three columns that a claimed identity can change.\<close>

definition erased :: "container_row \<Rightarrow> container_row" where
  "erased c = c\<lparr>c_identityConflict := None, c_snapshotId := None, c_observedAt := None\<rparr>"

definition containers_elsewhere :: "string \<Rightarrow> world \<Rightarrow> container_row list" where
  "containers_elsewhere h w = map erased (filter (\<lambda>c. c_hostId c \<noteq> h) (containers (w_db w)))"

text \<open>The Compose projects, the hosts and the events of the other hosts.\<close>

definition others :: "string \<Rightarrow> world \<Rightarrow> project_row list \<times> host_row list \<times> event_row list" where
  "others h w = (filter (\<lambda>p. p_hostId p \<noteq> h) (composeProjects (w_db w)), filter (\<lambda>x. h_id x \<noteq> h) (hosts (w_db w)),
     filter (\<lambda>e. ev_hostId e \<noteq> Some h) (events (w_db w)))"

definition elsewhere :: "string \<Rightarrow> world \<Rightarrow> container_row list \<times> project_row list \<times> host_row list \<times> event_row list" where
  "elsewhere h w = (containers_elsewhere h w, others h w)"

text \<open>
  As long as a pass runs, identifiers stay unique and the rows it started from stay rows of its
  host.
\<close>

definition local_rows :: "string \<Rightarrow> container_row list \<Rightarrow> world \<Rightarrow> bool" where
  "local_rows h existing w \<longleftrightarrow> distinct (map c_id (containers (w_db w))) \<and> (\<forall>r \<in> set existing. \<forall>c \<in> set (containers (w_db w)).
     c_id c = c_id r \<longrightarrow> c_hostId c = h)"

lemma local_rows_distinct: "local_rows h existing w \<Longrightarrow> distinct (map c_id (containers (w_db w)))"
  by (simp add: local_rows_def)

definition foreign_rel :: "string \<Rightarrow> container_row list \<Rightarrow> world \<Rightarrow> world \<Rightarrow> bool" where
  "foreign_rel h existing w w' \<longleftrightarrow>
     (local_rows h existing w \<longrightarrow> local_rows h existing w' \<and> containers_elsewhere h w' = containers_elsewhere h w)"

interpretation foreign: step_rel "foreign_rel h existing" for h existing
  by unfold_locales (auto simp: foreign_rel_def)

lemma foreign_keeps: "stable (keeps (\<lambda>w. containers (w_db w))) m \<Longrightarrow> stable (foreign_rel h existing) m"
  by (erule stable_mono) (simp add: keeps_def foreign_rel_def local_rows_def containers_elsewhere_def)

named_theorems foreign_steps \<open>steps of a pass that leave the rows of other hosts alone\<close>

lemma foreign_emit [foreign_steps]: "stable (foreign_rel h existing) (emit h' t s r m)"
  by (rule foreign_keeps) (rule emit_containers)

lemma foreign_now [foreign_steps]: "stable (foreign_rel h existing) now"
  by (rule foreign_keeps) (rule stable_now)

lemma foreign_read [foreign_steps]: "stable (foreign_rel h existing) (read_db g)"
  by (rule foreign_keeps) (rule stable_read_db)

lemma foreign_uuid [foreign_steps]: "stable (foreign_rel h existing) (randomUUID E)"
  by (rule foreign_keeps, rule stable_randomUUID) simp

lemma foreign_dispatch [foreign_steps]: "stable (foreign_rel h existing) (dispatch_request E a c p)"
  by (rule foreign_keeps, rule stable_dispatch) simp

lemma foreign_mutating [foreign_steps]: "stable (foreign_rel h existing) (mutating c)"
  unfolding mutating_def by (rule foreign.stable_get)

lemma foreign_insert_project [foreign_steps]: "stable (foreign_rel h existing) (insert_project row)"
  unfolding insert_project_def by (rule foreign_keeps) (intro frame_rules, simp)

lemma foreign_projectId [foreign_steps]: "stable (foreign_rel h existing) (projectId E h' n s t)"
  unfolding projectId_def by (intro foreign.stable_rules foreign_steps)

lemma foreign_by_text:
  assumes "\<And>c. erased (f c) = erased c"
  shows "stable (foreign_rel h existing) (update_container_by_text E t f)"
proof -
  have host: "c_hostId (f c) = c_hostId c" "c_id (f c) = c_id c" for c
    using arg_cong [OF assms [of c], of c_hostId] arg_cong [OF assms [of c], of c_id]
    by (simp_all add: erased_def)
  have "containers_elsewhere h (w\<lparr>w_db := (w_db w)\<lparr>containers := upd P f (containers (w_db w))\<rparr>\<rparr>) = containers_elsewhere h w" for P w
    unfolding containers_elsewhere_def by simp (rule map_filter_upd, simp add: assms host)
  then show ?thesis
    unfolding update_container_by_text_def write_db_def
    by (intro foreign.stable_rules foreign.stable_mod)
      (auto simp: foreign_rel_def local_rows_def in_upd_iff host map_upd_same split: if_splits)
qed

lemma foreign_keep [foreign_steps]: "stable (foreign_rel h existing) (keep E c s t)"
  unfolding keep_def by (rule foreign_by_text) (simp add: erased_def)

lemma foreign_conflict [foreign_steps]: "stable (foreign_rel h existing) (recordIdentityConflict E c ds)"
  unfolding recordIdentityConflict_def by (rule foreign_by_text) (simp add: erased_def)

lemma foreign_put_known:
  assumes "p \<in> set existing" and "\<And>c. c_hostId (f c) = h" and "\<And>c. c_id (f c) = c_id c"
  shows "stable (foreign_rel h existing) (put_containers (upd (\<lambda>c. c_id c = c_id p) f))"
proof (rule stableI)
  fix w
  have same: "containers_elsewhere h (w\<lparr>w_db := (w_db w)\<lparr>containers := upd (\<lambda>c. c_id c = c_id p) f (containers (w_db w))\<rparr>\<rparr>)
      = containers_elsewhere h w" if "local_rows h existing w"
  proof -
    have "\<forall>c \<in> set (containers (w_db w)). c_id c = c_id p \<longrightarrow> c_hostId c = h"
      using that assms(1) by (auto simp: local_rows_def)
    then show ?thesis
      unfolding containers_elsewhere_def by simp (rule map_filter_upd, simp add: assms)
  qed
  have "local_rows h existing (w\<lparr>w_db := (w_db w)\<lparr>containers := upd (\<lambda>c. c_id c = c_id p) f (containers (w_db w))\<rparr>\<rparr>)"
    if "local_rows h existing w"
    using that by (auto simp: local_rows_def in_upd_iff assms map_upd_same split: if_splits)
  with same show "foreign_rel h existing w (snd (put_containers (upd (\<lambda>c. c_id c = c_id p) f) w))"
    by (simp add: foreign_rel_def put_containers_def Let_def split: option.split)
qed

lemma foreign_put_new:
  assumes "c_hostId row = h"
  shows "stable (foreign_rel h existing) (put_containers (\<lambda>rows. rows @ [row]))"
  by (rule stableI)
    (auto simp: foreign_rel_def put_containers_def Let_def local_rows_def containers_elsewhere_def assms
      container_violation_def split: option.split if_splits)

lemma js_map_range: "js_map ps k = Some v \<Longrightarrow> v \<in> snd ` set ps"
  by (drule js_map_SomeD) force

text \<open>The row a reported container is matched with is one of the rows the pass started from.\<close>

lemma previous_existing:
  assumes "or_null (if truthy identity then js_map (map (\<lambda>r. (c_id r, r)) existing) (the identity) else None)
     (js_map (List.map_filter (\<lambda>r. map_option (\<lambda>d. (d, r)) (c_dockerId r)) existing) d) = Some p"
  shows "p \<in> set existing"
proof -
  have "js_map (map (\<lambda>r. (c_id r, r)) existing) (the identity) = Some p \<or>
      js_map (List.map_filter (\<lambda>r. map_option (\<lambda>d. (d, r)) (c_dockerId r)) existing) d = Some p"
    using assms by (auto simp: or_null_def split: option.splits if_splits)
  then show ?thesis
    by (auto dest!: js_map_range simp: List.map_filter_def split: option.splits)
qed

lemma foreign_apply_container:
  assumes "\<And>p. previous = Some p \<Longrightarrow> p \<in> set existing"
  shows "stable (foreign_rel h existing) (apply_container E h s t previous claim item)"
  unfolding apply_container_def Let_def
  by (intro foreign.stable_rules foreign_steps foreign_put_known foreign_put_new assms)
    (simp_all add: observed_row_def)

lemma foreign_apply_reported:
  "stable (foreign_rel h existing) (apply_reported E h s t reported existing known heldBy items)"
proof (induction items arbitrary: heldBy)
  case (Cons item items)
  have "stable (foreign_rel h existing) (apply_container E h s t (or_null
      (if truthy identity then js_map (map (\<lambda>r. (c_id r, r)) existing) (the identity) else None)
      (js_map (List.map_filter (\<lambda>r. map_option (\<lambda>d. (d, r)) (c_dockerId r)) existing) d)) claim item)"
    for identity d claim
    by (rule foreign_apply_container) (rule previous_existing)
  then show ?case
    unfolding apply_reported.simps Let_def
    by (intro foreign.stable_rules foreign_steps Cons.IH)
qed (simp add: foreign.stable_ret)

text \<open>The same without the rows the pass started from: what holds of every step of a pass.\<close>

definition elsewhere_rel :: "string \<Rightarrow> world \<Rightarrow> world \<Rightarrow> bool" where
  "elsewhere_rel h w w' \<longleftrightarrow> (distinct (map c_id (containers (w_db w))) \<longrightarrow>
     distinct (map c_id (containers (w_db w'))) \<and> containers_elsewhere h w' = containers_elsewhere h w)"

interpretation apart: step_rel "elsewhere_rel h" for h
  by unfold_locales (auto simp: elsewhere_rel_def)

lemma apart_keeps: "stable (keeps (\<lambda>w. containers (w_db w))) m \<Longrightarrow> stable (elsewhere_rel h) m"
  by (erule stable_mono) (simp add: keeps_def elsewhere_rel_def containers_elsewhere_def)

lemma applyContainers_apart: "stable (elsewhere_rel h) (applyContainers E h reported s)"
proof (rule stableI)
  fix w :: world
  let ?existing = "filter (\<lambda>c. c_hostId c = h) (containers (w_db w))"
  have rows: "local_rows h ?existing w" if d: "distinct (map c_id (containers (w_db w)))"
    using d by (auto simp: local_rows_def distinct_map dest: inj_onD)
  have "stable (foreign_rel h ?existing) (bindE (apply_reported E h s t reported ?existing known heldBy reported)
      (\<lambda>_. retE (length reported)))" for t known heldBy
    by (intro foreign.stable_rules foreign_apply_reported)
  then have "foreign_rel h ?existing w (snd (applyContainers E h reported s w))"
    by (simp add: applyContainers_def Let_def bind_read_db run_now stable_def)
  with rows show "elsewhere_rel h w (snd (applyContainers E h reported s w))"
    unfolding foreign_rel_def elsewhere_rel_def by (blast dest: local_rows_distinct)
qed

named_theorems apart_steps \<open>steps of a pass that leave other hosts alone\<close>

lemma apart_emit [apart_steps]: "stable (elsewhere_rel h) (emit h' t s r m)"
  by (rule apart_keeps) (rule emit_containers)

lemma apart_now [apart_steps]: "stable (elsewhere_rel h) now"
  by (rule apart_keeps) (rule stable_now)

lemma apart_read [apart_steps]: "stable (elsewhere_rel h) (read_db g)"
  by (rule apart_keeps) (rule stable_read_db)

lemma apart_uuid [apart_steps]: "stable (elsewhere_rel h) (randomUUID E)"
  by (rule apart_keeps, rule stable_randomUUID) simp

lemma apart_dispatch [apart_steps]: "stable (elsewhere_rel h) (dispatch_request E a c p)"
  by (rule apart_keeps, rule stable_dispatch) simp

lemma apart_applyInventory [apart_steps]: "stable (elsewhere_rel h) (applyInventory h' i v)"
  unfolding applyInventory_def Let_def
  by (intro apart.stable_rules apart_steps; rule apart_keeps, rule stable_write_db) simp

lemma apart_applyMetrics [apart_steps]: "stable (elsewhere_rel h) (applyMetrics h' m)"
  unfolding applyMetrics_def by (rule apart_keeps, rule stable_write_db) simp

lemma apart_insert_project [apart_steps]: "stable (elsewhere_rel h) (insert_project row)"
  unfolding insert_project_def by (rule apart_keeps) (intro frame_rules, simp)

lemma apart_applyProjects [apart_steps]: "stable (elsewhere_rel h) (applyProjects E h' ps s)"
  unfolding applyProjects_def apply_project_def Let_def
  by (intro apart.stable_rules apart_steps; rule apart_keeps, rule stable_write_db) simp_all

lemma apart_sync_step [apart_steps]:
  "(\<And>a. stable (elsewhere_rel h) (apply a)) \<Longrightarrow> stable (elsewhere_rel h) (sync_step E agentId h' c apply)"
  unfolding sync_step_def recordFailure_def by (intro apart.stable_rules apart_steps)

lemma apart_sync_steps: "stable (elsewhere_rel (a_hostId agent)) (sync_steps E agent s)"
  unfolding sync_steps_def Let_def by (intro apart.stable_rules apart_steps applyContainers_apart)

lemma elsewhere_del_stale:
  "map erased (filter (\<lambda>c. c_hostId c \<noteq> h) (del (stale_container h s) rows))
   = map erased (filter (\<lambda>c. c_hostId c \<noteq> h) rows)"
  by (induction rows) (auto simp: stale_container_def)

lemma distinct_del [simp]: "distinct (map c_id rows) \<Longrightarrow> distinct (map c_id (del P rows))"
  by (simp add: del_def distinct_map_filter)

lemma reconcile_apart: "stable (elsewhere_rel h) (reconcile h s)"
proof (rule stableI)
  fix w :: world
  obtain r w' where exec: "reconcile h s w = (r, w')" by fastforce
  show "elsewhere_rel h w (snd (reconcile h s w))"
  proof (cases r)
    case (Inr n)
    with reconcile_containers [of h s w n w'] exec show ?thesis
      by (simp add: elsewhere_rel_def containers_elsewhere_def elsewhere_del_stale)
  next
    case (Inl e)
    with exec show ?thesis
      by (auto simp: reconcile_def transaction_def elsewhere_rel_def containers_elsewhere_def split: prod.splits sum.splits)
  qed
qed

text \<open>A container Docker knows and no pass has ever seen; no operation of the server writes such a row.\<close>

definition never_seen :: "container_row \<Rightarrow> bool" where
  "never_seen c \<longleftrightarrow> c_dockerId c \<noteq> None \<and> c_snapshotId c = None"

lemma seen_ids: "seen_rel s u v \<Longrightarrow> c_id ` set (containers (w_db u)) \<subseteq> c_id ` set (containers (w_db v))"
  unfolding seen_rel_def as_before_def by (metis image_eqI image_subsetI)

text \<open>The other tables, as long as the identifiers of the Compose projects are unique.\<close>

definition others_rel :: "string \<Rightarrow> world \<Rightarrow> world \<Rightarrow> bool" where
  "others_rel h w w' \<longleftrightarrow> (distinct (map p_id (composeProjects (w_db w))) \<longrightarrow>
     distinct (map p_id (composeProjects (w_db w'))) \<and> others h w' = others h w)"

interpretation aloof: step_rel "others_rel h" for h
  by unfold_locales (auto simp: others_rel_def)

definition other_tables :: "world \<Rightarrow> project_row list \<times> host_row list \<times> event_row list" where
  "other_tables w = (composeProjects (w_db w), hosts (w_db w), events (w_db w))"

lemma aloof_keeps: "stable (keeps other_tables) m \<Longrightarrow> stable (others_rel h) m"
  by (erule stable_mono) (simp add: keeps_def other_tables_def others_rel_def others_def)

named_theorems aloof_steps \<open>steps of a pass that leave the projects, hosts and events of other hosts alone\<close>

lemma aloof_emit [aloof_steps]: "stable (others_rel h) (emit h t s r m)"
  unfolding emit_def events_record_def write_db_def
  by (rule aloof.stable_mod) (simp add: others_rel_def others_def event_of_def)

lemma aloof_reads [aloof_steps]:
  "stable (others_rel h) (read_db g)" "stable (others_rel h) now" "stable (others_rel h) (randomUUID E)"
  "stable (others_rel h) (dispatch_request E a c p)" "stable (others_rel h) (mutating i)"
  "stable (others_rel h) (put_containers f)" "stable (others_rel h) (update_container_by_text E i g')"
proof -
  show "stable (others_rel h) (read_db g)" "stable (others_rel h) now"
    by (rule aloof_keeps, rule stable_read_db stable_now)+
  show "stable (others_rel h) (randomUUID E)" by (rule aloof_keeps, rule stable_randomUUID) (simp add: other_tables_def)
  show "stable (others_rel h) (dispatch_request E a c p)" by (rule aloof_keeps, rule stable_dispatch) (simp add: other_tables_def)
  show "stable (others_rel h) (mutating i)" unfolding mutating_def by (rule aloof.stable_get)
  show "stable (others_rel h) (put_containers f)" by (rule aloof_keeps, rule stable_put_containers) (simp add: other_tables_def)
  show "stable (others_rel h) (update_container_by_text E i g')"
    unfolding update_container_by_text_def by (rule aloof_keeps) (intro frame_rules, simp_all add: other_tables_def)
qed

lemma filter_upd_away: "(\<And>r. r \<in> set t \<Longrightarrow> P r \<Longrightarrow> \<not> Q r \<and> \<not> Q (f r)) \<Longrightarrow> filter Q (upd P f t) = filter Q t"
  by (induction t) auto

lemma aloof_write_hosts:
  assumes "\<And>x. h_id (f x) = h_id x"
  shows "stable (others_rel h) (write_db (\<lambda>db. db\<lparr>hosts := upd (\<lambda>x. h_id x = h) f (hosts db)\<rparr>))"
  unfolding write_db_def
  by (rule aloof.stable_mod) (simp add: others_rel_def others_def filter_upd_away assms)

lemma aloof_inventory [aloof_steps]: "stable (others_rel h) (applyInventory h i v)" "stable (others_rel h) (applyMetrics h m)"
  unfolding applyInventory_def applyMetrics_def Let_def
  by (intro aloof.stable_rules aloof_steps aloof_write_hosts; simp)+

lemma aloof_insert_project [aloof_steps]:
  assumes "p_hostId row = h"
  shows "stable (others_rel h) (insert_project row)"
  by (rule stableI)
    (auto simp: insert_project_def bind_read_db write_db_def modE_def throwE_def project_violation_def others_rel_def
      others_def assms split: option.split if_splits)

lemma aloof_projectId [aloof_steps]: "stable (others_rel h) (projectId E h n s t)"
  unfolding projectId_def by (intro aloof.stable_rules aloof_steps) simp

lemma aloof_update_project:
  assumes "\<And>q. p_hostId (f q) = h" "\<And>q. p_id (f q) = p_id q" and "find (\<lambda>p. p_hostId p = h \<and> Q p) (composeProjects (w_db w)) = Some p"
  shows "others_rel h w (w\<lparr>w_db := (w_db w)\<lparr>composeProjects := upd (\<lambda>q. p_id q = p_id p) f (composeProjects (w_db w))\<rparr>\<rparr>)"
proof -
  from assms(3) have p: "p \<in> set (composeProjects (w_db w))" "p_hostId p = h" by (auto dest: find_SomeD)
  have "p_hostId q = h" if "distinct (map p_id (composeProjects (w_db w)))" "q \<in> set (composeProjects (w_db w))" "p_id q = p_id p" for q
    using that p by (auto simp: distinct_map dest: inj_onD)
  then show ?thesis
    by (auto simp: others_rel_def others_def map_upd_same assms intro!: filter_upd_away)
qed

lemma aloof_update_emit:
  assumes "\<And>q. p_hostId (f q) = h" "\<And>q. p_id (f q) = p_id q" and "find (\<lambda>p. p_hostId p = h \<and> Q p) (composeProjects (w_db w)) = Some p"
  shows "others_rel h w (snd (bindE (write_db (\<lambda>db. db\<lparr>composeProjects := upd (\<lambda>q. p_id q = p_id p) f (composeProjects db)\<rparr>))
    (\<lambda>_. whenE b (emit h x y z m)) w))"
proof -
  let ?w = "w\<lparr>w_db := (w_db w)\<lparr>composeProjects := upd (\<lambda>q. p_id q = p_id p) f (composeProjects (w_db w))\<rparr>\<rparr>"
  have "others_rel h w ?w" by (rule aloof_update_project [OF assms])
  moreover have "others_rel h ?w (snd (whenE b (emit h x y z m) ?w))"
    using aloof.stable_when [OF aloof_emit [of h x y z m], of b] by (simp add: stable_def)
  moreover have "bindE (write_db (\<lambda>db. db\<lparr>composeProjects := upd (\<lambda>q. p_id q = p_id p) f (composeProjects db)\<rparr>)) g w = g () ?w" for g :: "unit \<Rightarrow> unit handler"
    by (simp add: bindE_def write_db_def modE_def)
  ultimately show ?thesis by (simp only:) (rule aloof.step_trans)
qed

lemma aloof_apply_project [aloof_steps]: "stable (others_rel h) (apply_project E h s t project)"
proof (rule stableI)
  fix w
  let ?name = "the (cp_projectName project)"
  have new: "stable (others_rel h) (bindE (randomUUID E) (\<lambda>pid. bindE (insert_project (row pid)) (\<lambda>_. emit h x y z m)))"
    if "\<And>pid. p_hostId (row pid) = h" for row x y z m
    using that by (intro aloof.stable_rules aloof_steps)
  show "others_rel h w (snd (apply_project E h s t project w))"
  proof (cases "truthy (cp_projectName project)")
    case True
    then show ?thesis
    proof (cases "find (\<lambda>p. p_hostId p = h \<and> p_projectName p = ?name) (composeProjects (w_db w))")
      case None
      with True show ?thesis
        by (simp only: apply_project_def Let_def bind_read_db simp_thms if_False option.case)
          (rule new [unfolded stable_def, rule_format], simp)
    next
      case (Some p)
      with True show ?thesis
        by (simp only: apply_project_def Let_def bind_read_db simp_thms if_False option.case)
          (rule aloof_update_emit [OF _ _ Some], simp_all)
    qed
  qed (simp add: apply_project_def retE_def aloof.step_refl)
qed

lemma aloof_apply_container [aloof_steps]: "stable (others_rel h) (apply_container E h s t p claim item)"
  unfolding apply_container_def Let_def by (intro aloof.stable_rules aloof_steps)

lemma aloof_apply_reported [aloof_steps]: "stable (others_rel h) (apply_reported E h s t reported existing known heldBy items)"
proof (induction items arbitrary: heldBy)
  case (Cons item items)
  then show ?case
    unfolding apply_reported.simps Let_def keep_def recordIdentityConflict_def
    by (intro aloof.stable_rules aloof_steps Cons.IH)
qed (simp add: aloof.stable_ret)

lemma aloof_sync_step [aloof_steps]:
  "(\<And>a. stable (others_rel h) (apply a)) \<Longrightarrow> stable (others_rel h) (sync_step E agentId h c apply)"
  unfolding sync_step_def recordFailure_def by (intro aloof.stable_rules aloof_steps)

lemma aloof_sync_steps: "stable (others_rel (a_hostId agent)) (sync_steps E agent s)"
  unfolding sync_steps_def applyContainers_def applyProjects_def Let_def by (intro aloof.stable_rules aloof_steps)

lemma reconcile_aloof: "stable (others_rel h) (reconcile h s)"
proof -
  have containers: "stable (others_rel h) (delete_containers P)" for P
    unfolding delete_containers_def by (rule aloof_keeps, rule stable_write_db) (simp add: other_tables_def)
  have "filter (\<lambda>p. p_hostId p \<noteq> h) (del (stale_project h s) rows) = filter (\<lambda>p. p_hostId p \<noteq> h) rows" for rows
    by (induction rows) (auto simp: stale_project_def)
  then have projects: "stable (others_rel h) (write_db (\<lambda>db. db\<lparr>composeProjects := del (stale_project h s) (composeProjects db)\<rparr>))"
    unfolding write_db_def by (intro aloof.stable_mod) (simp add: others_rel_def others_def del_def distinct_map_filter)
  have tx: "stable (others_rel h) (transaction m)" if "stable (others_rel h) m" for m :: "nat handler"
    using that by (intro stableI) (auto simp: transaction_def stable_def others_rel_def others_def split: prod.split sum.split)
  show ?thesis
    unfolding reconcile_def by (intro tx aloof.stable_rules aloof_steps containers projects)
qed

section \<open>A pass over two concrete hosts\<close>

text \<open>
  Two hosts. The agent of the first one reports two containers that both carry the identity
  of a container of the second host; one resource of the first host was never created, and
  one container it used to run is gone.
\<close>

definition demo_item :: "string \<Rightarrow> ContainerSummary" where
  "demo_item d = \<lparr>cs_dockerId = Some d, cs_name = Some d, cs_image = Some ''nginx'', cs_imageId = None,
     cs_state = Some ''running'', cs_status = None, cs_health = None, cs_createdAt = None,
     cs_labels = [(DOCKPLANE_CONTAINER_ID, ''b1'')]\<rparr>"

definition demo_answer :: "request \<Rightarrow> js_error + answer" where
  "demo_answer rq =
    (if rq_capability rq = ''host.inventory'' then Inr (InventoryAnswer no_inventory)
     else if rq_capability rq = ''host.metrics'' then Inr (MetricsAnswer JNull)
     else if rq_capability rq = ''container.list'' then Inr (ContainersAnswer [demo_item ''d1'', demo_item ''d2''])
     else if rq_capability rq = ''compose.list'' then Inr (ProjectsAnswer [])
     else Inr Done)"

definition demo_env :: env where
  "demo_env = \<lparr>e_answer = (\<lambda>_. demo_answer), e_uuid = (\<lambda>n. ''u'' @ show_nat n),
     e_compile = (\<lambda>_. Inr (Problems [])), e_decrypt = (\<lambda>s. Inr s), e_encrypt = (\<lambda>_ s. s), e_legacy_date = (\<lambda>_. None),
     e_pg_uuid = (\<lambda>s. Some s), e_requestId = None, e_takes = (\<lambda>_. 1)\<rparr>"

definition demo_project :: "string \<Rightarrow> string \<Rightarrow> project_row" where
  "demo_project pid hostId = \<lparr>p_id = pid, p_hostId = hostId, p_projectName = ''shop'', p_status = ''running'',
     p_serviceCount = 1, p_runningCount = 1, p_services = None, p_detailObservedAt = None, p_snapshotId = Some ''old'',
     p_observedAt = Some 0\<rparr>"

definition demo_world :: world where
  "demo_world = empty_world\<lparr>w_db := empty_db\<lparr>
     agents := [\<lparr>a_id = ''a1'', a_hostId = ''h1'', a_version = None, a_revokedAt = None\<rparr>],
     containers := [blank_row ''c1'' ''h1'',
       (blank_row ''c2'' ''h1'')\<lparr>c_dockerId := Some ''gone'', c_snapshotId := Some ''old''\<rparr>,
       (blank_row ''b1'' ''h2'')\<lparr>c_dockerId := Some ''d9'', c_snapshotId := Some ''old''\<rparr>],
     composeProjects := [demo_project ''p1'' ''h1'', demo_project ''p2'' ''h2'']\<rparr>\<rparr>"

lemma demo_sync:
  "\<not> isl (fst (sync demo_env ''a1'' demo_world))"
  "sy_complete (projr (fst (sync demo_env ''a1'' demo_world)))"
  "sy_removed (projr (fst (sync demo_env ''a1'' demo_world))) = 2"
  by code_simp+

section \<open>Properties\<close>

text \<open>
  C31: a discovery pass of any agent, whatever the agent answers and however the pass ends,
  changes nothing the stack services own (stacks, revisions, attempts, operations, actions,
  the audit trail, the locks), archives or restores no host, and asks no host for a change.
\<close>

theorem sync_leaves_stacks_alone:
  "outside_discovery (snd (sync E agentId w)) = outside_discovery w"
  using sync_outside by (simp add: stable_def keeps_def)

text \<open>
  C32: a pass that did not complete removes no container, and no pass removes a container
  resource whose creation has not been observed yet. After a complete pass every container of
  the host that Docker knows carries the snapshot of this pass, with one exception: a row that had
  a Docker identifier and no snapshot before the pass, and that the pass did not touch, stays as it
  was, because \<^verbatim>\<open>ne\<close> does not select a null column. When no row is of that kind before the pass,
  every known container was seen by it, and no row is of that kind after it.
\<close>

theorem sync_removes_only_when_complete:
  assumes "sync E agentId w = (Inr result, w')"
  shows "(\<not> sy_complete result \<longrightarrow> sy_removed result = 0
      \<and> c_id ` set (containers (w_db w)) \<subseteq> c_id ` set (containers (w_db w'))) \<and>
    c_id ` {c \<in> set (containers (w_db w)). c_dockerId c = None} \<subseteq> c_id ` set (containers (w_db w')) \<and>
    (sy_complete result \<longrightarrow> (\<forall>c \<in> set (containers (w_db w')).
       c_hostId c = sy_hostId result \<and> c_dockerId c \<noteq> None \<longrightarrow>
       c_snapshotId c = Some (sy_snapshotId result) \<or>
       (\<exists>c0 \<in> set (containers (w_db w)). never_seen c0 \<and> as_before c0 c))) \<and>
    ((\<forall>c \<in> set (containers (w_db w)). \<not> never_seen c) \<longrightarrow> (\<forall>c \<in> set (containers (w_db w')). \<not> never_seen c))"
proof -
  from assms obtain agent snap u complete nc np v removed where
    uuid: "randomUUID E w = (Inr snap, u)" and
    steps: "sync_steps E agent snap u = (Inr (complete, nc, np), v)" and
    sweep: "(if complete then reconcile (a_hostId agent) snap else retE 0) v = (Inr removed, w')" and
    result: "result = \<lparr>sy_snapshotId = snap, sy_hostId = a_hostId agent, sy_complete = complete,
        sy_containers = nc, sy_projects = np, sy_removed = removed\<rparr>"
    unfolding sync_def by (auto simp: db_exec split: option.splits prod.splits)
  have same: "containers (w_db u) = containers (w_db w)"
    using uuid by (auto simp: randomUUID_def)
  have seen: "seen_rel snap u v" using stableD [OF seen_sync_steps steps] .
  have kept: "\<exists>c0 \<in> set (containers (w_db w)). never_seen c0 \<and> as_before c0 c"
    if "c \<in> set (containers (w_db v))" "never_seen c" for c
    using seen that same unfolding seen_rel_def never_seen_def as_before_def by force
  show ?thesis
  proof (cases complete)
    case False
    with sweep have "w' = v" "removed = 0" by (simp_all add: retE_eq)
    moreover have "c_id ` set (containers (w_db w)) \<subseteq> c_id ` set (containers (w_db v))"
      using seen_ids [OF seen] same by simp
    ultimately show ?thesis using False result kept by auto
  next
    case True
    with sweep have del: "containers (w_db w') = del (stale_container (a_hostId agent) snap) (containers (w_db v))"
      by (simp add: reconcile_containers)
    have "c_id c \<in> c_id ` set (containers (w_db w'))"
      if c: "c \<in> set (containers (w_db w))" "c_dockerId c = None" for c
    proof -
      from seen c(1) same obtain c' where c': "c' \<in> set (containers (w_db v))"
        "as_before c c' \<or> c_id c' = c_id c \<and> c_snapshotId c' = Some snap"
        unfolding seen_rel_def by metis
      with c(2) have "c' \<in> set (containers (w_db w'))" "c_id c' = c_id c"
        by (auto simp: del stale_container_def sql_ne_def as_before_def)
      then show ?thesis by (metis image_eqI)
    qed
    moreover have "c_snapshotId c = Some snap \<or> never_seen c"
      if "c \<in> set (containers (w_db w'))" "c_hostId c = a_hostId agent" "c_dockerId c \<noteq> None" for c
      using that by (cases "c_snapshotId c") (auto simp: del stale_container_def sql_ne_def never_seen_def)
    ultimately show ?thesis using True result del kept by (fastforce simp: in_del_iff)
  qed
qed

theorem sync_removes_only_when_complete_witness:
  "\<exists>result w'. sync demo_env ''a1'' demo_world = (Inr result, w') \<and> sy_removed result = 2 \<and>
     ''c1'' \<in> c_id ` set (containers (w_db w'))"
proof -
  obtain result w' where exec: "sync demo_env ''a1'' demo_world = (Inr result, w')"
    using demo_sync(1) by (metis isl_def prod.collapse sum.collapse(2))
  have "''c1'' \<in> c_id ` {c \<in> set (containers (w_db demo_world)). c_dockerId c = None}"
    by (rule image_eqI [of _ _ "blank_row ''c1'' ''h1''"]) (simp_all add: demo_world_def blank_row_def)
  with sync_removes_only_when_complete [OF exec] exec demo_sync(3) show ?thesis by auto
qed

text \<open>
  C33: a pass over one host changes no container, no Compose project, no host and no event of any
  other host, except for the three columns of a container that a claimed identity can write: the
  conflict marker, the snapshot that kept the row and the time of that observation.
\<close>

theorem sync_other_hosts:
  assumes "distinct (map c_id (containers (w_db w)))" and "distinct (map p_id (composeProjects (w_db w)))"
    and "find (\<lambda>a. a_id a = agentId) (agents (w_db w)) = Some agent"
  shows "elsewhere (a_hostId agent) (snd (sync E agentId w)) = elsewhere (a_hostId agent) w"
proof -
  let ?pass = "bindE (randomUUID E) (\<lambda>snapshotId.
      bindE (sync_steps E agent snapshotId) (\<lambda>(complete, containerCount, projectCount).
      bindE (if complete then reconcile (a_hostId agent) snapshotId else retE 0) (\<lambda>removed.
      retE \<lparr>sy_snapshotId = snapshotId, sy_hostId = a_hostId agent, sy_complete = complete,
        sy_containers = containerCount, sy_projects = projectCount, sy_removed = removed\<rparr>)))"
  have pass: "snd (sync E agentId w) = snd (?pass w)" using assms(3) by (simp add: sync_def bind_read_db)
  have "stable (elsewhere_rel (a_hostId agent)) ?pass"
    by (intro apart.stable_rules apart_steps apart_sync_steps reconcile_apart)
  moreover have "stable (others_rel (a_hostId agent)) ?pass"
    by (intro aloof.stable_rules aloof_steps aloof_sync_steps reconcile_aloof)
  ultimately show ?thesis
    using assms(1,2) by (simp add: pass stable_def elsewhere_rel_def others_rel_def elsewhere_def)
qed

theorem sync_other_hosts_witness:
  "elsewhere ''h1'' (snd (sync demo_env ''a1'' demo_world)) = elsewhere ''h1'' demo_world"
  using sync_other_hosts [of demo_world "''a1''"
      "\<lparr>a_id = ''a1'', a_hostId = ''h1'', a_version = None, a_revokedAt = None\<rparr>" demo_env]
  by (simp add: demo_world_def empty_world_def empty_db_def blank_row_def demo_project_def)

text \<open>
  Those three columns can be written across hosts. The pass of the agent of the first host
  marks the container of the second host as contested, because a claimed identity is looked
  up without its host.
\<close>

theorem discovery_conflict_crosses_hosts:
  "map (\<lambda>c. (c_id c, c_hostId c, c_identityConflict c))
     (containers (w_db (snd (sync demo_env ''a1'' demo_world))))
   = [(''c1'', ''h1'', None), (''b1'', ''h2'', Some [''d1'', ''d2''])]"
  by code_simp

end
