(* ===== verification/Js_Time.thy ===== *)
theory Js_Time
  imports Js_Date "HOL-Library.Code_Target_Nat"
begin

text \<open>
  \<^verbatim>\<open>Date.prototype.toISOString\<close>, with which the detail service stores the times Docker reports.
  The year, month and day of an instant are computed from its day number, and printing is
  shown to be inverse to the parser of \<open>Js_Date\<close> for the years that have four digits.
\<close>

section \<open>From days to dates\<close>

definition year_of :: "int \<Rightarrow> int" where
  "year_of z = (let y = 1970 + (400 * z) div 146097 in
     if days_before_year (y + 1) \<le> z then y + 1
     else if z < days_before_year y then y - 1 else y)"

text \<open>The month and the day in it, for a number of days since the first of a month.\<close>

function month_from :: "int \<Rightarrow> nat \<Rightarrow> nat \<Rightarrow> nat \<times> nat" where
  "month_from y m r = (if r < days_in_month y m \<or> 12 \<le> m then (m, r + 1)
     else month_from y (m + 1) (r - days_in_month y m))"
  by pat_completeness auto
termination by (relation "measure (\<lambda>(y, m, r). 12 - m)") auto

declare month_from.simps [simp del]

definition date_of :: "int \<Rightarrow> int \<times> nat \<times> nat" where
  "date_of z = (let y = year_of z in (y, month_from y 1 (nat (z - days_before_year y))))"

section \<open>Printing\<close>

text \<open>The last \<open>k\<close> decimal digits.\<close>

fun pad_digits :: "nat \<Rightarrow> nat \<Rightarrow> string" where
  "pad_digits 0 n = []"
| "pad_digits (Suc k) n = pad_digits k (n div 10) @ [digit_char (n mod 10)]"

definition show_year :: "int \<Rightarrow> string" where
  "show_year y = (if 0 \<le> y \<and> y \<le> 9999 then pad_digits 4 (nat y)
     else (if y < 0 then ''-'' else ''+'') @ pad_digits 6 (nat (abs y)))"

definition toISOString :: "int \<Rightarrow> string" where
  "toISOString t = (let z = t div 86400000; ms = nat (t mod 86400000) in
     case date_of z of (y, m, d) \<Rightarrow>
       show_year y @ ''-'' @ pad_digits 2 m @ ''-'' @ pad_digits 2 d @ ''T''
       @ pad_digits 2 (ms div 3600000) @ '':'' @ pad_digits 2 (ms div 60000 mod 60) @ '':''
       @ pad_digits 2 (ms div 1000 mod 60) @ ''.'' @ pad_digits 3 (ms mod 1000) @ ''Z'')"

lemma toISOString_docker: "toISOString 1782892800123 = ''2026-07-01T08:00:00.123Z''"
  by code_simp

section \<open>The year of a day\<close>

lemma div_bounds:
  fixes a :: int assumes "0 < b" shows "b * (a div b) \<le> a" and "a < b * (a div b) + b"
  using assms pos_mod_bound [of b a] pos_mod_sign [of b a] by (simp_all add: minus_mod_eq_mult_div [symmetric])

lemma year_of_bounds: "days_before_year (year_of z) \<le> z \<and> z < days_before_year (year_of z + 1)"
proof -
  define q where "q = (400 * z) div 146097"
  have q: "146097 * q \<le> 400 * z" "400 * z < 146097 * q + 146097"
    unfolding q_def using div_bounds [of 146097 "400 * z"] by simp_all
  have lower: "days_before_year (1970 + q - 1) \<le> z"
    using q div_bounds [of 4 "q"] div_bounds [of 100 "q + 68"] div_bounds [of 400 "q + 368"]
    unfolding days_before_year_def by (simp add: algebra_simps)
  have upper: "z < days_before_year (1970 + q + 2)"
    using q div_bounds [of 4 "q + 3"] div_bounds [of 100 "q + 71"] div_bounds [of 400 "q + 371"]
    unfolding days_before_year_def by (simp add: algebra_simps)
  show ?thesis
    using lower upper unfolding year_of_def q_def [symmetric] Let_def by (auto simp: algebra_simps)
qed

lemma div_step:
  fixes y k :: int assumes "1 < k"
  shows "(y - 1) div k = y div k - (if y mod k = 0 then 1 else 0)"
proof (cases "y mod k = 0")
  case True
  then have "y = k * (y div k)" by (metis add.right_neutral mult_div_mod_eq)
  then have "y - 1 = k * (y div k - 1) + (k - 1)" by (simp add: algebra_simps)
  from int_div_pos_eq [OF this] assms True show ?thesis by simp
next
  case False
  with assms have "0 \<le> y mod k - 1" "y mod k - 1 < k"
    using pos_mod_sign [of k y] pos_mod_bound [of k y] by linarith+
  moreover have "y - 1 = k * (y div k) + (y mod k - 1)" by simp
  ultimately have "(y - 1) div k = y div k" by (metis int_div_pos_eq)
  with False show ?thesis by simp
qed

lemma div_shift: fixes y k c :: int assumes "0 < k" shows "(y - k * c) div k = y div k - c"
proof -
  have "y - k * c = k * (y div k - c) + y mod k" by (simp add: algebra_simps)
  with assms show ?thesis by (metis int_div_pos_eq pos_mod_bound pos_mod_sign)
qed

lemma div_shift_by:
  fixes y z k c d :: int assumes "0 < k" and "y - d = z - k * c" shows "(y - d) div k = z div k - c"
  using div_shift [OF assms(1)] assms(2) by simp

lemma year_length: "days_before_year (y + 1) - days_before_year y = (if leap_year y then 366 else 365)"
proof -
  have shift: "(y - 1968) div 4 = y div 4 - 492" "(y - 1969) div 4 = (y - 1) div 4 - 492"
    "(y - 1900) div 100 = y div 100 - 19" "(y - 1901) div 100 = (y - 1) div 100 - 19"
    "(y - 1600) div 400 = y div 400 - 4" "(y - 1601) div 400 = (y - 1) div 400 - 4"
    by (rule div_shift_by; simp)+
  have nested: "y mod 400 = 0 \<Longrightarrow> y mod 100 = 0" "y mod 100 = 0 \<Longrightarrow> y mod 4 = 0"
    using dvd_trans [of 100 400 y] dvd_trans [of 4 100 y] by (simp_all add: mod_eq_0_iff_dvd)
  have next_year: "y + 1 - 1970 = y - 1969" "y + 1 - 1969 = y - 1968" "y + 1 - 1901 = y - 1900"
    "y + 1 - 1601 = y - 1600" by simp_all
  have step: "(y - 1) div 4 = y div 4 - (if y mod 4 = 0 then 1 else 0)"
    "(y - 1) div 100 = y div 100 - (if y mod 100 = 0 then 1 else 0)"
    "(y - 1) div 400 = y div 400 - (if y mod 400 = 0 then 1 else 0)"
    by (rule div_step; simp)+
  have combine: "365 * (y - 1969) + (a - 492) - (b - 19) + (c - 4)
      - (365 * (y - 1970) + (a - (if p then 1 else 0) - 492) - (b - (if q then 1 else 0) - 19)
          + (c - (if r then 1 else 0) - 4)) = (if p \<and> (\<not> q \<or> r) then 366 else 365)"
    if "r \<longrightarrow> q" "q \<longrightarrow> p" for a b c :: int and p q r
    using that by (cases p; cases q; cases r) (simp_all add: right_diff_distrib)
  show ?thesis
    unfolding days_before_year_def leap_year_def next_year shift step
    by (rule combine) (use nested in blast)+
qed

section \<open>The date of a day\<close>

lemma int_sum_list: "int (sum_list (map f xs)) = (\<Sum>x\<leftarrow>xs. int (f x))"
  by (induction xs) simp_all

lemma months_of_year: "(\<Sum>k\<leftarrow>[1..<13]. days_in_month y k) = (if leap_year y then 366 else 365)"
  by (simp add: upt_conv_Cons days_in_month_def)

lemma month_from_spec:
  assumes "1 \<le> m" "m \<le> 12" "r < (\<Sum>k\<leftarrow>[m..<13]. days_in_month y k)" "month_from y m r = (mo, d)"
  shows "m \<le> mo \<and> mo \<le> 12 \<and> 1 \<le> d \<and> d \<le> days_in_month y mo
    \<and> (\<Sum>k\<leftarrow>[m..<mo]. days_in_month y k) + d = r + 1"
  using assms
proof (induction y m r rule: month_from.induct)
  case (1 y m r)
  show ?case
  proof (cases "r < days_in_month y m \<or> 12 \<le> m")
    case True
    then have "month_from y m r = (m, r + 1)" by (simp add: month_from.simps [of y m r])
    moreover have "r < days_in_month y m"
    proof (cases "12 \<le> m")
      case True
      with 1(3) have "m = 12" by simp
      with 1(4) show ?thesis by (simp add: upt_conv_Cons)
    qed (use True in simp)
    ultimately show ?thesis using 1(3,5) by auto
  next
    case False
    then have m: "m < 12" and r: "days_in_month y m \<le> r" by simp_all
    have split: "[m..<13] = m # [m + 1..<13]" using m by (simp add: upt_conv_Cons)
    have rest: "month_from y (m + 1) (r - days_in_month y m) = (mo, d)"
      using False 1(5) by (simp add: month_from.simps [of y m r])
    have "r - days_in_month y m < (\<Sum>k\<leftarrow>[m + 1..<13]. days_in_month y k)"
      using 1(4) r unfolding split by simp
    then have ih: "m + 1 \<le> mo \<and> mo \<le> 12 \<and> 1 \<le> d \<and> d \<le> days_in_month y mo
        \<and> (\<Sum>k\<leftarrow>[m + 1..<mo]. days_in_month y k) + d = r - days_in_month y m + 1"
      using 1(1) [OF False] m rest by simp
    then have "[m..<mo] = m # [m + 1..<mo]" by (simp add: upt_conv_Cons)
    then have "(\<Sum>k\<leftarrow>[m..<mo]. days_in_month y k) = days_in_month y m + (\<Sum>k\<leftarrow>[m + 1..<mo]. days_in_month y k)"
      by simp
    with ih r show ?thesis by linarith
  qed
qed

lemma date_of_day_number:
  assumes "date_of z = (y, m, d)"
  shows "y = year_of z" "1 \<le> m" "m \<le> 12" "1 \<le> d" "d \<le> days_in_month y m" "day_number y m d = z"
proof -
  let ?r = "nat (z - days_before_year (year_of z))"
  from assms have y: "y = year_of z" and md: "month_from y 1 ?r = (m, d)"
    by (auto simp: date_of_def Let_def)
  have "int ?r < int (\<Sum>k\<leftarrow>[1..<13]. days_in_month y k)"
    using year_of_bounds [of z] year_length [of y] y unfolding months_of_year by (auto split: if_splits)
  then have "?r < (\<Sum>k\<leftarrow>[1..<13]. days_in_month y k)" by (simp only: of_nat_less_iff)
  from month_from_spec [OF _ _ this md]
  have spec: "1 \<le> m \<and> m \<le> 12 \<and> 1 \<le> d \<and> d \<le> days_in_month y m"
    and sum: "(\<Sum>k\<leftarrow>[1..<m]. days_in_month y k) + d = ?r + 1" by simp_all
  show "y = year_of z" "1 \<le> m" "m \<le> 12" "1 \<le> d" "d \<le> days_in_month y m"
    using y spec by simp_all
  have "int (\<Sum>k\<leftarrow>[1..<m]. days_in_month y k) + int d = z - days_before_year y + 1"
    using arg_cong [OF sum, of int] year_of_bounds [of z] y by (simp add: algebra_simps)
  then show "day_number y m d = z"
    by (simp add: day_number_def int_sum_list)
qed

section \<open>Printing and parsing\<close>

lemma length_pad_digits [simp]: "length (pad_digits k n) = k"
  by (induction k arbitrary: n) simp_all

lemma pad_digits_digits: "list_all is_digit (pad_digits k n)"
  by (induction k arbitrary: n) simp_all

lemma nat_of_digits_pad: "n < 10 ^ k \<Longrightarrow> nat_of_digits (pad_digits k n) = n"
proof (induction k arbitrary: n)
  case 0
  then show ?case by (simp add: nat_of_digits_def)
next
  case (Suc k)
  then have "n div 10 < 10 ^ k" by (simp add: div_less_iff_less_mult mult.commute)
  with Suc.IH show ?case by simp
qed

lemma take_digits_pad: "n < 10 ^ k \<Longrightarrow> take_digits k (pad_digits k n @ s) = Some (n, s)"
  by (simp add: take_digits_def Let_def pad_digits_digits nat_of_digits_pad)

lemma take_two_pad: "n < 100 \<Longrightarrow> take_two c (c # pad_digits 2 n @ s) = Some (n, s)"
  by (simp add: take_two_def take_char_def take_digits_pad)

lemma take_fraction_pad:
  assumes "n < 1000" shows "take_fraction (CHR ''.'' # pad_digits 3 n @ ''Z'') = Some (n, ''Z'')"
proof -
  have z: "\<not> is_digit CHR ''Z''" by code_simp
  have "takeWhile is_digit (pad_digits 3 n @ ''Z'') = pad_digits 3 n"
    using pad_digits_digits [of 3 n] z by (simp add: takeWhile_append list_all_iff)
  moreover have "dropWhile is_digit (pad_digits 3 n @ ''Z'') = ''Z''"
    using pad_digits_digits [of 3 n] z by (simp add: dropWhile_append list_all_iff)
  moreover have "pad_digits 3 n \<noteq> []" by (metis length_pad_digits list.size(3) zero_neq_numeral)
  ultimately show ?thesis
    using assms by (simp add: take_fraction_def Let_def fraction_ms_def nat_of_digits_pad)
qed

lemma pad_year: "0 \<le> y \<Longrightarrow> y \<le> 9999 \<Longrightarrow> take_digits 4 (show_year y @ s) = Some (nat y, s)"
  by (simp add: show_year_def take_digits_pad)

text \<open>A printed instant of a year with four digits reads back as the same instant.\<close>

lemma iso_parse_toISOString:
  assumes "0 \<le> year_of (t div 86400000)" and "year_of (t div 86400000) \<le> 9999"
  shows "iso_parse (toISOString t) = Some t"
proof -
  define z where "z = t div 86400000"
  define ms where "ms = nat (t mod 86400000)"
  obtain y m d where date: "date_of z = (y, m, d)" by (cases "date_of z") auto
  note facts = date_of_day_number [OF date]
  have ms: "ms < 86400000" "t = z * 86400000 + int ms" unfolding z_def ms_def by simp_all
  have d: "d \<le> 31" using facts(5) by (auto simp: days_in_month_def split: if_splits)
  have y: "0 \<le> y" "y \<le> 9999" using assms facts(1) unfolding z_def by simp_all
  have parts: "ms div 3600000 < 24" "ms div 60000 mod 60 < 60" "ms div 1000 mod 60 < 60"
    using ms(1) by (simp_all add: div_less_iff_less_mult)
  have whole: "((ms div 3600000) * 60 + ms div 60000 mod 60) * 60000 + 1000 * (ms div 1000 mod 60) + ms mod 1000 = ms"
  proof -
    have a: "ms div 60000 = ms div 3600000 * 60 + ms div 60000 mod 60"
      using div_mult_mod_eq [of "ms div 60000" 60] by (simp add: div_mult2_eq [symmetric])
    have b: "ms div 1000 = ms div 60000 * 60 + ms div 1000 mod 60"
      using div_mult_mod_eq [of "ms div 1000" 60] by (simp add: div_mult2_eq [symmetric])
    have c: "ms = ms div 1000 * 1000 + ms mod 1000" by simp
    have "ms = (ms div 60000 * 60 + ms div 1000 mod 60) * 1000 + ms mod 1000" using b c by simp
    also have "\<dots> = ms div 60000 * 60000 + 1000 * (ms div 1000 mod 60) + ms mod 1000" by simp
    finally show ?thesis using a by simp
  qed
  have shape: "toISOString t = show_year y @ CHR ''-'' # pad_digits 2 m @ CHR ''-'' # pad_digits 2 d
      @ CHR ''T'' # pad_digits 2 (ms div 3600000) @ CHR '':'' # pad_digits 2 (ms div 60000 mod 60)
      @ CHR '':'' # pad_digits 2 (ms div 1000 mod 60) @ CHR ''.'' # pad_digits 3 (ms mod 1000) @ ''Z''"
    unfolding toISOString_def Let_def z_def [symmetric] ms_def [symmetric] date by simp
  have "iso_parse (toISOString t) = Some (((z * 24 + int (ms div 3600000)) * 60
      + int (ms div 60000 mod 60) - 0) * 60000 + int (1000 * (ms div 1000 mod 60) + ms mod 1000))"
    unfolding shape iso_parse_def using facts y d parts
    by (simp add: pad_year take_two_pad take_fraction_pad take_offset_def)
  also have "\<dots> = Some (z * 86400000 + int (((ms div 3600000) * 60 + ms div 60000 mod 60) * 60000
      + 1000 * (ms div 1000 mod 60) + ms mod 1000))"
    by (simp add: algebra_simps)
  also have "\<dots> = Some t" unfolding whole using ms(2) by simp
  finally show ?thesis .
qed

end
