(* ===== verification/Detail.thy ===== *)
theory Detail
  imports Discovery Js_Time
begin

text \<open>
  Detail on demand, \<^verbatim>\<open>src/api/src/discovery/detail.service.ts\<close>: one container or one Compose
  project read from its host, rebuilt field by field before it is stored, answered from the
  store while it is fresh and, marked stale, when the host cannot be asked. A call runs to its
  end here, so the map that lets concurrent calls share one round trip is empty whenever
  a call looks at it.
\<close>

definition FRESH_FOR_MS :: int where "FRESH_FOR_MS = 10000"

section \<open>Rebuilding what a host sent\<close>

text \<open>\<^verbatim>\<open>text\<close>, \<^verbatim>\<open>number\<close>, \<^verbatim>\<open>strings\<close> and \<^verbatim>\<open>timestamp\<close> of one field; \<open>None\<close> is \<^verbatim>\<open>undefined\<close>.\<close>

definition text_of :: "json option \<Rightarrow> string option" where
  "text_of value = (case value of
      Some (JString s) \<Rightarrow> if s \<noteq> [] then Some (take 1024 s) else None
    | _ \<Rightarrow> None)"

definition number_of :: "json option \<Rightarrow> rat option" where
  "number_of value = (case value of Some (JNumber (Finite r)) \<Rightarrow> Some r | _ \<Rightarrow> None)"

definition elements :: "json option \<Rightarrow> json list" where
  "elements value = (case value of Some (JArray vs) \<Rightarrow> vs | _ \<Rightarrow> [])"

definition strings :: "json option \<Rightarrow> string list" where
  "strings value = List.map_filter (\<lambda>entry. case entry of JString s \<Rightarrow> Some (take 256 s) | _ \<Rightarrow> None)
     (elements value)"

definition timestamp :: "env \<Rightarrow> json option \<Rightarrow> string option" where
  "timestamp E value = (case value of
      Some (JString s) \<Rightarrow> map_option toISOString (Date_parse (e_legacy_date E) s)
    | _ \<Rightarrow> None)"

text \<open>\<^verbatim>\<open>typeof entry === 'object' && entry !== null\<close>: objects and arrays.\<close>

definition is_objectlike :: "json \<Rightarrow> bool" where
  "is_objectlike v = (case v of JObject _ \<Rightarrow> True | JArray _ \<Rightarrow> True | _ \<Rightarrow> False)"

definition or_default :: "'a option \<Rightarrow> 'a \<Rightarrow> 'a" where
  "or_default v d = (case v of Some x \<Rightarrow> x | None \<Rightarrow> d)"

definition FORWARDED_LABELS :: "string list" where
  "FORWARDED_LABELS = [''com.docker.compose.project'', ''com.docker.compose.service'',
     ''com.docker.compose.container-number'', ''com.docker.compose.oneoff'']"

text \<open>\<^verbatim>\<open>Object.entries\<close> of a parsed object: a repeated key keeps its first place and its last value.\<close>

definition Object_entries :: "(string \<times> 'a) list \<Rightarrow> (string \<times> 'a) list" where
  "Object_entries entries = map (\<lambda>k. (k, the (js_map entries k))) (rev (remdups (rev (map fst entries))))"

definition composeLabels :: "json option \<Rightarrow> (string \<times> string) list" where
  "composeLabels value = (case value of
      Some (JObject entries) \<Rightarrow> List.map_filter (\<lambda>(key, entry). case entry of
          JString s \<Rightarrow> if key \<in> set FORWARDED_LABELS then Some (key, take 256 s) else None
        | _ \<Rightarrow> None) (Object_entries entries)
    | _ \<Rightarrow> [])"

definition ports :: "json option \<Rightarrow> detail_port list" where
  "ports value = map (\<lambda>entry.
     \<lparr>dp_containerPort = or_default (number_of (property entry ''containerPort'')) 0,
      dp_protocol = or_default (text_of (property entry ''protocol'')) ''tcp'',
      dp_hostPort = text_of (property entry ''hostPort''),
      dp_hostIp = text_of (property entry ''hostIp'')\<rparr>) (filter is_objectlike (elements value))"

definition mounts :: "json option \<Rightarrow> detail_mount list" where
  "mounts value = map (\<lambda>entry.
     let type = or_default (text_of (property entry ''type'')) ''unknown'' in
     \<lparr>dm_type = type,
      dm_name = (if type = ''volume'' then text_of (property entry ''name'') else None),
      dm_readOnly = (property entry ''readOnly'' = Some (JBool True))\<rparr>)
     (filter is_objectlike (elements value))"

definition limits :: "json option \<Rightarrow> detail_limits option" where
  "limits value = (case value of
      None \<Rightarrow> None
    | Some v \<Rightarrow> if \<not> is_objectlike v then None else
        let constraints = \<lparr>dl_memoryBytes = number_of (property v ''memoryBytes''),
              dl_nanoCpus = number_of (property v ''nanoCpus''),
              dl_pidsLimit = number_of (property v ''pidsLimit'')\<rparr> in
        if dl_memoryBytes constraints \<noteq> None \<or> dl_nanoCpus constraints \<noteq> None
          \<or> dl_pidsLimit constraints \<noteq> None then Some constraints else None)"

definition normaliseContainerDetail :: "env \<Rightarrow> json option \<Rightarrow> ContainerDetail option" where
  "normaliseContainerDetail E value = (case value of
      None \<Rightarrow> None
    | Some raw \<Rightarrow> if \<not> is_objectlike raw then None else
        (case property raw ''dockerId'' of
           Some (JString dockerId) \<Rightarrow> if dockerId = [] then None else Some
             \<lparr>cd_dockerId = dockerId,
              cd_name = or_default (text_of (property raw ''name'')) '''',
              cd_image = or_default (text_of (property raw ''image'')) '''',
              cd_imageId = text_of (property raw ''imageId''),
              cd_state = or_default (text_of (property raw ''state'')) ''unknown'',
              cd_status = or_default (text_of (property raw ''status'')) ''unknown'',
              cd_health = or_default (text_of (property raw ''health'')) ''none'',
              cd_restartCount = or_default (number_of (property raw ''restartCount'')) 0,
              cd_restartPolicy = text_of (property raw ''restartPolicy''),
              cd_createdAt = timestamp E (property raw ''createdAt''),
              cd_startedAt = timestamp E (property raw ''startedAt''),
              cd_finishedAt = timestamp E (property raw ''finishedAt''),
              cd_exitCode = number_of (property raw ''exitCode''),
              cd_ports = ports (property raw ''ports''),
              cd_networks = strings (property raw ''networks''),
              cd_mounts = mounts (property raw ''mounts''),
              cd_limits = limits (property raw ''limits''),
              cd_labels = composeLabels (property raw ''labels'')\<rparr>
         | _ \<Rightarrow> None))"

record ComposeServiceDetail =
  csd_name :: string
  csd_containerIds :: "string list"
  csd_running :: rat
  csd_total :: rat
  csd_state :: string

definition normaliseServices :: "json option \<Rightarrow> ComposeServiceDetail list" where
  "normaliseServices value = filter (\<lambda>service. csd_name service \<noteq> [])
     (map (\<lambda>entry. \<lparr>csd_name = or_default (text_of (property entry ''name'')) ''unknown'',
        csd_containerIds = strings (property entry ''containerIds''),
        csd_running = or_default (number_of (property entry ''running'')) 0,
        csd_total = or_default (number_of (property entry ''total'')) 0,
        csd_state = or_default (text_of (property entry ''state'')) ''unknown''\<rparr>)
      (filter is_objectlike (elements value)))"

text \<open>What is written to the column for a list of services.\<close>

definition services_json :: "ComposeServiceDetail list \<Rightarrow> json" where
  "services_json services = JArray (map (\<lambda>s. JObject
     [(''name'', JString (csd_name s)), (''containerIds'', JArray (map JString (csd_containerIds s))),
      (''running'', JNumber (Finite (csd_running s))), (''total'', JNumber (Finite (csd_total s))),
      (''state'', JString (csd_state s))]) services)"

section \<open>The service\<close>

definition isFresh :: "int \<Rightarrow> int option \<Rightarrow> bool" where
  "isFresh date_now observedAt = (case observedAt of
      None \<Rightarrow> False
    | Some t \<Rightarrow> date_now - t < FRESH_FOR_MS)"

text \<open>The agent that may be asked for a host: not revoked, and connected.\<close>

definition detail_connectedAgent :: "string \<Rightarrow> string option handler" where
  "detail_connectedAgent hostId =
    bindE (read_db (\<lambda>db. find (\<lambda>a. a_hostId a = hostId \<and> a_revokedAt a = None) (agents db))) (\<lambda>agent.
    case agent of
      None \<Rightarrow> retE None
    | Some a \<Rightarrow> bindE (isConnected (a_id a)) (\<lambda>up. retE (if up then Some (a_id a) else None)))"

record DetailResult =
  dr_detail :: "ContainerDetail option"
  dr_observedAt :: "int option"
  dr_stale :: bool

definition offline :: "ContainerDetail option \<Rightarrow> int option \<Rightarrow> DetailResult handler" where
  "offline stored observedAt = (case stored of
      None \<Rightarrow> throw_app (conflict ''CONTAINER_DETAIL_UNAVAILABLE''
        ''The host has not been reachable since this container was discovered, so no detail has ever been read.'')
    | Some _ \<Rightarrow> retE \<lparr>dr_detail = stored, dr_observedAt = observedAt, dr_stale = True\<rparr>)"

text \<open>An \<^verbatim>\<open>integer\<close> column takes whole numbers of 32 bits and refuses the rest.\<close>

definition int4 :: "rat \<Rightarrow> bool" where
  "int4 r = (of_int (floor r) = r \<and> - 2147483648 \<le> r \<and> r \<le> 2147483647)"

definition inspected_of :: "answer \<Rightarrow> json option" where
  "inspected_of a = (case a of InspectAnswer v \<Rightarrow> v | _ \<Rightarrow> None)"

text \<open>Asking the host and storing the answer; \<open>None\<close> when the answer is not a container.\<close>

definition ask_container :: "env \<Rightarrow> string \<Rightarrow> string \<Rightarrow> container_row
    \<Rightarrow> (ContainerDetail \<times> int option) option handler" where
  "ask_container E containerId agentId row =
    bindE (dispatch_request E agentId ''container.inspect'' (InspectContainer (the (c_dockerId row)))) (\<lambda>payload.
    case normaliseContainerDetail E (inspected_of payload) of
      None \<Rightarrow> retE None
    | Some detail \<Rightarrow>
        bindE now (\<lambda>observedAt.
        bindE (if int4 (cd_restartCount detail)
          then write_db (\<lambda>db. db\<lparr>containers := upd (\<lambda>c. c_id c = containerId) (\<lambda>c. c\<lparr>
            c_detail := Some detail,
            c_detailObservedAt := Some observedAt,
            c_state := (if cd_state detail \<noteq> [] then cd_state detail else c_state row),
            c_health := (if cd_health detail \<noteq> [] then cd_health detail else c_health row),
            c_restartCount := cd_restartCount detail\<rparr>) (containers db)\<rparr>)
          else throwE (OtherErr ''value out of range for type integer'')) (\<lambda>_.
        retE (Some (detail, Some observedAt)))))"

definition refresh_container :: "env \<Rightarrow> string \<Rightarrow> bool \<Rightarrow> string \<Rightarrow> container_row
    \<Rightarrow> (ContainerDetail \<times> int option) option handler" where
  "refresh_container E containerId force agentId row =
    bindE (read_db (\<lambda>db. find (\<lambda>c. c_id c = containerId) (containers db))) (\<lambda>current.
    bindE now (\<lambda>t.
    case Option.bind current c_detail of
      Some stored \<Rightarrow> if \<not> force \<and> isFresh t (Option.bind current c_detailObservedAt)
        then retE (Some (stored, Option.bind current c_detailObservedAt))
        else ask_container E containerId agentId row
    | None \<Rightarrow> ask_container E containerId agentId row))"

definition no_container :: app_error where
  "no_container = notFound ''CONTAINER_NOT_FOUND'' ''The container does not exist.''"

text \<open>What the caller is told once the host was asked: the rest of the \<^verbatim>\<open>try\<close> and its \<^verbatim>\<open>catch\<close>.\<close>

definition detail_answer :: "string \<Rightarrow> container_row
    \<Rightarrow> js_error + (ContainerDetail \<times> int option) option \<Rightarrow> DetailResult handler" where
  "detail_answer containerId row refreshed = (case refreshed of
      Inr (Some (detail, observedAt)) \<Rightarrow>
        retE \<lparr>dr_detail = Some detail, dr_observedAt = observedAt, dr_stale = False\<rparr>
    | Inr None \<Rightarrow> offline (c_detail row) (c_detailObservedAt row)
    | Inl error \<Rightarrow>
        if code_or [] error = ''CONTAINER_NOT_FOUND''
        then bindE (delete_containers (\<lambda>c. c_id c = containerId)) (\<lambda>_.
          throw_app (notFound ''CONTAINER_NOT_FOUND'' ''The container no longer exists.''))
        else offline (c_detail row) (c_detailObservedAt row))"

definition containerDetail :: "env \<Rightarrow> string \<Rightarrow> bool \<Rightarrow> DetailResult handler" where
  "containerDetail E containerId force =
    bindE (read_db (\<lambda>db. find (\<lambda>c. c_id c = containerId) (containers db))) (\<lambda>found.
    case found of
      None \<Rightarrow> throw_app no_container
    | Some row \<Rightarrow>
      if \<not> truthy (c_dockerId row) then throw_app no_container
      else bindE now (\<lambda>t.
      if \<not> force \<and> c_detail row \<noteq> None \<and> isFresh t (c_detailObservedAt row)
      then retE \<lparr>dr_detail = c_detail row, dr_observedAt = c_detailObservedAt row, dr_stale = False\<rparr>
      else bindE (detail_connectedAgent (c_hostId row)) (\<lambda>agent.
      case agent of
        None \<Rightarrow> offline (c_detail row) (c_detailObservedAt row)
      | Some agentId \<Rightarrow>
        bindE (tryE (refresh_container E containerId force agentId row)) (\<lambda>refreshed.
        detail_answer containerId row refreshed))))"

section \<open>Compose projects\<close>

record ProjectResult =
  pd_services :: "ComposeServiceDetail list"
  pd_status :: string
  pd_serviceCount :: int
  pd_runningCount :: int
  pd_observedAt :: "int option"
  pd_stale :: bool

definition project_result :: "ComposeServiceDetail list \<Rightarrow> project_row \<Rightarrow> bool \<Rightarrow> ProjectResult" where
  "project_result services row stale = \<lparr>pd_services = services, pd_status = p_status row,
     pd_serviceCount = p_serviceCount row, pd_runningCount = p_runningCount row,
     pd_observedAt = p_detailObservedAt row, pd_stale = stale\<rparr>"

definition offlineProject :: "project_row \<Rightarrow> ProjectResult handler" where
  "offlineProject row = (if p_services row = None
     then throw_app (conflict ''COMPOSE_DETAIL_UNAVAILABLE''
       ''The host has not been reachable since this project was discovered, so no detail has ever been read.'')
     else retE (project_result (normaliseServices (p_services row)) row True))"

definition json_truthy :: "json option \<Rightarrow> bool" where
  "json_truthy v = (case v of
      None \<Rightarrow> False
    | Some JNull \<Rightarrow> False
    | Some (JBool b) \<Rightarrow> b
    | Some (JNumber (Finite r)) \<Rightarrow> r \<noteq> 0
    | Some (JString s) \<Rightarrow> s \<noteq> []
    | Some _ \<Rightarrow> True)"

definition project_of :: "answer \<Rightarrow> json option" where
  "project_of a = (case a of InspectProjectAnswer v \<Rightarrow> v | _ \<Rightarrow> None)"

text \<open>\<^verbatim>\<open>typeof v === 'number' ? v : fallback\<close>, for an \<^verbatim>\<open>integer\<close> column; \<open>None\<close> is a refused write.\<close>

definition count_of :: "json option \<Rightarrow> int \<Rightarrow> int option" where
  "count_of v fallback = (case v of
      Some (JNumber (Finite r)) \<Rightarrow> if int4 r then Some (floor r) else None
    | Some (JNumber (Infinite _)) \<Rightarrow> None
    | _ \<Rightarrow> Some fallback)"

definition ask_project :: "env \<Rightarrow> string \<Rightarrow> string \<Rightarrow> project_row \<Rightarrow> ProjectResult option handler" where
  "ask_project E pid agentId row =
    bindE (dispatch_request E agentId ''compose.inspect'' (InspectProject (p_projectName row))) (\<lambda>payload.
    if \<not> json_truthy (project_of payload) then retE None
    else let project = the (project_of payload); services = normaliseServices (property project ''services'') in
      bindE now (\<lambda>observedAt.
      let status = (case property project ''status'' of Some (JString s) \<Rightarrow> s | _ \<Rightarrow> p_status row) in
      case (count_of (property project ''serviceCount'') (int (length services)),
            count_of (property project ''runningCount'') (p_runningCount row)) of
        (Some serviceCount, Some runningCount) \<Rightarrow>
          bindE (write_db (\<lambda>db. db\<lparr>composeProjects := upd (\<lambda>p. p_id p = pid) (\<lambda>p. p\<lparr>
            p_services := Some (services_json services), p_detailObservedAt := Some observedAt,
            p_status := status, p_serviceCount := serviceCount, p_runningCount := runningCount\<rparr>)
            (composeProjects db)\<rparr>)) (\<lambda>_.
          retE (Some \<lparr>pd_services = services, pd_status = status, pd_serviceCount = serviceCount,
            pd_runningCount = runningCount, pd_observedAt = Some observedAt, pd_stale = False\<rparr>))
      | _ \<Rightarrow> throwE (OtherErr ''value out of range for type integer'')))"

definition refresh_project :: "env \<Rightarrow> string \<Rightarrow> string \<Rightarrow> project_row \<Rightarrow> ProjectResult option handler" where
  "refresh_project E pid agentId row =
    bindE (read_db (\<lambda>db. find (\<lambda>p. p_id p = pid) (composeProjects db))) (\<lambda>current.
    bindE now (\<lambda>t.
    case current of
      Some p \<Rightarrow> if isFresh t (p_detailObservedAt p)
        then retE (Some (project_result (normaliseServices (p_services p)) p False))
        else ask_project E pid agentId row
    | None \<Rightarrow> ask_project E pid agentId row))"

definition projectDetail :: "env \<Rightarrow> string \<Rightarrow> ProjectResult handler" where
  "projectDetail E pid =
    bindE (read_db (\<lambda>db. find (\<lambda>p. p_id p = pid) (composeProjects db))) (\<lambda>found.
    case found of
      None \<Rightarrow> throw_app (notFound ''COMPOSE_PROJECT_NOT_FOUND'' ''The Compose project does not exist.'')
    | Some row \<Rightarrow>
      bindE now (\<lambda>t.
      if isFresh t (p_detailObservedAt row)
      then retE (project_result (normaliseServices (p_services row)) row False)
      else bindE (detail_connectedAgent (p_hostId row)) (\<lambda>agent.
      case agent of
        None \<Rightarrow> offlineProject row
      | Some agentId \<Rightarrow>
        bindE (tryE (refresh_project E pid agentId row)) (\<lambda>outcome.
        case outcome of
          Inr (Some result) \<Rightarrow> retE result
        | Inr None \<Rightarrow> offlineProject row
        | Inl error \<Rightarrow>
            if code_or [] error = ''COMPOSE_PROJECT_NOT_FOUND''
            then throw_app (notFound ''COMPOSE_PROJECT_NOT_FOUND'' ''The Compose project no longer exists.'')
            else offlineProject row))))"

section \<open>What reading detail leaves alone\<close>

text \<open>A container without the columns that a detailed reading writes.\<close>

definition undetailed :: "container_row \<Rightarrow> container_row" where
  "undetailed c = c\<lparr>c_detail := None, c_detailObservedAt := None, c_state := [], c_health := [],
     c_restartCount := 0\<rparr>"

text \<open>
  The rest of the world: every table but the containers and what hangs off them, the locks,
  and the changes asked for.
\<close>

definition outside_detail :: "world \<Rightarrow> database \<times> (string \<rightharpoonup> string) \<times> string list \<times> nat
    \<times> string list option \<times> request list" where
  "outside_detail w = ((w_db w)\<lparr>containers := [], containerDesiredConfigs := [], containerEnvironmentVariables := []\<rparr>, w_held w, w_connected w, w_fresh w, w_registered w,
     mutations w)"

definition detail_rel :: "world \<Rightarrow> world \<Rightarrow> bool" where
  "detail_rel w w' \<longleftrightarrow> outside_detail w' = outside_detail w \<and>
     subseq (map undetailed (containers (w_db w'))) (map undetailed (containers (w_db w)))"

interpretation reading: step_rel detail_rel
  by unfold_locales (auto simp: detail_rel_def intro: subseq_order.order_trans)

lemma reading_keeps: "stable (keeps (\<lambda>w. (outside_detail w, containers (w_db w)))) m \<Longrightarrow> stable detail_rel m"
  by (erule stable_mono) (simp add: keeps_def detail_rel_def)

named_theorems reading_steps \<open>steps of a detailed reading\<close>

lemma reading_read [reading_steps]: "stable detail_rel (read_db g)"
  by (rule reading_keeps) (rule stable_read_db)

lemma reading_now [reading_steps]: "stable detail_rel now"
  by (rule reading_keeps) (rule stable_now)

lemma reading_throw [reading_steps]: "stable detail_rel (throw_app e)"
  by (rule reading_keeps) (rule stable_throw_app)

lemma reading_connected [reading_steps]: "stable detail_rel (isConnected a)"
  by (rule reading_keeps) (rule stable_isConnected)

lemma reading_dispatch [reading_steps]: "stable detail_rel (dispatch_request E a ''container.inspect'' p)"
  by (rule reading_keeps, rule stable_harmless_dispatch)
    (simp_all add: outside_detail_def isMutating_def MUTATING_CAPABILITIES_def)

lemma reading_offline [reading_steps]: "stable detail_rel (offline stored observedAt)"
  unfolding offline_def by (intro reading.stable_rules reading_steps)

lemma reading_agent [reading_steps]: "stable detail_rel (detail_connectedAgent hostId)"
  unfolding detail_connectedAgent_def by (intro reading.stable_rules reading_steps)

lemma subseq_del: "subseq (map f (del P rows)) (map f rows)"
  unfolding del_def by (rule subseq_map) (rule subseq_filter_left)

lemma reading_delete [reading_steps]: "stable detail_rel (delete_containers P)"
  unfolding delete_containers_def write_db_def
  by (rule reading.stable_mod)
    (simp add: detail_rel_def outside_detail_def subseq_del drop_containers_def drop_configs_def Let_def)

lemma reading_update [reading_steps]:
  assumes "\<And>c. undetailed (f c) = undetailed c"
  shows "stable detail_rel (write_db (\<lambda>db. db\<lparr>containers := upd P f (containers db)\<rparr>))"
  unfolding write_db_def
  by (rule reading.stable_mod) (simp add: detail_rel_def outside_detail_def map_upd_same assms)

lemma reading_ask [reading_steps]: "stable detail_rel (ask_container E cid a row)"
  unfolding ask_container_def
  by (intro reading.stable_rules reading_steps) (simp add: undetailed_def)

lemma reading_refresh [reading_steps]: "stable detail_rel (refresh_container E cid force a row)"
  unfolding refresh_container_def by (intro reading.stable_rules reading_steps)

lemma reading_containerDetail: "stable detail_rel (containerDetail E cid force)"
  unfolding containerDetail_def detail_answer_def by (intro reading.stable_rules reading_steps)

text \<open>What that means for a projection that only other tables, or only identities, decide.\<close>

lemma containerDetail_keeps:
  assumes "\<And>w w'. outside_detail w' = outside_detail w \<Longrightarrow> f w' = f w"
  shows "stable (keeps f) (containerDetail E cid force)"
  using reading_containerDetail
  by (rule stable_mono) (unfold keeps_def detail_rel_def, blast intro: assms)

section \<open>Taking a reading apart\<close>

lemma offline_stale: "offline stored t w = (Inr result, w') \<Longrightarrow> dr_stale result"
  by (auto simp: offline_def db_exec split: option.splits)

lemma detail_connectedAgent_SomeD:
  "detail_connectedAgent h w = (Inr (Some a), w') \<Longrightarrow> w' = w \<and> a \<in> set (w_connected w)"
  by (auto simp: detail_connectedAgent_def db_exec split: option.splits if_splits)

lemma refresh_container_forced: "refresh_container E cid True a row w = ask_container E cid a row w"
  by (simp add: refresh_container_def run split: option.split)

lemma outside_detail_discovery:
  assumes "outside_detail w' = outside_detail w"
  shows "outside_discovery w' = outside_discovery w"
proof -
  have view: "outside_discovery v = (\<lambda>(db, held, up, _, reg, sent). (agents db, actions db, auditEntries db,
      stacks db, stackRevisions db, stackRevisionEnvironment db, stackDeployments db, stackOperations db,
      held, up, reg, map (\<lambda>h. (h_id h, h_archivedAt h)) (hosts db), sent)) (outside_detail v)" for v
    by (simp add: outside_detail_def outside_discovery_def)
  show ?thesis unfolding view assms ..
qed

lemma ask_container_SomeD:
  assumes "ask_container E cid a row w = (Inr (Some (detail, seen)), w')"
  shows "\<exists>payload. e_answer E (w_sent w) \<lparr>rq_agentId = a, rq_capability = ''container.inspect'',
        rq_payload = InspectContainer (the (c_dockerId row))\<rparr> = Inr payload
    \<and> normaliseContainerDetail E (inspected_of payload) = Some detail
    \<and> w_sent w' = w_sent w @ [\<lparr>rq_agentId = a, rq_capability = ''container.inspect'',
        rq_payload = InspectContainer (the (c_dockerId row))\<rparr>]"
  using assms
  by (auto simp: ask_container_def run Let_def split: sum.splits option.splits if_splits)

section \<open>Lemmas on the normalised record\<close>

lemma text_of_length: "text_of v = Some s \<Longrightarrow> length s \<le> 1024"
  by (auto simp: text_of_def split: option.splits json.splits if_splits)

lemma or_default_text: "length d \<le> 1024 \<Longrightarrow> length (or_default (text_of v) d) \<le> 1024"
  by (auto simp: or_default_def dest: text_of_length split: option.splits)

lemma strings_length: "s \<in> set (strings v) \<Longrightarrow> length s \<le> 256"
  by (auto simp: strings_def List.map_filter_def split: json.splits)

lemma composeLabels_allowed:
  "(k, v) \<in> set (composeLabels value) \<Longrightarrow> k \<in> set FORWARDED_LABELS \<and> length v \<le> 256"
  by (auto simp: composeLabels_def List.map_filter_def split: option.splits json.splits if_splits)

lemma mounts_names: "m \<in> set (mounts value) \<Longrightarrow> dm_name m \<noteq> None \<Longrightarrow> dm_type m = ''volume''"
  by (auto simp: mounts_def Let_def split: if_splits)

text \<open>The texts of a stored detail that are cut to the longer limit, and the instants it names.\<close>

definition given :: "'a option list \<Rightarrow> 'a list" where
  "given = List.map_filter (\<lambda>x. x)"

definition port_texts :: "detail_port \<Rightarrow> string list" where
  "port_texts p = dp_protocol p # given [dp_hostPort p, dp_hostIp p]"

definition mount_texts :: "detail_mount \<Rightarrow> string list" where
  "mount_texts m = dm_type m # given [dm_name m]"

definition detail_texts :: "ContainerDetail \<Rightarrow> string list" where
  "detail_texts d = [cd_name d, cd_image d, cd_state d, cd_status d, cd_health d] @ given [cd_imageId d, cd_restartPolicy d]
     @ concat (map port_texts (cd_ports d)) @ concat (map mount_texts (cd_mounts d))"

lemma in_given: "x \<in> set (given xs) \<longleftrightarrow> Some x \<in> set xs"
  by (force simp: given_def List.map_filter_def)

lemma port_texts_short: "p \<in> set (ports v) \<Longrightarrow> s \<in> set (port_texts p) \<Longrightarrow> length s \<le> 1024"
  by (auto simp: ports_def port_texts_def in_given or_default_text dest: text_of_length [OF sym])

lemma mount_texts_short: "m \<in> set (mounts v) \<Longrightarrow> s \<in> set (mount_texts m) \<Longrightarrow> length s \<le> 1024"
  by (auto simp: mounts_def Let_def mount_texts_def in_given or_default_text dest: text_of_length [OF sym] split: if_splits)

lemma timestamp_canonical: "timestamp E v = Some s \<Longrightarrow> \<exists>instant. s = toISOString instant"
  by (auto simp: timestamp_def split: option.splits json.splits)

lemma normaliseContainerDetail_SomeD:
  assumes "normaliseContainerDetail E value = Some detail"
  obtains raw where "value = Some raw"
    "[cd_name detail, cd_image detail, cd_state detail, cd_status detail, cd_health detail] =
       map (\<lambda>(field, absent). or_default (text_of (property raw field)) absent) [(''name'', []), (''image'', []),
         (''state'', ''unknown''), (''status'', ''unknown''), (''health'', ''none'')]"
    "[cd_imageId detail, cd_restartPolicy detail] = map (\<lambda>field. text_of (property raw field)) [''imageId'', ''restartPolicy'']"
    "[cd_createdAt detail, cd_startedAt detail, cd_finishedAt detail] =
       map (\<lambda>field. timestamp E (property raw field)) [''createdAt'', ''startedAt'', ''finishedAt'']"
    "cd_labels detail = composeLabels (property raw ''labels'')"
    "cd_ports detail = ports (property raw ''ports'')"
    "cd_mounts detail = mounts (property raw ''mounts'')"
    "cd_networks detail = strings (property raw ''networks'')"
    "property raw ''dockerId'' = Some (JString (cd_dockerId detail))" "cd_dockerId detail \<noteq> []"
  using assms
  by (auto simp: normaliseContainerDetail_def split: option.splits json.splits if_splits)

section \<open>Properties\<close>

text \<open>
  C34: whatever a host sends, what is stored of it carries the Docker identifier it named, as it was
  sent, and of the rest only the four labels the product groups by, no name of a mount that is not
  a volume, no label or network longer than 256 characters, no other text (name, image, state, status,
  health, restart policy, and the texts of the ports and the mounts) longer than 1024, and no time
  that is not the canonical spelling of an instant. The identifier and the number of entries are not
  bounded.
\<close>

theorem normaliseContainerDetail_sanitised:
  assumes "normaliseContainerDetail E value = Some detail"
  shows "cd_dockerId detail \<noteq> [] \<and> Option.bind value (\<lambda>raw. property raw ''dockerId'') = Some (JString (cd_dockerId detail))
    \<and> fst ` set (cd_labels detail) \<subseteq> set FORWARDED_LABELS
    \<and> (\<forall>m \<in> set (cd_mounts detail). dm_name m \<noteq> None \<longrightarrow> dm_type m = ''volume'')
    \<and> list_all (\<lambda>s. length s \<le> 1024) (detail_texts detail)
    \<and> list_all (\<lambda>s. length s \<le> 256) (map snd (cd_labels detail) @ cd_networks detail)
    \<and> list_all (\<lambda>s. \<exists>instant. s = toISOString instant) (given [cd_createdAt detail, cd_startedAt detail, cd_finishedAt detail])"
proof -
  from assms obtain raw where sent: "value = Some raw" and
    texts: "[cd_name detail, cd_image detail, cd_state detail, cd_status detail, cd_health detail] =
       map (\<lambda>(field, absent). or_default (text_of (property raw field)) absent) [(''name'', []), (''image'', []),
         (''state'', ''unknown''), (''status'', ''unknown''), (''health'', ''none'')]"
    "[cd_imageId detail, cd_restartPolicy detail] = map (\<lambda>field. text_of (property raw field)) [''imageId'', ''restartPolicy'']" and
    times: "[cd_createdAt detail, cd_startedAt detail, cd_finishedAt detail] =
       map (\<lambda>field. timestamp E (property raw field)) [''createdAt'', ''startedAt'', ''finishedAt'']" and
    labels: "cd_labels detail = composeLabels (property raw ''labels'')" and ports: "cd_ports detail = ports (property raw ''ports'')"
    and mounts: "cd_mounts detail = mounts (property raw ''mounts'')" and
    networks: "cd_networks detail = strings (property raw ''networks'')" and
    identity: "property raw ''dockerId'' = Some (JString (cd_dockerId detail))" "cd_dockerId detail \<noteq> []"
    by (rule normaliseContainerDetail_SomeD)
  have "list_all (\<lambda>s. length s \<le> 1024) (detail_texts detail)"
    unfolding detail_texts_def texts ports mounts
    by (auto simp: list_all_iff in_given or_default_text dest: text_of_length [OF sym] port_texts_short mount_texts_short)
  moreover have "list_all (\<lambda>s. length s \<le> 256) (map snd (cd_labels detail) @ cd_networks detail)"
    by (auto simp: list_all_iff labels networks dest: composeLabels_allowed strings_length)
  moreover have "list_all (\<lambda>s. \<exists>instant. s = toISOString instant) (given [cd_createdAt detail, cd_startedAt detail, cd_finishedAt detail])"
    unfolding times by (auto simp: list_all_iff in_given dest: timestamp_canonical [OF sym])
  ultimately show ?thesis
    using sent identity by (auto simp: labels mounts dest: composeLabels_allowed mounts_names)
qed

definition demo_container :: json where
  "demo_container = JObject [(''dockerId'', JString ''d9''), (''name'', JString ''web''),
     (''state'', JString ''running''), (''startedAt'', JString ''2026-07-01T10:00:00.5+02:00''),
     (''env'', JArray [JString ''SECRET=1'']),
     (''labels'', JObject [(''secret'', JString ''x''), (''com.docker.compose.service'', JString ''web'')]),
     (''mounts'', JArray [JObject [(''type'', JString ''bind''), (''name'', JString ''/etc'')]])]"

theorem normaliseContainerDetail_sanitised_witness:
  "\<exists>detail. normaliseContainerDetail demo_env (Some demo_container) = Some detail
     \<and> fst ` set (cd_labels detail) \<subseteq> set FORWARDED_LABELS \<and> cd_startedAt detail = Some ''2026-07-01T08:00:00.500Z''"
proof -
  have "map_option cd_startedAt (normaliseContainerDetail demo_env (Some demo_container))
      = Some (Some ''2026-07-01T08:00:00.500Z'')"
    by code_simp
  then obtain detail where "normaliseContainerDetail demo_env (Some demo_container) = Some detail"
    and "cd_startedAt detail = Some ''2026-07-01T08:00:00.500Z''" by auto
  with normaliseContainerDetail_sanitised [of demo_env "Some demo_container"] show ?thesis by auto
qed

text \<open>
  A start time is stored as another spelling of the same instant, so that comparing two
  stored times is comparing the times the host reported.
\<close>

theorem timestamp_same_instant:
  assumes "timestamp E (Some (JString s)) = Some stored"
    and "Date_parse (e_legacy_date E) s = Some t"
    and "0 \<le> year_of (t div 86400000)" and "year_of (t div 86400000) \<le> 9999"
  shows "Date_parse (e_legacy_date E) stored = Some t"
  using assms iso_parse_toISOString [of t] by (simp add: timestamp_def Date_parse_def)

theorem timestamp_same_instant_witness:
  "Date_parse (e_legacy_date demo_env) ''2026-07-01T08:00:00.500Z'' = Some 1782892800500"
proof -
  have "timestamp demo_env (Some (JString ''2026-07-01T10:00:00.5+02:00'')) = Some ''2026-07-01T08:00:00.500Z''"
    "Date_parse (e_legacy_date demo_env) ''2026-07-01T10:00:00.5+02:00'' = Some 1782892800500"
    "0 \<le> year_of (1782892800500 div 86400000)" "year_of (1782892800500 div 86400000) \<le> 9999"
    by code_simp+
  then show ?thesis by (rule timestamp_same_instant)
qed

text \<open>
  A forced reading that is answered as current asked the agent of the host exactly once,
  about exactly that container, and its answer is what the agent said, rebuilt.
\<close>

theorem containerDetail_forced_asks:
  assumes "containerDetail E cid True w = (Inr result, w')" and "\<not> dr_stale result"
  shows "\<exists>row agentId rq payload. find (\<lambda>c. c_id c = cid) (containers (w_db w)) = Some row
    \<and> rq = \<lparr>rq_agentId = agentId, rq_capability = ''container.inspect'',
        rq_payload = InspectContainer (the (c_dockerId row))\<rparr>
    \<and> agentId \<in> set (w_connected w) \<and> w_sent w' = w_sent w @ [rq]
    \<and> e_answer E (w_sent w) rq = Inr payload
    \<and> dr_detail result = normaliseContainerDetail E (inspected_of payload) \<and> dr_detail result \<noteq> None"
proof -
  from assms obtain row agentId u where
    row: "find (\<lambda>c. c_id c = cid) (containers (w_db w)) = Some row" and
    agent: "detail_connectedAgent (c_hostId row) w = (Inr (Some agentId), u)" and
    rest: "bindE (tryE (refresh_container E cid True agentId row)) (\<lambda>refreshed.
        detail_answer cid row refreshed) u = (Inr result, w')"
    by (auto simp: containerDetail_def run bindE_Inr [of "detail_connectedAgent _"]
        dest: offline_stale split: option.splits if_splits)
  from rest assms(2) obtain detail seen where
    asked: "refresh_container E cid True agentId row u = (Inr (Some (detail, seen)), w')" and
    result: "dr_detail result = Some detail"
    unfolding run_try detail_answer_def
    by (auto simp: run delete_containers_def dest: offline_stale split: prod.splits sum.splits option.splits if_splits)
  from agent have "u = w" "agentId \<in> set (w_connected w)" by (auto dest: detail_connectedAgent_SomeD)
  with asked have "ask_container E cid agentId row w = (Inr (Some (detail, seen)), w')"
    by (simp add: refresh_container_forced)
  from ask_container_SomeD [OF this] row result \<open>agentId \<in> _\<close> show ?thesis by auto
qed

definition demo_detail_env :: env where
  "demo_detail_env = demo_env\<lparr>e_answer := (\<lambda>_ _. Inr (InspectAnswer (Some demo_container)))\<rparr>"

definition demo_detail_world :: world where
  "demo_detail_world = empty_world\<lparr>w_connected := [''a2''], w_db := empty_db\<lparr>
     agents := [\<lparr>a_id = ''a2'', a_hostId = ''h2'', a_version = None, a_revokedAt = None\<rparr>],
     containers := [(blank_row ''b1'' ''h2'')\<lparr>c_dockerId := Some ''d9''\<rparr>]\<rparr>\<rparr>"

theorem containerDetail_forced_asks_witness:
  "\<exists>result w'. containerDetail demo_detail_env ''b1'' True demo_detail_world = (Inr result, w')
     \<and> length (w_sent w') = 1 \<and> dr_detail result \<noteq> None"
proof -
  let ?run = "containerDetail demo_detail_env ''b1'' True demo_detail_world"
  have "\<not> isl (fst ?run)" "\<not> dr_stale (projr (fst ?run))" by code_simp+
  then obtain result w' where run: "?run = (Inr result, w')" and fresh: "\<not> dr_stale result"
    by (cases ?run; cases "fst ?run") auto
  have "w_sent demo_detail_world = []" by (simp add: demo_detail_world_def empty_world_def)
  with containerDetail_forced_asks [OF run fresh] run show ?thesis by auto
qed

end
