(* ===== verification/Stack_Common.thy ===== *)
theory Stack_Common
  imports Detail
begin

text \<open>
  What the stack services share: who asks and from where, the key of a stack in the registry,
  the refusals that come before anything is written, reading the host again, and the entries
  an attempt leaves in the audit trail. The deployment, lifecycle and delete services each
  carry a private copy of the same lines; the definitions here are those lines once, and each
  service instantiates the texts that differ.
\<close>

section \<open>Who asks\<close>

record AuthenticatedUser =
  u_id :: string
  u_email :: string

record RequestContext =
  rc_sourceIp :: "string option"
  rc_userAgent :: "string option"
  rc_requestId :: "string option"

definition stackKey :: "string \<Rightarrow> string" where
  "stackKey stackId = ''stack:'' @ stackId"

definition UNRESOLVED_DEPLOYMENT :: "string list" where
  "UNRESOLVED_DEPLOYMENT = [''pending'', ''running'', ''interrupted'']"

definition UNRESOLVED_OPERATION :: "string list" where
  "UNRESOLVED_OPERATION = [''pending'', ''running'', ''interrupted'']"

definition UNKNOWN_OUTCOME :: "string list" where
  "UNKNOWN_OUTCOME = [''AGENT_REQUEST_TIMEOUT'', ''AGENT_NOT_CONNECTED'']"

section \<open>Refusals\<close>

definition assertStackAttribution :: "string option \<Rightarrow> string \<Rightarrow> unit handler" where
  "assertStackAttribution version what = (if supportsStackAttribution version then retE ()
     else throw_app (conflict ''AGENT_UPGRADE_REQUIRED''
       (''The agent on this host is older than '' @ STACK_ATTRIBUTION_MINIMUM_AGENT_VERSION
        @ '' and does not report which stack its containers belong to, so '' @ what
        @ ''. Upgrade the agent on this host.'')))"

text \<open>The stack and its host, which must exist and not be archived.\<close>

definition find_stack :: "string \<Rightarrow> string \<Rightarrow> stack_row handler" where
  "find_stack stackId what =
    bindE (read_db (\<lambda>db. find (\<lambda>s. s_id s = stackId) (stacks db))) (\<lambda>found.
    case found of
      None \<Rightarrow> throw_app (notFound ''STACK_NOT_FOUND'' ''The stack does not exist.'')
    | Some stack \<Rightarrow>
        bindE (read_db (\<lambda>db. find (\<lambda>h. h_id h = s_hostId stack) (hosts db))) (\<lambda>host.
        case host of
          None \<Rightarrow> throw_app (notFound ''HOST_NOT_FOUND'' ''The host does not exist.'')
        | Some h \<Rightarrow> bindE (assertNotArchived h what) (\<lambda>_. retE stack)))"

definition assertNothingUnresolved :: "string \<Rightarrow> unit handler" where
  "assertNothingUnresolved stackId =
    bindE (read_db (\<lambda>db. find (\<lambda>d. d_stackId d = stackId \<and> d_status d \<in> set UNRESOLVED_DEPLOYMENT)
      (stackDeployments db))) (\<lambda>deployment.
    if deployment \<noteq> None
    then throw_app (conflict ''STACK_DEPLOYMENT_CONFLICT''
      ''An attempt to apply a revision to this stack has not been resolved yet.'')
    else bindE (read_db (\<lambda>db. find (\<lambda>d. o_stackId d = stackId \<and> o_status d \<in> set UNRESOLVED_OPERATION)
      (stackOperations db))) (\<lambda>operation.
    if operation \<noteq> None
    then throw_app (conflict ''STACK_OPERATION_CONFLICT''
      ''An operation on this stack has not been resolved yet.'')
    else retE ()))"

text \<open>The agent of the host: not revoked, recent enough, and connected.\<close>

definition connectedAgent :: "string \<Rightarrow> string \<Rightarrow> string handler" where
  "connectedAgent what hostId =
    bindE (read_db (\<lambda>db. find (\<lambda>a. a_hostId a = hostId \<and> a_revokedAt a = None) (agents db))) (\<lambda>found.
    case found of
      None \<Rightarrow> throw_app (conflict ''AGENT_REVOKED'' ''This host has no agent that may be reached.'')
    | Some agent \<Rightarrow>
        bindE (assertStackAttribution (a_version agent) what) (\<lambda>_.
        bindE (isConnected (a_id agent)) (\<lambda>up.
        if \<not> up then throw_app (conflict ''AGENT_OFFLINE''
          (''The agent is not connected, so '' @ what @ '' now.''))
        else retE (a_id agent))))"

section \<open>Reading the host again\<close>

definition resync :: "env \<Rightarrow> string \<Rightarrow> bool handler" where
  "resync E hostId =
    bindE (read_db (\<lambda>db. find (\<lambda>a. a_hostId a = hostId \<and> a_revokedAt a = None) (agents db))) (\<lambda>found.
    case found of
      None \<Rightarrow> retE False
    | Some agent \<Rightarrow> bindE (tryE (sync E (a_id agent))) (\<lambda>result.
        retE (case result of Inr s \<Rightarrow> sy_complete s | Inl e \<Rightarrow> False)))"

definition stackContainers :: "string \<Rightarrow> container_row list handler" where
  "stackContainers stackId = read_db (\<lambda>db. filter (\<lambda>c. c_stackId c = Some stackId) (containers db))"

section \<open>Records of an attempt\<close>

definition audit_stack :: "env \<Rightarrow> AuthenticatedUser \<Rightarrow> RequestContext \<Rightarrow> string \<Rightarrow> string \<Rightarrow> string \<Rightarrow> string
    \<Rightarrow> string option \<Rightarrow> unit handler" where
  "audit_stack E actor context stackId stackName action result reason = audit_record E
     \<lparr>ar_action = action, ar_result = result, ar_actorUserId = Some (u_id actor),
      ar_actorLabel = u_email actor, ar_targetType = Some ''stack'', ar_targetId = Some stackId,
      ar_targetLabel = Some stackName, ar_reasonCode = reason, ar_sourceIp = rc_sourceIp context,
      ar_userAgent = rc_userAgent context\<rparr>"

definition stack_event :: "string \<Rightarrow> string \<Rightarrow> string option \<Rightarrow> string \<Rightarrow> string \<Rightarrow> string \<Rightarrow> unit handler" where
  "stack_event hostId type severity stackId message correlation = events_record
     \<lparr>ei_hostId = Some hostId, ei_type = type, ei_severity = severity, ei_resource = ''stack:'' @ stackId,
      ei_message = message, ei_correlationId = Some correlation\<rparr>"

text \<open>The action row of an attempt: its identifier is handed out by the database.\<close>

definition running_action :: "AuthenticatedUser \<Rightarrow> string \<Rightarrow> stack_row \<Rightarrow> string \<Rightarrow> int \<Rightarrow> string \<Rightarrow> action_row" where
  "running_action actor capability stack correlation t actionId =
     \<lparr>act_id = actionId, act_actorUserId = Some (u_id actor), act_actorKind = ''user'',
      act_capability = capability, act_targetType = Some ''stack'', act_targetId = Some (s_id stack),
      act_hostId = Some (s_hostId stack), act_status = ''running'', act_requestedAt = t,
      act_startedAt = Some t, act_completedAt = None, act_errorCode = None,
      act_correlationId = correlation\<rparr>"

definition insert_running_action :: "env \<Rightarrow> AuthenticatedUser \<Rightarrow> RequestContext \<Rightarrow> string \<Rightarrow> stack_row
    \<Rightarrow> string handler" where
  "insert_running_action E actor context capability stack =
    bindE (case rc_requestId context of Some r \<Rightarrow> retE r | None \<Rightarrow> randomUUID E) (\<lambda>correlation.
    bindE now (\<lambda>t.
    bindE (randomUUID E) (\<lambda>actionId.
    bindE (insert_action (running_action actor capability stack correlation t actionId)) (\<lambda>_.
    retE actionId))))"

text \<open>\<^verbatim>\<open>if (actionId) update actions set status, completedAt, errorCode\<close>; the error code only where it is set.\<close>

definition finish_action :: "string option \<Rightarrow> string \<Rightarrow> int \<Rightarrow> string option option \<Rightarrow> unit handler" where
  "finish_action actionId status t errorCode = (if truthy actionId
     then update_action (the actionId) (\<lambda>a. a\<lparr>act_status := status, act_completedAt := Some t,
       act_errorCode := (case errorCode of None \<Rightarrow> act_errorCode a | Some c \<Rightarrow> c)\<rparr>)
     else retE ())"

definition service_details :: "(string \<times> string \<times> string option \<times> string option) list \<Rightarrow> service_detail list" where
  "service_details observed = map (\<lambda>(serviceName, containerId, dockerId, state).
      \<lparr>sd_serviceName = serviceName, sd_containerId = containerId, sd_state = when_truthy state\<rparr>)
     (filter (\<lambda>(_, _, dockerId, _). dockerId \<noteq> None) observed)"

section \<open>Open attempts\<close>

text \<open>An attempt or an operation of the stack that never resolved.\<close>

definition unresolved_on :: "string \<Rightarrow> database \<Rightarrow> bool" where
  "unresolved_on stackId db \<longleftrightarrow>
     list_ex (\<lambda>d. d_stackId d = stackId \<and> unresolved (d_status d)) (stackDeployments db) \<or>
     list_ex (\<lambda>d. o_stackId d = stackId \<and> unresolved (o_status d)) (stackOperations db)"

lemma unresolved_sets [simp]:
  "status \<in> set UNRESOLVED_DEPLOYMENT \<longleftrightarrow> unresolved status"
  "status \<in> set UNRESOLVED_OPERATION \<longleftrightarrow> unresolved status"
  by (simp_all add: UNRESOLVED_DEPLOYMENT_def UNRESOLVED_OPERATION_def unresolved_def)

lemma find_ex: "find P xs = None \<longleftrightarrow> \<not> list_ex P xs" "(\<exists>y. find P xs = Some y) \<longleftrightarrow> list_ex P xs"
  by (induction xs) auto

lemma assertNothingUnresolved_run:
  "assertNothingUnresolved stackId w = (if unresolved_on stackId (w_db w)
     then (Inl (AppErr (if list_ex (\<lambda>d. d_stackId d = stackId \<and> unresolved (d_status d)) (stackDeployments (w_db w))
         then conflict ''STACK_DEPLOYMENT_CONFLICT''
           ''An attempt to apply a revision to this stack has not been resolved yet.''
         else conflict ''STACK_OPERATION_CONFLICT'' ''An operation on this stack has not been resolved yet.'')), w)
     else (Inr (), w))"
  by (simp add: assertNothingUnresolved_def run unresolved_on_def find_ex)

section \<open>What the shared steps leave alone\<close>

lemma stable_assertStackAttribution [intro!, simp]: "stable (keeps f) (assertStackAttribution v what)"
  unfolding assertStackAttribution_def by (intro frame.stable_rules stable_throw_app)

lemma stable_find_stack [intro!, simp]: "stable (keeps f) (find_stack stackId what)"
  unfolding find_stack_def
  by (intro frame.stable_rules stable_read_db stable_throw_app stable_assertNotArchived)

lemma stable_assertNothingUnresolved [intro!, simp]: "stable (keeps f) (assertNothingUnresolved stackId)"
  unfolding assertNothingUnresolved_def by (intro frame.stable_rules stable_read_db stable_throw_app)

lemma stable_connectedAgent [intro!, simp]: "stable (keeps f) (connectedAgent what hostId)"
  unfolding connectedAgent_def
  by (intro frame.stable_rules stable_read_db stable_throw_app stable_assertStackAttribution stable_isConnected)

text \<open>The agent a host is reached over: registered for that host, not revoked, and connected.\<close>

definition reaches :: "world \<Rightarrow> string \<Rightarrow> string \<Rightarrow> bool" where
  "reaches w hostId agentId \<longleftrightarrow> agentId \<in> set (w_connected w)
     \<and> (\<exists>a \<in> set (agents (w_db w)). a_id a = agentId \<and> a_hostId a = hostId \<and> a_revokedAt a = None)"

lemma reaches_found:
  assumes "find (\<lambda>a. a_hostId a = hostId \<and> a_revokedAt a = None) (agents (w_db w)) = Some agent" and "a_id agent \<in> set (w_connected w)"
  shows "reaches w hostId (a_id agent)"
  using assms by (auto simp: reaches_def dest: find_SomeD)

lemma reaches_held [simp]: "reaches (w\<lparr>w_held := h\<rparr>) hostId agentId = reaches w hostId agentId"
  by (simp add: reaches_def)

lemma connectedAgent_Inr: "connectedAgent what hostId w = (Inr agentId, v) \<Longrightarrow> reaches w hostId agentId"
  by (auto simp: connectedAgent_def assertStackAttribution_def run db_exec intro: reaches_found split: option.splits if_splits)

lemma stable_stackContainers [intro!, simp]: "stable (keeps f) (stackContainers stackId)"
  unfolding stackContainers_def by (rule stable_read_db)

lemma stable_resync: "stable (keeps outside_discovery) (resync E hostId)"
  unfolding resync_def by (intro frame.stable_rules stable_read_db sync_outside)

text \<open>A step that reads only leaves the whole world as it was.\<close>

lemma readsD: "stable (keeps (\<lambda>w. w)) m \<Longrightarrow> m w = (r, w') \<Longrightarrow> w' = w"
  by (drule keepsD)

lemma bindE_next: "fst (m w) = Inr a \<Longrightarrow> bindE m f w = f a (snd (m w))"
  by (auto simp: bindE_def split: prod.split)

lemma bindE_read: "stable (keeps (\<lambda>w. w)) m \<Longrightarrow> fst (m w) = Inr a \<Longrightarrow> bindE m f w = f a w"
  using readsD [of m w] by (metis bindE_next prod.collapse)

lemmas reading_only = stable_find_stack stable_assertNothingUnresolved stable_connectedAgent
  stable_stackContainers stable_read_db stable_throw_app stable_assertStackAttribution

lemma run_stackContainers [run]:
  "bindE (stackContainers stackId) f w = f (filter (\<lambda>c. c_stackId c = Some stackId) (containers (w_db w))) w"
  by (simp add: stackContainers_def run)

lemma find_stack_SomeD:
  assumes "find_stack stackId what w = (Inr stack, w')"
  shows "w' = w" "s_id stack = stackId" "find (\<lambda>s. s_id s = stackId) (stacks (w_db w)) = Some stack"
proof -
  show "w' = w" by (rule readsD [OF stable_find_stack assms])
  show *: "find (\<lambda>s. s_id s = stackId) (stacks (w_db w)) = Some stack"
    using assms by (auto simp: find_stack_def run bindE_Inr [of "assertNotArchived _ _"] split: option.splits)
  show "s_id stack = stackId" using find_SomeD [OF *] by simp
qed

text \<open>Steps that only write tables keep whatever does not depend on the tables.\<close>

definition ignores_db :: "(world \<Rightarrow> 'p) \<Rightarrow> bool" where
  "ignores_db f \<longleftrightarrow> (\<forall>w db. f (w\<lparr>w_db := db\<rparr>) = f w)"

named_theorems table_steps \<open>steps that only write tables\<close>

lemma table_write [table_steps]: "ignores_db f \<Longrightarrow> stable (keeps f) (write_db g)"
  by (rule stable_write_db) (simp add: ignores_db_def)

lemma table_transaction [table_steps]: "ignores_db f \<Longrightarrow> stable (keeps f) m \<Longrightarrow> stable (keeps f) (transaction m)"
  by (erule stable_db_transaction) (simp add: ignores_db_def)

lemma table_put [table_steps]: "ignores_db f \<Longrightarrow> stable (keeps f) (put_containers g)"
  by (rule stable_put_containers) (simp add: ignores_db_def)

lemma table_inserts [table_steps]:
  "ignores_db f \<Longrightarrow> stable (keeps f) (insert_action a)" "ignores_db f \<Longrightarrow> stable (keeps f) (insert_deployment d)"
  "ignores_db f \<Longrightarrow> stable (keeps f) (insert_operation p)"
  by (simp_all add: ignores_db_def stable_insert_action stable_insert_deployment stable_insert_operation)

lemma table_updates [table_steps]:
  "ignores_db f \<Longrightarrow> stable (keeps f) (update_stack sid k)" "ignores_db f \<Longrightarrow> stable (keeps f) (update_deployment did g)"
  "ignores_db f \<Longrightarrow> stable (keeps f) (update_operation pid h)" "ignores_db f \<Longrightarrow> stable (keeps f) (update_action aid i)"
  "ignores_db f \<Longrightarrow> stable (keeps f) (delete_containers P)" "ignores_db f \<Longrightarrow> stable (keeps f) (delete_stack sid)"
  "ignores_db f \<Longrightarrow> stable (keeps f) (audit_record E entry)" "ignores_db f \<Longrightarrow> stable (keeps f) (events_record ev)"
  unfolding update_stack_def update_deployment_def update_operation_def update_action_def delete_containers_def
    delete_stack_def audit_record_def events_record_def
  by (rule table_write, assumption)+

lemma table_records [table_steps]:
  "ignores_db f \<Longrightarrow> stable (keeps f) (audit_stack E actor context sid name action result reason)"
  "ignores_db f \<Longrightarrow> stable (keeps f) (stack_event hostId type severity sid message correlation)"
  "ignores_db f \<Longrightarrow> stable (keeps f) (finish_action actionId status t errorCode)"
  unfolding audit_stack_def stack_event_def finish_action_def
  by (intro frame.stable_rules table_updates, assumption)+

text \<open>Transactions and the rows an attempt writes, run to their end.\<close>

definition finished_actions :: "string option \<Rightarrow> string \<Rightarrow> int \<Rightarrow> string option option \<Rightarrow> action_row list \<Rightarrow> action_row list" where
  "finished_actions actionId status t errorCode rows = (if truthy actionId
     then upd (\<lambda>a. act_id a = the actionId) (\<lambda>a. a\<lparr>act_status := status, act_completedAt := Some t,
       act_errorCode := (case errorCode of None \<Rightarrow> act_errorCode a | Some c \<Rightarrow> c)\<rparr>) rows
     else rows)"

lemma run_finish_action [run]:
  "finish_action actionId status t errorCode w =
     (Inr (), w\<lparr>w_db := (w_db w)\<lparr>actions := finished_actions actionId status t errorCode (actions (w_db w))\<rparr>\<rparr>)"
  "bindE (finish_action actionId status t errorCode) f w =
     f () (w\<lparr>w_db := (w_db w)\<lparr>actions := finished_actions actionId status t errorCode (actions (w_db w))\<rparr>\<rparr>)"
  by (simp_all add: finish_action_def finished_actions_def run)

lemmas [run] = audit_stack_def stack_event_def

text \<open>The correlation of a request and the number of the next identifier after it.\<close>

definition correlated :: "env \<Rightarrow> RequestContext \<Rightarrow> world \<Rightarrow> string \<times> nat" where
  "correlated E context w = (case rc_requestId context of
      Some r \<Rightarrow> (r, w_fresh w)
    | None \<Rightarrow> (e_uuid E (w_fresh w), Suc (w_fresh w)))"

lemma run_insert_running_action [run]:
  "bindE (insert_running_action E actor context capability stack) f w =
    (let (correlation, n) = correlated E context w; actionId = e_uuid E n in
     if actionId \<in> act_id ` set (actions (w_db w)) then (Inl (ConstraintErr ''actions_pkey''), w\<lparr>w_fresh := Suc n\<rparr>)
     else f actionId (w\<lparr>w_fresh := Suc n, w_db := (w_db w)\<lparr>actions := actions (w_db w) @
       [running_action actor capability stack correlation (w_clock w) actionId]\<rparr>\<rparr>))"
  by (simp add: insert_running_action_def correlated_def run running_action_def Let_def split: option.split)

section \<open>Taking handlers apart\<close>

text \<open>A step either throws, or hands its value to the rest of the handler; what it keeps is kept.\<close>

lemma bind_frame:
  assumes "stable (keeps f) m" and "bindE m k w = (r, w')"
  obtains (thrown) "f w' = f w" "isl r" | (continues) a u where "m w = (Inr a, u)" "f u = f w" "k a u = (r, w')"
proof -
  obtain r1 u where m: "m w = (r1, u)" by fastforce
  with assms(1) have u: "f u = f w" by (rule keepsD)
  show ?thesis
  proof (cases r1)
    case (Inl e)
    with m u assms(2) show ?thesis by (intro thrown) (auto simp: bindE_def)
  next
    case (Inr a)
    with m u assms(2) show ?thesis by (intro continues) (auto simp: bindE_def)
  qed
qed

lemma bind_reads:
  assumes "stable (keeps (\<lambda>w. w)) m" and "bindE m f w = (r, w')"
  obtains (thrown) "w' = w" "isl r" | (continues) a where "m w = (Inr a, w)" "f a w = (r, w')"
  using assms by (cases rule: bind_frame [consumes 2]) auto

lemma with_lock_cases:
  assumes "with_lock key operation body w = (r, w')"
  obtains (busy) "w' = w" "isl r"
    | (locked) held t released where "body (w\<lparr>w_held := held\<rparr>) = (r, t)" "w' = t\<lparr>w_held := released\<rparr>"
proof (cases "acquire key operation (w_held w)")
  case (Inl e)
  with assms show ?thesis by (intro busy) (auto simp: with_lock_def)
next
  case (Inr lu)
  obtain l held where lu: "lu = (l, held)" by (cases lu)
  obtain r1 t where body: "body (w\<lparr>w_held := held\<rparr>) = (r1, t)" by fastforce
  with assms Inr lu have "r1 = r" "w' = t\<lparr>w_held := snd (release l (w_held t))\<rparr>"
    by (auto simp: with_lock_def finallyE_def)
  with body show ?thesis by (intro locked) auto
qed

text \<open>A record that is written, and then an answer or an error.\<close>

lemma snd_bind:
  fixes m :: "unit handler"
  shows "snd (bindE m (\<lambda>_. retE a) v) = snd (m v)" "snd (bindE m (\<lambda>_. throw_app e) v) = snd (m v)"
  by (simp_all add: bindE_def retE_def throw_app_def throwE_def split: prod.split sum.split)

lemma fst_bind:
  fixes m :: "unit handler"
  shows "isl (fst (bindE m (\<lambda>_. throw_app e) v))" "fst (m v) = Inr () \<Longrightarrow> \<not> isl (fst (bindE m (\<lambda>_. retE a) v))"
  by (auto simp: bindE_def retE_def throw_app_def throwE_def split: prod.split sum.split)

lemma mapE_total:
  assumes "\<And>x w. \<exists>a v. f x w = (Inr a, v)"
  shows "\<exists>as v. mapE f xs w = (Inr as, v)"
proof (induction xs arbitrary: w)
  case (Cons x xs)
  obtain a v where "f x w = (Inr a, v)" using assms by blast
  moreover obtain as u where "mapE f xs v = (Inr as, u)" using Cons by blast
  ultimately show ?case by (simp add: bindE_def retE_def)
qed (simp add: retE_def)

lemma upd_same [simp]: "upd P (\<lambda>r. r) rows = rows"
  by (induction rows) auto

lemma upd_appended:
  assumes "x \<notin> key ` set rows" and "key row = x"
  shows "upd (\<lambda>d. key d = x) g (rows @ [row]) = rows @ [g row]"
proof -
  have "upd (\<lambda>d. key d = x) g rows = rows" using assms(1) by (intro upd_none) auto
  with assms(2) show ?thesis by simp
qed

lemma upd_upd: "(\<And>s. k (f s) = k s) \<Longrightarrow> upd (\<lambda>s. k s = x) g (upd (\<lambda>s. k s = x) f rows) = upd (\<lambda>s. k s = x) (\<lambda>s. g (f s)) rows"
  by (induction rows) auto

text \<open>What no step of settling touches.\<close>

definition calm :: "world \<Rightarrow> (string \<rightharpoonup> string) \<times> string list \<times> request list" where
  "calm w = (w_held w, w_connected w, mutations w)"

lemma calm_ignores: "ignores_db calm"
  by (simp add: ignores_db_def calm_def)

lemmas calm_rules = frame.stable_rules stable_now stable_throw_app table_steps calm_ignores

lemma resync_total: "\<exists>whole v. resync E hostId w = (Inr whole, v)"
  by (auto simp: resync_def run run_try split: option.split prod.split)

section \<open>What an attempt comes to\<close>

text \<open>
  The abstract specification that the live paths and the recovery share. Whatever was asked
  of a host, what a complete reading shows comes to one of four verdicts, and the verdict
  alone decides how the attempt and its stack are recorded.
\<close>

datatype verdict = Applied | NotApplied | Attention | Undecided

definition attempt_status :: "string option \<Rightarrow> verdict \<Rightarrow> string" where
  "attempt_status from_revision v = (case v of
      Applied \<Rightarrow> ''succeeded''
    | NotApplied \<Rightarrow> (if truthy from_revision then ''rolled_back'' else ''failed'')
    | Attention \<Rightarrow> ''needs_attention''
    | Undecided \<Rightarrow> ''interrupted'')"

definition stack_after :: "string \<Rightarrow> string option \<Rightarrow> int \<Rightarrow> verdict \<Rightarrow> stack_row \<Rightarrow> stack_row" where
  "stack_after target from_revision t v s = (case v of
      Applied \<Rightarrow> s\<lparr>s_currentRevisionId := Some target, s_desiredRevisionId := None, s_status := ''running'',
        s_lastDeployedAt := Some t\<rparr>
    | NotApplied \<Rightarrow> s\<lparr>s_status := (if truthy from_revision then ''running'' else ''not_deployed''),
        s_desiredRevisionId := None\<rparr>
    | Attention \<Rightarrow> s\<lparr>s_status := ''needs_attention'', s_desiredRevisionId := None\<rparr>
    | Undecided \<Rightarrow> s)"

definition operation_status :: "verdict \<Rightarrow> string" where
  "operation_status v = (case v of Applied \<Rightarrow> ''succeeded'' | NotApplied \<Rightarrow> ''failed''
     | Attention \<Rightarrow> ''needs_attention'' | Undecided \<Rightarrow> ''interrupted'')"

definition stack_after_operation :: "string \<Rightarrow> verdict \<Rightarrow> stack_row \<Rightarrow> stack_row" where
  "stack_after_operation moved v s = (case v of Applied \<Rightarrow> s\<lparr>s_status := moved\<rparr>
     | Attention \<Rightarrow> s\<lparr>s_status := ''needs_attention''\<rparr> | _ \<Rightarrow> s)"

definition apply_verdict :: "StackApplyOutcome \<Rightarrow> verdict" where
  "apply_verdict outcome = (case outcome of SA_finalize_target \<Rightarrow> Applied | SA_needs_attention _ \<Rightarrow> Attention
     | SA_unknown _ \<Rightarrow> Undecided | _ \<Rightarrow> NotApplied)"

definition lifecycle_verdict :: "StackLifecycleOutcome \<Rightarrow> verdict" where
  "lifecycle_verdict outcome = (case outcome of SL_applied \<Rightarrow> Applied | SL_needs_attention _ \<Rightarrow> Attention
     | SL_unknown _ \<Rightarrow> Undecided | SL_not_applied \<Rightarrow> NotApplied)"

lemma unresolved_verdicts:
  "unresolved (attempt_status f v) \<longleftrightarrow> v = Undecided" "unresolved (operation_status v) \<longleftrightarrow> v = Undecided"
  by (simp_all add: unresolved_def attempt_status_def operation_status_def split: verdict.splits)

lemma stack_after_identity [simp]:
  "s_id (stack_after target f t v s) = s_id s" "s_latestRevisionId (stack_after target f t v s) = s_latestRevisionId s"
  "s_hostId (stack_after target f t v s) = s_hostId s" "s_name (stack_after target f t v s) = s_name s"
  "v \<noteq> Applied \<Longrightarrow> s_currentRevisionId (stack_after target f t v s) = s_currentRevisionId s"
  "s_currentRevisionId (stack_after_operation m v s) = s_currentRevisionId s"
  "s_latestRevisionId (stack_after_operation m v s) = s_latestRevisionId s"
  "s_id (stack_after_operation m v s) = s_id s" "s_hostId (stack_after_operation m v s) = s_hostId s"
  by (simp_all add: stack_after_def stack_after_operation_def split: verdict.split)

text \<open>
  How the tables move when an attempt, or an operation, is settled by a verdict. Both the live
  path and the recovery after a restart implement these two relations.
\<close>

definition settles_attempt :: "string \<Rightarrow> string \<Rightarrow> string \<Rightarrow> string option \<Rightarrow> int \<Rightarrow> verdict \<Rightarrow> database \<Rightarrow> database \<Rightarrow> bool" where
  "settles_attempt did sid target from_revision t v db db' \<longleftrightarrow>
     stacks db' = upd (\<lambda>s. s_id s = sid) (stack_after target from_revision t v) (stacks db) \<and>
     (\<exists>g. stackDeployments db' = upd (\<lambda>d. d_id d = did) g (stackDeployments db) \<and>
        (\<forall>d. d_status (g d) = attempt_status from_revision v \<and> d_id (g d) = d_id d
           \<and> d_stackId (g d) = d_stackId d \<and> d_revisionId (g d) = d_revisionId d \<and> d_hostId (g d) = d_hostId d)) \<and>
     stackOperations db' = stackOperations db"

definition settles_operation :: "string \<Rightarrow> string \<Rightarrow> string \<Rightarrow> verdict \<Rightarrow> database \<Rightarrow> database \<Rightarrow> bool" where
  "settles_operation oid sid moved v db db' \<longleftrightarrow>
     stacks db' = upd (\<lambda>s. s_id s = sid) (stack_after_operation moved v) (stacks db) \<and>
     (\<exists>g. stackOperations db' = upd (\<lambda>d. o_id d = oid) g (stackOperations db) \<and>
        (\<forall>d. o_status (g d) = operation_status v \<and> o_id (g d) = o_id d
           \<and> o_stackId (g d) = o_stackId d \<and> o_type (g d) = o_type d \<and> o_hostId (g d) = o_hostId d)) \<and>
     stackDeployments db' = stackDeployments db"

end
