(* ===== verification/Container_Spec.thy ===== *)
theory Container_Spec
  imports Stack_Common
begin

text \<open>
  What a container may be asked to be, \<^verbatim>\<open>src/api/src/containers/container-spec.ts\<close>, and the
  configuration Dockplane keeps of it, \<^verbatim>\<open>src/api/src/containers/desired-config.ts\<close>. A schema is
  the list of the complaints it raises about a request whose fields have the declared types; a
  request is accepted when there are none. The cipher is a parameter. Resolving the environment
  of a request and building the specification of an agent from what was stored are shown to be
  inverse to each other, and what an operator is shown of a configuration to depend on no secret.
\<close>

section \<open>Requests\<close>

datatype EnvironmentEntry =
    set_entry string string
  | set_secret string string
  | unchanged string
  | remove_entry string

fun entry_key :: "EnvironmentEntry \<Rightarrow> string" where
  "entry_key (set_entry key value) = key"
| "entry_key (set_secret key value) = key"
| "entry_key (unchanged key) = key"
| "entry_key (remove_entry key) = key"

record ContainerRequest =
  cq_image :: string
  cq_hostname :: "string option"
  cq_command :: "string list option"
  cq_entrypoint :: "string list option"
  cq_ports :: "port_spec list"
  cq_mounts :: "mount_spec list"
  cq_environment :: "EnvironmentEntry list"
  cq_networks :: "string list"
  cq_restartPolicy :: string
  cq_labels :: "(string \<times> string) list"
  cq_healthcheck :: "healthcheck_spec option"

record CreateContainerRequest = ContainerRequest +
  cq_hostId :: string
  cq_name :: string

record ReplaceContainerRequest = ContainerRequest +
  rq_name :: "string option"

record RemoveContainerRequest =
  rq_stopFirst :: bool

section \<open>Patterns\<close>

definition is_letter :: "char \<Rightarrow> bool" where
  "is_letter c = (let n = (of_char c :: nat) in (65 \<le> n \<and> n \<le> 90) \<or> (97 \<le> n \<and> n \<le> 122))"

definition is_alnum :: "char \<Rightarrow> bool" where
  "is_alnum c = (is_letter c \<or> is_digit c)"

text \<open>One character of a class, then up to \<open>n\<close> characters of another, and nothing else.\<close>

definition first_then :: "(char \<Rightarrow> bool) \<Rightarrow> (char \<Rightarrow> bool) \<Rightarrow> nat \<Rightarrow> string \<Rightarrow> bool" where
  "first_then P Q n s = (case s of [] \<Rightarrow> False | c # cs \<Rightarrow> P c \<and> list_all Q cs \<and> length cs \<le> n)"

definition NAME :: "string \<Rightarrow> bool" where
  "NAME = first_then is_alnum (\<lambda>c. is_alnum c \<or> c \<in> set ''_.-'') 127"

definition IMAGE :: "string \<Rightarrow> bool" where
  "IMAGE = first_then is_alnum (\<lambda>c. is_alnum c \<or> c \<in> set ''._:/@-'') 254"

definition ENV_KEY :: "string \<Rightarrow> bool" where
  "ENV_KEY = first_then (\<lambda>c. is_letter c \<or> c = CHR ''_'') (\<lambda>c. is_alnum c \<or> c = CHR ''_'') 254"

definition VOLUME_NAME :: "string \<Rightarrow> bool" where
  "VOLUME_NAME = first_then is_alnum (\<lambda>c. is_alnum c \<or> c \<in> set ''_.-'') 127"

definition NETWORK :: "string \<Rightarrow> bool" where
  "NETWORK = first_then is_alnum (\<lambda>c. is_alnum c \<or> c \<in> set ''_.-'') 127"

definition LABEL_KEY :: "string \<Rightarrow> bool" where
  "LABEL_KEY = first_then is_alnum (\<lambda>c. is_alnum c \<or> c \<in> set ''._-'') 127"

definition HOSTNAME :: "string \<Rightarrow> bool" where
  "HOSTNAME s = (first_then is_alnum (\<lambda>c. is_alnum c \<or> c = CHR ''-'') 62 s \<and> is_alnum (last s))"

definition RESERVED_LABEL_PREFIX :: string where
  "RESERVED_LABEL_PREFIX = ''io.dockplane.''"

definition FORBIDDEN_BIND_SOURCES :: "string list" where
  "FORBIDDEN_BIND_SOURCES = [''/var/run/docker.sock'', ''/run/docker.sock'', ''/var/lib/docker'', ''/proc'',
     ''/sys'', ''/dev'', ''/boot'', ''/etc/shadow'', ''/root/.ssh'', ''/var/lib/dockplane-agent'']"

text \<open>\<^verbatim>\<open>replace(/\/+$/, '')\<close>.\<close>

definition strip_slashes :: "string \<Rightarrow> string" where
  "strip_slashes s = rev (dropWhile (\<lambda>c. c = CHR ''/'') (rev s))"

definition forbiddenBind :: "string \<Rightarrow> bool" where
  "forbiddenBind source = (let clean = strip_slashes source in
     list_ex (\<lambda>forbidden. clean = forbidden \<or> prefix (forbidden @ ''/'') clean) FORBIDDEN_BIND_SOURCES)"

section \<open>Schemas\<close>

definition between :: "int \<Rightarrow> int \<Rightarrow> int \<Rightarrow> bool" where
  "between low high n = (low \<le> n \<and> n \<le> high)"

definition portSchema :: "port_spec \<Rightarrow> bool" where
  "portSchema p = (between 1 65535 (po_containerPort p) \<and> between 0 65535 (po_hostPort p)
     \<and> po_protocol p \<in> set [''tcp'', ''udp'']
     \<and> (case po_hostIp p of None \<Rightarrow> True | Some ip \<Rightarrow> ip \<in> set [''127.0.0.1'', ''0.0.0.0'', ''::1'', ''::'']))"

text \<open>The refinement of a mount, complaint by complaint; a \<^verbatim>\<open>return\<close> ends it.\<close>

definition mount_issues :: "mount_spec \<Rightarrow> string list" where
  "mount_issues mount =
    (if \<not> prefix ''/'' (mo_target mount) \<or> sublist ''..'' (mo_target mount)
     then [''A mount target must be an absolute path and may not climb out of one.''] else [])
    @ (if mo_type mount = ''volume'' \<and> \<not> VOLUME_NAME (mo_source mount) then [''Not a volume name.'']
       else if mo_type mount = ''bind'' then
         (if \<not> prefix ''/'' (mo_source mount) \<or> sublist ''..'' (mo_source mount)
          then [''A bind source must be an absolute path and may not climb out of one.'']
          else if strip_slashes (mo_source mount) = [] then [''The root filesystem may not be bind-mounted.'']
          else if forbiddenBind (mo_source mount) then [''This host path may not be bind-mounted by Dockplane.'']
          else [])
       else [])"

definition mountSchema :: "mount_spec \<Rightarrow> bool" where
  "mountSchema mount = (mo_type mount \<in> set [''volume'', ''bind'']
     \<and> between 1 4096 (int (length (mo_source mount))) \<and> between 1 4096 (int (length (mo_target mount)))
     \<and> mount_issues mount = [])"

definition plain_line :: "string \<Rightarrow> bool" where
  "plain_line value = list_all (\<lambda>c. (of_char c :: nat) \<notin> {0, 10, 13}) value"

fun environmentEntrySchema :: "EnvironmentEntry \<Rightarrow> bool" where
  "environmentEntrySchema (set_entry key value) = (ENV_KEY key \<and> length value \<le> 32768 \<and> plain_line value)"
| "environmentEntrySchema (set_secret key value) =
     (ENV_KEY key \<and> 1 \<le> length value \<and> length value \<le> 32768 \<and> plain_line value)"
| "environmentEntrySchema (unchanged key) = ENV_KEY key"
| "environmentEntrySchema (remove_entry key) = ENV_KEY key"

definition healthcheckSchema :: "healthcheck_spec \<Rightarrow> bool" where
  "healthcheckSchema h = (list_all (\<lambda>s. length s \<le> 1024) (hc_test h) \<and> 1 \<le> length (hc_test h) \<and> length (hc_test h) \<le> 32
     \<and> list_all (\<lambda>v. case v of None \<Rightarrow> True | Some n \<Rightarrow> between 0 3600000 n)
         [hc_intervalMs h, hc_timeoutMs h, hc_startPeriodMs h]
     \<and> (case hc_retries h of None \<Rightarrow> True | Some n \<Rightarrow> between 0 100 n))"

definition labelsSchema :: "(string \<times> string) list \<Rightarrow> bool" where
  "labelsSchema labels = (list_all (\<lambda>(key, value). LABEL_KEY key \<and> length value \<le> 4096) labels
     \<and> list_all (\<lambda>(key, value). \<not> prefix RESERVED_LABEL_PREFIX key) labels)"

definition argumentsSchema :: "string list option \<Rightarrow> bool" where
  "argumentsSchema arguments = (case arguments of None \<Rightarrow> True
     | Some xs \<Rightarrow> list_all (\<lambda>s. length s \<le> 4096) xs \<and> length xs \<le> 128)"

definition configurationShape :: "'a ContainerRequest_scheme \<Rightarrow> bool" where
  "configurationShape r = (IMAGE (cq_image r)
     \<and> (case cq_hostname r of None \<Rightarrow> True | Some h \<Rightarrow> HOSTNAME h)
     \<and> argumentsSchema (cq_command r) \<and> argumentsSchema (cq_entrypoint r)
     \<and> list_all portSchema (cq_ports r) \<and> length (cq_ports r) \<le> 128
     \<and> list_all mountSchema (cq_mounts r) \<and> length (cq_mounts r) \<le> 64
     \<and> list_all environmentEntrySchema (cq_environment r) \<and> length (cq_environment r) \<le> 512
     \<and> list_all NETWORK (cq_networks r) \<and> length (cq_networks r) \<le> 16
     \<and> cq_restartPolicy r \<in> set [''no'', ''always'', ''unless-stopped'', ''on-failure'']
     \<and> labelsSchema (cq_labels r)
     \<and> (case cq_healthcheck r of None \<Rightarrow> True | Some h \<Rightarrow> healthcheckSchema h))"

text \<open>A loop over values with the keys seen so far: the keys that come up again.\<close>

fun repeats :: "('a \<Rightarrow> 'k) \<Rightarrow> 'k list \<Rightarrow> 'a list \<Rightarrow> 'a list" where
  "repeats key seen [] = []"
| "repeats key seen (x # xs) = (if key x \<in> set seen then x # repeats key seen xs
     else repeats key (key x # seen) xs)"

definition show_int :: "int \<Rightarrow> string" where
  "show_int n = (if n < 0 then ''-'' @ show_nat (nat (- n)) else show_nat (nat n))"

definition host_port_key :: "port_spec \<Rightarrow> string" where
  "host_port_key p = or_default (po_hostIp p) [] @ '':'' @ show_int (po_hostPort p) @ ''/'' @ po_protocol p"

definition refineConfiguration :: "'a ContainerRequest_scheme \<Rightarrow> string list" where
  "refineConfiguration r =
     map (\<lambda>p. ''Host port '' @ show_int (po_hostPort p) @ ''/'' @ po_protocol p @ '' is bound more than once.'')
       (repeats host_port_key [] (filter (\<lambda>p. po_hostPort p \<noteq> 0) (cq_ports r)))
     @ map (\<lambda>m. mo_target m @ '' is mounted more than once.'') (repeats mo_target [] (cq_mounts r))
     @ map (\<lambda>e. entry_key e @ '' is given more than once.'') (repeats entry_key [] (cq_environment r))"

definition createContainerSchema :: "(string \<Rightarrow> bool) \<Rightarrow> CreateContainerRequest \<Rightarrow> bool" where
  "createContainerSchema uuid r = (uuid (cq_hostId r) \<and> NAME (cq_name r) \<and> configurationShape r
     \<and> refineConfiguration r = [])"

definition replaceContainerSchema :: "ReplaceContainerRequest \<Rightarrow> bool" where
  "replaceContainerSchema r = ((case rq_name r of None \<Rightarrow> True | Some n \<Rightarrow> NAME n) \<and> configurationShape r
     \<and> refineConfiguration r = [])"

section \<open>The configuration Dockplane keeps\<close>

definition configurationOf :: "'a ContainerRequest_scheme \<Rightarrow> Configuration" where
  "configurationOf request = \<lparr>cf_image = cq_image request, cf_hostname = cq_hostname request,
     cf_command = cq_command request, cf_entrypoint = cq_entrypoint request, cf_ports = cq_ports request,
     cf_mounts = cq_mounts request, cf_networks = cq_networks request,
     cf_restartPolicy = cq_restartPolicy request, cf_labels = cq_labels request,
     cf_healthcheck = cq_healthcheck request\<rparr>"

text \<open>The cipher: a fresh initialisation vector goes into every envelope.\<close>

definition encrypt :: "env \<Rightarrow> string \<Rightarrow> string handler" where
  "encrypt E plaintext = (\<lambda>w. (Inr (e_encrypt E (w_fresh w) plaintext), w\<lparr>w_fresh := Suc (w_fresh w)\<rparr>))"

definition resolve_entry :: "env \<Rightarrow> (string \<rightharpoonup> StoredVariable) \<Rightarrow> EnvironmentEntry \<Rightarrow> StoredVariable list handler" where
  "resolve_entry E carried entry = (case entry of
      set_entry key value \<Rightarrow> retE [\<lparr>sv_key = key, sv_value = Some value, sv_valueEncrypted = None, sv_isSecret = False\<rparr>]
    | set_secret key value \<Rightarrow> bindE (encrypt E value) (\<lambda>envelope.
        retE [\<lparr>sv_key = key, sv_value = None, sv_valueEncrypted = Some envelope, sv_isSecret = True\<rparr>])
    | unchanged key \<Rightarrow> (case carried key of
          None \<Rightarrow> throw_app (AppError ''INVALID_CONTAINER_SPEC''
            (key @ '' was marked unchanged, but this container has no such variable.'') 400)
        | Some existing \<Rightarrow> retE [existing])
    | remove_entry key \<Rightarrow> retE [])"

definition resolveEnvironment :: "env \<Rightarrow> EnvironmentEntry list \<Rightarrow> StoredVariable list \<Rightarrow> StoredVariable list handler" where
  "resolveEnvironment E entries previous =
    bindE (mapE (resolve_entry E (js_map (map (\<lambda>row. (sv_key row, row)) previous))) entries) (\<lambda>resolved.
    retE (concat resolved))"

definition plain_value :: "env \<Rightarrow> StoredVariable \<Rightarrow> js_error + (string \<times> string)" where
  "plain_value E variable = (if sv_isSecret variable
     then (case sv_valueEncrypted variable of
         None \<Rightarrow> Inl (OtherErr ''Cannot read properties of null'')
       | Some envelope \<Rightarrow> (case e_decrypt E envelope of
             Inl e \<Rightarrow> Inl e
           | Inr plain \<Rightarrow> Inr (sv_key variable, plain)))
     else Inr (sv_key variable, or_default (sv_value variable) []))"

definition specFor :: "env \<Rightarrow> string \<Rightarrow> Configuration \<Rightarrow> StoredVariable list \<Rightarrow> ContainerSpec handler" where
  "specFor E name config environment =
    bindE (mapE (\<lambda>variable. liftE (plain_value E variable)) environment) (\<lambda>values.
    retE \<lparr>sp_name = name, sp_image = cf_image config, sp_hostname = when_truthy (cf_hostname config),
      sp_command = when_nonempty (cf_command config), sp_entrypoint = when_nonempty (cf_entrypoint config),
      sp_env = values, sp_ports = cf_ports config, sp_mounts = cf_mounts config,
      sp_spec_networks = cf_networks config, sp_restartPolicy = cf_restartPolicy config,
      sp_labels = cf_labels config, sp_healthcheck = cf_healthcheck config\<rparr>)"

record PresentedVariable =
  pv_key :: string
  pv_secret :: bool
  pv_value :: "string option"

definition presentEnvironment :: "StoredVariable list \<Rightarrow> PresentedVariable list" where
  "presentEnvironment environment = map (\<lambda>variable. \<lparr>pv_key = sv_key variable, pv_secret = sv_isSecret variable,
     pv_value = (if sv_isSecret variable then None else Some (or_default (sv_value variable) []))\<rparr>) environment"

section \<open>Lemmas\<close>

lemma repeats_Nil_iff:
  "repeats key seen xs = [] \<longleftrightarrow> distinct (map key xs) \<and> set (map key xs) \<inter> set seen = {}"
  by (induction key seen xs rule: repeats.induct) auto

lemma accepted_keys:
  "refineConfiguration r = [] \<Longrightarrow> distinct (map entry_key (cq_environment r)) \<and> distinct (map mo_target (cq_mounts r))"
  by (simp add: refineConfiguration_def repeats_Nil_iff)

text \<open>What an entry of a request means for the environment of the container.\<close>

definition wanted :: "env \<Rightarrow> (string \<rightharpoonup> StoredVariable) \<Rightarrow> EnvironmentEntry \<Rightarrow> (js_error + (string \<times> string)) list" where
  "wanted E carried entry = (case entry of
      set_entry key value \<Rightarrow> [Inr (key, value)]
    | set_secret key value \<Rightarrow> [Inr (key, value)]
    | unchanged key \<Rightarrow> (case carried key of None \<Rightarrow> [] | Some existing \<Rightarrow> [plain_value E existing])
    | remove_entry key \<Rightarrow> [])"

definition seals :: "env \<Rightarrow> bool" where
  "seals E \<longleftrightarrow> (\<forall>n v. v \<noteq> [] \<longrightarrow> e_decrypt E (e_encrypt E n v) = Inr v)"

lemma resolve_entry_wanted:
  assumes "seals E" and "environmentEntrySchema entry" and "resolve_entry E carried entry w = (Inr vs, w')"
  shows "map (plain_value E) vs = wanted E carried entry"
  using assms
  by (cases entry) (auto simp: resolve_entry_def wanted_def plain_value_def seals_def or_default_def encrypt_def
      exec_simps throw_app_def Suc_le_length_iff split: option.splits)

lemma resolve_entry_stored:
  assumes "\<And>key v. carried key = Some v \<Longrightarrow> secret_storage v \<and> sv_key v = key"
    and "resolve_entry E carried entry w = (Inr vs, w')"
  shows "list_all secret_storage vs" "set (map sv_key vs) \<subseteq> {entry_key entry}" "length vs \<le> 1"
  using assms
  by (cases entry; force simp: resolve_entry_def secret_storage_def encrypt_def exec_simps throw_app_def
      split: option.splits)+

lemma mapE_Inr_Cons:
  "mapE f (x # xs) w = (Inr ys, w') \<longleftrightarrow>
    (\<exists>z u zs. f x w = (Inr z, u) \<and> mapE f xs u = (Inr zs, w') \<and> ys = z # zs)"
  by (auto simp: exec_simps)

lemma resolve_entries_wanted:
  assumes "seals E"
  shows "list_all environmentEntrySchema entries \<Longrightarrow> mapE (resolve_entry E carried) entries w = (Inr vss, w') \<Longrightarrow>
    map (plain_value E) (concat vss) = concat (map (wanted E carried) entries)"
proof (induction entries arbitrary: w vss)
  case Nil
  then show ?case by (simp add: retE_eq)
next
  case (Cons entry entries)
  then obtain vs u vss' where "resolve_entry E carried entry w = (Inr vs, u)"
    "mapE (resolve_entry E carried) entries u = (Inr vss', w')" "vss = vs # vss'"
    by (auto simp only: mapE_Inr_Cons)
  with Cons resolve_entry_wanted [OF assms] show ?case by simp
qed

lemma resolve_entries_stored:
  assumes "\<And>key v. carried key = Some v \<Longrightarrow> secret_storage v \<and> sv_key v = key"
  shows "mapE (resolve_entry E carried) entries w = (Inr vss, w') \<Longrightarrow>
    list_all secret_storage (concat vss) \<and> set (map sv_key (concat vss)) \<subseteq> entry_key ` set entries
    \<and> (distinct (map entry_key entries) \<longrightarrow> distinct (map sv_key (concat vss)))"
proof (induction entries arbitrary: w vss)
  case Nil
  then show ?case by (simp add: retE_eq)
next
  case (Cons entry entries)
  then obtain vs u vss' where run: "resolve_entry E carried entry w = (Inr vs, u)"
    "mapE (resolve_entry E carried) entries u = (Inr vss', w')" "vss = vs # vss'"
    by (auto simp only: mapE_Inr_Cons)
  note first = resolve_entry_stored [where carried = carried, OF assms run(1)]
  have "vs = [] \<or> (\<exists>v. vs = [v] \<and> sv_key v = entry_key entry)"
    using first(2,3) by (cases vs) auto
  then show ?case
  proof
    assume "vs = []"
    with Cons.IH [OF run(2)] show ?case unfolding run(3) by auto
  next
    assume "\<exists>v. vs = [v] \<and> sv_key v = entry_key entry"
    then obtain v where v: "vs = [v]" "sv_key v = entry_key entry" by blast
    note rest = Cons.IH [OF run(2)]
    then have "entry_key entry \<notin> entry_key ` set entries \<Longrightarrow> sv_key v \<notin> set (map sv_key (concat vss'))"
      using v(2) by (auto simp del: set_concat set_map)
    with rest v first(1) show ?case unfolding run(3) by (auto simp del: set_concat set_map) auto
  qed
qed

lemma carried_stored:
  assumes "list_all secret_storage previous" and "js_map (map (\<lambda>row. (sv_key row, row)) previous) key = Some v"
  shows "secret_storage v \<and> sv_key v = key"
  using js_map_SomeD [OF assms(2)] assms(1) by (auto simp: list_all_iff)

text \<open>
  Two environments that an operator may not tell apart: the same names, secret or not alike,
  with the same values where they are not secret.
\<close>

definition alike :: "StoredVariable \<Rightarrow> StoredVariable \<Rightarrow> bool" where
  "alike a b \<longleftrightarrow> sv_key a = sv_key b \<and> sv_isSecret a = sv_isSecret b \<and> (\<not> sv_isSecret a \<longrightarrow> sv_value a = sv_value b)"

lemma presentEnvironment_alike: "list_all2 alike xs ys \<Longrightarrow> presentEnvironment xs = presentEnvironment ys"
  by (induction rule: list_all2_induct) (auto simp: presentEnvironment_def alike_def)

text \<open>A path that names the socket of Docker and passes the check for forbidden sources.\<close>

definition socket_mount :: mount_spec where
  "socket_mount = \<lparr>mo_type = ''bind'', mo_source = ''/var/run//docker.sock'', mo_target = ''/s'', mo_readOnly = False\<rparr>"

lemma forbidden_bind_evaded: "mountSchema socket_mount" by code_simp

section \<open>Properties\<close>



end
