(* ===== verification/Pending_Guard.thy ===== *)
theory Pending_Guard
  imports Container_Spec
begin

text \<open>
  What is still unfinished, \<^verbatim>\<open>src/api/src/containers/pending-guard.ts\<close>: the refusals that every
  operation on a single container asks for first. They read the tables and nothing else, so a
  restart of the process does not make them forget anything.
\<close>

definition UNFINISHABLE :: "string list" where
  "UNFINISHABLE = [''container.create'', ''container.replace'', ''container.remove'']"

definition open_action :: "action_row \<Rightarrow> bool" where
  "open_action a = (act_status a \<in> set [''queued'', ''running''])"

definition assertResolved :: "string \<Rightarrow> unit handler" where
  "assertResolved containerId =
    bindE (read_db (\<lambda>db. find (\<lambda>d. dc_containerId d = containerId \<and> dc_state d = ''pending'')
      (containerDesiredConfigs db))) (\<lambda>pending.
    if pending \<noteq> None
    then throw_app (conflict ''ACTION_CONFLICT''
      ''A configuration change on this container has not been resolved yet.'')
    else bindE (read_db (\<lambda>db. find (\<lambda>a. act_targetType a = Some ''container'' \<and> act_targetId a = Some containerId
      \<and> open_action a \<and> act_capability a \<in> set UNFINISHABLE) (actions db))) (\<lambda>running.
    if running \<noteq> None
    then throw_app (conflict ''ACTION_CONFLICT''
      ''A change to this container was started and has not been resolved yet.'')
    else retE ()))"

text \<open>The right single quotation mark of the messages, in UTF-8.\<close>

definition apostrophe :: string where
  "apostrophe = [CHR 0xE2, CHR 0x80, CHR 0x99]"

definition assertStackSettled :: "string \<Rightarrow> unit handler" where
  "assertStackSettled containerId =
    bindE (read_db (\<lambda>db. Option.bind (find (\<lambda>c. c_id c = containerId) (containers db)) c_stackId)) (\<lambda>stackId.
    if \<not> truthy stackId then retE ()
    else bindE (read_db (\<lambda>db. find (\<lambda>d. Some (d_stackId d) = stackId
        \<and> d_status d \<in> set [''pending'', ''running'', ''interrupted'']) (stackDeployments db))) (\<lambda>attempt.
    if attempt \<noteq> None
    then throw_app (conflict ''STACK_DEPLOYMENT_CONFLICT''
      (''An attempt to apply a revision to this container'' @ apostrophe @ ''s stack has not been resolved yet.''))
    else bindE (read_db (\<lambda>db. find (\<lambda>d. Some (o_stackId d) = stackId
        \<and> o_status d \<in> set [''pending'', ''running'', ''interrupted'']) (stackOperations db))) (\<lambda>operating.
    if operating \<noteq> None
    then throw_app (conflict ''STACK_OPERATION_CONFLICT''
      (''An operation on this container'' @ apostrophe @ ''s stack has not been resolved yet.''))
    else bindE (read_db (\<lambda>db. find (\<lambda>s. Some (s_id s) = stackId) (stacks db))) (\<lambda>stack.
    if map_option s_status stack = Some ''needs_attention''
    then throw_app (conflict ''STACK_NEEDS_ATTENTION''
      (''This container'' @ apostrophe @ ''s stack is neither one revision nor another. Apply a revision to it before operating its containers individually.''))
    else retE ()))))"

definition assertOperable :: "string \<Rightarrow> unit handler" where
  "assertOperable containerId =
    bindE (assertResolved containerId) (\<lambda>_.
    bindE (assertStackSettled containerId) (\<lambda>_.
    bindE (read_db (\<lambda>db. Option.bind (find (\<lambda>c. c_id c = containerId) (containers db)) c_identityConflict)) (\<lambda>conflicted.
    if conflicted \<noteq> None
    then throw_app (conflict ''CONTAINER_IDENTITY_CONFLICT''
      ''More than one container claims to be this one, so nothing may be done to it until that is resolved.'')
    else retE ())))"

definition assertNameFree :: "string \<Rightarrow> string \<Rightarrow> unit handler" where
  "assertNameFree hostId name =
    bindE (read_db (\<lambda>db. find (\<lambda>c. c_hostId c = hostId \<and> toLowerCase (c_name c) = toLowerCase name)
      (containers db))) (\<lambda>taken.
    case taken of
      None \<Rightarrow> retE ()
    | Some row \<Rightarrow> throw_app (conflict ''CONTAINER_NAME_IN_USE'' (if truthy (c_dockerId row)
        then ''A container with this name already exists on this host.''
        else ''A container with this name is already being created on this host.'')))"

section \<open>What the guard answers\<close>

text \<open>A change to the container that was written down and never settled.\<close>

definition change_open :: "string \<Rightarrow> database \<Rightarrow> bool" where
  "change_open cid db \<longleftrightarrow>
     list_ex (\<lambda>d. dc_containerId d = cid \<and> dc_state d = ''pending'') (containerDesiredConfigs db) \<or>
     list_ex (\<lambda>a. act_targetType a = Some ''container'' \<and> act_targetId a = Some cid
       \<and> open_action a \<and> act_capability a \<in> set UNFINISHABLE) (actions db)"

text \<open>The stack of the container, where it has one.\<close>

definition stack_of :: "string \<Rightarrow> database \<Rightarrow> string option" where
  "stack_of cid db = Option.bind (find (\<lambda>c. c_id c = cid) (containers db)) c_stackId"

definition stack_unsettled :: "string \<Rightarrow> database \<Rightarrow> bool" where
  "stack_unsettled sid db \<longleftrightarrow> unresolved_on sid db
     \<or> map_option s_status (find (\<lambda>s. s_id s = sid) (stacks db)) = Some ''needs_attention''"

definition may_operate :: "string \<Rightarrow> database \<Rightarrow> bool" where
  "may_operate cid db \<longleftrightarrow> \<not> change_open cid db
     \<and> \<not> (\<exists>sid. sid \<noteq> [] \<and> stack_of cid db = Some sid \<and> stack_unsettled sid db)
     \<and> Option.bind (find (\<lambda>c. c_id c = cid) (containers db)) c_identityConflict = None"

lemma stable_assertResolved [intro!, simp]: "stable (keeps f) (assertResolved cid)"
  unfolding assertResolved_def by (intro frame.stable_rules stable_read_db stable_throw_app)

lemma stable_assertStackSettled [intro!, simp]: "stable (keeps f) (assertStackSettled cid)"
  unfolding assertStackSettled_def by (intro frame.stable_rules stable_read_db stable_throw_app)

lemma stable_assertOperable [intro!, simp]: "stable (keeps f) (assertOperable cid)"
  unfolding assertOperable_def by (intro frame.stable_rules stable_read_db stable_throw_app stable_assertResolved stable_assertStackSettled)

lemma stable_assertNameFree [intro!, simp]: "stable (keeps f) (assertNameFree hostId name)"
  unfolding assertNameFree_def by (intro frame.stable_rules stable_read_db stable_throw_app)

lemma assertResolved_passes:
  "fst (assertResolved cid w) = Inr () \<longleftrightarrow> \<not> change_open cid (w_db w)"
  by (auto simp: assertResolved_def change_open_def run find_ex)

lemma fst_bind_reads:
  assumes "stable (keeps (\<lambda>w. w)) m"
  shows "fst (bindE m f w) = Inr x \<longleftrightarrow> (\<exists>a. fst (m w) = Inr a \<and> fst (f a w) = Inr x)"
proof -
  obtain r where "m w = (r, w)" using readsD [OF assms] by (metis prod.collapse)
  then show ?thesis by (cases r) (simp_all add: bindE_def)
qed

lemma assertStackSettled_passes:
  "fst (assertStackSettled cid w) = Inr () \<longleftrightarrow>
     \<not> (\<exists>sid. sid \<noteq> [] \<and> stack_of cid (w_db w) = Some sid \<and> stack_unsettled sid (w_db w))"
  by (cases "stack_of cid (w_db w)")
    (auto simp: assertStackSettled_def stack_unsettled_def unresolved_on_def unresolved_def run find_ex stack_of_def)

text \<open>The guard either lets an operation through or throws, and in both cases changes nothing.\<close>

lemma assertOperable_cases:
  obtains (free) "may_operate cid (w_db w)" "assertOperable cid w = (Inr (), w)"
    | (refused) e where "\<not> may_operate cid (w_db w)" "assertOperable cid w = (Inl (AppErr e), w)"
proof -
  obtain r where r: "assertOperable cid w = (r, w)"
    by (metis prod.collapse readsD stable_assertOperable)
  have apps: "\<And>e. r = Inl e \<Longrightarrow> \<exists>a. e = AppErr a"
    using r by (auto simp: assertOperable_def assertResolved_def assertStackSettled_def run split: if_splits)
  have "fst (assertOperable cid w) = Inr () \<longleftrightarrow> may_operate cid (w_db w)"
    unfolding assertOperable_def may_operate_def fst_bind_reads [OF stable_assertResolved]
      fst_bind_reads [OF stable_assertStackSettled]
    by (auto simp: assertResolved_passes assertStackSettled_passes run)
  with r apps show ?thesis by (cases r) (auto intro: free refused)
qed

end
