(* ===== verification/Recovery_Classify.thy ===== *)
theory Recovery_Classify
  imports Stack_Classify
begin

text \<open>
  The classifier of \<^verbatim>\<open>src/api/src/containers/recovery.ts\<close>: what a pending create, replace or
  remove of a managed container means once nobody is running it any more. It is shown to act
  (promote, discard, finalise) only on one complete reading of at most one claiming container,
  and the conditions of each action are characterised.
\<close>

section \<open>The classifier\<close>

datatype RecoveryOperation = create | replace | remove

datatype RecoveryDecision =
    promote_pending string
  | discard_pending string
  | finalize_remove
  | fail_operation string
  | identity_conflict string
  | needs_attention string
  | no_action string

record RecoveryClaim =
  rc_dockerId :: string
  rc_desiredConfigId :: "string option"

record RecoveryInput =
  ri_operation :: RecoveryOperation
  ri_currentDesiredConfigId :: "string option"
  ri_pendingDesiredConfigId :: "string option"
  ri_claims :: "RecoveryClaim list"
  ri_snapshotComplete :: bool
  ri_recoveryEligible :: bool
  ri_identityConflict :: bool

definition classifyRecovery :: "RecoveryInput \<Rightarrow> RecoveryDecision" where
  "classifyRecovery input =
    (let claims = ri_claims input; pending = ri_pendingDesiredConfigId input in
     if \<not> ri_recoveryEligible input
     then no_action ''a mutation is still running against this container''
     else if ri_identityConflict input
     then identity_conflict ''this resource is already in conflict''
     else if length claims > 1
     then identity_conflict (show_nat (length claims) @ '' containers claim this resource'')
     else if \<not> ri_snapshotComplete input
     then no_action ''the last discovery did not complete''
     else let claim = (case claims of [] \<Rightarrow> None | c # _ \<Rightarrow> Some c) in
     if (case claim of Some c \<Rightarrow> rc_desiredConfigId c = None | None \<Rightarrow> False)
     then needs_attention ''the container carries no configuration identity''
     else if (case claim of
          Some c \<Rightarrow> rc_desiredConfigId c \<noteq> ri_currentDesiredConfigId input \<and> rc_desiredConfigId c \<noteq> pending
        | None \<Rightarrow> False)
     then needs_attention ''the container claims a configuration this resource does not have''
     else if ri_operation input = remove
     then (case claim of None \<Rightarrow> finalize_remove
         | Some _ \<Rightarrow> fail_operation ''the container was not removed'')
     else if \<not> truthy pending
     then no_action ''nothing is pending''
     else (case claim of
          None \<Rightarrow> if ri_operation input = create then discard_pending (the pending)
                  else needs_attention ''the container is gone entirely''
        | Some c \<Rightarrow> if rc_desiredConfigId c = pending then promote_pending (the pending)
                  else discard_pending (the pending)))"

section \<open>What it takes to act\<close>

text \<open>Whether a decision changes the recorded configuration of the resource.\<close>

definition settles :: "RecoveryDecision \<Rightarrow> bool" where
  "settles d = (case d of promote_pending _ \<Rightarrow> True | discard_pending _ \<Rightarrow> True
     | finalize_remove \<Rightarrow> True | _ \<Rightarrow> False)"

definition settling_reading :: "RecoveryInput \<Rightarrow> bool" where
  "settling_reading input \<longleftrightarrow> ri_recoveryEligible input \<and> \<not> ri_identityConflict input
     \<and> ri_snapshotComplete input \<and> length (ri_claims input) \<le> 1"

interpretation container_reading:
  reading_classifier classifyRecovery settling_reading "\<lambda>d. \<not> settles d"
  by unfold_locales (auto simp: classifyRecovery_def settling_reading_def settles_def Let_def)

lemma claims_cases:
  assumes "length (ri_claims input) \<le> 1"
  obtains "ri_claims input = []" | c where "ri_claims input = [c]"
  using assms by (cases "ri_claims input") auto

lemma promote_readingD:
  "classifyRecovery input = promote_pending p \<Longrightarrow> settling_reading input"
  using container_reading.conclusive_complete [of input] by (simp add: settles_def)

lemma discard_readingD:
  "classifyRecovery input = discard_pending p \<Longrightarrow> settling_reading input"
  using container_reading.conclusive_complete [of input] by (simp add: settles_def)

section \<open>Properties\<close>

text \<open>
  A candidate configuration is promoted exactly when nobody is running the operation any
  more, the resource is not in conflict, the host was read completely, the operation is a
  create or a replace, and the one container that claims the resource carries the candidate.
\<close>

theorem classifyRecovery_promote_iff:
  "classifyRecovery input = promote_pending p \<longleftrightarrow>
    settling_reading input \<and> ri_operation input \<noteq> remove \<and> p \<noteq> '''' \<and>
    ri_pendingDesiredConfigId input = Some p \<and>
    (\<exists>c. ri_claims input = [c] \<and> rc_desiredConfigId c = Some p)"
  (is "?L \<longleftrightarrow> ?R")
proof
  assume L: ?L
  then have r: "settling_reading input" by (rule promote_readingD)
  then have "length (ri_claims input) \<le> 1" by (simp add: settling_reading_def)
  then show ?R
    using L r
    by (cases rule: claims_cases)
      (auto simp: classifyRecovery_def settling_reading_def Let_def truthy_iff split: if_splits)
next
  assume ?R
  then show ?L by (auto simp: classifyRecovery_def settling_reading_def Let_def)
qed

text \<open>
  A candidate is thrown away exactly when, on one such reading, either nothing was created
  (no container claims a resource being created) or the one container that claims the
  resource carries the configuration it had before; a removal is finished exactly when no
  container claims the resource any more.
\<close>

theorem classifyRecovery_discard_remove_iff:
  "(classifyRecovery input = discard_pending p \<longleftrightarrow>
    settling_reading input \<and> ri_operation input \<noteq> remove \<and> p \<noteq> '''' \<and>
    ri_pendingDesiredConfigId input = Some p \<and>
    (ri_claims input = [] \<and> ri_operation input = create \<or>
     (\<exists>c cur. ri_claims input = [c] \<and> rc_desiredConfigId c = Some cur
        \<and> ri_currentDesiredConfigId input = Some cur \<and> cur \<noteq> p))) \<and>
   (classifyRecovery input = finalize_remove \<longleftrightarrow>
    settling_reading input \<and> ri_operation input = remove \<and> ri_claims input = [])"
proof (cases "settling_reading input")
  case True
  then have "length (ri_claims input) \<le> 1" by (simp add: settling_reading_def)
  then show ?thesis
    using True
    by (cases rule: claims_cases)
      (auto simp: classifyRecovery_def settling_reading_def Let_def truthy_iff split: if_splits)
next
  case False
  then have "\<not> settles (classifyRecovery input)" by (rule container_reading.incomplete)
  with False show ?thesis by (auto simp: settles_def)
qed

end
