(* ===== verification/Example_Host.thy ===== *)
theory Example_Host
  imports Stack_Common
begin

text \<open>
  A host to try the stack services on: what an agent answers is computed from the requests it
  was sent before, so that the examples of the other theories deploy, stop, start and remove a
  stack on a host that behaves.
\<close>

definition shop_id :: string where
  "shop_id = ''5aaaaaaa-0000-4000-8000-000000000001''"

definition shop_r1 :: string where
  "shop_r1 = ''1aaaaaaa-0000-4000-8000-000000000001''"

definition shop_r2 :: string where
  "shop_r2 = ''2aaaaaaa-0000-4000-8000-000000000002''"

text \<open>The containers on the host after one more request.\<close>

definition shop_item :: "AgentStackPlan \<Rightarrow> AgentStackService \<Rightarrow> ContainerSummary" where
  "shop_item p s = \<lparr>cs_dockerId = Some (''d-'' @ ag_containerId s), cs_name = Some (ag_containerName s),
     cs_image = Some ''nginx'', cs_imageId = None, cs_state = Some ''running'', cs_status = None,
     cs_health = None, cs_createdAt = None,
     cs_labels = [(DOCKPLANE_CONTAINER_ID, ag_containerId s), (DOCKPLANE_MANAGED, ''true''),
       (DOCKPLANE_STACK_ID, ap_stackId p), (DOCKPLANE_STACK_SERVICE, ag_serviceName s),
       (DOCKPLANE_STACK_REVISION_ID, ap_revisionId p)]\<rparr>"

definition shop_step :: "ContainerSummary list \<Rightarrow> request \<Rightarrow> ContainerSummary list" where
  "shop_step rows rq = (case rq_payload rq of
      ApplyPlan p \<Rightarrow> map (shop_item p) (ap_services p)
    | LifecyclePlan _ \<Rightarrow>
        if rq_capability rq = ''stack.remove'' then []
        else map (\<lambda>c. c\<lparr>cs_state := Some (if rq_capability rq = ''stack.stop'' then ''exited'' else ''running'')\<rparr>) rows
    | _ \<Rightarrow> rows)"

definition shop_answer :: "ContainerSummary list \<Rightarrow> request list \<Rightarrow> request \<Rightarrow> js_error + answer" where
  "shop_answer initially history rq =
    (if rq_capability rq = ''host.inventory'' then Inr (InventoryAnswer no_inventory)
     else if rq_capability rq = ''host.metrics'' then Inr (MetricsAnswer JNull)
     else if rq_capability rq = ''container.list'' then Inr (ContainersAnswer (foldl shop_step initially history))
     else if rq_capability rq = ''compose.list'' then Inr (ProjectsAnswer [])
     else Inr Done)"

definition shop_env :: env where
  "shop_env = \<lparr>e_answer = shop_answer [], e_uuid = (\<lambda>n. ''id-'' @ show_nat n),
     e_compile = (\<lambda>_. Inr (Compiled shop_plan)), e_decrypt = (\<lambda>s. Inr s), e_encrypt = (\<lambda>_ s. s), e_legacy_date = (\<lambda>_. None),
     e_pg_uuid = (\<lambda>s. Some s), e_requestId = None, e_takes = (\<lambda>_. 1)\<rparr>"

definition shop_user :: AuthenticatedUser where
  "shop_user = \<lparr>u_id = ''u'', u_email = ''ops@example.org''\<rparr>"

definition shop_context :: RequestContext where
  "shop_context = \<lparr>rc_sourceIp = None, rc_userAgent = None, rc_requestId = None\<rparr>"

definition shop_revision :: "string \<Rightarrow> int \<Rightarrow> revision_row" where
  "shop_revision rid number = \<lparr>r_id = rid, r_stackId = shop_id, r_number = number,
     r_composeSourceEncrypted = ''compose'', r_summary = Some \<lparr>rs_services = [''web''],
       rs_networks = [''default''], rs_volumes = [''data''], rs_dependsOn = None\<rparr>\<rparr>"

text \<open>A stack with two revisions that was never deployed, on a connected host.\<close>

definition shop_world :: world where
  "shop_world = empty_world\<lparr>w_connected := [''a1''], w_db := empty_db\<lparr>
     hosts := [\<lparr>h_id = ''h1'', h_hostname = ''h1'', h_os = None, h_architecture = None, h_kernel = None,
       h_dockerVersion = None, h_agentVersion = None, h_metrics = None, h_metadata = None,
       h_archivedAt = None\<rparr>],
     agents := [\<lparr>a_id = ''a1'', a_hostId = ''h1'', a_version = Some ''0.3.0'', a_revokedAt = None\<rparr>],
     stacks := [\<lparr>s_id = shop_id, s_hostId = ''h1'', s_name = ''shop'', s_status = ''not_deployed'',
       s_latestRevisionId = Some shop_r1, s_currentRevisionId = None, s_desiredRevisionId = None,
       s_lastDeployedAt = None\<rparr>],
     stackRevisions := [shop_revision shop_r1 1, shop_revision shop_r2 2]\<rparr>\<rparr>"

text \<open>The row of the stack, and the world while an operation on it holds its lock.\<close>

definition shop_stack :: stack_row where
  "shop_stack = hd (stacks (w_db shop_world))"

text \<open>The same stack once its first revision runs, with an attempt for each table given.\<close>

definition shop_row :: "string \<Rightarrow> container_row" where
  "shop_row state = (blank_row ''web-1'' ''h1'')\<lparr>c_dockerId := Some ''d-web-1'', c_name := ''shop-web-1'',
     c_image := ''nginx'', c_state := state, c_stackId := Some shop_id, c_stackService := Some ''web'',
     c_stackRevisionId := Some shop_r1, c_snapshotId := Some ''old''\<rparr>"

definition shop_summary :: "string \<Rightarrow> ContainerSummary" where
  "shop_summary state = \<lparr>cs_dockerId = Some ''d-web-1'', cs_name = Some ''shop-web-1'',
     cs_image = Some ''nginx'', cs_imageId = None, cs_state = Some state, cs_status = None,
     cs_health = None, cs_createdAt = None,
     cs_labels = [(DOCKPLANE_CONTAINER_ID, ''web-1''), (DOCKPLANE_MANAGED, ''true''),
       (DOCKPLANE_STACK_ID, shop_id), (DOCKPLANE_STACK_SERVICE, ''web''),
       (DOCKPLANE_STACK_REVISION_ID, shop_r1)]\<rparr>"

definition shop_running :: "string \<Rightarrow> string \<Rightarrow> world" where
  "shop_running status state = shop_world\<lparr>w_db := (w_db shop_world)\<lparr>
     stacks := map (\<lambda>s. s\<lparr>s_status := status, s_currentRevisionId := Some shop_r1\<rparr>) (stacks (w_db shop_world)),
     containers := [shop_row state]\<rparr>\<rparr>"

text \<open>The environment in which that container is on the host from the start.\<close>

definition shop_live :: "string \<Rightarrow> env" where
  "shop_live state = shop_env\<lparr>e_answer := shop_answer [shop_summary state]\<rparr>"

lemma shop_ids: "e_uuid shop_env n \<noteq> []"
  by (simp add: shop_env_def)

end
