(* ===== verification/Example_Site.thy ===== *)
theory Example_Site
  imports Example_Host Container_Spec
begin

text \<open>
  A host to try the management of single containers on. What the agent answers is computed from
  the requests it was sent before: it creates, replaces and removes containers as it is told, and
  labels each with the resource and the configuration it was made for.
\<close>

section \<open>The host\<close>

definition site_labels :: "string \<Rightarrow> string \<Rightarrow> (string \<times> string) list" where
  "site_labels cid p = [(DOCKPLANE_CONTAINER_ID, cid), (DOCKPLANE_MANAGED, ''true''), (DOCKPLANE_DESIRED_CONFIG_ID, p)]"

definition site_item :: "string \<Rightarrow> string \<Rightarrow> ContainerSpec \<Rightarrow> ContainerSummary" where
  "site_item cid p spec = \<lparr>cs_dockerId = Some (''d-'' @ p), cs_name = Some (sp_name spec), cs_image = Some (sp_image spec),
     cs_imageId = None, cs_state = Some ''running'', cs_status = None, cs_health = None, cs_createdAt = None,
     cs_labels = site_labels cid p\<rparr>"

definition site_step :: "ContainerSummary list \<Rightarrow> request \<Rightarrow> ContainerSummary list" where
  "site_step rows rq = (case rq_payload rq of
      CreateContainer cid p spec \<Rightarrow> rows @ [site_item cid p spec]
    | ReplaceContainer dockerId cid p spec \<Rightarrow> filter (\<lambda>c. cs_dockerId c \<noteq> Some dockerId) rows @ [site_item cid p spec]
    | RemoveContainer dockerId stopFirst \<Rightarrow> filter (\<lambda>c. cs_dockerId c \<noteq> Some dockerId) rows
    | _ \<Rightarrow> rows)"

definition site_answer :: "ContainerSummary list \<Rightarrow> request list \<Rightarrow> request \<Rightarrow> js_error + answer" where
  "site_answer initially history rq =
    (if rq_capability rq = ''container.list'' then Inr (ContainersAnswer (foldl site_step initially history))
     else shop_answer [] history rq)"

definition site_uuid :: "nat \<Rightarrow> string" where
  "site_uuid n = ''00000000-0000-4000-8000-0000000000'' @ (if n < 10 then ''0'' else []) @ show_nat n"

text \<open>A cipher that marks what it sealed and opens nothing else.\<close>

definition site_open_envelope :: "string \<Rightarrow> js_error + string" where
  "site_open_envelope envelope = (case envelope of c # plain \<Rightarrow> if c = CHR ''#'' then Inr plain else Inl (OtherErr ''tampered'')
     | [] \<Rightarrow> Inl (OtherErr ''tampered''))"

definition site_env :: "ContainerSummary list \<Rightarrow> env" where
  "site_env initially = shop_env\<lparr>e_answer := site_answer initially, e_uuid := (\<lambda>n. site_uuid (n + 10)),
     e_encrypt := (\<lambda>_ plain. CHR ''#'' # plain), e_decrypt := site_open_envelope\<rparr>"

lemma site_ids: "e_uuid (site_env initially) n \<noteq> []"
  by (simp add: site_env_def site_uuid_def)

section \<open>Requests\<close>

definition site_request :: CreateContainerRequest where
  "site_request = \<lparr>cq_image = ''nginx'', cq_hostname = None, cq_command = None, cq_entrypoint = None, cq_ports = [],
     cq_mounts = [], cq_environment = [set_entry ''MODE'' ''a'', set_secret ''TOKEN'' ''s''], cq_networks = [],
     cq_restartPolicy = ''no'', cq_labels = [], cq_healthcheck = None, cq_hostId = ''h1'', cq_name = ''web''\<rparr>"

definition site_replace :: ReplaceContainerRequest where
  "site_replace = \<lparr>cq_image = ''nginx:2'', cq_hostname = None, cq_command = None, cq_entrypoint = None, cq_ports = [],
     cq_mounts = [], cq_environment = [], cq_networks = [],
     cq_restartPolicy = ''no'', cq_labels = [], cq_healthcheck = None, rq_name = None\<rparr>"

section \<open>A container that was created\<close>

definition site_cid :: string where "site_cid = site_uuid 1"

definition site_config :: string where "site_config = site_uuid 2"

definition site_row :: container_row where
  "site_row = (blank_row site_cid ''h1'')\<lparr>c_dockerId := Some (''d-'' @ site_config), c_name := ''web'', c_image := ''nginx'',
     c_state := ''running'', c_observedDesiredConfigId := Some site_config, c_snapshotId := Some ''old''\<rparr>"

definition site_summary :: ContainerSummary where
  "site_summary = \<lparr>cs_dockerId = Some (''d-'' @ site_config), cs_name = Some ''web'', cs_image = Some ''nginx'',
     cs_imageId = None, cs_state = Some ''running'', cs_status = None, cs_health = None, cs_createdAt = None,
     cs_labels = site_labels site_cid site_config\<rparr>"

definition site_current :: config_row where
  "site_current = \<lparr>dc_id = site_config, dc_containerId = site_cid, dc_state = ''current'', dc_actionId = None,
     dc_createdBy = None, dc_configuration = configurationOf site_request\<rparr>"

definition site_world :: world where
  "site_world = shop_world\<lparr>w_db := (w_db shop_world)\<lparr>containers := [site_row], containerDesiredConfigs := [site_current]\<rparr>\<rparr>"

text \<open>The same container while the given change to it, with the given candidates, is open.\<close>

definition site_action :: "string \<Rightarrow> action_row" where
  "site_action capability = \<lparr>act_id = ''act'', act_actorUserId = None, act_actorKind = ''user'',
     act_capability = capability, act_targetType = Some ''container'', act_targetId = Some site_cid,
     act_hostId = Some ''h1'', act_status = ''running'', act_requestedAt = 0, act_startedAt = Some 0,
     act_completedAt = None, act_errorCode = None, act_correlationId = ''c''\<rparr>"

definition site_candidate :: config_row where
  "site_candidate = \<lparr>dc_id = site_uuid 3, dc_containerId = site_cid, dc_state = ''pending'', dc_actionId = Some ''act'',
     dc_createdBy = None, dc_configuration = configurationOf site_replace\<rparr>"

definition site_open :: "string \<Rightarrow> config_row list \<Rightarrow> world" where
  "site_open capability pending = site_world\<lparr>w_db := (w_db site_world)\<lparr>actions := [site_action capability],
     containerDesiredConfigs := site_current # pending\<rparr>\<rparr>"

end
