(* ===== verification/Recovery_Finalizer.thy ===== *)
theory Recovery_Finalizer
  imports Pending_Guard Recovery_Classify Example_Site
begin

text \<open>
  Writing down what an interrupted change of a container turned out to mean,
  \<^verbatim>\<open>src/api/src/containers/recovery-finalizer.ts\<close>. Each decision claims the change first and is
  applied in one transaction; the row lock of the claim has no counterpart here, because a handler
  runs to its end before the next one starts. What each decision does to the tables is spelled out,
  and applying a decision a second time is shown to change nothing.
\<close>

section \<open>The operations\<close>

record RecoveryContext =
  rx_containerId :: string
  rx_containerName :: string
  rx_hostId :: string
  rx_operation :: RecoveryOperation
  rx_actionId :: "string option"
  rx_observedDockerIds :: "string list option"

record recovery_outcome =
  oc_action :: string
  oc_result :: string
  oc_reasonCode :: "string option"

definition StaleRecovery :: js_error where
  "StaleRecovery = OtherErr ''the recovery decision no longer applies''"

definition candidate :: "string \<Rightarrow> config_row \<Rightarrow> bool" where
  "candidate desiredConfigId d = (dc_id d = desiredConfigId \<and> dc_state d = ''pending'')"

definition claim :: "RecoveryContext \<Rightarrow> string option \<Rightarrow> bool handler" where
  "claim context desiredConfigId = (if truthy (rx_actionId context)
     then read_db (\<lambda>db. list_ex (\<lambda>a. Some (act_id a) = rx_actionId context \<and> open_action a) (actions db))
     else if \<not> truthy desiredConfigId then retE False
     else read_db (\<lambda>db. list_ex (\<lambda>d. candidate (the desiredConfigId) d \<and> dc_actionId d = None)
       (containerDesiredConfigs db)))"

definition finishAction :: "RecoveryContext \<Rightarrow> string \<Rightarrow> string option \<Rightarrow> unit handler" where
  "finishAction context status errorCode =
    bindE now (\<lambda>t. finish_action (rx_actionId context) status t (map_option Some errorCode))"

definition promote :: "RecoveryContext \<Rightarrow> string \<Rightarrow> recovery_outcome option handler" where
  "promote context desiredConfigId =
    bindE (claim context (Some desiredConfigId)) (\<lambda>mine.
    if \<not> mine then retE None
    else bindE (delete_configs (\<lambda>d. dc_containerId d = rx_containerId context \<and> dc_state d = ''current'')) (\<lambda>_.
    bindE (read_db (\<lambda>db. filter (candidate desiredConfigId) (containerDesiredConfigs db))) (\<lambda>promoted.
    bindE (put_configs (upd (candidate desiredConfigId) (\<lambda>d. d\<lparr>dc_state := ''current'', dc_actionId := None\<rparr>))) (\<lambda>_.
    if promoted = [] then throwE StaleRecovery
    else bindE (finishAction context ''succeeded'' None) (\<lambda>_.
    retE (Some \<lparr>oc_action = ''container.recovery.promoted'', oc_result = ''success'', oc_reasonCode = None\<rparr>))))))"

definition discard :: "RecoveryContext \<Rightarrow> string \<Rightarrow> recovery_outcome option handler" where
  "discard context desiredConfigId =
    bindE (claim context (Some desiredConfigId)) (\<lambda>mine.
    if \<not> mine then retE None
    else if rx_operation context = create
    then bindE (read_db (\<lambda>db. filter (\<lambda>c. c_id c = rx_containerId context \<and> c_dockerId c = None) (containers db))) (\<lambda>released.
      bindE (delete_containers (\<lambda>c. c_id c = rx_containerId context \<and> c_dockerId c = None)) (\<lambda>_.
      if released = [] then retE None
      else bindE (finishAction context ''failed'' (Some ''CONTAINER_CREATE_FAILED'')) (\<lambda>_.
      retE (Some \<lparr>oc_action = ''container.recovery.discarded'', oc_result = ''failure'', oc_reasonCode = None\<rparr>))))
    else bindE (read_db (\<lambda>db. filter (candidate desiredConfigId) (containerDesiredConfigs db))) (\<lambda>discarded.
      bindE (delete_configs (candidate desiredConfigId)) (\<lambda>_.
      if discarded = [] then retE None
      else bindE (finishAction context ''failed'' (Some ''REPLACEMENT_FAILED'')) (\<lambda>_.
      retE (Some \<lparr>oc_action = ''container.recovery.discarded'', oc_result = ''failure'', oc_reasonCode = None\<rparr>)))))"

definition finalizeRemove :: "RecoveryContext \<Rightarrow> recovery_outcome option handler" where
  "finalizeRemove context =
    bindE (claim context None) (\<lambda>mine.
    if \<not> mine then retE None
    else bindE (delete_containers (\<lambda>c. c_id c = rx_containerId context)) (\<lambda>_.
    bindE (finishAction context ''succeeded'' None) (\<lambda>_.
    retE (Some \<lparr>oc_action = ''container.recovery.removed'', oc_result = ''success'', oc_reasonCode = None\<rparr>))))"

definition failOperation :: "RecoveryContext \<Rightarrow> recovery_outcome option handler" where
  "failOperation context =
    bindE (claim context None) (\<lambda>mine.
    if \<not> mine then retE None
    else bindE (finishAction context ''failed'' (Some ''CONTAINER_REMOVE_FAILED'')) (\<lambda>_.
    retE (Some \<lparr>oc_action = ''container.recovery.failed'', oc_result = ''failure'', oc_reasonCode = None\<rparr>)))"

definition mark_conflict :: "RecoveryContext \<Rightarrow> recovery_outcome option handler" where
  "mark_conflict context =
    bindE (claim context None) (\<lambda>mine.
    if \<not> mine then retE None
    else bindE (write_db (\<lambda>db. db\<lparr>containers := upd (\<lambda>c. c_id c = rx_containerId context)
        (\<lambda>c. c\<lparr>c_identityConflict := Some (or_default (rx_observedDockerIds context) [])\<rparr>) (containers db)\<rparr>)) (\<lambda>_.
    bindE (finishAction context ''failed'' (Some ''CONTAINER_IDENTITY_CONFLICT'')) (\<lambda>_.
    retE (Some \<lparr>oc_action = ''container.recovery.conflicted'', oc_result = ''failure'',
      oc_reasonCode = Some ''CONTAINER_IDENTITY_CONFLICT''\<rparr>))))"

definition mark_attention :: "RecoveryContext \<Rightarrow> recovery_outcome option handler" where
  "mark_attention context =
    bindE (claim context None) (\<lambda>mine.
    if \<not> mine then retE None
    else bindE (finishAction context ''failed'' (Some ''CONTAINER_STATE_UNRESOLVED'')) (\<lambda>_.
    retE (Some \<lparr>oc_action = ''container.recovery.needs_attention'', oc_result = ''failure'',
      oc_reasonCode = Some ''CONTAINER_STATE_UNRESOLVED''\<rparr>)))"

definition apply_decision :: "RecoveryContext \<Rightarrow> RecoveryDecision \<Rightarrow> recovery_outcome option handler" where
  "apply_decision context decision = (case decision of
      promote_pending desiredConfigId \<Rightarrow> promote context desiredConfigId
    | discard_pending desiredConfigId \<Rightarrow> discard context desiredConfigId
    | finalize_remove \<Rightarrow> finalizeRemove context
    | fail_operation _ \<Rightarrow> failOperation context
    | identity_conflict _ \<Rightarrow> mark_conflict context
    | needs_attention _ \<Rightarrow> mark_attention context
    | no_action _ \<Rightarrow> retE None)"

definition is_no_action :: "RecoveryDecision \<Rightarrow> bool" where
  "is_no_action decision = (case decision of no_action _ \<Rightarrow> True | _ \<Rightarrow> False)"

definition finalize :: "env \<Rightarrow> RecoveryContext \<Rightarrow> RecoveryDecision \<Rightarrow> bool handler" where
  "finalize E context decision = (if is_no_action decision then retE False
     else bindE (tryE (transaction (apply_decision context decision))) (\<lambda>result.
     case result of
       Inl error \<Rightarrow> if error = StaleRecovery then retE False else throwE error
     | Inr None \<Rightarrow> retE False
     | Inr (Some outcome) \<Rightarrow>
         bindE (audit_record E \<lparr>ar_action = oc_action outcome, ar_result = oc_result outcome, ar_actorUserId = None,
           ar_actorLabel = ''container-recovery'', ar_targetType = Some ''container'',
           ar_targetId = Some (rx_containerId context), ar_targetLabel = Some (rx_containerName context),
           ar_reasonCode = or_null (rx_actionId context) (oc_reasonCode outcome), ar_sourceIp = None,
           ar_userAgent = None\<rparr>) (\<lambda>_. retE True)))"

section \<open>What a decision does\<close>

definition may_claim :: "RecoveryContext \<Rightarrow> string option \<Rightarrow> database \<Rightarrow> bool" where
  "may_claim context desiredConfigId db = (if truthy (rx_actionId context)
     then list_ex (\<lambda>a. Some (act_id a) = rx_actionId context \<and> open_action a) (actions db)
     else truthy desiredConfigId \<and> list_ex (\<lambda>d. candidate (the desiredConfigId) d \<and> dc_actionId d = None)
       (containerDesiredConfigs db))"

lemma run_claim [run]: "bindE (claim context cfg) f w = f (may_claim context cfg (w_db w)) w"
  by (simp add: claim_def may_claim_def run)

lemma run_finishAction [run]:
  "bindE (finishAction context status code) f w = f () (w\<lparr>w_db := (w_db w)\<lparr>actions :=
     finished_actions (rx_actionId context) status (w_clock w) (map_option Some code) (actions (w_db w))\<rparr>\<rparr>)"
  by (simp add: finishAction_def run)

text \<open>The decision on the tables of containers and configurations, and on the action.\<close>

definition settled_tables :: "RecoveryContext \<Rightarrow> RecoveryDecision \<Rightarrow> database \<Rightarrow> database" where
  "settled_tables context decision db = (case decision of
      promote_pending p \<Rightarrow>
        (let kept = drop_configs (\<lambda>d. dc_containerId d = rx_containerId context \<and> dc_state d = ''current'') db in
         kept\<lparr>containerDesiredConfigs := upd (candidate p) (\<lambda>d. d\<lparr>dc_state := ''current'', dc_actionId := None\<rparr>)
           (containerDesiredConfigs kept)\<rparr>)
    | discard_pending p \<Rightarrow> if rx_operation context = create
        then drop_containers (\<lambda>c. c_id c = rx_containerId context \<and> c_dockerId c = None) db
        else drop_configs (candidate p) db
    | finalize_remove \<Rightarrow> drop_containers (\<lambda>c. c_id c = rx_containerId context) db
    | identity_conflict _ \<Rightarrow> db\<lparr>containers := upd (\<lambda>c. c_id c = rx_containerId context)
        (\<lambda>c. c\<lparr>c_identityConflict := Some (or_default (rx_observedDockerIds context) [])\<rparr>) (containers db)\<rparr>
    | _ \<Rightarrow> db)"

definition closing :: "RecoveryContext \<Rightarrow> RecoveryDecision \<Rightarrow> string \<times> string option" where
  "closing context decision = (case decision of
      promote_pending _ \<Rightarrow> (''succeeded'', None)
    | discard_pending _ \<Rightarrow> (''failed'', Some (if rx_operation context = create then ''CONTAINER_CREATE_FAILED'' else ''REPLACEMENT_FAILED''))
    | finalize_remove \<Rightarrow> (''succeeded'', None)
    | fail_operation _ \<Rightarrow> (''failed'', Some ''CONTAINER_REMOVE_FAILED'')
    | identity_conflict _ \<Rightarrow> (''failed'', Some ''CONTAINER_IDENTITY_CONFLICT'')
    | _ \<Rightarrow> (''failed'', Some ''CONTAINER_STATE_UNRESOLVED''))"

text \<open>Whether the rows a decision is about are still there.\<close>

definition still_there :: "RecoveryContext \<Rightarrow> RecoveryDecision \<Rightarrow> database \<Rightarrow> bool" where
  "still_there context decision db = (case decision of
      promote_pending p \<Rightarrow> list_ex (\<lambda>d. candidate p d) (containerDesiredConfigs db)
    | discard_pending p \<Rightarrow> if rx_operation context = create
        then list_ex (\<lambda>c. c_id c = rx_containerId context \<and> c_dockerId c = None) (containers db)
        else list_ex (candidate p) (containerDesiredConfigs db)
    | _ \<Rightarrow> True)"

definition decided_config :: "RecoveryDecision \<Rightarrow> string option" where
  "decided_config decision = (case decision of promote_pending p \<Rightarrow> Some p | discard_pending p \<Rightarrow> Some p | _ \<Rightarrow> None)"

lemma settled_tables_simps [simp]:
  "hosts (settled_tables x d db) = hosts db" "agents (settled_tables x d db) = agents db"
  "composeProjects (settled_tables x d db) = composeProjects db" "actions (settled_tables x d db) = actions db"
  "events (settled_tables x d db) = events db" "auditEntries (settled_tables x d db) = auditEntries db"
  "stacks (settled_tables x d db) = stacks db" "stackRevisions (settled_tables x d db) = stackRevisions db"
  "stackRevisionEnvironment (settled_tables x d db) = stackRevisionEnvironment db"
  "stackDeployments (settled_tables x d db) = stackDeployments db"
  "stackOperations (settled_tables x d db) = stackOperations db"
  by (simp_all add: settled_tables_def Let_def split: RecoveryDecision.split)

lemma del_none: "(\<And>r. r \<in> set rows \<Longrightarrow> \<not> P r) \<Longrightarrow> del P rows = rows"
  by (induction rows) auto

lemma drop_none:
  "filter P (containers db) = [] \<Longrightarrow> drop_containers P db = db"
  "filter Q (containerDesiredConfigs db) = [] \<Longrightarrow> drop_configs Q db = db"
  by (simp_all add: drop_containers_def drop_configs_def Let_def del_none filter_empty_conv)

lemma filter_Nil_iff_ex: "filter P xs = [] \<longleftrightarrow> \<not> list_ex P xs"
  by (auto simp: filter_empty_conv list_ex_iff)

lemma ex_del: "list_ex P (del Q xs) \<Longrightarrow> list_ex P xs"
  by (auto simp: list_ex_iff)

lemmas decision_defs = apply_decision_def promote_def discard_def finalizeRemove_def failOperation_def mark_conflict_def
  mark_attention_def

lemma apply_decision_True:
  assumes "transaction (apply_decision context decision) w = (Inr (Some outcome), w')"
  shows "may_claim context (decided_config decision) (w_db w)"
    and "still_there context decision (w_db w)"
    and "w' = w\<lparr>w_db := (settled_tables context decision (w_db w))\<lparr>actions :=
      finished_actions (rx_actionId context) (fst (closing context decision)) (w_clock w)
        (map_option Some (snd (closing context decision))) (actions (w_db w))\<rparr>\<rparr>"
    and "decision = promote_pending p \<Longrightarrow>
      config_violation (containerDesiredConfigs (settled_tables context decision (w_db w))) = None"
  using assms unfolding transaction_Inr
  by (auto dest: ex_del simp: decision_defs run settled_tables_def closing_def still_there_def decided_config_def filter_Nil_iff_ex Let_def
      split: RecoveryDecision.splits if_splits option.splits)

lemma apply_decision_none:
  assumes "transaction (apply_decision context decision) w = (Inr None, w')"
  shows "w' = w"
  using assms unfolding transaction_Inr
  by (auto simp: decision_defs run drop_none split: RecoveryDecision.splits if_splits option.splits)

lemma apply_decision_thrown:
  assumes "transaction (apply_decision context decision) w = (Inl e, w')"
  shows "w' = w"
proof -
  from assms obtain u where u: "apply_decision context decision w = (Inl e, u)" and w': "w' = u\<lparr>w_db := w_db w\<rparr>"
    unfolding transaction_Inl by blast
  from u have "u = w\<lparr>w_db := w_db u\<rparr>"
    by (auto simp: decision_defs run split: RecoveryDecision.splits if_splits option.splits)
  with w' show ?thesis by (metis world.surjective world.update_convs(1))
qed

lemma finalize_cases:
  assumes "finalize E context decision w = (r, w')"
  obtains (finalized) entry where "r = Inr True" "\<not> is_no_action decision"
      "may_claim context (decided_config decision) (w_db w)" "still_there context decision (w_db w)"
      "w' = w\<lparr>w_db := (settled_tables context decision (w_db w))\<lparr>actions :=
        finished_actions (rx_actionId context) (fst (closing context decision)) (w_clock w)
          (map_option Some (snd (closing context decision))) (actions (w_db w)),
        auditEntries := auditEntries (w_db w) @ [entry]\<rparr>\<rparr>"
      "\<And>p. decision = promote_pending p \<Longrightarrow>
        config_violation (containerDesiredConfigs (settled_tables context decision (w_db w))) = None"
    | (untouched) "r \<noteq> Inr True" "w' = w"
proof (cases "is_no_action decision")
  case True
  with assms show ?thesis by (intro untouched) (auto simp: finalize_def run)
next
  case False
  obtain result u where result: "transaction (apply_decision context decision) w = (result, u)" by fastforce
  show ?thesis
  proof (cases result)
    case (Inl e)
    with result apply_decision_thrown have "u = w" by blast
    with assms False result Inl show ?thesis
      by (intro untouched) (auto simp: finalize_def run run_try split: if_splits)
  next
    case (Inr written)
    show ?thesis
    proof (cases written)
      case None
      with result Inr apply_decision_none have "u = w" by blast
      with assms False result Inr None show ?thesis
        by (intro untouched) (auto simp: finalize_def run run_try)
    next
      case (Some outcome)
      note applied = apply_decision_True [OF result [unfolded Inr Some]]
      with assms False result Inr Some show ?thesis
        by (intro finalized) (auto simp: finalize_def run run_try)
    qed
  qed
qed

lemma ex_del_iff: "list_ex P (del Q rows) \<longleftrightarrow> (\<exists>r \<in> set rows. \<not> Q r \<and> P r)"
  by (auto simp: list_ex_iff)

lemma ex_upd: "list_ex Q (upd P f rows) \<longleftrightarrow> (\<exists>r \<in> set rows. if P r then Q (f r) else Q r)"
  by (induction rows) auto

text \<open>Once its action is closed, a change cannot be claimed again.\<close>

lemma finished_not_open:
  assumes "truthy actionId" and "status \<notin> set [''queued'', ''running'']"
  shows "\<not> list_ex (\<lambda>a. Some (act_id a) = actionId \<and> open_action a) (finished_actions actionId status t code rows)"
  using assms by (auto simp: finished_actions_def ex_upd open_action_def truthy_iff)

lemma closing_closed: "fst (closing context decision) \<notin> set [''queued'', ''running'']"
  by (simp add: closing_def split: RecoveryDecision.split)

text \<open>Without an action it is the candidate that was claimed, and it is one no longer.\<close>

lemma settled_not_there:
  assumes "decided_config decision \<noteq> None"
  shows "\<not> still_there context decision (settled_tables context decision db)"
  using assms
  by (cases decision) (auto simp: decided_config_def still_there_def settled_tables_def ex_upd ex_del_iff Let_def candidate_def)

lemma finalize_skips:
  assumes "\<not> may_claim context (decided_config decision) (w_db w)
    \<or> (\<exists>p. decision = discard_pending p) \<and> \<not> still_there context decision (w_db w)"
  shows "finalize E context decision w = (Inr False, w)"
  using assms
  by (cases decision) (auto simp: finalize_def is_no_action_def run run_try transaction_def decision_defs
      decided_config_def still_there_def drop_none filter_Nil_iff_ex split: if_splits)

lemma still_there_others [simp]:
  "still_there x d (db\<lparr>actions := as, auditEntries := es\<rparr>) = still_there x d db"
  by (simp add: still_there_def split: RecoveryDecision.split)

lemma not_there_not_claimed:
  assumes "\<not> still_there context decision db" and "\<not> truthy (rx_actionId context)"
    and "\<nexists>p. decision = discard_pending p"
  shows "\<not> may_claim context (decided_config decision) db"
  using assms by (cases decision) (auto simp: may_claim_def still_there_def decided_config_def list_ex_iff)

section \<open>Properties\<close>

text \<open>
  C15: a change is finalised once. Whoever applies a decision and is told that it was applied has
  closed the change: applying the decision again, which a repeated recovery pass does, answers that
  nothing was applied and changes nothing.
\<close>

theorem finalize_once:
  assumes "finalize E context decision w = (Inr True, w')"
  shows "finalize E context decision w' = (Inr False, w')"
  using assms
proof (cases rule: finalize_cases)
  case (finalized entry)
  let ?db = "w_db w'"
  have "\<not> may_claim context (decided_config decision) ?db" if "truthy (rx_actionId context)"
    using that finished_not_open [OF that closing_closed] by (simp add: may_claim_def finalized(5))
  moreover have "\<not> may_claim context (decided_config decision) ?db" if "\<not> truthy (rx_actionId context)" "decided_config decision = None"
    using that by (simp add: may_claim_def)
  moreover have "\<not> still_there context decision ?db" if "decided_config decision \<noteq> None"
    using settled_not_there [OF that] by (simp add: finalized(5))
  ultimately have "\<not> may_claim context (decided_config decision) ?db
    \<or> (\<exists>p. decision = discard_pending p) \<and> \<not> still_there context decision ?db"
    using not_there_not_claimed [of "context" decision ?db] by blast
  then show ?thesis by (rule finalize_skips)
qed simp


theorem finalize_once_witness:
  "\<exists>x w'. finalize (site_env []) x (promote_pending (site_uuid 3)) (site_open ''container.replace'' [site_candidate]) = (Inr True, w')
     \<and> finalize (site_env []) x (promote_pending (site_uuid 3)) w' = (Inr False, w')"
proof -
  let ?x = "\<lparr>rx_containerId = site_cid, rx_containerName = ''web'', rx_hostId = ''h1'', rx_operation = replace,
    rx_actionId = Some ''act'', rx_observedDockerIds = None\<rparr>"
  let ?w = "site_open ''container.replace'' [site_candidate]"
  have "fst (finalize (site_env []) ?x (promote_pending (site_uuid 3)) ?w) = Inr True" by code_simp
  then obtain w' where "finalize (site_env []) ?x (promote_pending (site_uuid 3)) ?w = (Inr True, w')"
    by (metis prod.collapse)
  with finalize_once [OF this] show ?thesis by blast
qed

end
