(* ===== verification/Config_Tables.thy ===== *)
theory Config_Tables
  imports Pending_Guard
begin

text \<open>
  The tables that hang together by foreign keys: containers, their configurations, and the
  variables of a configuration. The locale \<open>container_steps\<close> collects what a step may do to them
  (change rows of containers but not their identity, add containers, drop containers with all that
  hangs off them); whatever relation these steps have, a discovery pass and a detailed reading have.
\<close>

section \<open>Steps on the containers\<close>

definition kept_tables :: "world \<Rightarrow> container_row list \<times> config_row list \<times> config_variable_row list" where
  "kept_tables w = (containers (w_db w), containerDesiredConfigs (w_db w), containerEnvironmentVariables (w_db w))"

locale container_steps = step_rel R for R :: "world \<Rightarrow> world \<Rightarrow> bool" +
  assumes elsewhere: "kept_tables w' = kept_tables w \<Longrightarrow> R w w'"
    and changed: "(\<And>c. c_id (f c) = c_id c) \<Longrightarrow>
      R w (w\<lparr>w_db := (w_db w)\<lparr>containers := upd P f (containers (w_db w))\<rparr>\<rparr>)"
    and added: "R w (w\<lparr>w_db := (w_db w)\<lparr>containers := containers (w_db w) @ rows\<rparr>\<rparr>)"
    and dropped: "R w (w\<lparr>w_db := drop_containers P (w_db w)\<rparr>)"
begin

lemma step_keeps: "stable (keeps kept_tables) m \<Longrightarrow> stable R m"
  by (erule stable_mono) (simp add: keeps_def elsewhere)

lemma step_transaction:
  assumes "stable R m"
  shows "stable R (transaction m)"
proof (rule stableI)
  fix w
  obtain r t where m: "m w = (r, t)" by fastforce
  show "R w (snd (transaction m w))"
  proof (cases r)
    case (Inl e)
    with m show ?thesis by (simp add: transaction_def elsewhere kept_tables_def)
  next
    case (Inr a)
    with m stableD [OF assms m] show ?thesis by (simp add: transaction_def)
  qed
qed

lemma step_changed:
  "(\<And>c. c_id (f c) = c_id c) \<Longrightarrow> stable R (write_db (\<lambda>db. db\<lparr>containers := upd P f (containers db)\<rparr>))"
  unfolding write_db_def by (intro stable_mod changed)

lemma step_put_upd: "(\<And>c. c_id (f c) = c_id c) \<Longrightarrow> stable R (put_containers (upd P f))"
  by (rule stableI) (simp add: put_containers_def Let_def changed step_refl split: option.split)

lemma step_put_new: "stable R (put_containers (\<lambda>rows. rows @ news))"
  by (rule stableI) (simp add: put_containers_def Let_def added step_refl split: option.split)

lemma step_delete: "stable R (delete_containers P)"
  unfolding delete_containers_def write_db_def by (intro stable_mod dropped)

lemma step_read: "stable R (read_db g)" by (rule step_keeps) (rule stable_read_db)

lemma step_now: "stable R now" by (rule step_keeps) (rule stable_now)

lemma step_throw_app: "stable R (throw_app e)" by (rule step_keeps) (rule stable_throw_app)

lemma step_connected: "stable R (isConnected a)" by (rule step_keeps) (rule stable_isConnected)

lemma step_lift: "stable R (liftE v)" by (rule step_keeps) (rule stable_liftE)

lemma step_uuid: "stable R (randomUUID E)"
  by (rule step_keeps, rule stable_randomUUID) (simp add: kept_tables_def)

lemma step_dispatch: "stable R (dispatch_request E a c p)"
  by (rule step_keeps, rule stable_dispatch) (simp add: kept_tables_def)

lemma step_event: "stable R (events_record e)"
  unfolding events_record_def by (rule step_keeps, rule stable_write_db) (simp add: kept_tables_def)

lemma step_audit: "stable R (audit_record E e)"
  unfolding audit_record_def by (rule step_keeps, rule stable_write_db) (simp add: kept_tables_def)

lemma step_other_table:
  "(\<And>w. kept_tables (w\<lparr>w_db := g (w_db w)\<rparr>) = kept_tables w) \<Longrightarrow> stable R (write_db g)"
  by (rule step_keeps) (rule stable_write_db)

lemmas steps = stable_rules step_transaction step_put_new step_delete step_read step_now step_throw_app
  step_connected step_lift step_uuid step_dispatch step_event step_audit

lemma step_emit: "stable R (emit h t s r m)"
  unfolding emit_def by (rule step_event)

lemma step_by_text: "(\<And>c. c_id (f c) = c_id c) \<Longrightarrow> stable R (update_container_by_text E t f)"
  unfolding update_container_by_text_def by (intro steps step_changed)

lemma step_mutating: "stable R (mutating c)"
  unfolding mutating_def by (rule stable_get)

lemma step_inventory: "stable R (applyInventory h i v)"
  unfolding applyInventory_def Let_def by (intro steps step_emit step_other_table) (simp_all add: kept_tables_def)

lemma step_metrics: "stable R (applyMetrics h m)"
  unfolding applyMetrics_def by (rule step_other_table) (simp add: kept_tables_def)

lemma step_keep: "stable R (keep E c snap t)"
  unfolding keep_def by (rule step_by_text) simp

lemma step_conflict: "stable R (recordIdentityConflict E c ds)"
  unfolding recordIdentityConflict_def by (rule step_by_text) simp

lemma step_insert_project: "stable R (insert_project row)"
  unfolding insert_project_def by (intro steps step_other_table) (simp add: kept_tables_def)

lemma step_projectId: "stable R (projectId E h n s t)"
  unfolding projectId_def by (intro steps step_insert_project)

lemma step_apply_container: "stable R (apply_container E h snap t p claim item)"
  unfolding apply_container_def Let_def
  by (intro steps step_emit step_projectId step_put_upd) (simp add: observed_row_def)

lemma step_apply_reported: "stable R (apply_reported E h snap t reported existing known heldBy items)"
proof (induction items arbitrary: heldBy)
  case (Cons item items)
  then show ?case
    unfolding apply_reported.simps Let_def
    by (intro steps step_mutating step_keep step_conflict step_apply_container step_emit Cons.IH)
qed (simp add: stable_ret)

lemma step_applyContainers: "stable R (applyContainers E h reported snap)"
  unfolding applyContainers_def Let_def by (intro steps step_apply_reported)

lemma step_applyProjects: "stable R (applyProjects E h ps s)"
  unfolding applyProjects_def apply_project_def Let_def
  by (intro steps step_emit step_insert_project step_other_table) (simp_all add: kept_tables_def)

lemma step_reconcile: "stable R (reconcile h snap)"
  unfolding reconcile_def by (intro steps step_emit step_other_table) (simp_all add: kept_tables_def)

lemma step_sync: "stable R (sync E agentId)"
  unfolding sync_def sync_steps_def sync_step_def recordFailure_def Let_def
  by (intro steps step_emit step_inventory step_metrics step_applyContainers step_applyProjects step_reconcile)

lemma step_resync: "stable R (resync E hostId)"
  unfolding resync_def by (intro steps step_sync)

lemma step_detail: "stable R (containerDetail E cid force)"
  unfolding containerDetail_def detail_answer_def refresh_container_def ask_container_def
    detail_connectedAgent_def offline_def
  by (intro steps step_changed) simp_all

end

section \<open>The foreign keys and the indexes\<close>

text \<open>
  Every configuration belongs to a container, which has at most one that is current and one that
  is a candidate; every variable belongs to a configuration, once per name, and keeps a secret in
  an envelope and nowhere else.
\<close>

definition linked :: "database \<Rightarrow> bool" where
  "linked db \<longleftrightarrow> distinct (map dc_id (containerDesiredConfigs db))
     \<and> distinct (map dc_containerId (filter (\<lambda>d. dc_state d = ''current'') (containerDesiredConfigs db)))
     \<and> distinct (map dc_containerId (filter (\<lambda>d. dc_state d = ''pending'') (containerDesiredConfigs db)))
     \<and> distinct (map (\<lambda>v. (cv_desiredConfigId v, sv_key (cv_variable v))) (containerEnvironmentVariables db))
     \<and> list_all (\<lambda>v. secret_storage (cv_variable v)) (containerEnvironmentVariables db)
     \<and> (\<forall>d \<in> set (containerDesiredConfigs db). dc_containerId d \<in> c_id ` set (containers db))
     \<and> (\<forall>v \<in> set (containerEnvironmentVariables db). cv_desiredConfigId v \<in> dc_id ` set (containerDesiredConfigs db))"

lemma config_violation_None:
  "config_violation rows = None \<longleftrightarrow> distinct (map dc_id rows)
     \<and> distinct (map dc_containerId (filter (\<lambda>d. dc_state d = ''current'') rows))
     \<and> distinct (map dc_containerId (filter (\<lambda>d. dc_state d = ''pending'') rows))"
  by (simp add: config_violation_def)

lemma variable_violation_None:
  "variable_violation rows = None \<longleftrightarrow> list_all (\<lambda>v. secret_storage (cv_variable v)) rows
     \<and> distinct (map (\<lambda>v. (cv_desiredConfigId v, sv_key (cv_variable v))) rows)"
  by (simp add: variable_violation_def)

lemma linked_iff:
  "linked db \<longleftrightarrow> config_violation (containerDesiredConfigs db) = None
     \<and> variable_violation (containerEnvironmentVariables db) = None
     \<and> (\<forall>d \<in> set (containerDesiredConfigs db). dc_containerId d \<in> c_id ` set (containers db))
     \<and> (\<forall>v \<in> set (containerEnvironmentVariables db). cv_desiredConfigId v \<in> dc_id ` set (containerDesiredConfigs db))"
  by (auto simp: linked_def config_violation_None variable_violation_None)

lemma distinct_map_filter_del: "distinct (map k (filter Q rows)) \<Longrightarrow> distinct (map k (filter Q (del P rows)))"
  by (induction rows) auto

lemma distinct_map_del: "distinct (map k rows) \<Longrightarrow> distinct (map k (del P rows))"
  by (induction rows) auto

lemma linked_cong:
  "containers db' = containers db \<Longrightarrow> containerDesiredConfigs db' = containerDesiredConfigs db \<Longrightarrow>
   containerEnvironmentVariables db' = containerEnvironmentVariables db \<Longrightarrow> linked db' = linked db"
  by (simp add: linked_iff)

lemma linked_containers:
  "linked db \<Longrightarrow> c_id ` set (containers db) \<subseteq> c_id ` set rows \<Longrightarrow> linked (db\<lparr>containers := rows\<rparr>)"
  unfolding linked_iff by auto

lemma violation_del:
  "config_violation rows = None \<Longrightarrow> config_violation (del P rows) = None"
  "variable_violation vars = None \<Longrightarrow> variable_violation (del Q vars) = None"
  by (auto simp: config_violation_None variable_violation_None distinct_map_del distinct_map_filter_del list_all_iff)

lemma ids_del: "x \<in> k ` set rows \<Longrightarrow> x \<notin> set (map k (filter P rows)) \<Longrightarrow> x \<in> k ` set (del P rows)"
  by (induction rows) auto

lemma linked_drop_configs: "linked db \<Longrightarrow> linked (drop_configs P db)"
  by (simp add: linked_iff drop_configs_def Let_def violation_del ids_del del: set_map)

lemma linked_drop_containers:
  assumes "linked db"
  shows "linked (drop_containers P db)"
proof -
  let ?gone = "set (map c_id (filter P (containers db)))"
  let ?db = "drop_configs (\<lambda>d. dc_containerId d \<in> ?gone) db"
  have "dc_containerId d \<in> c_id ` set (del P (containers db))" if "d \<in> set (containerDesiredConfigs ?db)" for d
    using that assms by (intro ids_del) (simp_all add: linked_iff)
  with linked_drop_configs [OF assms] show ?thesis by (simp add: drop_containers_def linked_iff)
qed

lemma ids_upd: "(\<And>c. k (f c) = k c) \<Longrightarrow> k ` set (upd P f rows) = k ` set rows"
  by (induction rows) auto

lemma linked_configs:
  assumes "linked db" and "dc_containerId ` set rows \<subseteq> dc_containerId ` set (containerDesiredConfigs db)"
    and "dc_id ` set rows = dc_id ` set (containerDesiredConfigs db)" and "config_violation rows = None"
  shows "linked (db\<lparr>containerDesiredConfigs := rows\<rparr>)"
  using assms unfolding linked_iff by auto

definition linked_rel :: "world \<Rightarrow> world \<Rightarrow> bool" where
  "linked_rel w w' \<longleftrightarrow> set (containerDesiredConfigs (w_db w')) \<subseteq> set (containerDesiredConfigs (w_db w))
     \<and> (linked (w_db w) \<longrightarrow> linked (w_db w'))"

interpretation discovering: container_steps linked_rel
proof
  fix w w' :: world
  show "kept_tables w' = kept_tables w \<Longrightarrow> linked_rel w w'"
    using linked_cong [of "w_db w'" "w_db w"] by (simp add: linked_rel_def kept_tables_def)
next
  fix f :: "container_row \<Rightarrow> container_row" and w :: world and P
  assume "\<And>c. c_id (f c) = c_id c"
  then have "c_id ` set (upd P f (containers (w_db w))) = c_id ` set (containers (w_db w))" by (rule ids_upd)
  then show "linked_rel w (w\<lparr>w_db := (w_db w)\<lparr>containers := upd P f (containers (w_db w))\<rparr>\<rparr>)"
    by (simp add: linked_rel_def linked_containers)
next
  fix w :: world and rows
  show "linked_rel w (w\<lparr>w_db := (w_db w)\<lparr>containers := containers (w_db w) @ rows\<rparr>\<rparr>)"
    by (auto simp: linked_rel_def intro!: linked_containers)
next
  fix w :: world and P
  show "linked_rel w (w\<lparr>w_db := drop_containers P (w_db w)\<rparr>)"
    by (auto simp: linked_rel_def linked_drop_containers) (auto simp: drop_containers_def Let_def)
qed (auto simp: linked_rel_def)

section \<open>The secrets\<close>

text \<open>
  A variable that is a secret is kept only as what the cipher made of some text, never as the text;
  a variable that is not a secret has no envelope, and its name and text are a pair that may be kept
  in plain text. No index of the database asks for this.
\<close>

definition sealed_variable :: "env \<Rightarrow> (string \<Rightarrow> string \<Rightarrow> bool) \<Rightarrow> StoredVariable \<Rightarrow> bool" where
  "sealed_variable E plain v \<longleftrightarrow> (if sv_isSecret v
     then sv_value v = None \<and> (\<exists>n secret. sv_valueEncrypted v = Some (e_encrypt E n secret))
     else sv_valueEncrypted v = None \<and> (\<forall>value. sv_value v = Some value \<longrightarrow> plain (sv_key v) value))"

definition sealed :: "env \<Rightarrow> (string \<Rightarrow> string \<Rightarrow> bool) \<Rightarrow> database \<Rightarrow> bool" where
  "sealed E plain db \<longleftrightarrow> (\<forall>v \<in> set (containerEnvironmentVariables db). sealed_variable E plain (cv_variable v))"

definition sealed_rel :: "env \<Rightarrow> (string \<Rightarrow> string \<Rightarrow> bool) \<Rightarrow> world \<Rightarrow> world \<Rightarrow> bool" where
  "sealed_rel E plain w w' \<longleftrightarrow> (sealed E plain (w_db w) \<longrightarrow> sealed E plain (w_db w'))"

lemma sealed_fewer:
  "set (containerEnvironmentVariables db') \<subseteq> set (containerEnvironmentVariables db) \<Longrightarrow> sealed E plain db \<Longrightarrow> sealed E plain db'"
  by (auto simp: sealed_def)

lemma variables_dropped:
  "set (containerEnvironmentVariables (drop_configs Q db)) \<subseteq> set (containerEnvironmentVariables db)"
  "set (containerEnvironmentVariables (drop_containers P db)) \<subseteq> set (containerEnvironmentVariables db)"
  by (auto simp: drop_containers_def drop_configs_def Let_def)

interpretation sealing: container_steps "sealed_rel E plain" for E plain
  by unfold_locales
    (auto simp: sealed_rel_def kept_tables_def sealed_def dest: variables_dropped [THEN subsetD])

lemma resolve_entry_sealed:
  assumes "\<And>key v. carried key = Some v \<Longrightarrow> sealed_variable E plain v"
    and "\<And>key value. entry = set_entry key value \<Longrightarrow> plain key value" and "resolve_entry E carried entry w = (Inr vs, w')"
  shows "list_all (sealed_variable E plain) vs"
  using assms
  by (cases entry) (auto simp: resolve_entry_def sealed_variable_def encrypt_def exec_simps throw_app_def split: option.splits)

lemma resolveEnvironment_sealed:
  assumes "list_all (sealed_variable E plain) previous"
    and "\<And>key value. set_entry key value \<in> set entries \<Longrightarrow> plain key value" and "resolveEnvironment E entries previous w = (Inr stored, w')"
  shows "list_all (sealed_variable E plain) stored"
proof -
  let ?carried = "js_map (map (\<lambda>row. (sv_key row, row)) previous)"
  have carried: "sealed_variable E plain v" if "?carried key = Some v" for key v
    using js_map_SomeD [OF that] assms(1) by (auto simp: list_all_iff)
  have "list_all (sealed_variable E plain) (concat vss)" if "mapE (resolve_entry E ?carried) entries w = (Inr vss, w')" for vss
    using that assms(2)
  proof (induction entries arbitrary: w vss)
    case (Cons entry entries)
    from Cons.prems(1) obtain vs u vss' where first: "resolve_entry E ?carried entry w = (Inr vs, u)"
      and "mapE (resolve_entry E ?carried) entries u = (Inr vss', w')" "vss = vs # vss'"
      by (auto simp only: mapE_Inr_Cons)
    moreover have "list_all (sealed_variable E plain) vs"
      by (rule resolve_entry_sealed [OF carried _ first]) (auto intro: Cons.prems(2))
    ultimately show ?case using Cons.IH Cons.prems(2) by simp
  qed (simp add: retE_eq)
  with assms(3) show ?thesis by (auto simp: resolveEnvironment_def exec_simps)
qed

text \<open>
  What may be in plain text after a request: what the request itself sets in plain text, and what was
  in plain text before.
\<close>

definition said_plain :: "EnvironmentEntry list \<Rightarrow> database \<Rightarrow> string \<Rightarrow> string \<Rightarrow> bool" where
  "said_plain entries db key value \<longleftrightarrow> set_entry key value \<in> set entries
     \<or> (\<exists>v \<in> set (containerEnvironmentVariables db). \<not> sv_isSecret (cv_variable v)
        \<and> sv_key (cv_variable v) = key \<and> sv_value (cv_variable v) = Some value)"

lemma sealed_said: "sealed E plain db \<Longrightarrow> sealed E (said_plain entries db) db"
  by (auto simp: sealed_def sealed_variable_def said_plain_def split: if_splits)

end
