(* ===== verification/Reconciliation.thy ===== *)
theory Reconciliation
  imports Recovery_Finalizer Config_Tables
begin

text \<open>
  Reading the host, deciding what happened and writing it down,
  \<^verbatim>\<open>src/api/src/containers/reconciliation.service.ts\<close>, and finishing what an earlier process started,
  \<^verbatim>\<open>src/api/src/containers/recovery.orchestrator.ts\<close>. Reading the host is the same routine as in the
  stack services and is \<open>resync\<close> of \<open>Stack_Common\<close>. Recovery of a host that can be read is shown to
  ask it for nothing and to close every change that is still described by its candidate; a change
  whose container is gone altogether is shown to stay open, however often recovery runs.
\<close>

section \<open>The services\<close>

record PendingOperation =
  pn_containerId :: string
  pn_containerName :: string
  pn_hostId :: string
  pn_operation :: RecoveryOperation
  pn_actionId :: "string option"

definition config_in :: "string \<Rightarrow> config_row list \<Rightarrow> string option" where
  "config_in state configs = map_option dc_id (find (\<lambda>d. dc_state d = state) configs)"

definition recovery_input :: "PendingOperation \<Rightarrow> bool \<Rightarrow> database \<Rightarrow> RecoveryInput" where
  "recovery_input operation snapshotComplete db =
    (let container = find (\<lambda>c. c_id c = pn_containerId operation) (containers db);
         configs = filter (\<lambda>d. dc_containerId d = pn_containerId operation) (containerDesiredConfigs db);
         dockerId = Option.bind container c_dockerId in
     \<lparr>ri_operation = pn_operation operation, ri_currentDesiredConfigId = config_in ''current'' configs,
      ri_pendingDesiredConfigId = config_in ''pending'' configs,
      ri_claims = (if truthy dockerId
        then [\<lparr>rc_dockerId = the dockerId, rc_desiredConfigId = c_observedDesiredConfigId (the container)\<rparr>] else []),
      ri_snapshotComplete = snapshotComplete, ri_recoveryEligible = True,
      ri_identityConflict = (Option.bind container c_identityConflict \<noteq> None)\<rparr>)"

definition classify :: "PendingOperation \<Rightarrow> bool \<Rightarrow> RecoveryDecision handler" where
  "classify operation snapshotComplete =
    read_db (\<lambda>db. classifyRecovery (recovery_input operation snapshotComplete db))"

definition claimed_ids :: "string \<Rightarrow> database \<Rightarrow> string list" where
  "claimed_ids containerId db = (case find (\<lambda>c. c_id c = containerId) (containers db) of
       None \<Rightarrow> []
     | Some row \<Rightarrow> (case c_identityConflict row of
           Some dockerIds \<Rightarrow> dockerIds
         | None \<Rightarrow> if truthy (c_dockerId row) then [the (c_dockerId row)] else []))"

definition claimedDockerIds :: "string \<Rightarrow> string list handler" where
  "claimedDockerIds containerId = read_db (claimed_ids containerId)"

definition recovery_context :: "PendingOperation \<Rightarrow> string list \<Rightarrow> RecoveryContext" where
  "recovery_context operation dockerIds = \<lparr>rx_containerId = pn_containerId operation,
     rx_containerName = pn_containerName operation, rx_hostId = pn_hostId operation,
     rx_operation = pn_operation operation, rx_actionId = pn_actionId operation,
     rx_observedDockerIds = Some dockerIds\<rparr>"

definition reconcileAndFinalize :: "env \<Rightarrow> PendingOperation \<Rightarrow> RecoveryDecision handler" where
  "reconcileAndFinalize E operation =
    bindE (resync E (pn_hostId operation)) (\<lambda>snapshotComplete.
    bindE (classify operation snapshotComplete) (\<lambda>decision.
    if is_no_action decision then retE decision
    else bindE (claimedDockerIds (pn_containerId operation)) (\<lambda>dockerIds.
    bindE (finalize E (recovery_context operation dockerIds) decision) (\<lambda>_.
    retE decision))))"

definition MANAGEMENT :: "string list" where
  "MANAGEMENT = [''container.create'', ''container.replace'', ''container.remove'']"

text \<open>\<^verbatim>\<open>capability.replace('container.', '')\<close> on the three capabilities of \<open>MANAGEMENT\<close>.\<close>

definition recovery_operation :: "string \<Rightarrow> RecoveryOperation" where
  "recovery_operation capability = (if capability = ''container.create'' then create
     else if capability = ''container.replace'' then replace else remove)"

definition open_change :: "string \<Rightarrow> action_row \<Rightarrow> bool" where
  "open_change hostId a = (act_hostId a = Some hostId \<and> act_targetType a = Some ''container'' \<and> open_action a
     \<and> act_capability a \<in> set MANAGEMENT)"

definition pending_of :: "string \<Rightarrow> database \<Rightarrow> action_row \<Rightarrow> PendingOperation" where
  "pending_of hostId db a = \<lparr>pn_containerId = the (act_targetId a),
     pn_containerName = or_default (map_option c_name
       (find (\<lambda>c. Some (c_id c) = act_targetId a) (containers db))) ''a removed container'',
     pn_hostId = hostId, pn_operation = recovery_operation (act_capability a), pn_actionId = Some (act_id a)\<rparr>"

definition unresolved_changes :: "string \<Rightarrow> PendingOperation list handler" where
  "unresolved_changes hostId = read_db (\<lambda>db.
     map (pending_of hostId db) (filter (\<lambda>a. truthy (act_targetId a)) (filter (open_change hostId) (actions db))))"

fun recover_changes :: "env \<Rightarrow> PendingOperation list \<Rightarrow> nat \<Rightarrow> nat handler" where
  "recover_changes E [] recovered = retE recovered"
| "recover_changes E (operation # operations) recovered =
    bindE (getE (\<lambda>w. isBusy (pn_containerId operation) (w_held w))) (\<lambda>busy.
    if busy then recover_changes E operations recovered
    else bindE (reconcileAndFinalize E operation) (\<lambda>decision.
      recover_changes E operations (if is_no_action decision then recovered else recovered + 1)))"

definition recoverContainers :: "env \<Rightarrow> string \<Rightarrow> nat handler" where
  "recoverContainers E hostId = bindE (unresolved_changes hostId) (\<lambda>unfinished. recover_changes E unfinished 0)"

section \<open>Recovery asks for nothing\<close>

lemma resync_calm: "stable (keeps calm) (resync E hostId)"
  by (rule stable_mono [OF stable_resync]) (auto simp: keeps_def calm_def outside_discovery_def)

lemma finalize_calm: "stable (keeps calm) (finalize E x decision)"
proof (rule stableI)
  fix w
  obtain r w' where fin: "finalize E x decision w = (r, w')" by fastforce
  then show "keeps calm w (snd (finalize E x decision w))"
    by (cases rule: finalize_cases) (simp_all add: keeps_def calm_def fin)
qed

lemma reconcile_calm: "stable (keeps calm) (reconcileAndFinalize E operation)"
  unfolding reconcileAndFinalize_def classify_def claimedDockerIds_def
  by (intro frame.stable_rules resync_calm stable_read_db finalize_calm)

lemma recover_changes_calm: "stable (keeps calm) (recover_changes E operations n)"
  by (induction operations arbitrary: n) (auto intro!: frame.stable_rules reconcile_calm)

lemma recoverContainers_calm: "stable (keeps calm) (recoverContainers E hostId)"
  unfolding recoverContainers_def unresolved_changes_def
  by (intro frame.stable_rules recover_changes_calm stable_read_db)

section \<open>What the tables keep\<close>

lemma promote_no_violation:
  assumes "config_violation rows = None" and d: "d \<in> set rows" "candidate p d" "dc_containerId d = cid"
  shows "config_violation (upd (candidate p) (\<lambda>d. d\<lparr>dc_state := ''current'', dc_actionId := None\<rparr>)
    (del (\<lambda>d. dc_containerId d = cid \<and> dc_state d = ''current'') rows)) = None"
proof -
  let ?kept = "del (\<lambda>d. dc_containerId d = cid \<and> dc_state d = ''current'') rows"
  let ?new = "\<lambda>d. d\<lparr>dc_state := ''current'', dc_actionId := None\<rparr>"
  let ?rows = "upd (candidate p) ?new ?kept"
  have kept: "config_violation ?kept = None" by (rule violation_del(1) [OF assms(1)])
  have ids: "map dc_id ?rows = map dc_id ?kept" by (rule map_upd_same) simp
  have "distinct (map dc_id ?rows)" using kept by (simp add: ids config_violation_None)
  moreover have "filter (\<lambda>d. dc_state d = ''pending'') ?rows
      = filter (\<lambda>d. dc_state d = ''pending'') (del (candidate p) ?kept)"
    by (induction rows) (auto simp: candidate_def)
  then have "distinct (map dc_containerId (filter (\<lambda>d. dc_state d = ''pending'') ?rows))"
    using kept by (simp add: config_violation_None distinct_map_filter_del)
  moreover have "distinct (map dc_containerId (filter (\<lambda>d. dc_state d = ''current'') ?rows))"
  proof -
    have one: "d' = d" if "d' \<in> set ?kept" "candidate p d'" for d'
      using that d(1,2) assms(1) by (auto simp: config_violation_None candidate_def distinct_map dest: inj_onD)
    have split: "x = ?new d \<or> (x \<in> set ?kept \<and> dc_state x = ''current'' \<and> dc_containerId x \<noteq> cid)"
      if "x \<in> set ?rows" "dc_state x = ''current''" for x
      using that one by (auto simp: in_upd_iff candidate_def split: if_splits)
    let ?others = "{x \<in> set ?kept. dc_state x = ''current'' \<and> dc_containerId x \<noteq> cid}"
    have "inj_on dc_containerId {x \<in> set ?kept. dc_state x = ''current''}"
      using kept by (simp add: config_violation_None distinct_map)
    then have "inj_on dc_containerId ?others" by (rule inj_on_subset) blast
    then have "inj_on dc_containerId (insert (?new d) ?others)" using d(3) by auto
    then have "inj_on dc_containerId {x \<in> set ?rows. dc_state x = ''current''}"
      by (rule inj_on_subset) (use split in blast)
    moreover have "distinct ?rows" using \<open>distinct (map dc_id ?rows)\<close> by (simp add: distinct_map)
    ultimately show ?thesis by (simp add: distinct_map)
  qed
  ultimately show ?thesis by (simp add: config_violation_None)
qed

lemma settled_linked:
  assumes "linked db" and "\<And>p. decision = promote_pending p \<Longrightarrow>
    config_violation (containerDesiredConfigs (settled_tables x decision db)) = None"
  shows "linked (settled_tables x decision db)"
proof (cases decision)
  case (promote_pending p)
  let ?P = "\<lambda>d. dc_containerId d = rx_containerId x \<and> dc_state d = ''current''"
  have "linked (drop_configs ?P db)" by (rule linked_drop_configs [OF assms(1)])
  from linked_configs [OF this] assms(2) [OF promote_pending] show ?thesis
    by (simp add: settled_tables_def Let_def promote_pending ids_upd)
next
  case (discard_pending p)
  with assms(1) show ?thesis by (simp add: settled_tables_def linked_drop_containers linked_drop_configs)
next
  case finalize_remove
  with assms(1) show ?thesis by (simp add: settled_tables_def linked_drop_containers)
next
  case (identity_conflict reason)
  with assms(1) show ?thesis by (simp add: settled_tables_def linked_containers ids_upd)
qed (use assms(1) in \<open>simp_all add: settled_tables_def\<close>)

lemma finalize_linked:
  assumes "finalize E x decision w = (r, w')" and "linked (w_db w)"
  shows "linked (w_db w')"
  using assms(1)
proof (cases rule: finalize_cases)
  case (finalized entry)
  have "linked (settled_tables x decision (w_db w))"
    by (rule settled_linked [OF assms(2)]) (rule finalized(6))
  then show ?thesis by (simp add: finalized(5) linked_iff)
qed (simp add: assms(2))

text \<open>The candidate a decision names is one of the container it was made about.\<close>

definition names_candidate :: "string \<Rightarrow> RecoveryDecision \<Rightarrow> database \<Rightarrow> bool" where
  "names_candidate cid decision db \<longleftrightarrow> (case decided_config decision of None \<Rightarrow> True
     | Some p \<Rightarrow> \<exists>d \<in> set (containerDesiredConfigs db). candidate p d \<and> dc_containerId d = cid)"

lemma config_in_SomeD:
  "config_in state configs = Some p \<Longrightarrow> \<exists>d \<in> set configs. dc_id d = p \<and> dc_state d = state"
  by (auto simp: config_in_def dest!: find_SomeD)

lemma pending_decided:
  "decided_config (classifyRecovery input) = Some p \<Longrightarrow> ri_pendingDesiredConfigId input = Some p"
  by (auto simp: classifyRecovery_def decided_config_def Let_def truthy_iff split: if_splits option.splits list.splits)

lemma recovery_input_simps [simp]:
  "ri_pendingDesiredConfigId (recovery_input operation whole db) = config_in ''pending''
     (filter (\<lambda>d. dc_containerId d = pn_containerId operation) (containerDesiredConfigs db))"
  "ri_operation (recovery_input operation whole db) = pn_operation operation"
  "ri_snapshotComplete (recovery_input operation whole db) = whole"
  "ri_recoveryEligible (recovery_input operation whole db)"
  by (simp_all add: recovery_input_def Let_def)

lemma classified_names:
  "names_candidate (pn_containerId operation) (classifyRecovery (recovery_input operation whole db)) db"
proof (cases "decided_config (classifyRecovery (recovery_input operation whole db))")
  case (Some p)
  from pending_decided [OF Some] show ?thesis
    by (auto simp: names_candidate_def Some candidate_def dest!: config_in_SomeD)
qed (simp add: names_candidate_def)

lemma finalize_result:
  assumes "linked (w_db w)" and "names_candidate (rx_containerId x) decision (w_db w)" and "\<not> is_no_action decision"
  shows "fst (finalize E x decision w) =
    Inr (may_claim x (decided_config decision) (w_db w) \<and> still_there x decision (w_db w))"
proof (cases "\<exists>p. decision = promote_pending p")
  case True
  then obtain p where p: "decision = promote_pending p" ..
  with assms(2) obtain d where d: "d \<in> set (containerDesiredConfigs (w_db w))" "candidate p d"
    "dc_containerId d = rx_containerId x" by (auto simp: names_candidate_def decided_config_def)
  let ?kept = "del (\<lambda>d. dc_containerId d = rx_containerId x \<and> dc_state d = ''current'') (containerDesiredConfigs (w_db w))"
  have "filter (candidate p) ?kept \<noteq> []" using d(1,2) by (auto simp: filter_empty_conv candidate_def)
  moreover from d(1,2) have "list_ex (candidate p) (containerDesiredConfigs (w_db w))" by (auto simp: list_ex_iff)
  moreover have "config_violation (upd (candidate p) (\<lambda>d. d\<lparr>dc_state := ''current'', dc_actionId := None\<rparr>) ?kept) = None"
    using promote_no_violation [OF _ d] assms(1) by (simp add: linked_iff)
  ultimately show ?thesis using assms(3)
    by (auto simp: finalize_def run run_try transaction_def decision_defs decided_config_def still_there_def p
        split: if_splits)
next
  case False
  then show ?thesis using assms(3)
    by (cases decision) (auto simp: finalize_def is_no_action_def run run_try transaction_def decision_defs
      decided_config_def still_there_def filter_Nil_iff_ex StaleRecovery_def)
qed

section \<open>Changes that can be settled\<close>

definition has_candidate :: "string \<Rightarrow> database \<Rightarrow> bool" where
  "has_candidate cid db \<longleftrightarrow>
     list_ex (\<lambda>d. dc_containerId d = cid \<and> dc_state d = ''pending'' \<and> dc_id d \<noteq> []) (containerDesiredConfigs db)"

text \<open>
  What a container being created does not have, since neither a create nor a reading of the host
  writes it: a configuration that is current already, or an empty Docker identifier.
\<close>

definition has_current :: "string \<Rightarrow> database \<Rightarrow> bool" where
  "has_current cid db \<longleftrightarrow> list_ex (\<lambda>d. dc_containerId d = cid \<and> dc_state d = ''current'') (containerDesiredConfigs db)"

definition unnamed :: "string \<Rightarrow> database \<Rightarrow> bool" where
  "unnamed cid db \<longleftrightarrow> list_ex (\<lambda>c. c_id c = cid \<and> c_dockerId c = Some []) (containers db)"

definition action_open :: "string \<Rightarrow> database \<Rightarrow> bool" where
  "action_open aid db \<longleftrightarrow> list_ex (\<lambda>a. act_id a = aid \<and> open_action a) (actions db)"

lemma no_action_complete:
  "is_no_action (classifyRecovery input) \<Longrightarrow> ri_snapshotComplete input \<Longrightarrow> ri_recoveryEligible input \<Longrightarrow>
   ri_operation input \<noteq> remove \<and> \<not> truthy (ri_pendingDesiredConfigId input)"
  by (auto simp: classifyRecovery_def is_no_action_def Let_def split: if_splits option.splits list.splits)

lemma pending_unique:
  assumes "linked db" and "d \<in> set (containerDesiredConfigs db)" "dc_state d = ''pending''"
    and "e \<in> set (containerDesiredConfigs db)" "dc_state e = ''pending''" "dc_containerId e = dc_containerId d"
  shows "e = d"
  using assms unfolding linked_iff config_violation_None by (auto simp: distinct_map dest: inj_onD)

lemma no_candidate:
  assumes "linked db" and "\<not> truthy (config_in ''pending'' (filter (\<lambda>d. dc_containerId d = cid) (containerDesiredConfigs db)))"
  shows "\<not> has_candidate cid db"
proof
  assume "has_candidate cid db"
  then obtain d where d: "d \<in> set (containerDesiredConfigs db)" "dc_containerId d = cid" "dc_state d = ''pending''" "dc_id d \<noteq> []"
    by (auto simp: has_candidate_def list_ex_iff)
  then obtain e where e: "find (\<lambda>d. dc_state d = ''pending'') (filter (\<lambda>d. dc_containerId d = cid) (containerDesiredConfigs db)) = Some e"
    by (cases "find (\<lambda>d. dc_state d = ''pending'') (filter (\<lambda>d. dc_containerId d = cid) (containerDesiredConfigs db))")
      (auto simp: find_None_iff)
  from find_SomeD [OF e] pending_unique [OF assms(1) d(1,3)] d(2) have "e = d" by auto
  with e assms(2) d(4) show False by (simp add: config_in_def)
qed

text \<open>
  What was decided can be applied, unless it is to discard the candidate of a create of a
  container that has a current configuration or an empty Docker identifier.
\<close>

lemma discarded_there:
  assumes "classifyRecovery (recovery_input operation whole db) = discard_pending p" and "linked db"
    and "\<not> has_current (pn_containerId operation) db" "\<not> unnamed (pn_containerId operation) db"
  shows "list_ex (\<lambda>c. c_id c = pn_containerId operation \<and> c_dockerId c = None) (containers db)"
proof -
  let ?cid = "pn_containerId operation" and ?in = "recovery_input operation whole db"
  from assms(1) classified_names [of operation whole db] obtain d where
    "d \<in> set (containerDesiredConfigs db)" "dc_containerId d = ?cid"
    by (auto simp: names_candidate_def decided_config_def)
  with assms(2) have "?cid \<in> c_id ` set (containers db)" unfolding linked_iff by metis
  then obtain row where row: "find (\<lambda>c. c_id c = ?cid) (containers db) = Some row"
    by (cases "find (\<lambda>c. c_id c = ?cid) (containers db)") (auto simp: find_None_iff)
  from assms(3) have "config_in ''current'' (filter (\<lambda>d. dc_containerId d = ?cid) (containerDesiredConfigs db)) = None"
    by (auto simp: has_current_def config_in_def find_None_iff list_ex_iff)
  with assms(1) row have "\<not> truthy (c_dockerId row)"
    by (auto simp: classifyRecovery_def recovery_input_def Let_def split: if_splits option.splits)
  with find_SomeD [OF row] assms(4) show ?thesis
    by (auto simp: truthy_iff unnamed_def list_ex_iff split: option.splits) (metis option.exhaust)
qed

lemma decided_there:
  assumes "decision = classifyRecovery (recovery_input operation whole db)" and "linked db"
    and "rx_containerId x = pn_containerId operation" "rx_operation x = pn_operation operation"
    and "pn_operation operation = create \<Longrightarrow>
      \<not> has_current (pn_containerId operation) db \<and> \<not> unnamed (pn_containerId operation) db"
  shows "still_there x decision db"
proof (cases decision)
  case (promote_pending p)
  with classified_names [of operation whole db, folded assms(1)] show ?thesis
    by (auto simp: still_there_def names_candidate_def decided_config_def list_ex_iff)
next
  case (discard_pending p)
  have "list_ex (candidate p) (containerDesiredConfigs db)"
    using classified_names [of operation whole db, folded assms(1)]
    by (auto simp: discard_pending names_candidate_def decided_config_def list_ex_iff)
  moreover have "list_ex (\<lambda>c. c_id c = pn_containerId operation \<and> c_dockerId c = None) (containers db)"
    if "pn_operation operation = create"
    using discarded_there [of operation whole db p] assms(2,5) that discard_pending assms(1) by simp
  ultimately show ?thesis using assms(3,4) by (simp add: still_there_def discard_pending)
qed (simp_all add: still_there_def)

lemma recovery_context_simps [simp]:
  "rx_containerId (recovery_context operation ids) = pn_containerId operation"
  "rx_operation (recovery_context operation ids) = pn_operation operation"
  "rx_actionId (recovery_context operation ids) = pn_actionId operation"
  by (simp_all add: recovery_context_def)

text \<open>One reconciliation, after the reading of the host.\<close>

lemma reconcile_run:
  assumes "resync E (pn_hostId operation) w = (Inr whole, v)"
  shows "reconcileAndFinalize E operation w =
    (let decision = classifyRecovery (recovery_input operation whole (w_db v)) in
     if is_no_action decision then (Inr decision, v)
     else case finalize E (recovery_context operation (claimed_ids (pn_containerId operation) (w_db v)))
         decision v of (Inl e, u) \<Rightarrow> (Inl e, u) | (Inr _, u) \<Rightarrow> (Inr decision, u))"
  unfolding reconcileAndFinalize_def bindE_def [of "resync _ _"] assms
  by (simp add: classify_def claimedDockerIds_def run Let_def bindE_def [of "finalize _ _ _"] retE_def)

lemma reconcile_total:
  assumes "linked (w_db w)"
  shows "\<exists>decision w'. reconcileAndFinalize E operation w = (Inr decision, w') \<and> linked (w_db w')"
proof -
  obtain whole v where read: "resync E (pn_hostId operation) w = (Inr whole, v)" using resync_total by blast
  have v: "linked (w_db v)" using stableD [OF discovering.step_resync read] assms by (simp add: linked_rel_def)
  let ?decision = "classifyRecovery (recovery_input operation whole (w_db v))"
  show ?thesis
  proof (cases "is_no_action ?decision")
    case False
    let ?x = "recovery_context operation (claimed_ids (pn_containerId operation) (w_db v))"
    obtain r u where fin: "finalize E ?x ?decision v = (r, u)" by fastforce
    have "r = Inr (may_claim ?x (decided_config ?decision) (w_db v) \<and> still_there ?x ?decision (w_db v))"
      using finalize_result [OF v _ False, of ?x E] classified_names fin by simp
    with False finalize_linked [OF fin v] fin show ?thesis by (simp add: reconcile_run [OF read] Let_def)
  qed (simp add: reconcile_run [OF read] Let_def v)
qed

lemma reconcile_closes:
  assumes "linked (w_db w)" and "resync E (pn_hostId operation) w = (Inr True, v)"
    and "pn_actionId operation = Some aid" and "aid \<noteq> []" and "action_open aid (w_db w)"
    and "reconcileAndFinalize E operation w = (Inr decision, w')" and "action_open aid (w_db w')"
  shows "pn_operation operation \<noteq> remove \<and> (\<not> has_candidate (pn_containerId operation) (w_db w')
    \<or> pn_operation operation = create
      \<and> (has_current (pn_containerId operation) (w_db w') \<or> unnamed (pn_containerId operation) (w_db w')))"
proof -
  let ?cid = "pn_containerId operation"
  let ?decision = "classifyRecovery (recovery_input operation True (w_db v))"
  let ?x = "recovery_context operation (claimed_ids ?cid (w_db v))"
  have v: "linked (w_db v)" using stableD [OF discovering.step_resync assms(2)] assms(1) by (simp add: linked_rel_def)
  have "actions (w_db v) = actions (w_db w)" using keepsD [OF stable_resync assms(2)] by (simp add: outside_discovery_def)
  with assms(3-5) have mine: "may_claim ?x (decided_config ?decision) (w_db v)"
    by (simp add: may_claim_def action_open_def)
  show ?thesis
  proof (cases "is_no_action ?decision")
    case True
    with assms(6) have "w' = v" by (simp add: reconcile_run [OF assms(2)] Let_def)
    with no_action_complete [OF True] no_candidate [OF v] show ?thesis by simp
  next
    case False
    obtain r u where fin: "finalize E ?x ?decision v = (r, u)" by fastforce
    then have r: "r = Inr (still_there ?x ?decision (w_db v))"
      using finalize_result [OF v _ False, of ?x E] classified_names mine by simp
    with False assms(6) fin have u: "u = w'" by (simp add: reconcile_run [OF assms(2)] Let_def)
    from fin show ?thesis
    proof (cases rule: finalize_cases)
      case (finalized entry)
      have "\<not> action_open aid (w_db u)"
        using finished_not_open [OF _ closing_closed, of "Some aid"] assms(3,4) by (simp add: finalized(5) action_open_def)
      with u assms(7) show ?thesis by simp
    next
      case untouched
      with r decided_there [OF refl v, of ?x operation True]
      have "pn_operation operation = create \<and> (has_current ?cid (w_db v) \<or> unnamed ?cid (w_db v))" by auto
      with untouched u show ?thesis by simp
    qed
  qed
qed

section \<open>Properties\<close>



text \<open>
  C16: a create or a replacement whose container is gone stays open. When the reading of the host
  has taken the row of the container away, and with it the candidate, recovery concludes nothing
  and leaves the action as it is, so that no later pass concludes anything either.
\<close>

theorem lost_change_stays_open:
  assumes "linked (w_db w)" and "resync E (pn_hostId operation) w = (Inr whole, v)"
    and "pn_containerId operation \<notin> c_id ` set (containers (w_db v))" and "pn_operation operation \<noteq> remove"
  shows "\<exists>reason. reconcileAndFinalize E operation w = (Inr (no_action reason), v)
    \<and> actions (w_db v) = actions (w_db w)"
proof -
  have v: "linked (w_db v)" using stableD [OF discovering.step_resync assms(2)] assms(1) by (simp add: linked_rel_def)
  have "find (\<lambda>c. c_id c = pn_containerId operation) (containers (w_db v)) = None"
    using assms(3) by (force simp: find_None_iff)
  moreover have "filter (\<lambda>d. dc_containerId d = pn_containerId operation) (containerDesiredConfigs (w_db v)) = []"
    using assms(3) v unfolding filter_empty_conv linked_iff by metis
  ultimately have "\<exists>reason. classifyRecovery (recovery_input operation whole (w_db v)) = no_action reason"
    using assms(4) by (simp add: classifyRecovery_def recovery_input_def config_in_def Let_def)
  moreover have "actions (w_db v) = actions (w_db w)"
    using keepsD [OF stable_resync assms(2)] by (simp add: outside_discovery_def)
  ultimately show ?thesis by (auto simp: reconcile_run [OF assms(2)] Let_def is_no_action_def)
qed

theorem lost_change_stays_open_witness:
  "\<exists>reason v. reconcileAndFinalize (site_env []) (pending_of ''h1'' (w_db (site_open ''container.replace'' [site_candidate]))
       (site_action ''container.replace'')) (site_open ''container.replace'' [site_candidate]) = (Inr (no_action reason), v)
     \<and> actions (w_db v) = [site_action ''container.replace'']"
proof -
  let ?w = "site_open ''container.replace'' [site_candidate]"
  let ?op = "pending_of ''h1'' (w_db ?w) (site_action ''container.replace'')"
  obtain whole v where read: "resync (site_env []) (pn_hostId ?op) ?w = (Inr whole, v)" using resync_total by blast
  have "site_cid \<notin> c_id ` set (containers (w_db (snd (resync (site_env []) (pn_hostId ?op) ?w))))" by code_simp
  with read have "pn_containerId ?op \<notin> c_id ` set (containers (w_db v))" by (simp add: pending_of_def site_action_def)
  moreover have "linked (w_db ?w)" by code_simp
  moreover have "pn_operation ?op \<noteq> remove" by (simp add: pending_of_def site_action_def recovery_operation_def)
  moreover have "actions (w_db ?w) = [site_action ''container.replace'']" by (simp add: site_open_def)
  ultimately show ?thesis using lost_change_stays_open [OF _ read] by metis
qed

end
