(* ===== verification/Container_Management.thy ===== *)
theory Container_Management
  imports Reconciliation Example_Host
begin

text \<open>
  Creating, replacing and removing containers,
  \<^verbatim>\<open>src/api/src/containers/container-management.service.ts\<close>: what a container is meant to become is
  written down before its agent is asked, the agent is asked once, and what happened is read from
  the host. Each operation is shown to be refused without a trace, or to ask for one change and to
  leave behind what the reading showed; while a change to a container is open no other is begun.
\<close>

section \<open>Data\<close>

record ManagementOutcome =
  mg_actionId :: "string option"
  mg_containerId :: string
  mg_status :: string
  mg_state :: "string option"
  mg_dockerId :: "string option"

record DispatchedChange =
  dg_operation :: RecoveryOperation
  dg_capability :: string
  dg_agentId :: string
  dg_containerId :: string
  dg_containerName :: string
  dg_hostId :: string
  dg_actionId :: "string option"
  dg_actor :: AuthenticatedUser
  dg_context :: RequestContext
  dg_payload :: payload

record MutableTarget =
  mt_containerId :: string
  mt_name :: string
  mt_hostId :: string

definition AUDIT :: "RecoveryOperation \<Rightarrow> string" where
  "AUDIT operation = (case operation of create \<Rightarrow> ''container.create'' | replace \<Rightarrow> ''container.replace''
     | remove \<Rightarrow> ''container.remove'')"

definition CHANGE_EVENT :: "RecoveryOperation \<Rightarrow> string" where
  "CHANGE_EVENT operation = (case operation of create \<Rightarrow> ''container.created'' | replace \<Rightarrow> ''container.replaced''
     | remove \<Rightarrow> ''container.removed'')"

definition CHANGE_PAST :: "RecoveryOperation \<Rightarrow> string" where
  "CHANGE_PAST operation = (case operation of create \<Rightarrow> ''created'' | replace \<Rightarrow> ''replaced'' | remove \<Rightarrow> ''removed'')"

definition OUTCOME_FAILURE :: "RecoveryOperation \<Rightarrow> string" where
  "OUTCOME_FAILURE operation = (case operation of create \<Rightarrow> ''CONTAINER_CREATE_FAILED'' | replace \<Rightarrow> ''REPLACEMENT_FAILED''
     | remove \<Rightarrow> ''CONTAINER_REMOVE_FAILED'')"

section \<open>Refusals\<close>

definition mutable :: "string \<Rightarrow> MutableTarget handler" where
  "mutable containerId =
    bindE (read_db (\<lambda>db. find (\<lambda>c. c_id c = containerId) (containers db))) (\<lambda>found.
    case found of
      None \<Rightarrow> throw_app (notFound ''CONTAINER_NOT_FOUND'' ''The container does not exist.'')
    | Some row \<Rightarrow>
        bindE (assertOperable containerId) (\<lambda>_.
        if truthy (c_composeProjectId row) \<or> truthy (c_stackId row)
        then throw_app (conflict ''MANAGED_BY_STACK''
          ''This container belongs to a Compose project, and its configuration comes from there.'')
        else bindE (read_db (\<lambda>db. find (\<lambda>d. dc_containerId d = containerId) (containerDesiredConfigs db))) (\<lambda>managed.
        if managed = None
        then throw_app (conflict ''CONTAINER_NOT_MANAGED''
          ''Dockplane did not create this container, so it will not change or remove it.'')
        else retE \<lparr>mt_containerId = c_id row, mt_name = c_name row, mt_hostId = c_hostId row\<rparr>)))"

definition current_dockerId :: "string \<Rightarrow> string handler" where
  "current_dockerId containerId =
    bindE (read_db (\<lambda>db. Option.bind (find (\<lambda>c. c_id c = containerId) (containers db)) c_dockerId)) (\<lambda>dockerId.
    if \<not> truthy dockerId
    then throw_app (notFound ''CONTAINER_NOT_FOUND'' ''The container does not exist on its host.'')
    else retE (the dockerId))"

definition change_host :: "string \<Rightarrow> host_row handler" where
  "change_host hostId =
    bindE (read_db (\<lambda>db. find (\<lambda>h. h_id h = hostId) (hosts db))) (\<lambda>found.
    case found of
      None \<Rightarrow> throw_app (notFound ''HOST_NOT_FOUND'' ''The host does not exist.'')
    | Some row \<Rightarrow> bindE (assertNotArchived row ''containers cannot be created or changed on it'') (\<lambda>_. retE row))"

definition reachableAgent :: "string \<Rightarrow> string handler" where
  "reachableAgent hostId =
    bindE (read_db (\<lambda>db. find (\<lambda>a. a_hostId a = hostId \<and> a_revokedAt a = None) (agents db))) (\<lambda>found.
    case found of
      None \<Rightarrow> throw_app (conflict ''AGENT_REVOKED'' ''This host has no agent that may be reached.'')
    | Some agent \<Rightarrow> bindE (isConnected (a_id agent)) (\<lambda>up.
        if \<not> up then throw_app (conflict ''AGENT_OFFLINE''
          ''The agent is not connected, so the operation cannot be carried out now.'')
        else retE (a_id agent)))"

section \<open>Writing the change down\<close>

definition audit_container :: "env \<Rightarrow> AuthenticatedUser \<Rightarrow> RequestContext \<Rightarrow> string \<Rightarrow> string \<Rightarrow> string \<Rightarrow> string
    \<Rightarrow> string option \<Rightarrow> unit handler" where
  "audit_container E actor context containerId name action result reason = audit_record E
     \<lparr>ar_action = action, ar_result = result, ar_actorUserId = Some (u_id actor),
      ar_actorLabel = u_email actor, ar_targetType = Some ''container'', ar_targetId = Some containerId,
      ar_targetLabel = Some name, ar_reasonCode = reason, ar_sourceIp = rc_sourceIp context,
      ar_userAgent = rc_userAgent context\<rparr>"

definition container_action :: "AuthenticatedUser \<Rightarrow> string \<Rightarrow> string \<Rightarrow> string \<Rightarrow> string \<Rightarrow> int \<Rightarrow> string \<Rightarrow> action_row" where
  "container_action actor capability containerId hostId correlation t actionId =
     \<lparr>act_id = actionId, act_actorUserId = Some (u_id actor), act_actorKind = ''user'',
      act_capability = capability, act_targetType = Some ''container'', act_targetId = Some containerId,
      act_hostId = Some hostId, act_status = ''running'', act_requestedAt = t,
      act_startedAt = Some t, act_completedAt = None, act_errorCode = None,
      act_correlationId = correlation\<rparr>"

definition insert_container_action :: "env \<Rightarrow> AuthenticatedUser \<Rightarrow> RequestContext \<Rightarrow> string \<Rightarrow> string \<Rightarrow> string
    \<Rightarrow> string handler" where
  "insert_container_action E actor context capability containerId hostId =
    bindE (case rc_requestId context of Some r \<Rightarrow> retE r | None \<Rightarrow> randomUUID E) (\<lambda>correlation.
    bindE now (\<lambda>t.
    bindE (randomUUID E) (\<lambda>actionId.
    bindE (insert_action (container_action actor capability containerId hostId correlation t actionId)) (\<lambda>_.
    retE actionId))))"

definition insert_candidate :: "env \<Rightarrow> AuthenticatedUser \<Rightarrow> string \<Rightarrow> string \<Rightarrow> Configuration \<Rightarrow> StoredVariable list
    \<Rightarrow> string handler" where
  "insert_candidate E actor containerId actionId configuration environment =
    bindE (randomUUID E) (\<lambda>configId.
    bindE (put_configs (\<lambda>rows. rows @ [\<lparr>dc_id = configId, dc_containerId = containerId, dc_state = ''pending'',
      dc_actionId = Some actionId, dc_createdBy = Some (u_id actor), dc_configuration = configuration\<rparr>])) (\<lambda>_.
    bindE (whenE (environment \<noteq> []) (insert_variables (map (\<lambda>variable.
      \<lparr>cv_desiredConfigId = configId, cv_variable = variable\<rparr>) environment))) (\<lambda>_.
    retE configId)))"

text \<open>What was stored is read back and turned into the specification of the agent.\<close>

definition stored_variables :: "string \<Rightarrow> database \<Rightarrow> StoredVariable list" where
  "stored_variables configId db =
     map cv_variable (filter (\<lambda>v. cv_desiredConfigId v = configId) (containerEnvironmentVariables db))"

definition stored_spec :: "env \<Rightarrow> string \<Rightarrow> string \<Rightarrow> ContainerSpec handler" where
  "stored_spec E name configId =
    bindE (read_db (\<lambda>db. find (\<lambda>d. dc_id d = configId) (containerDesiredConfigs db))) (\<lambda>config.
    bindE (read_db (stored_variables configId)) (\<lambda>stored.
    case config of
      None \<Rightarrow> throwE (OtherErr ''Cannot read properties of undefined'')
    | Some row \<Rightarrow> specFor E name (dc_configuration row) stored))"

record prepared_change =
  pr_containerId :: string
  pr_actionId :: string
  pr_desiredConfigId :: string
  pr_name :: string
  pr_spec :: ContainerSpec

definition prepareCreate :: "env \<Rightarrow> CreateContainerRequest \<Rightarrow> string \<Rightarrow> AuthenticatedUser \<Rightarrow> RequestContext
    \<Rightarrow> prepared_change handler" where
  "prepareCreate E request hostId actor context =
    bindE (resolveEnvironment E (cq_environment request) []) (\<lambda>environment.
    bindE (transaction (
      bindE (randomUUID E) (\<lambda>containerId.
      bindE now (\<lambda>observedAt.
      bindE (put_containers (\<lambda>rows. rows @ [(blank_row containerId hostId)\<lparr>c_name := cq_name request,
        c_image := cq_image request, c_state := ''creating'', c_observedAt := Some observedAt\<rparr>])) (\<lambda>_.
      bindE (insert_container_action E actor context ''container.create'' containerId hostId) (\<lambda>actionId.
      bindE (insert_candidate E actor containerId actionId (configurationOf request) environment) (\<lambda>configId.
      retE (containerId, actionId, configId)))))))) (\<lambda>(containerId, actionId, configId).
    bindE (audit_container E actor context containerId (cq_name request) ''container.create.requested'' ''success''
      (Some actionId)) (\<lambda>_.
    bindE (stored_spec E (cq_name request) configId) (\<lambda>spec.
    retE \<lparr>pr_containerId = containerId, pr_actionId = actionId, pr_desiredConfigId = configId,
      pr_name = cq_name request, pr_spec = spec\<rparr>))))"

definition prepareReplace :: "env \<Rightarrow> string \<Rightarrow> ReplaceContainerRequest \<Rightarrow> AuthenticatedUser \<Rightarrow> RequestContext
    \<Rightarrow> prepared_change handler" where
  "prepareReplace E containerId request actor context =
    bindE (read_db (\<lambda>db. find (\<lambda>c. c_id c = containerId) (containers db))) (\<lambda>container.
    bindE (read_db (\<lambda>db. find (\<lambda>d. dc_containerId d = containerId \<and> dc_state d = ''current'')
      (containerDesiredConfigs db))) (\<lambda>found.
    case found of
      None \<Rightarrow> throw_app (conflict ''CONTAINER_NOT_MANAGED''
        ''Dockplane has never been told what this container should be, so there is nothing to change.'')
    | Some current \<Rightarrow>
      bindE (read_db (stored_variables (dc_id current))) (\<lambda>previous.
      bindE (resolveEnvironment E (cq_environment request) previous) (\<lambda>environment.
      case container of
        None \<Rightarrow> throwE (OtherErr ''Cannot read properties of undefined'')
      | Some row \<Rightarrow>
        let name = or_default (rq_name request) (c_name row) in
        bindE (transaction (
          bindE (insert_container_action E actor context ''container.replace'' containerId (c_hostId row)) (\<lambda>actionId.
          bindE (insert_candidate E actor containerId actionId (configurationOf request) environment) (\<lambda>configId.
          retE (actionId, configId))))) (\<lambda>(actionId, configId).
        bindE (audit_container E actor context containerId name ''container.replace.requested'' ''success''
          (Some actionId)) (\<lambda>_.
        bindE (stored_spec E name configId) (\<lambda>spec.
        retE \<lparr>pr_containerId = containerId, pr_actionId = actionId, pr_desiredConfigId = configId,
          pr_name = name, pr_spec = spec\<rparr>)))))))"

section \<open>Asking and establishing what happened\<close>

definition unresolved_change :: "env \<Rightarrow> DispatchedChange \<Rightarrow> string \<Rightarrow> ManagementOutcome handler" where
  "unresolved_change E operation code =
    bindE (audit_container E (dg_actor operation) (dg_context operation) (dg_containerId operation)
      (dg_containerName operation) (AUDIT (dg_operation operation) @ ''.interrupted'') ''failure''
      (or_null (dg_actionId operation) (Some code))) (\<lambda>_.
    throw_app (AppError ''OPERATION_OUTCOME_UNKNOWN''
      ''The request reached the host but its result did not come back. Dockplane will establish what happened from the host and will not repeat the operation; the container accepts no further changes until then.''
      503))"

definition change_succeeded :: "RecoveryDecision \<Rightarrow> bool" where
  "change_succeeded decision = (case decision of promote_pending _ \<Rightarrow> True | finalize_remove \<Rightarrow> True | _ \<Rightarrow> False)"

definition report :: "env \<Rightarrow> DispatchedChange \<Rightarrow> RecoveryDecision \<Rightarrow> app_error option \<Rightarrow> ManagementOutcome handler" where
  "report E operation decision failure =
    bindE (read_db (\<lambda>db. find (\<lambda>c. c_id c = dg_containerId operation) (containers db))) (\<lambda>container.
    bindE (audit_container E (dg_actor operation) (dg_context operation) (dg_containerId operation)
      (dg_containerName operation) (AUDIT (dg_operation operation) @ (if change_succeeded decision then ''.succeeded'' else ''.failed''))
      (if change_succeeded decision then ''success'' else ''failure'') (dg_actionId operation)) (\<lambda>_.
    if change_succeeded decision
    then bindE (events_record \<lparr>ei_hostId = Some (dg_hostId operation), ei_type = CHANGE_EVENT (dg_operation operation),
        ei_severity = None, ei_resource = ''container:'' @ dg_containerId operation,
        ei_message = dg_containerName operation @ '' was '' @ CHANGE_PAST (dg_operation operation) @ '' by ''
          @ u_email (dg_actor operation) @ ''.'', ei_correlationId = dg_actionId operation\<rparr>) (\<lambda>_.
      retE \<lparr>mg_actionId = dg_actionId operation, mg_containerId = dg_containerId operation, mg_status = ''succeeded'',
        mg_state = map_option c_state container, mg_dockerId = Option.bind container c_dockerId\<rparr>)
    else (case decision of
        discard_pending _ \<Rightarrow> throw_app (AppError (or_default (map_option ae_code failure) (OUTCOME_FAILURE (dg_operation operation)))
          (or_default (map_option ae_message failure) ''The change was not applied. The container is as it was.'') 409)
      | fail_operation _ \<Rightarrow> throw_app (AppError (or_default (map_option ae_code failure) (OUTCOME_FAILURE (dg_operation operation)))
          (or_default (map_option ae_message failure) ''The change was not applied. The container is as it was.'') 409)
      | identity_conflict _ \<Rightarrow> throw_app (conflict ''CONTAINER_IDENTITY_CONFLICT''
          ''More than one container claims to be this one, so nothing may be concluded about it.'')
      | _ \<Rightarrow> throw_app (AppError ''OPERATION_OUTCOME_UNKNOWN''
          ''The host could not be read well enough to establish what happened. Dockplane will settle it from the host and will not repeat the operation.''
          503))))"

definition pending_change :: "DispatchedChange \<Rightarrow> PendingOperation" where
  "pending_change operation = \<lparr>pn_containerId = dg_containerId operation, pn_containerName = dg_containerName operation,
     pn_hostId = dg_hostId operation, pn_operation = dg_operation operation, pn_actionId = dg_actionId operation\<rparr>"

definition settle_change :: "env \<Rightarrow> DispatchedChange \<Rightarrow> app_error option \<Rightarrow> ManagementOutcome handler" where
  "settle_change E operation failure =
    bindE (reconcileAndFinalize E (pending_change operation)) (\<lambda>decision. report E operation decision failure)"

definition runOperation :: "env \<Rightarrow> DispatchedChange \<Rightarrow> ManagementOutcome handler" where
  "runOperation E operation =
    bindE (tryE (dispatch_request E (dg_agentId operation) (dg_capability operation) (dg_payload operation))) (\<lambda>reply.
    case reply of
      Inl error \<Rightarrow>
        (let code = code_or ''DOCKER_OPERATION_FAILED'' error in
         if code \<in> set UNKNOWN_OUTCOME then unresolved_change E operation code
         else settle_change E operation (as_app_error error))
    | Inr _ \<Rightarrow> settle_change E operation None)"

section \<open>The operations\<close>

definition create_body :: "env \<Rightarrow> CreateContainerRequest \<Rightarrow> string \<Rightarrow> string \<Rightarrow> AuthenticatedUser \<Rightarrow> RequestContext
    \<Rightarrow> ManagementOutcome handler" where
  "create_body E request hostId agentId actor context =
    bindE (prepareCreate E request hostId actor context) (\<lambda>prepared.
    runOperation E \<lparr>dg_operation = create, dg_capability = ''container.create'', dg_agentId = agentId,
      dg_containerId = pr_containerId prepared, dg_containerName = cq_name request, dg_hostId = hostId,
      dg_actionId = Some (pr_actionId prepared), dg_actor = actor, dg_context = context,
      dg_payload = CreateContainer (pr_containerId prepared) (pr_desiredConfigId prepared) (pr_spec prepared)\<rparr>)"

definition create_container :: "env \<Rightarrow> CreateContainerRequest \<Rightarrow> AuthenticatedUser \<Rightarrow> RequestContext
    \<Rightarrow> ManagementOutcome handler" where
  "create_container E request actor context =
    bindE (change_host (cq_hostId request)) (\<lambda>host.
    bindE (reachableAgent (h_id host)) (\<lambda>agentId.
    bindE (assertNameFree (h_id host) (cq_name request)) (\<lambda>_.
    with_lock (nameKey (h_id host) (cq_name request)) ''create''
      (create_body E request (h_id host) agentId actor context))))"

definition replace_body :: "env \<Rightarrow> string \<Rightarrow> ReplaceContainerRequest \<Rightarrow> string \<Rightarrow> string \<Rightarrow> AuthenticatedUser \<Rightarrow> RequestContext
    \<Rightarrow> ManagementOutcome handler" where
  "replace_body E containerId request hostId agentId actor context =
    bindE (current_dockerId containerId) (\<lambda>dockerId.
    bindE (prepareReplace E containerId request actor context) (\<lambda>prepared.
    runOperation E \<lparr>dg_operation = replace, dg_capability = ''container.replace'', dg_agentId = agentId,
      dg_containerId = containerId, dg_containerName = pr_name prepared, dg_hostId = hostId,
      dg_actionId = Some (pr_actionId prepared), dg_actor = actor, dg_context = context,
      dg_payload = ReplaceContainer dockerId containerId (pr_desiredConfigId prepared) (pr_spec prepared)\<rparr>))"

definition replace_container :: "env \<Rightarrow> string \<Rightarrow> ReplaceContainerRequest \<Rightarrow> AuthenticatedUser \<Rightarrow> RequestContext
    \<Rightarrow> ManagementOutcome handler" where
  "replace_container E containerId request actor context =
    bindE (mutable containerId) (\<lambda>target.
    bindE (reachableAgent (mt_hostId target)) (\<lambda>agentId.
    with_lock containerId ''replace''
      (replace_body E containerId request (mt_hostId target) agentId actor context)))"

definition remove_body :: "env \<Rightarrow> string \<Rightarrow> RemoveContainerRequest \<Rightarrow> MutableTarget \<Rightarrow> string \<Rightarrow> AuthenticatedUser
    \<Rightarrow> RequestContext \<Rightarrow> ManagementOutcome handler" where
  "remove_body E containerId request target agentId actor context =
    bindE (current_dockerId containerId) (\<lambda>dockerId.
    bindE (transaction (insert_container_action E actor context ''container.remove'' containerId (mt_hostId target))) (\<lambda>actionId.
    bindE (audit_container E actor context (mt_containerId target) (mt_name target) ''container.remove.requested'' ''success''
      (Some actionId)) (\<lambda>_.
    runOperation E \<lparr>dg_operation = remove, dg_capability = ''container.remove'', dg_agentId = agentId,
      dg_containerId = containerId, dg_containerName = mt_name target, dg_hostId = mt_hostId target,
      dg_actionId = Some actionId, dg_actor = actor, dg_context = context,
      dg_payload = RemoveContainer dockerId (rq_stopFirst request)\<rparr>)))"

definition remove_container :: "env \<Rightarrow> string \<Rightarrow> RemoveContainerRequest \<Rightarrow> AuthenticatedUser \<Rightarrow> RequestContext
    \<Rightarrow> ManagementOutcome handler" where
  "remove_container E containerId request actor context =
    bindE (mutable containerId) (\<lambda>target.
    bindE (reachableAgent (mt_hostId target)) (\<lambda>agentId.
    with_lock containerId ''remove'' (remove_body E containerId request target agentId actor context)))"

section \<open>What an operator is shown\<close>

record container_configuration =
  cc_name :: string
  cc_configuration :: Configuration
  cc_environment :: "PresentedVariable list"
  cc_reconciling :: bool

definition configuration :: "string \<Rightarrow> container_configuration handler" where
  "configuration containerId =
    bindE (read_db (\<lambda>db. find (\<lambda>c. c_id c = containerId) (containers db))) (\<lambda>found.
    case found of
      None \<Rightarrow> throw_app (notFound ''CONTAINER_NOT_FOUND'' ''The container does not exist.'')
    | Some container \<Rightarrow>
      bindE (read_db (\<lambda>db. filter (\<lambda>d. dc_containerId d = containerId) (containerDesiredConfigs db))) (\<lambda>configs.
      case find (\<lambda>d. dc_state d = ''current'') configs of
        None \<Rightarrow> throw_app (conflict ''CONTAINER_NOT_MANAGED''
          ''Dockplane has never been told what this container should be.'')
      | Some current \<Rightarrow>
        bindE (read_db (stored_variables (dc_id current))) (\<lambda>environment.
        retE \<lparr>cc_name = c_name container, cc_configuration = dc_configuration current,
          cc_environment = presentEnvironment environment,
          cc_reconciling = list_ex (\<lambda>d. dc_state d = ''pending'') configs\<rparr>)))"

section \<open>Writing a change down\<close>

lemma stable_mutable [intro!, simp]: "stable (keeps f) (mutable cid)"
  unfolding mutable_def by (intro frame.stable_rules stable_read_db stable_throw_app stable_assertOperable)

lemma stable_current_dockerId [intro!, simp]: "stable (keeps f) (current_dockerId cid)"
  unfolding current_dockerId_def by (intro frame.stable_rules stable_read_db stable_throw_app)

lemma stable_change_host [intro!, simp]: "stable (keeps f) (change_host hostId)"
  unfolding change_host_def by (intro frame.stable_rules stable_read_db stable_throw_app stable_assertNotArchived)

lemma stable_reachableAgent [intro!, simp]: "stable (keeps f) (reachableAgent hostId)"
  unfolding reachableAgent_def by (intro frame.stable_rules stable_read_db stable_throw_app stable_isConnected)

lemma stable_specFor [intro!, simp]: "stable (keeps f) (specFor E name config environment)"
  unfolding specFor_def by (intro frame.stable_rules stable_liftE)

lemma stable_stored_spec [intro!, simp]: "stable (keeps f) (stored_spec E name configId)"
  unfolding stored_spec_def by (intro frame.stable_rules stable_read_db stable_specFor)

lemma calm_uuid: "stable (keeps calm) (randomUUID E)"
  by (rule stable_randomUUID) (simp add: calm_def)

lemma reachableAgent_Inr: "reachableAgent hostId w = (Inr agentId, v) \<Longrightarrow> reaches w hostId agentId"
  by (auto simp: reachableAgent_def run db_exec intro: reaches_found split: option.splits if_splits)

lemma change_host_id: "change_host hostId w = (Inr host, v) \<Longrightarrow> h_id host = hostId"
  by (auto simp: change_host_def run assertNotArchived_def split: option.splits if_splits dest: find_SomeD)

lemma mutable_Inr:
  "mutable cid w = (Inr target, v) \<Longrightarrow> \<exists>row. find (\<lambda>c. c_id c = cid) (containers (w_db w)) = Some row \<and> mt_hostId target = c_hostId row"
  by (auto simp: mutable_def bindE_Inr read_db_eq throw_app_def throwE_def retE_eq split: option.splits if_splits)

lemma current_dockerId_Inr:
  "current_dockerId cid w = (Inr dockerId, v) \<Longrightarrow> Option.bind (find (\<lambda>c. c_id c = cid) (containers (w_db w))) c_dockerId = Some dockerId"
  by (auto simp: current_dockerId_def run db_exec truthy_iff split: if_splits)

lemma stable_encrypt: "(\<And>w n. f (w\<lparr>w_fresh := n\<rparr>) = f w) \<Longrightarrow> stable (keeps f) (encrypt E v)"
  by (rule stableI) (simp add: encrypt_def keeps_def)

lemma table_configs [table_steps]:
  "ignores_db f \<Longrightarrow> stable (keeps f) (put_configs g)" "ignores_db f \<Longrightarrow> stable (keeps f) (insert_variables news)"
  by (simp_all add: ignores_db_def stable_put_configs stable_insert_variables)

lemma table_audit_container [table_steps]:
  "ignores_db f \<Longrightarrow> stable (keeps f) (audit_container E actor context cid name action result reason)"
  unfolding audit_container_def by (rule table_updates)

text \<open>Resolving an environment draws initialisation vectors and writes nothing.\<close>

lemma resolveEnvironment_keeps:
  assumes "\<And>w n. f (w\<lparr>w_fresh := n\<rparr>) = f w"
  shows "stable (keeps f) (resolveEnvironment E entries previous)"
proof -
  have "stable (keeps f) (resolve_entry E carried entry)" for carried entry
    by (cases entry) (auto simp: resolve_entry_def intro!: frame.stable_rules stable_throw_app stable_encrypt assms)
  then show ?thesis unfolding resolveEnvironment_def by (intro frame.stable_rules)
qed

lemmas change_calm = calm_rules table_steps calm_uuid stable_read_db stable_stored_spec stable_isConnected

lemma insert_container_action_calm: "stable (keeps calm) (insert_container_action E actor context cap cid hostId)"
  unfolding insert_container_action_def by (intro change_calm)

lemma insert_candidate_calm: "stable (keeps calm) (insert_candidate E actor cid aid config environment)"
  unfolding insert_candidate_def by (intro change_calm)

lemma prepareCreate_calm: "stable (keeps calm) (prepareCreate E request hostId actor context)"
  unfolding prepareCreate_def
  by (intro change_calm insert_container_action_calm insert_candidate_calm resolveEnvironment_keeps) (simp add: calm_def)

lemma prepareReplace_calm: "stable (keeps calm) (prepareReplace E cid request actor context)"
  unfolding prepareReplace_def Let_def
  by (intro change_calm insert_container_action_calm insert_candidate_calm resolveEnvironment_keeps) (simp add: calm_def)

lemma insert_container_action_Inr:
  assumes "insert_container_action E actor context cap cid hostId w = (Inr aid, u)"
  obtains n correlation where "aid \<notin> act_id ` set (actions (w_db w))"
    "u = w\<lparr>w_fresh := n, w_db := (w_db w)\<lparr>actions := actions (w_db w) @
       [container_action actor cap cid hostId correlation (w_clock w) aid]\<rparr>\<rparr>"
  using assms
  by (auto simp: insert_container_action_def run container_action_def split: option.splits if_splits)

lemma insert_candidate_Inr:
  assumes "insert_candidate E actor cid aid config environment w = (Inr p, u)"
  obtains n d news where "u = w\<lparr>w_fresh := n, w_db := (w_db w)\<lparr>containerDesiredConfigs := containerDesiredConfigs (w_db w) @ [d],
        containerEnvironmentVariables := containerEnvironmentVariables (w_db w) @ news\<rparr>\<rparr>"
    "d = \<lparr>dc_id = p, dc_containerId = cid, dc_state = ''pending'', dc_actionId = Some aid, dc_createdBy = Some (u_id actor),
       dc_configuration = config\<rparr>"
    "config_violation (containerDesiredConfigs (w_db w) @ [d]) = None"
    "news = map (\<lambda>v. \<lparr>cv_desiredConfigId = p, cv_variable = v\<rparr>) environment"
    "news = [] \<or> variable_violation (containerEnvironmentVariables (w_db w) @ news) = None"
  using assms
  by (auto simp: insert_candidate_def run whenE_def split: option.splits if_splits)

text \<open>The rows of a change that has been written down.\<close>

definition wrote :: "string \<Rightarrow> string \<Rightarrow> string \<Rightarrow> string \<Rightarrow> database \<Rightarrow> database \<Rightarrow> bool" where
  "wrote cap cid hostId aid db db' \<longleftrightarrow> aid \<notin> act_id ` set (actions db)
     \<and> (\<exists>a. actions db' = actions db @ [a] \<and> act_id a = aid \<and> act_status a = ''running'' \<and> act_targetType a = Some ''container''
          \<and> act_targetId a = Some cid \<and> act_capability a = cap \<and> act_hostId a = Some hostId)
     \<and> (linked db \<longrightarrow> linked db')"

definition with_candidate :: "string \<Rightarrow> string \<Rightarrow> Configuration \<Rightarrow> database \<Rightarrow> database \<Rightarrow> bool" where
  "with_candidate p cid config db db' \<longleftrightarrow> (\<exists>d. containerDesiredConfigs db' = containerDesiredConfigs db @ [d]
     \<and> dc_id d = p \<and> dc_containerId d = cid \<and> dc_state d = ''pending'' \<and> dc_configuration d = config)"

lemma linked_candidate:
  assumes "linked db" and "cid \<in> c_id ` set (containers db')" and "c_id ` set (containers db) \<subseteq> c_id ` set (containers db')"
    and "containerDesiredConfigs db' = containerDesiredConfigs db @ [d]" and "dc_containerId d = cid"
    and "config_violation (containerDesiredConfigs db @ [d]) = None"
    and "containerEnvironmentVariables db' = containerEnvironmentVariables db @ news"
    and "news = [] \<or> variable_violation (containerEnvironmentVariables db @ news) = None"
    and "\<And>v. v \<in> set news \<Longrightarrow> cv_desiredConfigId v = dc_id d"
  shows "linked db'"
  using assms unfolding linked_iff by auto

lemma written_down:
  assumes "bindE (insert_container_action E actor context cap cid hostId) (\<lambda>aid.
      bindE (insert_candidate E actor cid aid config environment) (\<lambda>p. retE (k aid p))) w = (Inr v, u)"
    and "cid \<in> c_id ` set (containers (w_db w))"
  obtains aid p where "v = k aid p" "wrote cap cid hostId aid (w_db w) (w_db u)" "with_candidate p cid config (w_db w) (w_db u)"
    "containers (w_db u) = containers (w_db w)"
proof -
  from assms(1) obtain aid p s t where
    action: "insert_container_action E actor context cap cid hostId w = (Inr aid, s)" and
    candidate: "insert_candidate E actor cid aid config environment s = (Inr p, u)" and v: "v = k aid p"
    by (auto simp: bindE_Inr retE_eq)
  obtain n correlation where s: "aid \<notin> act_id ` set (actions (w_db w))"
    "s = w\<lparr>w_fresh := n, w_db := (w_db w)\<lparr>actions := actions (w_db w) @
       [container_action actor cap cid hostId correlation (w_clock w) aid]\<rparr>\<rparr>"
    using insert_container_action_Inr [OF action] by blast
  obtain m d news where u: "u = s\<lparr>w_fresh := m, w_db := (w_db s)\<lparr>containerDesiredConfigs := containerDesiredConfigs (w_db s) @ [d],
        containerEnvironmentVariables := containerEnvironmentVariables (w_db s) @ news\<rparr>\<rparr>"
    "d = \<lparr>dc_id = p, dc_containerId = cid, dc_state = ''pending'', dc_actionId = Some aid, dc_createdBy = Some (u_id actor),
       dc_configuration = config\<rparr>"
    "config_violation (containerDesiredConfigs (w_db s) @ [d]) = None"
    "news = map (\<lambda>v. \<lparr>cv_desiredConfigId = p, cv_variable = v\<rparr>) environment"
    "news = [] \<or> variable_violation (containerEnvironmentVariables (w_db s) @ news) = None"
    using insert_candidate_Inr [OF candidate] by blast
  have "linked (w_db u)" if "linked (w_db w)"
    by (rule linked_candidate [OF that, where cid = cid and d = d and news = news]) (use assms(2) s(2) u in auto)
  then show ?thesis
    using s u by (intro that [OF v]) (auto simp: wrote_def with_candidate_def container_action_def)
qed

lemma transaction_cases:
  assumes "transaction m w = (r, u)"
  obtains (rolled_back) e where "r = Inl e" "w_db u = w_db w" | (committed) a where "r = Inr a" "m w = (Inr a, u)"
  using assms by (cases r) (auto simp: transaction_Inr transaction_Inl)

text \<open>After a commit: the audit entry is written, and reading the specification back may only throw.\<close>

lemma committed_rest:
  assumes "bindE (audit_container E actor context cid name action result reason) (\<lambda>_.
      bindE (stored_spec E name' p) (\<lambda>spec. retE (g spec))) v = (r, u)"
  obtains entry where "w_db u = (w_db v)\<lparr>auditEntries := auditEntries (w_db v) @ [entry]\<rparr>" "isl r \<or> (\<exists>spec. r = Inr (g spec))"
proof -
  obtain entry where "bindE (stored_spec E name' p) (\<lambda>spec. retE (g spec))
      (v\<lparr>w_db := (w_db v)\<lparr>auditEntries := auditEntries (w_db v) @ [entry]\<rparr>\<rparr>) = (r, u)"
    using assms by (auto simp: audit_container_def run)
  then show ?thesis
    by (cases rule: bind_reads [OF stable_stored_spec, consumes 1]) (auto simp: retE_eq intro: that)
qed

lemma wrote_audit: "wrote cap cid h aid db (db'\<lparr>auditEntries := es\<rparr>) = wrote cap cid h aid db db'"
  "with_candidate p cid config db (db'\<lparr>auditEntries := es\<rparr>) = with_candidate p cid config db db'"
  by (simp_all add: wrote_def with_candidate_def linked_iff)

lemma prepareCreate_cases:
  assumes "prepareCreate E request hostId actor context w = (r, u)"
  obtains (unwritten) "isl r" "w_db u = w_db w"
    | (written) cid aid p row where "wrote ''container.create'' cid hostId aid (w_db w) (w_db u)"
      "with_candidate p cid (configurationOf request) (w_db w) (w_db u)"
      "containers (w_db u) = containers (w_db w) @ [row]" "c_id row = cid" "c_dockerId row = None" "cid \<notin> c_id ` set (containers (w_db w))"
      "isl r \<or> (\<exists>spec. r = Inr \<lparr>pr_containerId = cid, pr_actionId = aid, pr_desiredConfigId = p,
        pr_name = cq_name request, pr_spec = spec\<rparr>)"
proof -
  have db: "stable (keeps w_db) (resolveEnvironment E (cq_environment request) [])"
    by (rule resolveEnvironment_keeps) simp
  from assms show ?thesis unfolding prepareCreate_def
  proof (cases rule: bind_frame [OF db, consumes 1, case_names thrown continues])
    case thrown
    then show ?thesis by (rule unwritten [rotated])
  next
    case (continues environment v)
    let ?tx = "bindE (randomUUID E) (\<lambda>containerId.
      bindE now (\<lambda>observedAt.
      bindE (put_containers (\<lambda>rows. rows @ [(blank_row containerId hostId)\<lparr>c_name := cq_name request,
        c_image := cq_image request, c_state := ''creating'', c_observedAt := Some observedAt\<rparr>])) (\<lambda>_.
      bindE (insert_container_action E actor context ''container.create'' containerId hostId) (\<lambda>actionId.
      bindE (insert_candidate E actor containerId actionId (configurationOf request) environment) (\<lambda>configId.
      retE (containerId, actionId, configId))))))"
    obtain r1 t where tx: "transaction ?tx v = (r1, t)" by fastforce
    from tx show ?thesis
    proof (cases rule: transaction_cases)
      case (rolled_back e)
      with tx continues show ?thesis by (intro unwritten) (auto simp: bindE_def)
    next
      case (committed a)
      let ?cid = "e_uuid E (w_fresh v)"
      let ?row = "(blank_row ?cid hostId)\<lparr>c_name := cq_name request, c_image := cq_image request, c_state := ''creating'',
        c_observedAt := Some (w_clock v)\<rparr>"
      let ?v = "v\<lparr>w_fresh := Suc (w_fresh v), w_db := (w_db v)\<lparr>containers := containers (w_db v) @ [?row]\<rparr>\<rparr>"
      from committed(2) have fresh: "container_violation (containers (w_db v) @ [?row]) = None" and
        inner: "bindE (insert_container_action E actor context ''container.create'' ?cid hostId) (\<lambda>actionId.
          bindE (insert_candidate E actor ?cid actionId (configurationOf request) environment) (\<lambda>configId.
          retE (?cid, actionId, configId))) ?v = (Inr a, t)"
        by (auto simp: run split: option.splits)
      have row: "c_id ?row = ?cid" "c_dockerId ?row = None" by (simp_all add: blank_row_def)
      with inner obtain aid p where a: "a = (?cid, aid, p)" and
        wrote_rows: "wrote ''container.create'' ?cid hostId aid (w_db ?v) (w_db t)"
          "with_candidate p ?cid (configurationOf request) (w_db ?v) (w_db t)" "containers (w_db t) = containers (w_db ?v)"
        by (elim written_down) auto
      have unused: "?cid \<notin> c_id ` set (containers (w_db w))"
        using fresh row continues(2) by (auto simp: container_violation_def split: if_splits)
      from continues(3) tx committed(1) a have "bindE (audit_container E actor context ?cid (cq_name request)
          ''container.create.requested'' ''success'' (Some aid)) (\<lambda>_.
        bindE (stored_spec E (cq_name request) p) (\<lambda>spec. retE \<lparr>pr_containerId = ?cid, pr_actionId = aid,
          pr_desiredConfigId = p, pr_name = cq_name request, pr_spec = spec\<rparr>)) t = (r, u)"
        by (simp add: bindE_def [of "transaction _"])
      then obtain entry where u: "w_db u = (w_db t)\<lparr>auditEntries := auditEntries (w_db t) @ [entry]\<rparr>"
        and r: "isl r \<or> (\<exists>spec. r = Inr \<lparr>pr_containerId = ?cid, pr_actionId = aid, pr_desiredConfigId = p,
          pr_name = cq_name request, pr_spec = spec\<rparr>)"
        by (rule committed_rest)
      have "linked (w_db w) \<Longrightarrow> linked (w_db ?v)" using continues(2) by (auto intro!: linked_containers)
      then have "wrote ''container.create'' ?cid hostId aid (w_db w) (w_db u)"
        using wrote_rows(1) continues(2) by (auto simp: u wrote_audit) (auto simp: wrote_def)
      moreover have "with_candidate p ?cid (configurationOf request) (w_db w) (w_db u)"
        using wrote_rows(2) continues(2) by (simp add: u wrote_audit) (simp add: with_candidate_def)
      ultimately show ?thesis
        using wrote_rows(3) u row unused r continues(2) by (intro written [of ?cid aid p ?row]) auto
    qed
  qed
qed

lemma prepareReplace_cases:
  assumes "prepareReplace E cid request actor context w = (r, u)"
  obtains (unwritten) "isl r" "w_db u = w_db w"
    | (written) row aid p where "find (\<lambda>c. c_id c = cid) (containers (w_db w)) = Some row"
      "wrote ''container.replace'' cid (c_hostId row) aid (w_db w) (w_db u)"
      "with_candidate p cid (configurationOf request) (w_db w) (w_db u)" "containers (w_db u) = containers (w_db w)"
      "isl r \<or> (\<exists>name spec. r = Inr \<lparr>pr_containerId = cid, pr_actionId = aid, pr_desiredConfigId = p,
        pr_name = name, pr_spec = spec\<rparr>)"
proof (cases "find (\<lambda>d. dc_containerId d = cid \<and> dc_state d = ''current'') (containerDesiredConfigs (w_db w))")
  case None
  with assms show ?thesis by (intro unwritten) (auto simp: prepareReplace_def run)
next
  case (Some current)
  let ?row = "find (\<lambda>c. c_id c = cid) (containers (w_db w))"
  let ?rest = "\<lambda>environment. case ?row of None \<Rightarrow> throwE (OtherErr ''Cannot read properties of undefined'')
      | Some row \<Rightarrow> let name = or_default (rq_name request) (c_name row) in
        bindE (transaction (
          bindE (insert_container_action E actor context ''container.replace'' cid (c_hostId row)) (\<lambda>actionId.
          bindE (insert_candidate E actor cid actionId (configurationOf request) environment) (\<lambda>configId.
          retE (actionId, configId))))) (\<lambda>(actionId, configId).
        bindE (audit_container E actor context cid name ''container.replace.requested'' ''success'' (Some actionId)) (\<lambda>_.
        bindE (stored_spec E name configId) (\<lambda>spec.
        retE \<lparr>pr_containerId = cid, pr_actionId = actionId, pr_desiredConfigId = configId, pr_name = name, pr_spec = spec\<rparr>)))"
  have db: "stable (keeps w_db) (resolveEnvironment E entries previous)" for entries previous
    by (rule resolveEnvironment_keeps) simp
  from assms Some have "bindE (resolveEnvironment E (cq_environment request) (stored_variables (dc_id current) (w_db w))) ?rest w = (r, u)"
    by (simp add: prepareReplace_def run)
  then show ?thesis
  proof (cases rule: bind_frame [OF db, consumes 1, case_names thrown continues])
    case thrown
    then show ?thesis by (rule unwritten [rotated])
  next
    case (continues environment v)
    show ?thesis
    proof (cases ?row)
      case None
      with continues show ?thesis by (intro unwritten) (auto simp: run)
    next
      case (Some row)
      let ?tx = "bindE (insert_container_action E actor context ''container.replace'' cid (c_hostId row)) (\<lambda>actionId.
          bindE (insert_candidate E actor cid actionId (configurationOf request) environment) (\<lambda>configId.
          retE (actionId, configId)))"
      obtain r1 t where tx: "transaction ?tx v = (r1, t)" by fastforce
      from tx show ?thesis
      proof (cases rule: transaction_cases)
        case (rolled_back e)
        with tx Some continues show ?thesis by (intro unwritten) (auto simp: bindE_def Let_def)
      next
        case (committed a)
        have "cid \<in> c_id ` set (containers (w_db v))" using find_SomeD [OF Some] continues(2) by auto
        with committed(2) obtain aid p where a: "a = (aid, p)" and
          rows: "wrote ''container.replace'' cid (c_hostId row) aid (w_db v) (w_db t)"
            "with_candidate p cid (configurationOf request) (w_db v) (w_db t)" "containers (w_db t) = containers (w_db v)"
          by (elim written_down)
        let ?name = "or_default (rq_name request) (c_name row)"
        from continues(3) tx committed(1) a Some have "bindE (audit_container E actor context cid ?name
            ''container.replace.requested'' ''success'' (Some aid)) (\<lambda>_.
          bindE (stored_spec E ?name p) (\<lambda>spec. retE \<lparr>pr_containerId = cid, pr_actionId = aid,
            pr_desiredConfigId = p, pr_name = ?name, pr_spec = spec\<rparr>)) t = (r, u)"
          by (simp add: bindE_def [of "transaction _"] Let_def)
        then obtain entry where u: "w_db u = (w_db t)\<lparr>auditEntries := auditEntries (w_db t) @ [entry]\<rparr>"
          and r: "isl r \<or> (\<exists>spec. r = Inr \<lparr>pr_containerId = cid, pr_actionId = aid, pr_desiredConfigId = p,
            pr_name = ?name, pr_spec = spec\<rparr>)"
          by (rule committed_rest)
        show ?thesis
          using rows u r continues(2) Some by (intro written [of row aid p]) (auto simp: wrote_audit)
      qed
    qed
  qed
qed

section \<open>Asking and settling\<close>

text \<open>What a reading of the host comes to for a change, and what becomes of its action.\<close>

definition change_verdict :: "RecoveryContext \<Rightarrow> RecoveryDecision \<Rightarrow> database \<Rightarrow> verdict" where
  "change_verdict x decision db = (if is_no_action decision \<or> \<not> still_there x decision db then Undecided
     else if change_succeeded decision then Applied
     else (case decision of discard_pending _ \<Rightarrow> NotApplied | fail_operation _ \<Rightarrow> NotApplied | _ \<Rightarrow> Attention))"

definition change_status :: "verdict \<Rightarrow> string" where
  "change_status v = (case v of Applied \<Rightarrow> ''succeeded'' | Undecided \<Rightarrow> ''running'' | _ \<Rightarrow> ''failed'')"

lemma report_run:
  "\<exists>es vs. snd (report E operation decision failure w) =
     w\<lparr>w_db := (w_db w)\<lparr>auditEntries := es, events := vs\<rparr>\<rparr>"
  "isl (fst (report E operation decision failure w)) \<longleftrightarrow> \<not> change_succeeded decision"
proof -
  let ?u = "snd (report E operation decision failure w)"
  have "?u = w\<lparr>w_db := (w_db w)\<lparr>auditEntries := auditEntries (w_db ?u), events := events (w_db ?u)\<rparr>\<rparr>"
    by (cases decision) (simp_all add: report_def audit_container_def change_succeeded_def run)
  then show "\<exists>es vs. ?u = w\<lparr>w_db := (w_db w)\<lparr>auditEntries := es, events := vs\<rparr>\<rparr>" by blast
  show "isl (fst (report E operation decision failure w)) \<longleftrightarrow> \<not> change_succeeded decision"
    by (cases decision) (simp_all add: report_def audit_container_def change_succeeded_def run)
qed

lemma report_calm: "stable (keeps calm) (report E operation decision failure)"
  unfolding report_def by (intro change_calm) (auto split: RecoveryDecision.splits intro!: change_calm)

lemma settle_change_run:
  fixes E operation
  defines "x v \<equiv> recovery_context (pending_change operation) (claimed_ids (dg_containerId operation) (w_db v))"
  assumes "linked (w_db s)" and "dg_actionId operation = Some aid" and "aid \<noteq> []" and "action_open aid (w_db s)"
    and "settle_change E operation failure s = (r, w')"
  obtains whole v decision where "resync E (dg_hostId operation) s = (Inr whole, v)" "linked (w_db v)"
    "decision = classifyRecovery (recovery_input (pending_change operation) whole (w_db v))"
    "isl r \<longleftrightarrow> \<not> change_succeeded decision" "actions (w_db v) = actions (w_db s)" "linked (w_db w')"
    "if change_verdict (x v) decision (w_db v) = Undecided then kept_tables w' = kept_tables v \<and> actions (w_db w') = actions (w_db v)
     else kept_tables w' = kept_tables (v\<lparr>w_db := settled_tables (x v) decision (w_db v)\<rparr>)
       \<and> actions (w_db w') = finished_actions (Some aid) (fst (closing (x v) decision)) (w_clock v)
          (map_option Some (snd (closing (x v) decision))) (actions (w_db v))"
proof -
  let ?op = "pending_change operation"
  have op: "pn_hostId ?op = dg_hostId operation" "pn_containerId ?op = dg_containerId operation" "pn_actionId ?op = Some aid"
    using assms(3) by (simp_all add: pending_change_def)
  obtain whole v where read: "resync E (pn_hostId ?op) s = (Inr whole, v)" using resync_total by blast
  have v: "linked (w_db v)" using stableD [OF discovering.step_resync read] assms(2) by (simp add: linked_rel_def)
  have acts: "actions (w_db v) = actions (w_db s)" using keepsD [OF stable_resync read] by (simp add: outside_discovery_def)
  let ?decision = "classifyRecovery (recovery_input ?op whole (w_db v))"
  obtain d u where rec: "reconcileAndFinalize E ?op s = (Inr d, u)" and u: "linked (w_db u)"
    using reconcile_total [OF assms(2)] by blast
  from rec have d: "d = ?decision" by (auto simp: reconcile_run [OF read] Let_def split: if_splits prod.splits sum.splits)
  have mine: "may_claim (x v) (decided_config ?decision) (w_db v)"
    using assms(4,5) acts op by (simp add: x_def may_claim_def action_open_def)
  from rec assms(6) have rep: "report E operation ?decision failure u = (r, w')"
    by (simp add: settle_change_def d bindE_def)
  obtain es vs where w': "w' = u\<lparr>w_db := (w_db u)\<lparr>auditEntries := es, events := vs\<rparr>\<rparr>"
    using report_run(1) [of E operation ?decision failure u] by (auto simp: rep)
  have "if change_verdict (x v) ?decision (w_db v) = Undecided then kept_tables u = kept_tables v \<and> actions (w_db u) = actions (w_db v)
     else kept_tables u = kept_tables (v\<lparr>w_db := settled_tables (x v) ?decision (w_db v)\<rparr>)
       \<and> actions (w_db u) = finished_actions (Some aid) (fst (closing (x v) ?decision)) (w_clock v)
          (map_option Some (snd (closing (x v) ?decision))) (actions (w_db v))"
  proof (cases "is_no_action ?decision")
    case True
    with rec show ?thesis by (simp add: reconcile_run [OF read] Let_def change_verdict_def)
  next
    case False
    obtain r1 t where fin: "finalize E (x v) ?decision v = (r1, t)" by fastforce
    with False rec have t: "t = u"
      by (auto simp: reconcile_run [OF read] Let_def x_def op split: sum.splits)
    have r1: "r1 = Inr (still_there (x v) ?decision (w_db v))"
      using finalize_result [OF v _ False, of "x v" E] classified_names [of ?op] fin mine by (simp add: x_def)
    from fin show ?thesis
    proof (cases rule: finalize_cases)
      case (finalized entry)
      with False t op show ?thesis
        by (auto simp: change_verdict_def kept_tables_def x_def split: RecoveryDecision.splits)
    next
      case untouched
      with r1 t False show ?thesis by (simp add: change_verdict_def)
    qed
  qed
  then show ?thesis
    using read v acts u report_run(2) [of E operation ?decision failure u]
    by (intro that [of whole v ?decision]) (auto simp: rep w' op kept_tables_def linked_iff split: if_splits)
qed

end
