(* ===== verification/Container_Change.thy ===== *)
theory Container_Change
  imports Container_Management
begin

text \<open>
  What comes of a change to a container. Each operation of \<open>Container_Management\<close> is shown to
  implement one abstract account: it is refused and the tables are as they were, or it was written
  down, the agent was asked once, and the action and the configurations say what the reading of the
  host showed.
\<close>

section \<open>What a change leaves behind\<close>

text \<open>The container is on its host and says that it is the given configuration.\<close>

definition carries :: "string \<Rightarrow> string \<Rightarrow> database \<Rightarrow> bool" where
  "carries cid p db \<longleftrightarrow> (\<exists>row. find (\<lambda>c. c_id c = cid) (containers db) = Some row \<and> truthy (c_dockerId row)
     \<and> c_observedDesiredConfigId row = Some p)"

definition candidates :: "string \<Rightarrow> database \<Rightarrow> config_row list" where
  "candidates cid db = filter (\<lambda>d. dc_containerId d = cid \<and> dc_state d = ''pending'') (containerDesiredConfigs db)"

definition currents :: "string \<Rightarrow> database \<Rightarrow> config_row list" where
  "currents cid db = filter (\<lambda>d. dc_containerId d = cid \<and> dc_state d = ''current'') (containerDesiredConfigs db)"

text \<open>What a reading of the host can show of the container, once it is written down.\<close>

definition present :: "string \<Rightarrow> database \<Rightarrow> bool" where
  "present cid db \<longleftrightarrow> (\<exists>row. find (\<lambda>c. c_id c = cid) (containers db) = Some row \<and> truthy (c_dockerId row))"

definition disputed :: "string \<Rightarrow> database \<Rightarrow> bool" where
  "disputed cid db \<longleftrightarrow> (\<exists>row. find (\<lambda>c. c_id c = cid) (containers db) = Some row \<and> c_identityConflict row \<noteq> None)"

text \<open>
  The change took: the host was read completely, nobody disputes the container, and it is gone, or
  it is there and carries the candidate with the configuration that was asked for.
\<close>

definition shows_change :: "RecoveryOperation \<Rightarrow> string \<Rightarrow> Configuration \<Rightarrow> bool \<Rightarrow> database \<Rightarrow> bool" where
  "shows_change operation cid config whole db \<longleftrightarrow> whole \<and> \<not> disputed cid db
     \<and> (if operation = remove then \<not> present cid db
        else (\<exists>d \<in> set (candidates cid db). dc_id d \<noteq> [] \<and> dc_configuration d = config \<and> carries cid (dc_id d) db))"

text \<open>
  The verdict a reading gives: applied exactly when it shows the change, not applied only on a complete
  reading that shows that it did not take, and for a removal one of the two unless the container is
  disputed, or is there and carries no configuration of its own.
\<close>

definition reading_verdict :: "RecoveryOperation \<Rightarrow> string \<Rightarrow> Configuration \<Rightarrow> bool \<Rightarrow> database \<Rightarrow> verdict \<Rightarrow> bool" where
  "reading_verdict operation cid config whole db v \<longleftrightarrow>
     (v = Applied \<longleftrightarrow> shows_change operation cid config whole db)
     \<and> (v = NotApplied \<longrightarrow> whole \<and> \<not> disputed cid db \<and> (operation \<noteq> create \<longrightarrow> present cid db))
     \<and> (v = Attention \<longrightarrow> disputed cid db \<or> whole \<and> (present cid db \<or> operation = replace))
     \<and> (v = Undecided \<longrightarrow> \<not> disputed cid db \<and> (whole \<longrightarrow> operation \<noteq> remove))"

text \<open>
  What the tables say after the verdict, next to what they said after the reading. A container that
  needs attention keeps its configurations; when nothing is concluded nothing changes.
\<close>

definition change_after :: "RecoveryOperation \<Rightarrow> string \<Rightarrow> Configuration \<Rightarrow> verdict \<Rightarrow> database \<Rightarrow> database \<Rightarrow> bool" where
  "change_after operation cid config v seen db \<longleftrightarrow> (case v of
      Applied \<Rightarrow> if operation = remove then cid \<notin> c_id ` set (containers db)
        else candidates cid db = [] \<and> (\<exists>d \<in> set (containerDesiredConfigs db). dc_containerId d = cid
          \<and> dc_state d = ''current'' \<and> dc_configuration d = config \<and> carries cid (dc_id d) db)
    | NotApplied \<Rightarrow> (case operation of
          create \<Rightarrow> \<forall>c \<in> set (containers db). c_id c = cid \<longrightarrow> c_dockerId c \<noteq> None
        | replace \<Rightarrow> candidates cid db = [] \<and> currents cid db = currents cid seen
        | remove \<Rightarrow> present cid db \<and> containerDesiredConfigs db = containerDesiredConfigs seen)
    | Attention \<Rightarrow> map c_id (containers db) = map c_id (containers seen)
        \<and> containerDesiredConfigs db = containerDesiredConfigs seen
    | Undecided \<Rightarrow> change_open cid db \<and> containers db = containers seen
        \<and> containerDesiredConfigs db = containerDesiredConfigs seen)"

lemma promotedD:
  assumes "classifyRecovery (recovery_input operation whole db) = promote_pending p"
  shows "whole" "pn_operation operation \<noteq> remove" "carries (pn_containerId operation) p db"
    "\<exists>d \<in> set (containerDesiredConfigs db). candidate p d \<and> dc_containerId d = pn_containerId operation"
proof -
  note s = classifyRecovery_def recovery_input_def Let_def truthy_iff
  show "whole" "pn_operation operation \<noteq> remove"
    using assms by (auto simp: s split: if_splits option.splits)
  show "carries (pn_containerId operation) p db"
    using assms by (cases "find (\<lambda>c. c_id c = pn_containerId operation) (containers db)")
      (auto simp: s carries_def split: if_splits option.splits)
  show "\<exists>d \<in> set (containerDesiredConfigs db). candidate p d \<and> dc_containerId d = pn_containerId operation"
    using classified_names [of operation whole db] by (simp add: names_candidate_def assms decided_config_def)
qed

lemma decided_operation:
  "classifyRecovery (recovery_input operation whole db) = finalize_remove \<Longrightarrow> pn_operation operation = remove"
  "classifyRecovery (recovery_input operation whole db) = fail_operation reason \<Longrightarrow> pn_operation operation = remove
     \<and> present (pn_containerId operation) db"
  "classifyRecovery (recovery_input operation whole db) = discard_pending p \<Longrightarrow> pn_operation operation \<noteq> remove"
  by (cases "find (\<lambda>c. c_id c = pn_containerId operation) (containers db)",
      auto simp: classifyRecovery_def recovery_input_def Let_def truthy_iff present_def split: if_splits option.splits)+

text \<open>Once its candidate is gone or promoted, a container has none.\<close>

lemma promoted_candidates:
  assumes "linked db" and "d \<in> set (containerDesiredConfigs db)" "candidate p d" "dc_containerId d = rx_containerId x"
    and "\<exists>c. decision = (if c then promote_pending p else discard_pending p)"
    and "rx_operation x = create \<Longrightarrow> decision = promote_pending p"
  shows "candidates (rx_containerId x) (settled_tables x decision db) = []"
proof -
  have "e = d" if "e \<in> set (containerDesiredConfigs db)" "dc_containerId e = rx_containerId x" "dc_state e = ''pending''" for e
    using pending_unique [OF assms(1,2) _ that(1,3)] assms(3,4) that(2) by (simp add: candidate_def)
  with assms(3,5,6) show ?thesis
    by (auto simp: candidates_def filter_Nil_iff_ex settled_tables_def Let_def ex_upd ex_del_iff candidate_def split: if_splits)
qed


lemma change_after_cong:
  assumes "kept_tables w' = kept_tables w" and "v \<noteq> Undecided"
  shows "change_after operation cid config v seen (w_db w') = change_after operation cid config v seen (w_db w)"
  using assms by (cases v; cases operation)
    (simp_all add: change_after_def kept_tables_def candidates_def currents_def carries_def present_def)

lemma currents_discarded: "currents cid (drop_configs (candidate p) db) = currents cid db"
proof -
  have "filter (\<lambda>d. dc_containerId d = cid \<and> dc_state d = ''current'') (del (candidate p) rows)
      = filter (\<lambda>d. dc_containerId d = cid \<and> dc_state d = ''current'') rows" for rows
    by (induction rows) (auto simp: candidate_def)
  then show ?thesis by (simp add: currents_def drop_configs_def Let_def)
qed

lemma change_verdict_simps:
  "change_verdict x (promote_pending p) db = (if still_there x (promote_pending p) db then Applied else Undecided)"
  "change_verdict x finalize_remove db = Applied"
  "change_verdict x (discard_pending p) db = (if still_there x (discard_pending p) db then NotApplied else Undecided)"
  "change_verdict x (fail_operation r) db = NotApplied"
  "change_verdict x (identity_conflict r) db = Attention" "change_verdict x (needs_attention r) db = Attention"
  "change_verdict x (no_action r) db = Undecided"
  by (simp_all add: change_verdict_def is_no_action_def change_succeeded_def still_there_def)

lemma settled_after:
  fixes operation :: PendingOperation
  defines "cid \<equiv> pn_containerId operation"
  assumes "linked db" and "decision = classifyRecovery (recovery_input operation whole db)"
    and x: "rx_containerId x = cid" "rx_operation x = pn_operation operation"
    and v: "v = change_verdict x decision db" "v \<noteq> Undecided"
    and config: "\<And>d. d \<in> set (containerDesiredConfigs db) \<Longrightarrow> dc_containerId d = cid \<Longrightarrow> dc_state d = ''pending'' \<Longrightarrow>
      pn_operation operation \<noteq> remove \<Longrightarrow> dc_configuration d = config"
  shows "change_after (pn_operation operation) cid config v db (settled_tables x decision db)"
proof (cases decision)
  case (promote_pending p)
  note decided = promotedD [of operation whole db p, folded assms(3), OF promote_pending, folded cid_def]
  then obtain d where d: "d \<in> set (containerDesiredConfigs db)" "candidate p d" "dc_containerId d = cid" by blast
  have "v = Applied" using v by (simp add: change_verdict_simps promote_pending split: if_splits)
  moreover have "candidates cid (settled_tables x decision db) = []"
    unfolding x(1) [symmetric] by (rule promoted_candidates [OF assms(2) d(1,2)]) (use d x promote_pending in \<open>auto intro: exI [of _ True]\<close>)
  moreover have "d\<lparr>dc_state := ''current'', dc_actionId := None\<rparr> \<in> set (containerDesiredConfigs (settled_tables x decision db))"
    using d(1,2) by (auto simp: settled_tables_def promote_pending Let_def in_upd_iff candidate_def intro!: bexI [of _ d])
  moreover have "carries cid p (settled_tables x decision db)"
    using decided(3) by (simp add: carries_def settled_tables_def promote_pending Let_def)
  ultimately show ?thesis
    using decided(2) config [OF d(1,3)] d(2,3) unfolding change_after_def
    by (auto simp: candidate_def intro!: bexI [of _ "d\<lparr>dc_state := ''current'', dc_actionId := None\<rparr>"])
next
  case (discard_pending p)
  note op = decided_operation(3) [of operation whole db, folded assms(3), OF discard_pending]
  have na: "v = NotApplied" using v by (simp add: change_verdict_simps discard_pending split: if_splits)
  from discard_pending classified_names [of operation whole db, folded assms(3)] obtain d where
    d: "d \<in> set (containerDesiredConfigs db)" "candidate p d" "dc_containerId d = cid"
    by (auto simp: names_candidate_def decided_config_def cid_def)
  show ?thesis
  proof (cases "pn_operation operation = create")
    case True
    with x show ?thesis by (auto simp: na change_after_def settled_tables_def discard_pending drop_containers_def)
  next
    case False
    have "candidates (rx_containerId x) (settled_tables x decision db) = []"
      by (rule promoted_candidates [OF assms(2) d(1,2)]) (use d x discard_pending False in \<open>auto intro: exI [of _ False]\<close>)
    with False op x show ?thesis
      by (cases "pn_operation operation")
        (simp_all add: na change_after_def settled_tables_def discard_pending currents_discarded)
  qed
next
  case finalize_remove
  note op = decided_operation(1) [of operation whole db, folded assms(3), OF finalize_remove]
  have "v = Applied" using v by (simp add: change_verdict_simps finalize_remove split: if_splits)
  with op x show ?thesis by (auto simp: change_after_def settled_tables_def finalize_remove drop_containers_def)
next
  case (fail_operation reason)
  note op = decided_operation(2) [of operation whole db, folded assms(3), OF fail_operation]
  have "v = NotApplied" using v by (simp add: change_verdict_simps fail_operation split: if_splits)
  with op show ?thesis by (simp add: change_after_def settled_tables_def fail_operation cid_def)
next
  case (identity_conflict reason)
  have "v = Attention" using v by (simp add: change_verdict_simps identity_conflict)
  then show ?thesis by (simp add: change_after_def settled_tables_def identity_conflict map_upd_same)
qed (use v in \<open>simp_all add: change_after_def change_verdict_simps settled_tables_def\<close>)

text \<open>The classifier gives the verdict of the reading.\<close>

lemma candidate_found:
  assumes "linked db" and "d \<in> set (candidates cid db)"
  shows "config_in ''pending'' (filter (\<lambda>d. dc_containerId d = cid) (containerDesiredConfigs db)) = Some (dc_id d)"
proof -
  from assms(2) have d: "d \<in> set (containerDesiredConfigs db)" "dc_containerId d = cid" "dc_state d = ''pending''"
    by (simp_all add: candidates_def)
  then obtain e where e: "find (\<lambda>d. dc_state d = ''pending'') (filter (\<lambda>d. dc_containerId d = cid) (containerDesiredConfigs db)) = Some e"
    by (cases "find (\<lambda>d. dc_state d = ''pending'') (filter (\<lambda>d. dc_containerId d = cid) (containerDesiredConfigs db))")
      (auto simp: find_None_iff)
  from find_SomeD [OF e] pending_unique [OF assms(1) d(1,3)] d(2) have "e = d" by auto
  with e show ?thesis by (simp add: config_in_def)
qed

lemma shown_applied:
  assumes "linked db" and "shows_change (pn_operation operation) (pn_containerId operation) config whole db"
  shows "change_succeeded (classifyRecovery (recovery_input operation whole db))"
proof (cases "pn_operation operation = remove")
  case True
  with assms(2) show ?thesis
    by (cases "find (\<lambda>c. c_id c = pn_containerId operation) (containers db)")
      (auto simp: classifyRecovery_def recovery_input_def Let_def shows_change_def present_def disputed_def change_succeeded_def)
next
  case False
  with assms(2) obtain d row where d: "d \<in> set (candidates (pn_containerId operation) db)" "dc_id d \<noteq> []" and
    row: "find (\<lambda>c. c_id c = pn_containerId operation) (containers db) = Some row" "truthy (c_dockerId row)"
    "c_observedDesiredConfigId row = Some (dc_id d)" "c_identityConflict row = None" "whole"
    by (auto simp: shows_change_def disputed_def carries_def)
  with False candidate_found [OF assms(1) d(1)] show ?thesis
    by (simp add: classifyRecovery_def recovery_input_def Let_def change_succeeded_def truthy_iff)
qed

lemma applied_shown:
  assumes "change_succeeded (classifyRecovery (recovery_input operation whole db))"
    and "\<And>d. d \<in> set (containerDesiredConfigs db) \<Longrightarrow> dc_containerId d = pn_containerId operation \<Longrightarrow> dc_state d = ''pending'' \<Longrightarrow>
      pn_operation operation \<noteq> remove \<Longrightarrow> dc_configuration d = config"
  shows "shows_change (pn_operation operation) (pn_containerId operation) config whole db"
proof (cases "classifyRecovery (recovery_input operation whole db)")
  case (promote_pending p)
  note decided = promotedD [OF promote_pending]
  from decided(4) obtain d where "d \<in> set (containerDesiredConfigs db)" "candidate p d" "dc_containerId d = pn_containerId operation"
    by blast
  moreover have "p \<noteq> []" "\<not> disputed (pn_containerId operation) db"
    using promote_pending
    by (auto simp: classifyRecovery_def recovery_input_def Let_def truthy_iff disputed_def split: if_splits option.splits)
  ultimately show ?thesis
    using decided assms(2) by (auto simp: shows_change_def candidates_def candidate_def)
next
  case finalize_remove
  then show ?thesis
    by (cases "find (\<lambda>c. c_id c = pn_containerId operation) (containers db)")
      (auto simp: classifyRecovery_def recovery_input_def Let_def shows_change_def present_def disputed_def
        split: if_splits option.splits)
qed (use assms(1) in \<open>simp_all add: change_succeeded_def\<close>)

lemma unapplied_reading:
  fixes operation :: PendingOperation and whole db
  defines "decision \<equiv> classifyRecovery (recovery_input operation whole db)" and "cid \<equiv> pn_containerId operation"
  shows "decision = discard_pending p \<Longrightarrow> whole \<and> \<not> disputed cid db \<and> (pn_operation operation \<noteq> create \<longrightarrow> present cid db)"
    "decision = fail_operation reason \<Longrightarrow> whole \<and> \<not> disputed cid db \<and> present cid db"
    "decision = identity_conflict reason \<Longrightarrow> disputed cid db"
    "decision = needs_attention reason \<Longrightarrow> whole \<and> (present cid db \<or> pn_operation operation = replace)"
    "decision = no_action reason \<Longrightarrow> \<not> disputed cid db \<and> (whole \<longrightarrow> pn_operation operation \<noteq> remove)"
  unfolding decision_def cid_def
  by (cases "find (\<lambda>c. c_id c = pn_containerId operation) (containers db)"; cases "pn_operation operation";
      auto simp: classifyRecovery_def recovery_input_def Let_def present_def disputed_def split: if_splits option.splits)+



section \<open>Asking once and settling\<close>

definition change_request :: "DispatchedChange \<Rightarrow> request" where
  "change_request operation = \<lparr>rq_agentId = dg_agentId operation, rq_capability = dg_capability operation,
     rq_payload = dg_payload operation\<rparr>"

text \<open>The request reached the host and its answer did not come back.\<close>

definition lost :: "env \<Rightarrow> request \<Rightarrow> bool" where
  "lost E rq \<longleftrightarrow> (\<exists>history error. e_answer E history rq = Inl error
     \<and> code_or ''DOCKER_OPERATION_FAILED'' error \<in> set UNKNOWN_OUTCOME)"

text \<open>
  How a verdict was reached: not at all, because the answer was lost, and then the change stays open;
  or from a reading of the host that was made after the request, and then the tables follow it.
\<close>

definition established :: "env \<Rightarrow> RecoveryOperation \<Rightarrow> string \<Rightarrow> string \<Rightarrow> Configuration \<Rightarrow> request \<Rightarrow> verdict \<Rightarrow> world \<Rightarrow> bool" where
  "established E operation hostId cid config rq v w' \<longleftrightarrow>
     (v = Undecided \<and> lost E rq \<and> change_open cid (w_db w')) \<or>
     (\<exists>asked whole seen. resync E hostId asked = (Inr whole, seen) \<and> mutations asked = mutations w'
        \<and> reading_verdict operation cid config whole (w_db seen) v
        \<and> change_after operation cid config v (w_db seen) (w_db w'))"

text \<open>The row of the action that the change was written down with, and what becomes of it.\<close>

definition recorded :: "string \<Rightarrow> string \<Rightarrow> string \<Rightarrow> string \<Rightarrow> action_row \<Rightarrow> bool" where
  "recorded cap cid aid status a \<longleftrightarrow> act_id a = aid \<and> act_capability a = cap \<and> act_targetType a = Some ''container''
     \<and> act_targetId a = Some cid \<and> act_status a = status"

lemma recorded_open: "a \<in> set (actions db) \<Longrightarrow> recorded cap cid aid ''running'' a \<Longrightarrow> cap \<in> set UNFINISHABLE \<Longrightarrow> change_open cid db"
  by (auto simp: recorded_def change_open_def open_action_def list_ex_iff)

lemma finished_appended:
  assumes "aid \<notin> act_id ` set rows" and "aid \<noteq> []" and "recorded cap cid aid st a"
  shows "\<exists>a'. finished_actions (Some aid) status t code (rows @ [a]) = rows @ [a'] \<and> recorded cap cid aid status a'"
  using upd_appended [OF assms(1), of a] assms(2,3) by (auto simp: finished_actions_def recorded_def)

lemma closing_status:
  "change_verdict x decision db \<noteq> Undecided \<Longrightarrow> fst (closing x decision) = change_status (change_verdict x decision db)"
  by (cases decision) (simp_all add: change_verdict_simps closing_def change_status_def split: if_splits)

lemma decided_verdict:
  assumes "decision = classifyRecovery (recovery_input operation whole db)"
  shows "change_verdict x decision db = Applied \<longleftrightarrow> change_succeeded decision"
proof (cases decision)
  case (promote_pending p)
  with classified_names [of operation whole db, folded assms] show ?thesis
    by (auto simp: change_verdict_simps change_succeeded_def still_there_def names_candidate_def decided_config_def list_ex_iff)
qed (simp_all add: change_verdict_simps change_succeeded_def)

lemma reading_verdictI:
  assumes "linked db" and "decision = classifyRecovery (recovery_input operation whole db)"
    and "rx_containerId x = pn_containerId operation" "rx_operation x = pn_operation operation"
    and "\<And>d. d \<in> set (containerDesiredConfigs db) \<Longrightarrow> dc_containerId d = pn_containerId operation \<Longrightarrow> dc_state d = ''pending'' \<Longrightarrow>
      pn_operation operation \<noteq> remove \<Longrightarrow> dc_configuration d = config"
  shows "reading_verdict (pn_operation operation) (pn_containerId operation) config whole db (change_verdict x decision db)"
proof -
  have "change_verdict x decision db = Applied \<longleftrightarrow> shows_change (pn_operation operation) (pn_containerId operation) config whole db"
    using shown_applied [OF assms(1)] applied_shown [of operation whole db config] assms(2,5) decided_verdict [OF assms(2)] by blast
  moreover note seen = unapplied_reading [where operation = operation and whole = whole and db = db, folded assms(2)]
  have "\<not> disputed (pn_containerId operation) db \<and> (whole \<longrightarrow> pn_operation operation \<noteq> remove)"
    if "change_verdict x decision db = Undecided"
    using that seen decided_operation(3) [of operation whole db, folded assms(2)] promotedD(1,2) [of operation whole db, folded assms(2)]
      applied_shown [of operation whole db config, folded assms(2)] assms(5)
    by (cases decision) (auto simp: change_verdict_simps shows_change_def change_succeeded_def)
  ultimately show ?thesis unfolding reading_verdict_def
    using seen by (cases decision) (auto simp: change_verdict_simps split: if_splits)
qed

lemma settle_change_calm: "stable (keeps calm) (settle_change E operation failure)"
  unfolding settle_change_def by (intro frame.stable_rules reconcile_calm report_calm)

lemma runOperation_run:
  fixes operation :: DispatchedChange
  defines "cid \<equiv> dg_containerId operation" and "cap \<equiv> dg_capability operation"
  assumes "linked (w_db s)" and action: "dg_actionId operation = Some aid" "aid \<noteq> []"
    and rows: "actions (w_db s) = old @ [a]" "aid \<notin> act_id ` set old" "recorded cap cid aid ''running'' a"
    and cap: "isMutating cap" "cap \<in> set UNFINISHABLE"
    and config: "\<And>d. d \<in> set (containerDesiredConfigs (w_db s)) \<Longrightarrow> dc_containerId d = cid \<Longrightarrow> dc_state d = ''pending'' \<Longrightarrow>
      dg_operation operation \<noteq> remove \<Longrightarrow> dc_configuration d = config"
    and asked: "runOperation E operation s = (r, w')"
  shows "\<exists>v a'. mutations w' = mutations s @ [change_request operation] \<and> w_held w' = w_held s \<and> linked (w_db w')
    \<and> actions (w_db w') = old @ [a'] \<and> recorded cap cid aid (change_status v) a' \<and> (\<not> isl r \<longleftrightarrow> v = Applied)
    \<and> established E (dg_operation operation) (dg_hostId operation) cid config (change_request operation) v w'"
proof -
  define rq where "rq = change_request operation"
  define u where "u = s\<lparr>w_sent := w_sent s @ [rq], w_clock := w_clock s + int (e_takes E rq)\<rparr>"
  have u: "mutations u = mutations s @ [rq]" "w_held u = w_held s" "w_db u = w_db s"
    using cap(1) unfolding u_def rq_def change_request_def cap_def by (simp_all add: mutations_def)
  have "runOperation E operation s = (case e_answer E (w_sent s) rq of
      Inl error \<Rightarrow> if code_or ''DOCKER_OPERATION_FAILED'' error \<in> set UNKNOWN_OUTCOME
        then unresolved_change E operation (code_or ''DOCKER_OPERATION_FAILED'' error) u
        else settle_change E operation (as_app_error error) u
    | Inr _ \<Rightarrow> settle_change E operation None u)"
    unfolding runOperation_def run_try u_def rq_def change_request_def
    by (simp add: dispatch_request_def Let_def split: sum.split)
  then consider (lost) code error where "unresolved_change E operation code u = (r, w')"
      "e_answer E (w_sent s) (change_request operation) = Inl error" "code_or ''DOCKER_OPERATION_FAILED'' error \<in> set UNKNOWN_OUTCOME"
    | (read) failure where "settle_change E operation failure u = (r, w')"
    using asked by (auto simp: rq_def split: sum.splits if_splits)
  then show ?thesis
  proof cases
    case lost
    from lost(1) obtain es where w': "w' = u\<lparr>w_db := (w_db u)\<lparr>auditEntries := es\<rparr>\<rparr>" and r: "isl r"
      by (auto simp: unresolved_change_def audit_container_def run)
    have "change_open cid (w_db w')"
      by (rule recorded_open [OF _ rows(3) cap(2)]) (simp add: w' u rows(1))
    with rows u w' r assms(3) lost(2,3) show ?thesis unfolding rq_def
      by (intro exI [of _ Undecided] exI [of _ a]) (simp add: established_def lost_def change_status_def linked_iff, blast)
  next
    case read
    have open': "action_open aid (w_db u)"
      using rows u by (simp add: action_open_def recorded_def open_action_def)
    have "linked (w_db u)" using assms(3) u by simp
    from this action open' read show ?thesis
    proof (rule settle_change_run)
      fix whole and v :: world and decision
      let ?x = "recovery_context (pending_change operation) (claimed_ids (dg_containerId operation) (w_db v))"
      let ?v = "change_verdict ?x decision (w_db v)"
      assume resync: "resync E (dg_hostId operation) u = (Inr whole, v)" and v: "linked (w_db v)"
        and decision: "decision = classifyRecovery (recovery_input (pending_change operation) whole (w_db v))"
        and r: "isl r \<longleftrightarrow> \<not> change_succeeded decision" and acts: "actions (w_db v) = actions (w_db u)" and w': "linked (w_db w')"
        and after: "if ?v = Undecided then kept_tables w' = kept_tables v \<and> actions (w_db w') = actions (w_db v)
          else kept_tables w' = kept_tables (v\<lparr>w_db := settled_tables ?x decision (w_db v)\<rparr>)
            \<and> actions (w_db w') = finished_actions (Some aid) (fst (closing ?x decision)) (w_clock v)
              (map_option Some (snd (closing ?x decision))) (actions (w_db v))"
      have "calm w' = calm u" using settle_change_calm read by (rule keepsD)
      then have calm: "mutations w' = mutations s @ [rq]" "w_held w' = w_held s" using u by (simp_all add: calm_def)
      have applied: "\<not> isl r \<longleftrightarrow> ?v = Applied"
        using r decided_verdict [OF decision] by simp
      have fewer: "set (containerDesiredConfigs (w_db v)) \<subseteq> set (containerDesiredConfigs (w_db s))"
        using stableD [OF discovering.step_resync resync] u(3) by (simp add: linked_rel_def)
      have verdict: "reading_verdict (dg_operation operation) cid config whole (w_db v) ?v"
        using reading_verdictI [OF v decision, of ?x config] config fewer by (auto simp: pending_change_def cid_def)
      have seen: "established E (dg_operation operation) (dg_hostId operation) cid config rq ?v w'"
        if "change_after (dg_operation operation) cid config ?v (w_db v) (w_db w')"
        unfolding established_def using resync calm(1) u(1) verdict that by metis
      show ?thesis
      proof (cases "?v = Undecided")
        case True
        with after acts rows u have "actions (w_db w') = old @ [a]" by simp
        with recorded_open [OF _ rows(3) cap(2)] have "change_open cid (w_db w')" by simp
        with True after have "change_after (dg_operation operation) cid config ?v (w_db v) (w_db w')"
          by (simp add: change_after_def kept_tables_def)
        from seen [OF this] True after acts rows u calm w' applied show ?thesis unfolding rq_def
          by (intro exI [of _ Undecided] exI [of _ a]) (simp add: change_status_def)
      next
        case False
        let ?after = "v\<lparr>w_db := settled_tables ?x decision (w_db v)\<rparr>"
        have "change_after (dg_operation operation) cid config ?v (w_db v) (w_db ?after)"
          using settled_after [OF v decision _ _ refl False, of config] config fewer
          by (auto simp: pending_change_def cid_def)
        then have "change_after (dg_operation operation) cid config ?v (w_db v) (w_db w')"
          using after False change_after_cong [of w' ?after, OF _ False] by simp
        note seen [OF this]
        moreover obtain a' where "actions (w_db w') = old @ [a']" "recorded cap cid aid (change_status ?v) a'"
          using finished_appended [OF rows(2) action(2) rows(3)] after False acts rows(1) u(3) closing_status [OF False]
          by (metis (no_types, lifting))
        ultimately show ?thesis using calm w' applied unfolding rq_def by blast
      qed
    qed
  qed
qed


section \<open>The account of an operation\<close>

definition refused :: "world \<Rightarrow> world \<Rightarrow> (js_error + 'a) \<Rightarrow> bool" where
  "refused w w' r \<longleftrightarrow> isl r \<and> w_db w' = w_db w \<and> mutations w' = mutations w"

text \<open>The change was written down, and what was written could not be read back.\<close>

definition stranded :: "string \<Rightarrow> world \<Rightarrow> world \<Rightarrow> (js_error + 'a) \<Rightarrow> bool" where
  "stranded cid w w' r \<longleftrightarrow> isl r \<and> change_open cid (w_db w') \<and> linked (w_db w') \<and> mutations w' = mutations w"

text \<open>The request for a change: of the agent of the host, about that container and what runs it.\<close>

definition asks_for :: "RecoveryOperation \<Rightarrow> string \<Rightarrow> string option \<Rightarrow> string \<Rightarrow> world \<Rightarrow> request \<Rightarrow> bool" where
  "asks_for operation hostId dockerId cid w rq \<longleftrightarrow> reaches w hostId (rq_agentId rq) \<and> rq_capability rq = AUDIT operation
     \<and> (case operation of
          create \<Rightarrow> \<exists>p spec. rq_payload rq = CreateContainer cid p spec
        | replace \<Rightarrow> \<exists>p spec. rq_payload rq = ReplaceContainer (the dockerId) cid p spec
        | remove \<Rightarrow> \<exists>stopFirst. rq_payload rq = RemoveContainer (the dockerId) stopFirst)"

definition accounted :: "env \<Rightarrow> RecoveryOperation \<Rightarrow> string \<Rightarrow> string option \<Rightarrow> string \<Rightarrow> Configuration \<Rightarrow> world \<Rightarrow> world
    \<Rightarrow> (js_error + 'a) \<Rightarrow> bool" where
  "accounted E operation hostId dockerId cid config w w' r \<longleftrightarrow> (\<exists>v rq a aid.
     mutations w' = mutations w @ [rq] \<and> asks_for operation hostId dockerId cid w rq \<and> linked (w_db w')
     \<and> actions (w_db w') = actions (w_db w) @ [a] \<and> aid \<notin> act_id ` set (actions (w_db w))
     \<and> recorded (AUDIT operation) cid aid (change_status v) a \<and> (\<not> isl r \<longleftrightarrow> v = Applied)
     \<and> established E operation hostId cid config rq v w')"

lemma AUDIT_mutating: "isMutating (AUDIT operation)" "AUDIT operation \<in> set UNFINISHABLE"
  by (simp_all add: isMutating_def MUTATING_CAPABILITIES_def AUDIT_def UNFINISHABLE_def split: RecoveryOperation.split)

lemma insert_container_action_uuid:
  "insert_container_action E actor context cap cid hostId w = (Inr aid, u) \<Longrightarrow> \<exists>n. aid = e_uuid E n"
  by (auto simp: insert_container_action_def run split: option.splits if_splits)

lemma prepareCreate_uuid:
  "prepareCreate E request hostId actor context w = (Inr p, u) \<Longrightarrow> \<exists>n. pr_actionId p = e_uuid E n"
  unfolding prepareCreate_def
  by (auto simp: bindE_Inr transaction_Inr retE_eq dest: insert_container_action_uuid)

lemma prepareReplace_uuid:
  "prepareReplace E cid request actor context w = (Inr p, u) \<Longrightarrow> \<exists>n. pr_actionId p = e_uuid E n"
  unfolding prepareReplace_def
  by (auto simp: bindE_Inr transaction_Inr retE_eq Let_def throw_app_def throwE_def split: option.splits)
    (erule insert_container_action_uuid)

text \<open>A change that has been written down, once its agent is asked.\<close>

lemma wrote_run:
  fixes operation :: DispatchedChange
  assumes "wrote (AUDIT (dg_operation operation)) (dg_containerId operation) hostId aid (w_db w) (w_db u)"
    and "linked (w_db w)" and "mutations u = mutations w" and "dg_capability operation = AUDIT (dg_operation operation)"
    and "dg_actionId operation = Some aid" and "aid \<noteq> []"
    and "\<And>d. d \<in> set (containerDesiredConfigs (w_db u)) \<Longrightarrow> dc_containerId d = dg_containerId operation \<Longrightarrow>
      dc_state d = ''pending'' \<Longrightarrow> dg_operation operation \<noteq> remove \<Longrightarrow> dc_configuration d = config"
    and "runOperation E operation u = (r, w')"
    and "asks_for (dg_operation operation) (dg_hostId operation) dockerId (dg_containerId operation) w (change_request operation)"
  shows "accounted E (dg_operation operation) (dg_hostId operation) dockerId (dg_containerId operation) config w w' r"
proof -
  let ?cap = "AUDIT (dg_operation operation)"
  from assms(1,2) obtain a where u: "linked (w_db u)" "actions (w_db u) = actions (w_db w) @ [a]"
    "aid \<notin> act_id ` set (actions (w_db w))" "recorded ?cap (dg_containerId operation) aid ''running'' a"
    by (auto simp: wrote_def recorded_def)
  have "isMutating (dg_capability operation)" "dg_capability operation \<in> set UNFINISHABLE"
    using AUDIT_mutating assms(4) by simp_all
  then have run: "\<exists>v a'. mutations w' = mutations u @ [change_request operation] \<and> w_held w' = w_held u \<and> linked (w_db w')
    \<and> actions (w_db w') = actions (w_db w) @ [a'] \<and> recorded (dg_capability operation) (dg_containerId operation) aid (change_status v) a'
    \<and> (\<not> isl r \<longleftrightarrow> v = Applied)
    \<and> established E (dg_operation operation) (dg_hostId operation) (dg_containerId operation) config (change_request operation) v w'"
    using u(4) by (intro runOperation_run [where config = config, OF u(1) assms(5,6) u(2,3) _ _ _ _ assms(8)])
      (simp_all add: assms(4,7))
  with assms(3,9) u(3) show ?thesis unfolding accounted_def assms(4) by metis
qed

lemma wrote_stranded:
  assumes "wrote (AUDIT operation) cid hostId aid (w_db w) (w_db u)" and "linked (w_db w)" and "mutations u = mutations w" and "isl r"
  shows "stranded cid w u r"
proof -
  from assms(1) obtain a where a: "actions (w_db u) = actions (w_db w) @ [a]" "recorded (AUDIT operation) cid aid ''running'' a"
    by (auto simp: wrote_def recorded_def)
  from a(1) have "a \<in> set (actions (w_db u))" by simp
  from recorded_open [OF this a(2) AUDIT_mutating(2)] assms show ?thesis by (simp add: stranded_def wrote_def)
qed

lemma asks_for_held [simp]:
  "asks_for operation hostId dockerId cid (w\<lparr>w_held := h\<rparr>) rq = asks_for operation hostId dockerId cid w rq"
  by (simp add: asks_for_def)

lemma established_held [simp]:
  "established E operation hostId cid config rq v (w'\<lparr>w_held := h\<rparr>) = established E operation hostId cid config rq v w'"
  by (simp add: established_def)

lemma accounted_held [simp]:
  "accounted E operation hostId dockerId cid config (w\<lparr>w_held := h\<rparr>) (w'\<lparr>w_held := h'\<rparr>) r
     = accounted E operation hostId dockerId cid config w w' r"
  "stranded cid (w\<lparr>w_held := h\<rparr>) (w'\<lparr>w_held := h'\<rparr>) r = stranded cid w w' r"
  "refused (w\<lparr>w_held := h\<rparr>) (w'\<lparr>w_held := h'\<rparr>) r = refused w w' r"
  by (simp_all add: accounted_def stranded_def refused_def)

lemma refused_same: "isl r \<Longrightarrow> refused w w r"
  by (simp add: refused_def)


section \<open>The three operations\<close>

lemma only_candidate:
  assumes "with_candidate p cid config db db'" and "linked db'"
    and "d \<in> set (containerDesiredConfigs db')" "dc_containerId d = cid" "dc_state d = ''pending''"
  shows "dc_configuration d = config"
proof -
  from assms(1) obtain e where e: "e \<in> set (containerDesiredConfigs db')" "dc_containerId e = cid" "dc_state e = ''pending''"
    "dc_configuration e = config" unfolding with_candidate_def by (metis in_set_conv_decomp)
  with pending_unique [OF assms(2) e(1,3) assms(3,5)] assms(4) show ?thesis by simp
qed

lemma create_body_account:
  assumes "create_body E request hostId agentId actor context w = (r, w')" and "linked (w_db w)" and "\<forall>n. e_uuid E n \<noteq> []"
    and "reaches w hostId agentId"
  shows "refused w w' r \<or> (\<exists>cid. cid \<notin> c_id ` set (containers (w_db w)) \<and>
    (stranded cid w w' r \<or> accounted E create hostId None cid (configurationOf request) w w' r))"
proof -
  obtain q u where prep: "prepareCreate E request hostId actor context w = (q, u)" by fastforce
  have calm: "mutations u = mutations w" using keepsD [OF prepareCreate_calm prep] by (simp add: calm_def)
  from prep show ?thesis
  proof (cases rule: prepareCreate_cases)
    case unwritten
    with prep assms(1) calm show ?thesis by (cases q) (auto simp: create_body_def bindE_def refused_def)
  next
    case (written cid aid p row)
    have wrote: "wrote (AUDIT create) cid hostId aid (w_db w) (w_db u)" using written(1) by (simp add: AUDIT_def)
    then have "linked (w_db u)" using assms(2) by (simp add: wrote_def)
    note only = only_candidate [OF written(2) this]
    show ?thesis
    proof (cases q)
      case (Inl e)
      with prep assms(1) have "w' = u" "isl r" by (auto simp: create_body_def bindE_def)
      with wrote_stranded [OF wrote assms(2) calm] written(6) show ?thesis by blast
    next
      case (Inr prepared)
      with written(7) have q: "pr_containerId prepared = cid" "pr_actionId prepared = aid" by auto
      obtain n where "pr_actionId prepared = e_uuid E n" using prepareCreate_uuid prep Inr by blast
      with assms(3) q have "aid \<noteq> []" by auto
      have "accounted E create hostId None cid (configurationOf request) w w' r"
        by (rule wrote_run [where operation = "\<lparr>dg_operation = create, dg_capability = ''container.create'', dg_agentId = agentId,
            dg_containerId = cid, dg_containerName = cq_name request, dg_hostId = hostId, dg_actionId = Some aid, dg_actor = actor,
            dg_context = context, dg_payload = CreateContainer cid (pr_desiredConfigId prepared) (pr_spec prepared)\<rparr>",
            simplified, OF wrote assms(2) calm _ refl \<open>aid \<noteq> []\<close>])
          (use prep assms(1) Inr q only assms(4) in \<open>simp_all add: create_body_def bindE_def AUDIT_def asks_for_def change_request_def\<close>)
      with written(6) show ?thesis by blast
    qed
  qed
qed


lemma replace_body_account:
  assumes "replace_body E cid request hostId agentId actor context w = (r, w')" and "linked (w_db w)" and "\<forall>n. e_uuid E n \<noteq> []"
    and "reaches w hostId agentId" and "find (\<lambda>c. c_id c = cid) (containers (w_db w)) = Some row"
  shows "refused w w' r \<or> stranded cid w w' r \<or> accounted E replace hostId (c_dockerId row) cid (configurationOf request) w w' r"
  using assms(1) unfolding replace_body_def
proof (cases rule: bind_reads [OF stable_current_dockerId, consumes 1, case_names thrown continues])
  case thrown
  then show ?thesis by (simp add: refused_same)
next
  case (continues dockerId)
  have docker: "c_dockerId row = Some dockerId" using current_dockerId_Inr [OF continues(1)] assms(5) by simp
  obtain q u where prep: "prepareReplace E cid request actor context w = (q, u)" by fastforce
  have calm: "mutations u = mutations w" using keepsD [OF prepareReplace_calm prep] by (simp add: calm_def)
  from prep show ?thesis
  proof (cases rule: prepareReplace_cases)
    case unwritten
    with prep continues calm show ?thesis by (cases q) (auto simp: bindE_def refused_def)
  next
    case (written row1 aid p)
    have wrote: "wrote (AUDIT replace) cid (c_hostId row1) aid (w_db w) (w_db u)" using written(2) by (simp add: AUDIT_def)
    then have "linked (w_db u)" using assms(2) by (simp add: wrote_def)
    note only = only_candidate [OF written(3) this]
    show ?thesis
    proof (cases q)
      case (Inl e)
      with prep continues have "w' = u" "isl r" by (auto simp: bindE_def)
      with wrote_stranded [OF wrote assms(2) calm] show ?thesis by blast
    next
      case (Inr prepared)
      with written(5) have q: "pr_actionId prepared = aid" by auto
      obtain n where "pr_actionId prepared = e_uuid E n" using prepareReplace_uuid prep Inr by blast
      with assms(3) q have "aid \<noteq> []" by auto
      have "accounted E replace hostId (c_dockerId row) cid (configurationOf request) w w' r"
        by (rule wrote_run [where operation = "\<lparr>dg_operation = replace, dg_capability = ''container.replace'', dg_agentId = agentId,
            dg_containerId = cid, dg_containerName = pr_name prepared, dg_hostId = hostId, dg_actionId = Some aid, dg_actor = actor,
            dg_context = context, dg_payload = ReplaceContainer dockerId cid (pr_desiredConfigId prepared) (pr_spec prepared)\<rparr>",
            simplified, OF wrote assms(2) calm _ refl \<open>aid \<noteq> []\<close>])
          (use prep continues Inr q only assms(4) docker in \<open>simp_all add: bindE_def AUDIT_def asks_for_def change_request_def\<close>)
      then show ?thesis by blast
    qed
  qed
qed

lemma remove_body_account:
  assumes "remove_body E cid request target agentId actor context w = (r, w')" and "linked (w_db w)" and "\<forall>n. e_uuid E n \<noteq> []"
    and "reaches w (mt_hostId target) agentId" and "find (\<lambda>c. c_id c = cid) (containers (w_db w)) = Some row"
  shows "refused w w' r \<or> accounted E remove (mt_hostId target) (c_dockerId row) cid config w w' r"
  using assms(1) unfolding remove_body_def
proof (cases rule: bind_reads [OF stable_current_dockerId, consumes 1, case_names thrown continues])
  case thrown
  then show ?thesis by (simp add: refused_same)
next
  case (continues dockerId)
  have docker: "c_dockerId row = Some dockerId" using current_dockerId_Inr [OF continues(1)] assms(5) by simp
  let ?tx = "insert_container_action E actor context ''container.remove'' cid (mt_hostId target)"
  obtain q u where tx: "transaction ?tx w = (q, u)" by fastforce
  have "stable (keeps calm) (transaction ?tx)" by (intro change_calm insert_container_action_calm)
  then have calm: "mutations u = mutations w" using tx by (auto dest: keepsD simp: calm_def)
  from tx show ?thesis
  proof (cases rule: transaction_cases)
    case (rolled_back e)
    with tx continues calm show ?thesis by (auto simp: bindE_def refused_def)
  next
    case (committed aid)
    obtain n correlation where u: "aid \<notin> act_id ` set (actions (w_db w))" "u = w\<lparr>w_fresh := n, w_db := (w_db w)\<lparr>actions :=
        actions (w_db w) @ [container_action actor ''container.remove'' cid (mt_hostId target) correlation (w_clock w) aid]\<rparr>\<rparr>"
      using insert_container_action_Inr [OF committed(2)] by blast
    obtain m where "aid = e_uuid E m" using insert_container_action_uuid committed(2) by blast
    with assms(3) have "aid \<noteq> []" by auto
    let ?op = "\<lparr>dg_operation = remove, dg_capability = ''container.remove'', dg_agentId = agentId,
      dg_containerId = cid, dg_containerName = mt_name target, dg_hostId = mt_hostId target,
      dg_actionId = Some aid, dg_actor = actor, dg_context = context, dg_payload = RemoveContainer dockerId (rq_stopFirst request)\<rparr>"
    from continues(2) tx committed(1) obtain es where
      ran: "runOperation E ?op (u\<lparr>w_db := (w_db u)\<lparr>auditEntries := es\<rparr>\<rparr>) = (r, w')"
      by (auto simp: bindE_def [of "transaction _"] audit_container_def run)
    have wrote: "wrote (AUDIT remove) cid (mt_hostId target) aid (w_db w) (w_db (u\<lparr>w_db := (w_db u)\<lparr>auditEntries := es\<rparr>\<rparr>))"
      using u by (auto simp: wrote_def AUDIT_def container_action_def linked_iff)
    have "accounted E remove (mt_hostId target) (c_dockerId row) cid config w w' r"
      by (rule wrote_run [where operation = ?op, simplified, OF wrote assms(2) _ _ refl \<open>aid \<noteq> []\<close>])
        (use ran assms(4) docker in \<open>simp_all add: calm AUDIT_def asks_for_def change_request_def\<close>)
    then show ?thesis by blast
  qed
qed


text \<open>Everything before the lock only reads, and the lock is not part of the account.\<close>

lemma locked_account:
  assumes "with_lock key name body w = (r, w')"
    and "\<And>h t. body (w\<lparr>w_held := h\<rparr>) = (r, t) \<Longrightarrow> P (w\<lparr>w_held := h\<rparr>) t"
    and "\<And>h h' t. P (w\<lparr>w_held := h\<rparr>) t \<Longrightarrow> P w (t\<lparr>w_held := h'\<rparr>)" and "isl r \<Longrightarrow> P w w"
  shows "P w w'"
  using assms(1)
proof (cases rule: with_lock_cases [consumes 1, case_names busy locked])
  case busy
  with assms(4) show ?thesis by simp
next
  case (locked held t released)
  with assms(2,3) show ?thesis by blast
qed

lemma account_held:
  "accounted E operation hostId dockerId cid config (w\<lparr>w_held := h\<rparr>) t r \<Longrightarrow>
    accounted E operation hostId dockerId cid config w (t\<lparr>w_held := h'\<rparr>) r"
  "stranded cid (w\<lparr>w_held := h\<rparr>) t r \<Longrightarrow> stranded cid w (t\<lparr>w_held := h'\<rparr>) r"
  "refused (w\<lparr>w_held := h\<rparr>) t r \<Longrightarrow> refused w (t\<lparr>w_held := h'\<rparr>) r"
  by (simp_all add: accounted_def stranded_def refused_def)

lemma create_container_account:
  assumes "create_container E request actor context w = (r, w')" and "linked (w_db w)" and "\<forall>n. e_uuid E n \<noteq> []"
  shows "refused w w' r \<or> (\<exists>cid. cid \<notin> c_id ` set (containers (w_db w)) \<and>
    (stranded cid w w' r \<or> accounted E create (cq_hostId request) None cid (configurationOf request) w w' r))"
proof -
  let ?P = "\<lambda>w w'. refused w w' r \<or> (\<exists>cid. cid \<notin> c_id ` set (containers (w_db w)) \<and>
    (stranded cid w w' r \<or> accounted E create (cq_hostId request) None cid (configurationOf request) w w' r))"
  have body: "?P w t" if "with_lock key name (create_body E request (cq_hostId request) agentId actor context) w = (r, t)"
    and agent: "reaches w (cq_hostId request) agentId" for key name agentId t
    using that(1)
  proof (rule locked_account [where P = ?P])
    fix h t
    assume "create_body E request (cq_hostId request) agentId actor context (w\<lparr>w_held := h\<rparr>) = (r, t)"
    from create_body_account [OF this _ assms(3)] assms(2) agent show "?P (w\<lparr>w_held := h\<rparr>) t" by simp
  qed (auto dest: account_held refused_same)
  from assms(1) show ?thesis unfolding create_container_def
  proof (cases rule: bind_reads [OF stable_change_host, consumes 1, case_names thrown continues])
    case (continues host)
    note host = change_host_id [OF continues(1)]
    from continues(2) show ?thesis
    proof (cases rule: bind_reads [OF stable_reachableAgent, consumes 1, case_names thrown continues])
      case (continues agentId)
      note agent = reachableAgent_Inr [OF continues(1)]
      from continues(2) show ?thesis
        by (cases rule: bind_reads [OF stable_assertNameFree, consumes 1, case_names thrown continues])
          (use agent host in \<open>auto simp: refused_same dest: body\<close>)
    qed (simp add: refused_same)
  qed (simp add: refused_same)
qed

text \<open>The container of the account: the row with that identifier, on its host.\<close>

definition container_accounted :: "env \<Rightarrow> RecoveryOperation \<Rightarrow> string \<Rightarrow> Configuration \<Rightarrow> world \<Rightarrow> world \<Rightarrow> (js_error + 'a) \<Rightarrow> bool" where
  "container_accounted E operation cid config w w' r \<longleftrightarrow> (\<exists>row. find (\<lambda>c. c_id c = cid) (containers (w_db w)) = Some row
     \<and> accounted E operation (c_hostId row) (c_dockerId row) cid config w w' r)"

lemma container_account_held:
  "container_accounted E operation cid config (w\<lparr>w_held := h\<rparr>) t r \<Longrightarrow> container_accounted E operation cid config w (t\<lparr>w_held := h'\<rparr>) r"
  by (auto simp: container_accounted_def intro: account_held)

lemma replace_container_account:
  assumes "replace_container E cid request actor context w = (r, w')" and "linked (w_db w)" and "\<forall>n. e_uuid E n \<noteq> []"
  shows "refused w w' r \<or> stranded cid w w' r \<or> container_accounted E replace cid (configurationOf request) w w' r"
proof -
  let ?P = "\<lambda>w w'. refused w w' r \<or> stranded cid w w' r \<or> container_accounted E replace cid (configurationOf request) w w' r"
  have body: "?P w t" if "with_lock key name (replace_body E cid request (c_hostId row) agentId actor context) w = (r, t)"
    and reach: "reaches w (c_hostId row) agentId" and row: "find (\<lambda>c. c_id c = cid) (containers (w_db w)) = Some row" for key name row agentId t
    using that(1)
  proof (rule locked_account [where P = ?P])
    fix h t
    assume "replace_body E cid request (c_hostId row) agentId actor context (w\<lparr>w_held := h\<rparr>) = (r, t)"
    from replace_body_account [OF this _ assms(3), of row] assms(2) reach row show "?P (w\<lparr>w_held := h\<rparr>) t"
      by (auto simp: container_accounted_def)
  qed (auto dest: account_held container_account_held refused_same)
  from assms(1) show ?thesis unfolding replace_container_def
  proof (cases rule: bind_reads [OF stable_mutable, consumes 1, case_names thrown continues])
    case (continues target)
    obtain row where row: "find (\<lambda>c. c_id c = cid) (containers (w_db w)) = Some row" "mt_hostId target = c_hostId row"
      using mutable_Inr [OF continues(1)] by blast
    from continues(2) show ?thesis
    proof (cases rule: bind_reads [OF stable_reachableAgent, consumes 1, case_names thrown continues])
      case (continues agentId)
      with body [OF _ _ row(1)] reachableAgent_Inr [OF continues(1)] row(2) show ?thesis by simp
    qed (simp add: refused_same)
  qed (simp add: refused_same)
qed

lemma remove_container_account:
  assumes "remove_container E cid request actor context w = (r, w')" and "linked (w_db w)" and "\<forall>n. e_uuid E n \<noteq> []"
  shows "refused w w' r \<or> container_accounted E remove cid config w w' r"
proof -
  let ?P = "\<lambda>w w'. refused w w' r \<or> container_accounted E remove cid config w w' r"
  have body: "?P w t" if "with_lock key name (remove_body E cid request target agentId actor context) w = (r, t)"
    and reach: "reaches w (mt_hostId target) agentId" and row: "find (\<lambda>c. c_id c = cid) (containers (w_db w)) = Some row"
      "mt_hostId target = c_hostId row" for key name row target agentId t
    using that(1)
  proof (rule locked_account [where P = ?P])
    fix h t
    assume "remove_body E cid request target agentId actor context (w\<lparr>w_held := h\<rparr>) = (r, t)"
    from remove_body_account [OF this _ assms(3), of row config] assms(2) reach row show "?P (w\<lparr>w_held := h\<rparr>) t"
      by (auto simp: container_accounted_def)
  qed (auto dest: account_held container_account_held refused_same)
  from assms(1) show ?thesis unfolding remove_container_def
  proof (cases rule: bind_reads [OF stable_mutable, consumes 1, case_names thrown continues])
    case (continues target)
    obtain row where row: "find (\<lambda>c. c_id c = cid) (containers (w_db w)) = Some row" "mt_hostId target = c_hostId row"
      using mutable_Inr [OF continues(1)] by blast
    from continues(2) show ?thesis
    proof (cases rule: bind_reads [OF stable_reachableAgent, consumes 1, case_names thrown continues])
      case (continues agentId)
      with body [OF _ _ row] reachableAgent_Inr [OF continues(1)] show ?thesis by simp
    qed (simp add: refused_same)
  qed (simp add: refused_same)
qed

text \<open>While a change or its stack is unsettled, or the identity of the container is disputed.\<close>

lemma mutable_blocked:
  assumes "\<not> may_operate cid (w_db w)"
  shows "\<exists>e. mutable cid w = (Inl (AppErr e), w)"
proof (cases rule: assertOperable_cases [of cid w])
  case free
  with assms show ?thesis by simp
next
  case (refused e)
  then show ?thesis
    by (auto simp: mutable_def run bindE_def [of "assertOperable cid"] split: option.split)
qed

lemma changes_blocked:
  assumes "\<not> may_operate cid (w_db w)"
  shows "\<exists>e. replace_container E cid request actor context w = (Inl (AppErr e), w)"
    and "\<exists>e. remove_container E cid request' actor context w = (Inl (AppErr e), w)"
  using mutable_blocked [OF assms] by (auto simp: replace_container_def remove_container_def bindE_def [of "mutable _"])


section \<open>Properties\<close>



text \<open>
  A replacement and a removal do not look at whether the host is archived: on an archived host that
  answers, a container is removed.
\<close>

definition site_archived :: world where
  "site_archived = site_world\<lparr>w_db := (w_db site_world)\<lparr>hosts := map (\<lambda>h. h\<lparr>h_archivedAt := Some 0\<rparr>) (hosts (w_db site_world))\<rparr>\<rparr>"

lemma archived_host_changed:
  "\<not> isl (fst (remove_container (site_env [site_summary]) site_cid \<lparr>rq_stopFirst = True\<rparr> shop_user shop_context site_archived))"
  "isl (fst (create_container (site_env [site_summary]) site_request shop_user shop_context site_archived))"
  by code_simp+

end
