(* ===== verification/Container_Lifecycle.thy ===== *)
theory Container_Lifecycle
  imports Container_Change
begin

text \<open>
  Starting, stopping and restarting a container,
  \<^verbatim>\<open>src/api/src/operations/lifecycle.service.ts\<close>. The lock is taken before the action is written
  and given back by a \<^verbatim>\<open>finally\<close> that starts after it; both are written out here the way the code
  has them. An operation is shown to be refused without a trace, or to ask the agent once and to leave
  one closed action, whatever the agent answers.
\<close>

section \<open>Data\<close>

datatype Operation = op_start | op_stop | op_restart

record ActionOutcome =
  ao_actionId :: string
  ao_status :: string
  ao_state :: "string option"
  ao_health :: "string option"
  ao_observedAt :: "int option"
  ao_errorCode :: "string option"

record operation_definition =
  od_capability :: string
  od_permission :: string
  od_requested :: string
  od_succeeded :: string
  od_failed :: string
  od_event :: string

definition OPERATIONS :: "Operation \<Rightarrow> operation_definition" where
  "OPERATIONS operation = (case operation of
      op_start \<Rightarrow> \<lparr>od_capability = ''container.start'', od_permission = ''containers.start'',
        od_requested = ''container.start.requested'', od_succeeded = ''container.start.succeeded'',
        od_failed = ''container.start.failed'', od_event = ''container.started''\<rparr>
    | op_stop \<Rightarrow> \<lparr>od_capability = ''container.stop'', od_permission = ''containers.stop'',
        od_requested = ''container.stop.requested'', od_succeeded = ''container.stop.succeeded'',
        od_failed = ''container.stop.failed'', od_event = ''container.stopped''\<rparr>
    | op_restart \<Rightarrow> \<lparr>od_capability = ''container.restart'', od_permission = ''containers.restart'',
        od_requested = ''container.restart.requested'', od_succeeded = ''container.restart.succeeded'',
        od_failed = ''container.restart.failed'', od_event = ''container.restarted''\<rparr>)"

definition operation_name :: "Operation \<Rightarrow> string" where
  "operation_name operation = (case operation of op_start \<Rightarrow> ''start'' | op_stop \<Rightarrow> ''stop'' | op_restart \<Rightarrow> ''restart'')"

definition past :: "Operation \<Rightarrow> string" where
  "past operation = (if operation = op_stop then ''stopped'' else if operation = op_start then ''started'' else ''restarted'')"

record Target =
  tg_containerId :: string
  tg_dockerId :: string
  tg_name :: string
  tg_hostId :: string
  tg_hostname :: string

section \<open>The operations\<close>

definition resolve :: "string \<Rightarrow> Target handler" where
  "resolve containerId =
    bindE (read_db (\<lambda>db. Option.bind (find (\<lambda>c. c_id c = containerId) (containers db)) (\<lambda>c.
      map_option (\<lambda>h. (c, h)) (find (\<lambda>h. h_id h = c_hostId c) (hosts db))))) (\<lambda>row.
    case row of
      None \<Rightarrow> throw_app (notFound ''CONTAINER_NOT_FOUND'' ''The container does not exist.'')
    | Some (c, h) \<Rightarrow>
        bindE (assertNotArchived h ''its containers cannot be operated'') (\<lambda>_.
        if \<not> truthy (c_dockerId c)
        then throw_app (notFound ''CONTAINER_NOT_FOUND'' ''The container does not exist.'')
        else retE \<lparr>tg_containerId = c_id c, tg_dockerId = the (c_dockerId c), tg_name = c_name c,
          tg_hostId = c_hostId c, tg_hostname = h_hostname h\<rparr>))"

record observation =
  ob_state :: "string option"
  ob_health :: "string option"
  ob_observedAt :: "int option"

definition reread :: "env \<Rightarrow> Target \<Rightarrow> observation option handler" where
  "reread E target =
    bindE (tryE (containerDetail E (tg_containerId target) True)) (\<lambda>result.
    case result of
      Inl _ \<Rightarrow> retE None
    | Inr detail \<Rightarrow> retE (Some \<lparr>ob_state = map_option cd_state (dr_detail detail),
        ob_health = map_option cd_health (dr_detail detail), ob_observedAt = dr_observedAt detail\<rparr>))"

definition audit_action :: "env \<Rightarrow> Target \<Rightarrow> AuthenticatedUser \<Rightarrow> RequestContext \<Rightarrow> string \<Rightarrow> string \<Rightarrow> string
    \<Rightarrow> unit handler" where
  "audit_action E target actor context action result reason =
     audit_container E actor context (tg_containerId target) (tg_name target) action result (Some reason)"

text \<open>\<^verbatim>\<open>observed?.state ?? result.state\<close>: the answer is only looked at when nothing was observed.\<close>

definition observed_or :: "string option \<Rightarrow> AgentResult option \<Rightarrow> (AgentResult \<Rightarrow> string option) \<Rightarrow> string option handler" where
  "observed_or observed result field = (case observed of
      Some v \<Rightarrow> retE (Some v)
    | None \<Rightarrow> (case result of
          None \<Rightarrow> throwE (OtherErr ''Cannot read properties of undefined'')
        | Some answer \<Rightarrow> retE (field answer)))"

definition succeed :: "env \<Rightarrow> string \<Rightarrow> Operation \<Rightarrow> Target \<Rightarrow> AuthenticatedUser \<Rightarrow> RequestContext \<Rightarrow> AgentResult option
    \<Rightarrow> ActionOutcome handler" where
  "succeed E actionId operation target actor context result =
    bindE now (\<lambda>completedAt.
    bindE (update_action actionId (\<lambda>a. a\<lparr>act_status := ''succeeded'', act_completedAt := Some completedAt\<rparr>)) (\<lambda>_.
    bindE (audit_action E target actor context (od_succeeded (OPERATIONS operation)) ''success'' actionId) (\<lambda>_.
    bindE (events_record \<lparr>ei_hostId = Some (tg_hostId target), ei_type = od_event (OPERATIONS operation), ei_severity = None,
      ei_resource = ''container:'' @ tg_dockerId target,
      ei_message = tg_name target @ '' was '' @ past operation @ '' by '' @ u_email actor @ ''.'',
      ei_correlationId = Some actionId\<rparr>) (\<lambda>_.
    bindE (reread E target) (\<lambda>observed.
    bindE (observed_or (Option.bind observed ob_state) result rs_state) (\<lambda>state.
    bindE (observed_or (Option.bind observed ob_health) result rs_health) (\<lambda>health.
    retE \<lparr>ao_actionId = actionId, ao_status = ''succeeded'', ao_state = state, ao_health = health,
      ao_observedAt = Some (or_default (Option.bind observed ob_observedAt) completedAt), ao_errorCode = None\<rparr>)))))))"

definition fail :: "env \<Rightarrow> string \<Rightarrow> Operation \<Rightarrow> Target \<Rightarrow> AuthenticatedUser \<Rightarrow> RequestContext \<Rightarrow> js_error
    \<Rightarrow> ActionOutcome handler" where
  "fail E actionId operation target actor context error =
    (let code = code_or ''DOCKER_OPERATION_FAILED'' error; timedOut = (code = ''AGENT_REQUEST_TIMEOUT'') in
     bindE now (\<lambda>t.
     bindE (update_action actionId (\<lambda>a. a\<lparr>act_status := (if timedOut then ''timed_out'' else ''failed''),
       act_completedAt := Some t, act_errorCode := Some code\<rparr>)) (\<lambda>_.
     bindE (audit_action E target actor context (od_failed (OPERATIONS operation)) ''failure'' code) (\<lambda>_.
     if timedOut
     then bindE (reread E target) (\<lambda>observed.
       retE \<lparr>ao_actionId = actionId, ao_status = ''timed_out'', ao_state = Option.bind observed ob_state,
         ao_health = Option.bind observed ob_health, ao_observedAt = Option.bind observed ob_observedAt,
         ao_errorCode = Some code\<rparr>)
     else throw_app (AppError code (or_default (map_option ae_message (as_app_error error)) ''The operation failed.'') 409)))))"

definition result_of :: "answer \<Rightarrow> AgentResult option" where
  "result_of answer = (case answer of ResultAnswer result \<Rightarrow> result | _ \<Rightarrow> None)"

text \<open>The \<^verbatim>\<open>try\<close>, its \<^verbatim>\<open>catch\<close>, which also sees what \<^verbatim>\<open>succeed\<close> throws, and its \<^verbatim>\<open>finally\<close>.\<close>

definition carry_out :: "env \<Rightarrow> string \<Rightarrow> string \<Rightarrow> Operation \<Rightarrow> Target \<Rightarrow> AuthenticatedUser \<Rightarrow> RequestContext
    \<Rightarrow> ActionOutcome handler" where
  "carry_out E agentId actionId operation target actor context =
    bindE (tryE (bindE (dispatch_request E agentId (od_capability (OPERATIONS operation)) (OperateContainer (tg_dockerId target)))
      (\<lambda>answer. succeed E actionId operation target actor context (result_of answer)))) (\<lambda>tried.
    case tried of
      Inl error \<Rightarrow> fail E actionId operation target actor context error
    | Inr outcome \<Rightarrow> retE outcome)"

definition requested :: "env \<Rightarrow> Operation \<Rightarrow> Target \<Rightarrow> AuthenticatedUser \<Rightarrow> RequestContext \<Rightarrow> string handler" where
  "requested E operation target actor context =
    bindE (insert_container_action E actor context (od_capability (OPERATIONS operation)) (tg_containerId target)
      (tg_hostId target)) (\<lambda>actionId.
    bindE (audit_action E target actor context (od_requested (OPERATIONS operation)) ''success'' actionId) (\<lambda>_.
    retE actionId))"

definition run_operation :: "env \<Rightarrow> Operation \<Rightarrow> string \<Rightarrow> AuthenticatedUser \<Rightarrow> RequestContext \<Rightarrow> ActionOutcome handler" where
  "run_operation E operation containerId actor context =
    bindE (assertOperable containerId) (\<lambda>_.
    bindE (resolve containerId) (\<lambda>target.
    bindE (reachableAgent (tg_hostId target)) (\<lambda>agentId. (\<lambda>w.
    case acquire containerId (operation_name operation) (w_held w) of
      Inl e \<Rightarrow> (Inl e, w)
    | Inr (lease, held) \<Rightarrow>
        bindE (requested E operation target actor context) (\<lambda>actionId.
        finallyE (carry_out E agentId actionId operation target actor context)
          (\<lambda>t. t\<lparr>w_held := snd (release lease (w_held t))\<rparr>)) (w\<lparr>w_held := held\<rparr>)))))"

definition isRunning :: "string \<Rightarrow> bool handler" where
  "isRunning containerId = getE (\<lambda>w. isBusy containerId (w_held w))"

section \<open>What an operation does\<close>

definition operate_request :: "string \<Rightarrow> Operation \<Rightarrow> Target \<Rightarrow> request" where
  "operate_request agentId operation target = \<lparr>rq_agentId = agentId, rq_capability = od_capability (OPERATIONS operation),
     rq_payload = OperateContainer (tg_dockerId target)\<rparr>"

lemma operation_mutating: "isMutating (od_capability (OPERATIONS operation))"
  by (simp add: OPERATIONS_def isMutating_def MUTATING_CAPABILITIES_def split: Operation.split)

lemma stable_resolve [intro!, simp]: "stable (keeps f) (resolve cid)"
  unfolding resolve_def by (intro frame.stable_rules stable_read_db stable_throw_app stable_assertNotArchived)


text \<open>What reading a container again leaves alone.\<close>

definition aside :: "world \<Rightarrow> action_row list \<times> request list \<times> (string \<rightharpoonup> string)" where
  "aside w = (actions (w_db w), mutations w, w_held w)"

lemma reread_aside: "stable (keeps aside) (reread E target)"
  unfolding reread_def by (intro frame.stable_rules containerDetail_keeps) (auto dest: outside_detail_discovery simp: outside_discovery_def aside_def)

lemma reread_total: "\<exists>observed v. reread E target w = (Inr observed, v)"
  by (auto simp: reread_def run run_try split: prod.split sum.split)

definition operation_closed :: "string \<Rightarrow> string \<Rightarrow> world \<Rightarrow> world \<Rightarrow> bool" where
  "operation_closed aid status w w' \<longleftrightarrow> mutations w' = mutations w \<and> w_held w' = w_held w
     \<and> (\<exists>g. actions (w_db w') = upd (\<lambda>a. act_id a = aid) g (actions (w_db w)) \<and> (\<forall>a. act_status (g a) = status
         \<and> act_id (g a) = act_id a \<and> act_capability (g a) = act_capability a \<and> act_targetType (g a) = act_targetType a
         \<and> act_targetId (g a) = act_targetId a))"

lemma closed_aside:
  assumes "operation_closed aid status w u" and "aside v = aside u"
  shows "operation_closed aid status w v"
  using assms by (simp add: operation_closed_def aside_def)

lemma closed_twice:
  assumes "operation_closed aid status w u" and "operation_closed aid status' u v"
  shows "operation_closed aid status' w v"
proof -
  obtain f g where "actions (w_db v) = upd (\<lambda>a. act_id a = aid) g (upd (\<lambda>a. act_id a = aid) f (actions (w_db w)))"
    and f: "\<And>a. act_id (f a) = act_id a \<and> act_capability (f a) = act_capability a \<and> act_targetType (f a) = act_targetType a
         \<and> act_targetId (f a) = act_targetId a"
    and g: "\<And>a. act_status (g a) = status' \<and> act_id (g a) = act_id a \<and> act_capability (g a) = act_capability a
         \<and> act_targetType (g a) = act_targetType a \<and> act_targetId (g a) = act_targetId a"
    using assms unfolding operation_closed_def by auto
  then have "actions (w_db v) = upd (\<lambda>a. act_id a = aid) (\<lambda>a. g (f a)) (actions (w_db w))" by (simp add: upd_upd)
  with assms f g show ?thesis unfolding operation_closed_def by (intro conjI exI [of _ "\<lambda>a. g (f a)"]) simp_all
qed

lemma succeed_closes:
  assumes "succeed E aid operation target actor context result w = (r, w')"
  shows "operation_closed aid ''succeeded'' w w'"
proof -
  let ?g = "\<lambda>a. a\<lparr>act_status := ''succeeded'', act_completedAt := Some (w_clock w)\<rparr>"
  let ?m = "bindE (reread E target) (\<lambda>observed.
      bindE (observed_or (Option.bind observed ob_state) result rs_state) (\<lambda>state.
      bindE (observed_or (Option.bind observed ob_health) result rs_health) (\<lambda>health.
      retE \<lparr>ao_actionId = aid, ao_status = ''succeeded'', ao_state = state, ao_health = health,
        ao_observedAt = Some (or_default (Option.bind observed ob_observedAt) (w_clock w)), ao_errorCode = None\<rparr>)))"
  let ?u = "\<lambda>es vs. w\<lparr>w_db := (w_db w)\<lparr>actions := upd (\<lambda>a. act_id a = aid) ?g (actions (w_db w)), auditEntries := es, events := vs\<rparr>\<rparr>"
  obtain es vs where rest: "?m (?u es vs) = (r, w')"
    using assms by (auto simp: succeed_def audit_action_def audit_container_def run)
  have "stable (keeps aside) ?m"
    unfolding observed_or_def by (intro frame.stable_rules reread_aside)
  then have same: "aside w' = aside (?u es vs)" using rest by (rule keepsD)
  have "operation_closed aid ''succeeded'' w (?u es vs)"
    unfolding operation_closed_def by (intro conjI exI [of _ ?g]) simp_all
  from closed_aside [OF this same] show ?thesis .
qed

definition failed_status :: "js_error \<Rightarrow> string" where
  "failed_status e = (if code_or ''DOCKER_OPERATION_FAILED'' e = ''AGENT_REQUEST_TIMEOUT'' then ''timed_out'' else ''failed'')"

lemma fail_closes:
  assumes "fail E aid operation target actor context e w = (r, w')"
  shows "operation_closed aid (failed_status e) w w'" "isl r \<longleftrightarrow> failed_status e = ''failed''"
proof -
  let ?code = "code_or ''DOCKER_OPERATION_FAILED'' e"
  let ?g = "\<lambda>a. a\<lparr>act_status := failed_status e, act_completedAt := Some (w_clock w), act_errorCode := Some ?code\<rparr>"
  let ?m = "if ?code = ''AGENT_REQUEST_TIMEOUT'' then bindE (reread E target) (\<lambda>observed.
       retE \<lparr>ao_actionId = aid, ao_status = ''timed_out'', ao_state = Option.bind observed ob_state,
         ao_health = Option.bind observed ob_health, ao_observedAt = Option.bind observed ob_observedAt,
         ao_errorCode = Some ?code\<rparr>)
     else throw_app (AppError ?code (or_default (map_option ae_message (as_app_error e)) ''The operation failed.'') 409)"
  let ?u = "\<lambda>es. w\<lparr>w_db := (w_db w)\<lparr>actions := upd (\<lambda>a. act_id a = aid) ?g (actions (w_db w)), auditEntries := es\<rparr>\<rparr>"
  obtain es where rest: "?m (?u es) = (r, w')"
    using assms by (cases "?code = ''AGENT_REQUEST_TIMEOUT''")
      (auto simp: fail_def Let_def audit_action_def audit_container_def run failed_status_def)
  have "stable (keeps aside) ?m" by (intro frame.stable_rules reread_aside stable_throw_app)
  then have same: "aside w' = aside (?u es)" using rest by (rule keepsD)
  have "operation_closed aid (failed_status e) w (?u es)"
    unfolding operation_closed_def by (intro conjI exI [of _ ?g]) simp_all
  from closed_aside [OF this same] show "operation_closed aid (failed_status e) w w'" .
  show "isl r \<longleftrightarrow> failed_status e = ''failed''"
    using rest reread_total [of E target "?u es"]
    by (auto simp: failed_status_def bindE_def retE_def throw_app_def throwE_def split: if_splits)
qed


lemma carry_out_closes:
  assumes "carry_out E agentId aid operation target actor context w = (r, w')"
  shows "\<exists>u status. mutations u = mutations w @ [operate_request agentId operation target] \<and> w_db u = w_db w \<and> w_held u = w_held w
    \<and> operation_closed aid status u w' \<and> status \<in> set [''succeeded'', ''failed'', ''timed_out''] \<and> (isl r \<longleftrightarrow> status = ''failed'')"
proof -
  define rq where "rq = operate_request agentId operation target"
  define u where "u = w\<lparr>w_sent := w_sent w @ [rq], w_clock := w_clock w + int (e_takes E rq)\<rparr>"
  have u: "mutations u = mutations w @ [rq]" "w_held u = w_held w" "w_db u = w_db w"
    unfolding u_def rq_def operate_request_def by (simp_all add: mutations_def operation_mutating)
  have "carry_out E agentId aid operation target actor context w = (case e_answer E (w_sent w) rq of
      Inl e \<Rightarrow> fail E aid operation target actor context e u
    | Inr answer \<Rightarrow> (case succeed E aid operation target actor context (result_of answer) u of
        (Inl e, v) \<Rightarrow> fail E aid operation target actor context e v | (Inr outcome, v) \<Rightarrow> (Inr outcome, v)))"
    unfolding carry_out_def run_try u_def rq_def operate_request_def
    by (simp add: dispatch_request_def Let_def bindE_def retE_def split: sum.split prod.split)
  then consider (thrown) e where "fail E aid operation target actor context e u = (r, w')"
    | (late) answer e v where "succeed E aid operation target actor context answer u = (Inl e, v)"
        "fail E aid operation target actor context e v = (r, w')"
    | (finished) answer outcome where "succeed E aid operation target actor context answer u = (Inr outcome, w')" "r = Inr outcome"
    using assms by (auto split: sum.splits prod.splits)
  then have "\<exists>status. operation_closed aid status u w' \<and> status \<in> set [''succeeded'', ''failed'', ''timed_out'']
      \<and> (isl r \<longleftrightarrow> status = ''failed'')"
  proof cases
    case thrown
    from fail_closes [OF thrown] show ?thesis by (intro exI [of _ "failed_status e"]) (simp add: failed_status_def)
  next
    case late
    from closed_twice [OF succeed_closes [OF late(1)] fail_closes(1) [OF late(2)]] fail_closes(2) [OF late(2)]
    show ?thesis by (intro exI [of _ "failed_status e"]) (simp add: failed_status_def)
  next
    case finished
    from succeed_closes [OF finished(1)] finished(2) show ?thesis by (intro exI [of _ "''succeeded''"]) simp
  qed
  with u show ?thesis unfolding rq_def by blast
qed


lemma resolve_Inr:
  assumes "resolve cid w = (Inr target, v)"
  shows "\<exists>c h. find (\<lambda>c. c_id c = cid) (containers (w_db w)) = Some c \<and> c_dockerId c = Some (tg_dockerId target)
      \<and> c_hostId c = tg_hostId target \<and> find (\<lambda>h. h_id h = c_hostId c) (hosts (w_db w)) = Some h \<and> \<not> isArchived h"
    and "tg_containerId target = cid"
proof -
  from assms show "\<exists>c h. find (\<lambda>c. c_id c = cid) (containers (w_db w)) = Some c \<and> c_dockerId c = Some (tg_dockerId target)
      \<and> c_hostId c = tg_hostId target \<and> find (\<lambda>h. h_id h = c_hostId c) (hosts (w_db w)) = Some h \<and> \<not> isArchived h"
    by (auto simp: resolve_def assertNotArchived_def run truthy_iff bind_eq_Some_conv split: option.splits if_splits)
  from assms obtain c where "find (\<lambda>c. c_id c = cid) (containers (w_db w)) = Some c" "tg_containerId target = c_id c"
    by (auto simp: resolve_def assertNotArchived_def run bind_eq_Some_conv split: option.splits if_splits)
  then show "tg_containerId target = cid" by (auto dest: find_SomeD)
qed

lemma requested_cases:
  assumes "requested E operation target actor context w = (r, u)"
  obtains (unwritten) e where "r = Inl e" "w_db u = w_db w" "mutations u = mutations w" "w_held u = w_held w"
    | (written) aid a where "r = Inr aid" "actions (w_db u) = actions (w_db w) @ [a]" "aid \<notin> act_id ` set (actions (w_db w))"
      "recorded (od_capability (OPERATIONS operation)) (tg_containerId target) aid ''running'' a"
      "mutations u = mutations w" "w_held u = w_held w"
proof -
  obtain q v where ins: "insert_container_action E actor context (od_capability (OPERATIONS operation)) (tg_containerId target)
      (tg_hostId target) w = (q, v)" by fastforce
  show ?thesis
  proof (cases q)
    case (Inl e)
    with ins have "w_db v = w_db w" "mutations v = mutations w" "w_held v = w_held w"
      by (auto simp: insert_container_action_def run split: option.splits if_splits)
    with ins Inl assms show ?thesis by (intro unwritten) (auto simp: requested_def bindE_def)
  next
    case (Inr aid)
    obtain n correlation where "aid \<notin> act_id ` set (actions (w_db w))" "v = w\<lparr>w_fresh := n, w_db := (w_db w)\<lparr>actions := actions (w_db w) @
       [container_action actor (od_capability (OPERATIONS operation)) (tg_containerId target) (tg_hostId target) correlation (w_clock w) aid]\<rparr>\<rparr>"
      using insert_container_action_Inr [OF ins [unfolded Inr]] by blast
    with ins Inr assms show ?thesis
      by (intro written [of aid "container_action actor (od_capability (OPERATIONS operation)) (tg_containerId target) (tg_hostId target) correlation (w_clock w) aid"])
        (auto simp: requested_def audit_action_def audit_container_def run recorded_def container_action_def
          bindE_def [of "insert_container_action _ _ _ _ _ _"])
  qed
qed

lemma closed_appended:
  assumes "operation_closed aid status u w'" and "actions (w_db u) = rows @ [a]" and "aid \<notin> act_id ` set rows"
    and "recorded cap cid aid st a"
  shows "\<exists>a'. actions (w_db w') = rows @ [a'] \<and> recorded cap cid aid status a'"
proof -
  from assms(1) obtain g where g: "actions (w_db w') = upd (\<lambda>a. act_id a = aid) g (actions (w_db u))"
    "\<And>a. act_status (g a) = status \<and> act_id (g a) = act_id a \<and> act_capability (g a) = act_capability a
      \<and> act_targetType (g a) = act_targetType a \<and> act_targetId (g a) = act_targetId a"
    unfolding operation_closed_def by blast
  from assms(4) have "act_id a = aid" by (simp add: recorded_def)
  from upd_appended [OF assms(3) this] g assms(2,4) show ?thesis by (simp add: recorded_def)
qed

text \<open>
  The container could be operated, the agent of its host was asked once, and one action was left,
  which is closed.
\<close>

definition operated :: "Operation \<Rightarrow> string \<Rightarrow> world \<Rightarrow> world \<Rightarrow> (js_error + ActionOutcome) \<Rightarrow> bool" where
  "operated operation cid w w' r \<longleftrightarrow> (\<exists>c agentId dockerId aid a status.
     find (\<lambda>c. c_id c = cid) (containers (w_db w)) = Some c \<and> c_dockerId c = Some dockerId \<and> reaches w (c_hostId c) agentId
     \<and> mutations w' = mutations w @ [\<lparr>rq_agentId = agentId, rq_capability = od_capability (OPERATIONS operation),
         rq_payload = OperateContainer dockerId\<rparr>]
     \<and> actions (w_db w') = actions (w_db w) @ [a] \<and> aid \<notin> act_id ` set (actions (w_db w))
     \<and> recorded (od_capability (OPERATIONS operation)) cid aid status a
     \<and> status \<in> set [''succeeded'', ''failed'', ''timed_out''] \<and> (isl r \<longleftrightarrow> status = ''failed'')
     \<and> may_operate cid (w_db w) \<and> w_held w' = w_held w)"

text \<open>
  The lock was taken and the action could not be written down: the tables are as they were and nothing
  was asked, but the lock stays taken, because the \<^verbatim>\<open>finally\<close> that gives it back starts after the action
  is written.
\<close>

definition locked_out :: "env \<Rightarrow> Operation \<Rightarrow> string \<Rightarrow> AuthenticatedUser \<Rightarrow> RequestContext \<Rightarrow> world \<Rightarrow> world \<Rightarrow> bool" where
  "locked_out E operation cid actor context w w' \<longleftrightarrow> w_held w cid = None
     \<and> w_held w' = (w_held w)(cid \<mapsto> operation_name operation)
     \<and> (\<exists>target e. requested E operation target actor context (w\<lparr>w_held := w_held w'\<rparr>) = (Inl e, w'))"

lemma run_operation_account:
  assumes "run_operation E operation cid actor context w = (r, w')" and "w_held w cid \<noteq> Some []"
  shows "(refused w w' r \<and> (w_held w' = w_held w \<or> locked_out E operation cid actor context w w')) \<or> operated operation cid w w' r"
proof (cases rule: assertOperable_cases [of cid w])
  case (refused e)
  with assms(1) show ?thesis by (auto simp: run_operation_def bindE_def refused_def)
next
  case free
  let ?rest = "\<lambda>target. bindE (reachableAgent (tg_hostId target)) (\<lambda>agentId. (\<lambda>w.
    case acquire cid (operation_name operation) (w_held w) of
      Inl e \<Rightarrow> (Inl e, w)
    | Inr (lease, held) \<Rightarrow>
        bindE (requested E operation target actor context) (\<lambda>actionId.
        finallyE (carry_out E agentId actionId operation target actor context)
          (\<lambda>t. t\<lparr>w_held := snd (release lease (w_held t))\<rparr>)) (w\<lparr>w_held := held\<rparr>)))"
  from assms(1) free(2) have "bindE (resolve cid) ?rest w = (r, w')" by (simp add: run_operation_def bindE_def)
  then show ?thesis
  proof (cases rule: bind_reads [OF stable_resolve, consumes 1, case_names thrown continues])
    case (continues target)
    note found = resolve_Inr [OF continues(1)]
    from continues(2) show ?thesis
    proof (cases rule: bind_reads [OF stable_reachableAgent, consumes 1, case_names thrown continues])
      case (continues agentId)
      note agent = reachableAgent_Inr [OF continues(1)]
      show ?thesis
      proof (cases "w_held w cid")
        case (Some existing)
        with assms(2) continues(2) show ?thesis by (auto simp: acquire_def refused_def)
      next
        case None
        let ?held = "(w_held w)(cid \<mapsto> operation_name operation)"
        obtain q u where req: "requested E operation target actor context (w\<lparr>w_held := ?held\<rparr>) = (q, u)" by fastforce
        from req show ?thesis
        proof (cases rule: requested_cases)
          case (unwritten e)
          with req continues(2) None have "w' = u" "isl r" by (auto simp: acquire_def bindE_def)
          with unwritten req None show ?thesis by (auto simp: refused_def locked_out_def)
        next
          case (written aid a)
          obtain r1 t where body: "carry_out E agentId aid operation target actor context u = (r1, t)" by fastforce
          with req written(1) continues(2) None have r: "r1 = r" "w' = t\<lparr>w_held := (w_held t)(cid := None)\<rparr>"
            by (auto simp: acquire_def bindE_def finallyE_def release_def)
          obtain v status where closes: "mutations v = mutations u @ [operate_request agentId operation target]"
            "w_db v = w_db u" "w_held v = w_held u" "operation_closed aid status v t"
            "status \<in> set [''succeeded'', ''failed'', ''timed_out'']" "isl r \<longleftrightarrow> status = ''failed''"
            using carry_out_closes [OF body] r(1) by blast
          obtain a' where a': "actions (w_db t) = actions (w_db w) @ [a']"
            "recorded (od_capability (OPERATIONS operation)) cid aid status a'"
            using closed_appended [OF closes(4) _ _ written(4), of "actions (w_db w)"] written(2,3) closes(2) found(2) by auto
          have "w_held t = ?held" "mutations t = mutations w @ [operate_request agentId operation target]"
            using closes written(5,6) by (auto simp: operation_closed_def)
          with None r(2) have "w_held w' = w_held w" "mutations w' = mutations w @ [operate_request agentId operation target]"
            by auto
          moreover obtain c where c: "find (\<lambda>c. c_id c = cid) (containers (w_db w)) = Some c"
            "c_dockerId c = Some (tg_dockerId target)" "c_hostId c = tg_hostId target" using found(1) by blast
          ultimately have "operated operation cid w w' r"
            unfolding operated_def operate_request_def
            by (intro exI [of _ c] exI [of _ agentId] exI [of _ "tg_dockerId target"] exI [of _ aid] exI [of _ a'] exI [of _ status])
              (use a' r(2) written(3) closes(5,6) free(1) agent c in simp)
          then show ?thesis ..
        qed
      qed
    qed (simp add: refused_same)
  qed (simp add: refused_same)
qed


section \<open>Examples\<close>

text \<open>A host that carries out what it is asked and answers with the state it reached, and may or may not be read afterwards.\<close>

definition site_operates :: "bool \<Rightarrow> env" where
  "site_operates readable = (site_env [site_summary])\<lparr>e_answer := (\<lambda>history rq. case rq_payload rq of
      OperateContainer dockerId \<Rightarrow> Inr (ResultAnswer (Some \<lparr>rs_state = Some ''exited'', rs_health = Some ''none''\<rparr>))
    | InspectContainer dockerId \<Rightarrow> if readable then Inr (InspectAnswer (Some (JObject [(''dockerId'', JString dockerId), (''state'', JString ''exited'')])))
        else Inl (AppErr (AppError ''AGENT_REQUEST_TIMEOUT'' [] 504))
    | _ \<Rightarrow> site_answer [site_summary] history rq)\<rparr>"

definition seen_running :: ContainerDetail where
  "seen_running = \<lparr>cd_dockerId = ''d'', cd_name = ''web'', cd_image = ''nginx'', cd_imageId = None, cd_state = ''running'',
     cd_status = ''Up'', cd_health = ''none'', cd_restartCount = 0, cd_restartPolicy = None, cd_createdAt = None,
     cd_startedAt = None, cd_finishedAt = None, cd_exitCode = None, cd_ports = [], cd_networks = [], cd_mounts = [],
     cd_limits = None, cd_labels = []\<rparr>"

definition site_seen :: world where
  "site_seen = site_world\<lparr>w_db := (w_db site_world)\<lparr>containers := map (\<lambda>c. c\<lparr>c_detail := Some seen_running,
     c_detailObservedAt := Some 0\<rparr>) (containers (w_db site_world))\<rparr>\<rparr>"

definition stopped_state :: "bool \<Rightarrow> string option" where
  "stopped_state readable = (case fst (run_operation (site_operates readable) op_stop site_cid shop_user shop_context site_seen) of
     Inl _ \<Rightarrow> None | Inr outcome \<Rightarrow> ao_state outcome)"

text \<open>
  When the container cannot be read again after an operation, the projection that was stored before
  is reported as the state it reached: a container that was stopped is reported as running.
\<close>

lemma stop_reports_old_reading: "stopped_state False = Some ''running''" "stopped_state True = Some ''exited''"
  by code_simp+

text \<open>The lock of a container whose action could not be written is not given back.\<close>

definition site_taken :: world where
  "site_taken = site_world\<lparr>w_db := (w_db site_world)\<lparr>actions := [(site_action [])\<lparr>act_id := site_uuid 11\<rparr>]\<rparr>\<rparr>"

lemma lock_not_given_back:
  "isl (fst (run_operation (site_operates True) op_stop site_cid shop_user shop_context site_taken))"
  "w_held (snd (run_operation (site_operates True) op_stop site_cid shop_user shop_context site_taken)) site_cid = Some ''stop''"
  by code_simp+

section \<open>Properties\<close>

text \<open>
  C10: what comes of a start, a stop or a restart of a container. It is refused with the tables as
  they were and nothing asked; or the container could be operated, the connected agent of its host, not
  revoked, was asked once, for that operation on the Docker container the row names, the action is
  closed as succeeded, failed or timed out, the caller is answered with an error exactly when it failed,
  and the locks are as they were. A refusal leaves the locks as they were too, with one exception: when
  the action could not be written down after the lock was taken, the lock stays taken.
\<close>

theorem container_operation_accounted:
  assumes "w_held w cid \<noteq> Some []"
  shows "case run_operation E operation cid actor context w of (r, w') \<Rightarrow>
    (refused w w' r \<and> (w_held w' = w_held w \<or> locked_out E operation cid actor context w w')) \<or> operated operation cid w w' r"
  using run_operation_account [OF _ assms] by (simp split: prod.split)

theorem container_operation_accounted_witness:
  "\<exists>outcome w'. run_operation (site_operates True) op_stop site_cid shop_user shop_context site_seen = (Inr outcome, w')
     \<and> operated op_stop site_cid site_seen w' (Inr outcome)"
proof -
  let ?run = "run_operation (site_operates True) op_stop site_cid shop_user shop_context site_seen"
  have "\<not> isl (fst ?run)" by code_simp
  then obtain outcome w' where run: "?run = (Inr outcome, w')"
    by (metis isl_def prod.collapse sum.collapse(2))
  have "w_held site_seen site_cid \<noteq> Some []"
    by (simp add: site_seen_def site_world_def shop_world_def empty_world_def)
  from container_operation_accounted [OF this, of "site_operates True" op_stop shop_user shop_context] run
  have "refused site_seen w' (Inr outcome :: js_error + ActionOutcome) \<or> operated op_stop site_cid site_seen w' (Inr outcome)"
    by auto
  with run show ?thesis by (auto simp: refused_def)
qed

text \<open>
  C2: while a change to a container is open, its stack is being changed or needs attention, or its
  identity is disputed, nothing can be done to the container: a start, stop or restart, a replacement
  and a removal are refused with an error of the API, and the world is left exactly as it was.
\<close>

theorem container_operations_blocked:
  assumes "change_open cid (w_db w)
    \<or> (\<exists>sid. sid \<noteq> [] \<and> stack_of cid (w_db w) = Some sid \<and> stack_unsettled sid (w_db w))
    \<or> Option.bind (find (\<lambda>c. c_id c = cid) (containers (w_db w))) c_identityConflict \<noteq> None"
  shows "(\<exists>e. run_operation E operation cid actor context w = (Inl (AppErr e), w))
    \<and> (\<exists>e. replace_container E cid request actor context w = (Inl (AppErr e), w))
    \<and> (\<exists>e. remove_container E cid removal actor context w = (Inl (AppErr e), w))"
proof -
  have blocked: "\<not> may_operate cid (w_db w)" using assms by (auto simp: may_operate_def)
  have "\<exists>e. run_operation E operation cid actor context w = (Inl (AppErr e), w)"
  proof (cases rule: assertOperable_cases [of cid w])
    case (refused e)
    then show ?thesis by (simp add: run_operation_def bindE_def)
  qed (use blocked in simp)
  with changes_blocked [OF blocked] show ?thesis by blast
qed

theorem container_operations_blocked_witness:
  "\<exists>e. run_operation (site_env []) op_stop site_cid shop_user shop_context (site_open ''container.remove'' [])
     = (Inl (AppErr e), site_open ''container.remove'' [])"
proof -
  have "change_open site_cid (w_db (site_open ''container.remove'' []))" by code_simp
  with container_operations_blocked show ?thesis by blast
qed

end
