(* ===== verification/Stack_Deployment.thy ===== *)
theory Stack_Deployment
  imports Example_Host
begin

text \<open>
  Applying a revision of a stack to its host, \<^verbatim>\<open>src/api/src/stacks/stack-deployment.service.ts\<close>:
  the refusals, the lock, compiling the stored revision again, writing the attempt down before
  the agent is asked, asking once, reading the host, and recording what the host showed.
\<close>

section \<open>Kinds of attempt\<close>

datatype ApplyKind = initial | redeploy | rollback | repair

definition kind_text :: "ApplyKind \<Rightarrow> string" where
  "kind_text kind = (case kind of initial \<Rightarrow> ''initial'' | redeploy \<Rightarrow> ''redeploy''
     | rollback \<Rightarrow> ''rollback'' | repair \<Rightarrow> ''repair'')"

definition AUDIT_REQUESTED :: "ApplyKind \<Rightarrow> string" where
  "AUDIT_REQUESTED kind = (case kind of initial \<Rightarrow> ''stack.deploy.requested''
     | redeploy \<Rightarrow> ''stack.redeploy.requested'' | rollback \<Rightarrow> ''stack.rollback.requested''
     | repair \<Rightarrow> ''stack.repair.requested'')"

definition AUDIT_SUCCEEDED :: "ApplyKind \<Rightarrow> string" where
  "AUDIT_SUCCEEDED kind = (case kind of initial \<Rightarrow> ''stack.deploy.succeeded''
     | redeploy \<Rightarrow> ''stack.redeployed'' | rollback \<Rightarrow> ''stack.rolled_back'' | repair \<Rightarrow> ''stack.repaired'')"

definition kindOf :: "stack_row \<Rightarrow> revision_row \<Rightarrow> revision_row option \<Rightarrow> ApplyKind option" where
  "kindOf stack target from_revision =
    (if s_status stack = ''needs_attention'' then Some repair
     else case from_revision of
       None \<Rightarrow> Some initial
     | Some f \<Rightarrow> if r_id f = r_id target then None
         else Some (if r_number target < r_number f then rollback else redeploy))"

definition summaryServices :: "revision_row option \<Rightarrow> string list option" where
  "summaryServices revision = map_option rs_services (Option.bind revision r_summary)"

definition summaryVolumes :: "revision_row option \<Rightarrow> string list" where
  "summaryVolumes revision = (case Option.bind revision r_summary of Some s \<Rightarrow> rs_volumes s | None \<Rightarrow> [])"

text \<open>What an attempt carries from the moment it is written down.\<close>

record DispatchedApply =
  da_deploymentId :: string
  da_actionId :: "string option"
  da_kind :: ApplyKind
  da_stackId :: string
  da_stackName :: string
  da_hostId :: string
  da_revisionId :: string
  da_fromRevisionId :: "string option"
  da_targetServices :: "string list"
  da_fromServices :: "string list option"
  da_agentId :: string
  da_containers :: "(string \<times> string) list"
  da_payload :: AgentStackPlan
  da_actor :: AuthenticatedUser
  da_context :: RequestContext

record DeploymentOutcome =
  do_deploymentId :: string
  do_stackId :: string
  do_revisionId :: string
  do_kind :: ApplyKind
  do_services :: "(string \<times> string option) list"

section \<open>Before the attempt\<close>

definition revision_of :: "string \<Rightarrow> string \<Rightarrow> revision_row handler" where
  "revision_of stackId revisionId =
    bindE (read_db (\<lambda>db. find (\<lambda>r. r_id r = revisionId \<and> r_stackId r = stackId) (stackRevisions db))) (\<lambda>found.
    case found of
      None \<Rightarrow> throw_app (notFound ''STACK_NOT_FOUND'' ''The revision does not exist.'')
    | Some revision \<Rightarrow> retE revision)"

definition variable_value :: "env \<Rightarrow> variable_row \<Rightarrow> (string \<times> string) handler" where
  "variable_value E variable = (if v_isSecret variable
     then (case v_valueEncrypted variable of
         None \<Rightarrow> throwE (OtherErr ''Cannot read properties of null'')
       | Some cipher \<Rightarrow> bindE (liftE (e_decrypt E cipher)) (\<lambda>plain. retE (v_key variable, plain)))
     else retE (v_key variable, or_default (v_value variable) []))"

definition compile :: "env \<Rightarrow> string \<Rightarrow> revision_row \<Rightarrow> StackDeploymentPlan handler" where
  "compile E projectName revision =
    bindE (read_db (\<lambda>db. filter (\<lambda>v. v_revisionId v = r_id revision) (stackRevisionEnvironment db))) (\<lambda>environment.
    bindE (liftE (e_decrypt E (r_composeSourceEncrypted revision))) (\<lambda>compose.
    bindE (mapE (variable_value E) environment) (\<lambda>pairs.
    bindE (liftE (e_compile E \<lparr>cr_projectName = projectName, cr_compose = compose,
        cr_environment = Object_entries pairs\<rparr>)) (\<lambda>result.
    case result of
      Problems problems \<Rightarrow> throw_app ((AppError ''STACK_CONFIGURATION_INVALID''
        ''This revision is not one Dockplane can deploy.'' 409)\<lparr>ae_details := Some problems\<rparr>)
    | Compiled plan \<Rightarrow> retE plan))))"

fun name_collision :: "(string \<rightharpoonup> container_row) \<Rightarrow> string list \<Rightarrow> app_error option" where
  "name_collision taken [] = None"
| "name_collision taken (name # names) = (case taken (toLowerCase name) of
      Some row \<Rightarrow> Some (conflict ''RESOURCE_NAME_CONFLICT''
        (if truthy (c_dockerId row)
         then ''A container called '' @ name @ '' already exists on this host and is not this stack'' @ [CHR 0x27] @ ''s.''
         else ''A container called '' @ name @ '' is already being created on this host.''))
    | None \<Rightarrow> name_collision taken names)"

definition assertNamesAreFree :: "string \<Rightarrow> (string \<times> string) list \<Rightarrow> container_row list \<Rightarrow> unit handler" where
  "assertNamesAreFree hostId names existing =
    bindE (read_db (\<lambda>db. filter (\<lambda>c. c_hostId c = hostId) (containers db))) (\<lambda>found.
    let ours = set (map c_id existing);
        taken = js_map (map (\<lambda>row. (toLowerCase (c_name row), row)) (filter (\<lambda>row. c_id row \<notin> ours) found)) in
    case name_collision taken (map snd names) of
      Some e \<Rightarrow> throw_app e
    | None \<Rightarrow> retE ())"

definition assertNoUnresolvedDeployment :: "string \<Rightarrow> unit handler" where
  "assertNoUnresolvedDeployment = assertNothingUnresolved"

definition claimed :: "js_error \<Rightarrow> js_error" where
  "claimed error = (case error of
      ConstraintErr constraint \<Rightarrow>
        if constraint = ''stack_deployments_unresolved_unique''
        then AppErr (conflict ''STACK_DEPLOYMENT_CONFLICT''
          ''An attempt to apply a revision to this stack was started elsewhere and has not been resolved yet.'')
        else if constraint = ''containers_host_pending_name_unique''
        then AppErr (conflict ''RESOURCE_NAME_CONFLICT''
          ''A container this stack needs is already being created on this host.'')
        else error
    | _ \<Rightarrow> error)"

section \<open>Writing the attempt down\<close>

text \<open>The resource of every service: the one the stack already has, or a new one.\<close>

fun allocate :: "env \<Rightarrow> stack_row \<Rightarrow> (string \<rightharpoonup> string) \<Rightarrow> (string \<rightharpoonup> container_row) \<Rightarrow> plan_service list
    \<Rightarrow> (string \<times> string) list handler" where
  "allocate E stack names held [] = retE []"
| "allocate E stack names held (service # services) =
    bindE (case held (ps_serviceName service) of
        Some row \<Rightarrow> retE (c_id row)
      | None \<Rightarrow>
          bindE (randomUUID E) (\<lambda>cid.
          bindE now (\<lambda>observedAt.
          bindE (put_containers (\<lambda>rows. rows @ [(blank_row cid (s_hostId stack))\<lparr>
              c_name := the (names (ps_serviceName service)), c_image := ps_image service,
              c_state := ''creating'', c_stackId := Some (s_id stack),
              c_stackService := Some (ps_serviceName service), c_observedAt := Some observedAt\<rparr>])) (\<lambda>_.
          retE cid)))) (\<lambda>cid.
    bindE (allocate E stack names held services) (\<lambda>rest.
    retE ((ps_serviceName service, cid) # rest)))"

definition held_services :: "container_row list \<Rightarrow> (string \<rightharpoonup> container_row)" where
  "held_services existing = js_map (List.map_filter (\<lambda>row. map_option (\<lambda>s. (s, row)) (c_stackService row)) existing)"

definition prepare :: "env \<Rightarrow> stack_row \<Rightarrow> revision_row \<Rightarrow> revision_row option \<Rightarrow> ApplyKind
    \<Rightarrow> StackDeploymentPlan \<Rightarrow> (string \<times> string) list \<Rightarrow> container_row list \<Rightarrow> AuthenticatedUser
    \<Rightarrow> RequestContext \<Rightarrow> (string \<times> string \<times> (string \<times> string) list) handler" where
  "prepare E stack target from_revision kind plan names existing actor context = transaction (
    bindE (insert_running_action E actor context ''stack.deploy'' stack) (\<lambda>actionId.
    bindE (randomUUID E) (\<lambda>deploymentId.
    bindE (insert_deployment \<lparr>d_id = deploymentId, d_stackId = s_id stack, d_revisionId = r_id target,
        d_fromRevisionId = map_option r_id from_revision, d_hostId = s_hostId stack, d_kind = kind_text kind,
        d_status = ''running'', d_actionId = Some actionId, d_startedBy = Some (u_id actor),
        d_detail = None, d_failureCode = None, d_resolvedAt = None\<rparr>) (\<lambda>_.
    bindE (allocate E stack (js_map names) (held_services existing) (sp_services plan)) (\<lambda>allocated.
    bindE (update_stack (s_id stack) (\<lambda>s. s\<lparr>s_desiredRevisionId := Some (r_id target),
        s_status := ''deploying''\<rparr>)) (\<lambda>_.
    retE (deploymentId, actionId, allocated)))))))"

section \<open>What is recorded\<close>

definition orphanedServices :: "DispatchedApply \<Rightarrow> container_row \<Rightarrow> bool" where
  "orphanedServices attempt c = (let kept = map snd (da_containers attempt) in
     if kept = [] then False else c_stackId c = Some (da_stackId attempt) \<and> c_id c \<notin> set kept)"

definition unclaimed :: "string \<Rightarrow> container_row \<Rightarrow> bool" where
  "unclaimed stackId c = (c_stackId c = Some stackId \<and> c_dockerId c = None)"

definition audit_attempt :: "env \<Rightarrow> DispatchedApply \<Rightarrow> string \<Rightarrow> string \<Rightarrow> unit handler" where
  "audit_attempt E attempt action result = audit_stack E (da_actor attempt) (da_context attempt)
     (da_stackId attempt) (da_stackName attempt) action result (Some (da_deploymentId attempt))"

definition interrupted :: "env \<Rightarrow> DispatchedApply \<Rightarrow> string \<Rightarrow> 'a handler" where
  "interrupted E attempt code =
    bindE (update_deployment (da_deploymentId attempt) (\<lambda>d. d\<lparr>d_status := ''interrupted'',
      d_failureCode := Some code\<rparr>)) (\<lambda>_.
    bindE (audit_attempt E attempt ''stack.deploy.interrupted'' ''failure'') (\<lambda>_.
    throw_app (AppError ''OPERATION_OUTCOME_UNKNOWN''
      ''The request reached the host but its result did not come back. Dockplane will establish what happened from the host and will not repeat the operation; the stack accepts no further deployments until then.''
      503)))"

definition recordApplied :: "env \<Rightarrow> DispatchedApply \<Rightarrow> service_detail list \<Rightarrow> unit handler" where
  "recordApplied E attempt detail =
    bindE now (\<lambda>t.
    bindE (transaction (
      bindE (update_deployment (da_deploymentId attempt) (\<lambda>d. d\<lparr>d_status := ''succeeded'',
        d_detail := Some detail, d_resolvedAt := Some t\<rparr>)) (\<lambda>_.
      bindE (update_stack (da_stackId attempt) (\<lambda>s. s\<lparr>s_currentRevisionId := Some (da_revisionId attempt),
        s_desiredRevisionId := None, s_status := ''running'', s_lastDeployedAt := Some t\<rparr>)) (\<lambda>_.
      bindE (delete_containers (orphanedServices attempt)) (\<lambda>_.
      finish_action (da_actionId attempt) ''succeeded'' t None))))) (\<lambda>_.
    bindE (audit_attempt E attempt (AUDIT_SUCCEEDED (da_kind attempt)) ''success'') (\<lambda>_.
    stack_event (da_hostId attempt) ''stack.deployed'' None (da_stackId attempt)
      (da_stackName attempt @ '' is running the revision '' @ u_email (da_actor attempt) @ '' applied.'')
      (da_deploymentId attempt))))"

definition recordNotApplied :: "env \<Rightarrow> DispatchedApply \<Rightarrow> service_detail list \<Rightarrow> app_error option \<Rightarrow> unit handler" where
  "recordNotApplied E attempt detail failure =
    bindE now (\<lambda>t.
    bindE (transaction (
      bindE (update_deployment (da_deploymentId attempt) (\<lambda>d. d\<lparr>
        d_status := (if truthy (da_fromRevisionId attempt) then ''rolled_back'' else ''failed''),
        d_detail := Some detail,
        d_failureCode := Some (or_default (map_option ae_code failure) ''STACK_APPLY_FAILED''),
        d_resolvedAt := Some t\<rparr>)) (\<lambda>_.
      bindE (update_stack (da_stackId attempt) (\<lambda>s. s\<lparr>
        s_status := (if truthy (da_fromRevisionId attempt) then ''running'' else ''not_deployed''),
        s_desiredRevisionId := None\<rparr>)) (\<lambda>_.
      bindE (delete_containers (unclaimed (da_stackId attempt))) (\<lambda>_.
      finish_action (da_actionId attempt) ''failed'' t (Some (map_option ae_code failure))))))) (\<lambda>_.
    bindE (audit_attempt E attempt (if truthy (da_fromRevisionId attempt)
        then ''stack.apply.rolled_back'' else ''stack.deploy.failed'') ''failure'') (\<lambda>_.
    stack_event (da_hostId attempt) ''stack.deployment.failed'' (Some ''warning'') (da_stackId attempt)
      (da_stackName attempt @ '' was not changed: the revision did not come up.'')
      (da_deploymentId attempt))))"

definition recordNeedsAttention :: "env \<Rightarrow> DispatchedApply \<Rightarrow> service_detail list \<Rightarrow> string \<Rightarrow> unit handler" where
  "recordNeedsAttention E attempt detail reason =
    bindE now (\<lambda>t.
    bindE (transaction (
      bindE (update_deployment (da_deploymentId attempt) (\<lambda>d. d\<lparr>d_status := ''needs_attention'',
        d_detail := Some detail, d_failureCode := Some ''STACK_DEPLOYMENT_PARTIAL'',
        d_resolvedAt := Some t\<rparr>)) (\<lambda>_.
      bindE (update_stack (da_stackId attempt) (\<lambda>s. s\<lparr>s_status := ''needs_attention'',
        s_desiredRevisionId := None\<rparr>)) (\<lambda>_.
      finish_action (da_actionId attempt) ''failed'' t (Some (Some ''STACK_DEPLOYMENT_PARTIAL'')))))) (\<lambda>_.
    bindE (audit_attempt E attempt ''stack.deploy.needs_attention'' ''failure'') (\<lambda>_.
    stack_event (da_hostId attempt) ''stack.deployment.failed'' (Some ''critical'') (da_stackId attempt)
      (da_stackName attempt @ '' needs attention: '' @ reason @ ''.'') (da_deploymentId attempt))))"

section \<open>Reading the host and settling\<close>

definition observed_service :: "container_row \<Rightarrow> ObservedService" where
  "observed_service row = \<lparr>os_serviceName = or_default (c_stackService row) [], os_containerId = c_id row,
     os_dockerId = c_dockerId row, os_state = (if truthy (c_dockerId row) then Some (c_state row) else None),
     os_revisionId = c_stackRevisionId row\<rparr>"

definition observe :: "env \<Rightarrow> DispatchedApply \<Rightarrow> (ObservedService list \<times> StackApplyOutcome) handler" where
  "observe E attempt =
    bindE (resync E (da_hostId attempt)) (\<lambda>snapshotComplete.
    bindE (stackContainers (da_stackId attempt)) (\<lambda>rows.
    let observed = map observed_service rows in
    retE (observed, classifyStackApply
      \<lparr>sa_fromRevisionId = da_fromRevisionId attempt, sa_targetRevisionId = da_revisionId attempt,
       sa_targetServices = da_targetServices attempt, sa_fromServices = da_fromServices attempt,
       sa_observed = observed, sa_snapshotComplete = snapshotComplete\<rparr>)))"

definition detail_of :: "ObservedService list \<Rightarrow> service_detail list" where
  "detail_of observed = service_details (map (\<lambda>s. (os_serviceName s, os_containerId s, os_dockerId s, os_state s)) observed)"

definition not_applied_error :: "DispatchedApply \<Rightarrow> app_error option \<Rightarrow> app_error" where
  "not_applied_error attempt failure =
    (if map_option ae_code failure = Some ''STACK_STATE_AMBIGUOUS''
     then conflict ''STACK_REPAIR_AMBIGUOUS''
       ''More than one container on this host claims to be the same service of this stack. Dockplane will not choose between them; resolve it on the host and try again.''
     else AppError (or_default (map_option ae_code failure) ''STACK_APPLY_FAILED'')
       (or_default (map_option ae_message failure) (if truthy (da_fromRevisionId attempt)
          then ''The revision was not applied. The stack is as it was.''
          else ''The stack was not deployed. The host is as it was.'')) 409)"

definition settle :: "env \<Rightarrow> DispatchedApply \<Rightarrow> ObservedService list \<Rightarrow> StackApplyOutcome
    \<Rightarrow> app_error option \<Rightarrow> DeploymentOutcome handler" where
  "settle E attempt observed outcome failure = (case outcome of
      SA_unknown _ \<Rightarrow> interrupted E attempt ''HOST_NOT_READABLE''
    | SA_finalize_target \<Rightarrow>
        bindE (recordApplied E attempt (detail_of observed)) (\<lambda>_.
        retE \<lparr>do_deploymentId = da_deploymentId attempt, do_stackId = da_stackId attempt,
          do_revisionId = da_revisionId attempt, do_kind = da_kind attempt,
          do_services = map (\<lambda>s. (os_serviceName s, os_state s)) (filter (\<lambda>s. os_dockerId s \<noteq> None) observed)\<rparr>)
    | SA_needs_attention reason \<Rightarrow>
        bindE (recordNeedsAttention E attempt (detail_of observed) reason) (\<lambda>_.
        throw_app (AppError ''STACK_DEPLOYMENT_PARTIAL''
          ''This stack is now neither the revision it was nor the one it was going to. Nothing was removed; it accepts no container operations until somebody applies a revision to it.''
          409))
    | _ \<Rightarrow>
        bindE (recordNotApplied E attempt (detail_of observed) failure) (\<lambda>_.
        throw_app (not_applied_error attempt failure)))"

definition run_attempt :: "env \<Rightarrow> DispatchedApply \<Rightarrow> DeploymentOutcome handler" where
  "run_attempt E attempt =
    bindE (tryE (dispatch_request E (da_agentId attempt) ''stack.deploy'' (ApplyPlan (da_payload attempt)))) (\<lambda>reply.
    case reply of
      Inl error \<Rightarrow>
        (let code = code_or ''DOCKER_OPERATION_FAILED'' error in
         if code \<in> set UNKNOWN_OUTCOME then interrupted E attempt code
         else bindE (observe E attempt) (\<lambda>(observed, outcome). settle E attempt observed outcome (as_app_error error)))
    | Inr _ \<Rightarrow> bindE (observe E attempt) (\<lambda>(observed, outcome). settle E attempt observed outcome None))"

section \<open>The operation\<close>

text \<open>What runs while the lock of the stack is held.\<close>

definition deploy_locked :: "env \<Rightarrow> stack_row \<Rightarrow> revision_row \<Rightarrow> revision_row option \<Rightarrow> ApplyKind \<Rightarrow> string
    \<Rightarrow> AuthenticatedUser \<Rightarrow> RequestContext \<Rightarrow> DeploymentOutcome handler" where
  "deploy_locked E stack target from_revision kind agentId actor context =
    bindE (compile E (s_name stack) target) (\<lambda>plan.
    bindE (liftE (containerNames plan)) (\<lambda>names.
    bindE (stackContainers (s_id stack)) (\<lambda>existing.
    bindE (assertNamesAreFree (s_hostId stack) names existing) (\<lambda>_.
    bindE (mapErrE claimed (prepare E stack target from_revision kind plan names existing actor context))
      (\<lambda>(deploymentId, actionId, allocated).
    bindE (audit_stack E actor context (s_id stack) (s_name stack) (AUDIT_REQUESTED kind) ''success''
      (Some deploymentId)) (\<lambda>_.
    bindE (liftE (agentPlanFor (s_id stack) (r_id target) plan allocated (summaryVolumes from_revision))) (\<lambda>payload.
    run_attempt E \<lparr>da_deploymentId = deploymentId, da_actionId = Some actionId, da_kind = kind,
      da_stackId = s_id stack, da_stackName = s_name stack, da_hostId = s_hostId stack,
      da_revisionId = r_id target, da_fromRevisionId = map_option r_id from_revision,
      da_targetServices = map ps_serviceName (sp_services plan),
      da_fromServices = summaryServices from_revision, da_agentId = agentId, da_containers = allocated,
      da_payload = payload, da_actor = actor, da_context = context\<rparr>)))))))"

definition deploy :: "env \<Rightarrow> string \<Rightarrow> string \<Rightarrow> AuthenticatedUser \<Rightarrow> RequestContext \<Rightarrow> DeploymentOutcome handler" where
  "deploy E stackId revisionId actor context =
    bindE (find_stack stackId ''its stacks cannot be deployed'') (\<lambda>stack.
    bindE (revision_of stackId revisionId) (\<lambda>target.
    bindE (if truthy (s_currentRevisionId stack)
           then bindE (revision_of stackId (the (s_currentRevisionId stack))) (\<lambda>r. retE (Some r))
           else retE None) (\<lambda>from_revision.
    case kindOf stack target from_revision of
      None \<Rightarrow> throw_app (conflict ''STACK_REVISION_ALREADY_DEPLOYED'' ''This stack is already running that revision.'')
    | Some kind \<Rightarrow>
        bindE (connectedAgent ''the stack cannot be changed'' (s_hostId stack)) (\<lambda>agentId.
        bindE (assertNoUnresolvedDeployment stackId) (\<lambda>_.
        with_lock (stackKey stackId) ''deploy''
          (deploy_locked E stack target from_revision kind agentId actor context))))))"

section \<open>Refusals\<close>

lemma stable_revision_of [intro!, simp]: "stable (keeps f) (revision_of stackId revisionId)"
  unfolding revision_of_def by (intro frame.stable_rules stable_read_db stable_throw_app)

text \<open>Every refusal before the lock is an error of the catalogue and leaves the world as it was.\<close>

lemma deploy_blocked:
  assumes "unresolved_on stackId (w_db w)"
  shows "\<exists>e. deploy E stackId revisionId actor context w = (Inl (AppErr e), w)"
  using assms
  by (auto simp: deploy_def find_stack_def revision_of_def connectedAgent_def assertStackAttribution_def
      assertNotArchived_def assertNoUnresolvedDeployment_def assertNothingUnresolved_run run
      bindE_def [of "assertNothingUnresolved stackId"] split: option.split)

section \<open>Writing an attempt down\<close>

lemma allocate_run:
  assumes "allocate E stack names held services w = (r, w')"
  shows "\<exists>n news. w' = w\<lparr>w_fresh := n, w_db := (w_db w)\<lparr>containers := containers (w_db w) @ news\<rparr>\<rparr>
    \<and> (\<forall>c \<in> set news. c_dockerId c = None \<and> c_stackId c = Some (s_id stack) \<and> c_hostId c = s_hostId stack)
    \<and> (\<forall>a. r = Inr a \<longrightarrow> map fst a = map ps_serviceName services)"
  using assms
proof (induction services arbitrary: w r w')
  case Nil
  then show ?case by (auto simp: run intro!: exI [of _ "w_fresh w"] exI [of _ "[]"])
next
  case (Cons service services)
  show ?case
  proof (cases "held (ps_serviceName service)")
    case (Some row)
    then obtain r1 where rest: "allocate E stack names held services w = (r1, w')"
      and r1: "\<forall>a. r = Inr a \<longrightarrow> (\<exists>b. r1 = Inr b \<and> a = (ps_serviceName service, c_id row) # b)"
      using Cons.prems by (cases r) (auto simp: run bindE_Inr bindE_Inl retE_eq)
    have "\<forall>a. r = Inr a \<longrightarrow> map fst a = map ps_serviceName (service # services)"
      if "\<forall>a. r1 = Inr a \<longrightarrow> map fst a = map ps_serviceName services"
      using r1 that by auto
    with Cons.IH [OF rest] show ?thesis by blast
  next
    case None
    let ?row = "(blank_row (e_uuid E (w_fresh w)) (s_hostId stack))\<lparr>
        c_name := the (names (ps_serviceName service)), c_image := ps_image service,
        c_state := ''creating'', c_stackId := Some (s_id stack), c_stackService := Some (ps_serviceName service),
        c_observedAt := Some (w_clock w)\<rparr>"
    let ?u = "w\<lparr>w_fresh := Suc (w_fresh w)\<rparr>"
    let ?v = "?u\<lparr>w_db := (w_db w)\<lparr>containers := containers (w_db w) @ [?row]\<rparr>\<rparr>"
    consider (refused) "w' = ?u" "isl r"
      | (added) r1 where "allocate E stack names held services ?v = (r1, w')"
        "\<forall>a. r = Inr a \<longrightarrow> (\<exists>b. r1 = Inr b \<and> a = (ps_serviceName service, e_uuid E (w_fresh w)) # b)"
      using Cons.prems None
      by (cases r) (auto simp: run bindE_Inr bindE_Inl retE_eq split: option.splits)
    then show ?thesis
    proof cases
      case refused
      then show ?thesis by (auto intro!: exI [of _ "Suc (w_fresh w)"] exI [of _ "[]"])
    next
      case added
      from Cons.IH [OF added(1)] obtain n news where
        w': "w' = ?v\<lparr>w_fresh := n, w_db := (w_db ?v)\<lparr>containers := containers (w_db ?v) @ news\<rparr>\<rparr>" and
        rows: "\<forall>c \<in> set news. c_dockerId c = None \<and> c_stackId c = Some (s_id stack) \<and> c_hostId c = s_hostId stack" and
        names: "\<forall>a. r1 = Inr a \<longrightarrow> map fst a = map ps_serviceName services" by blast
      from w' have "w' = w\<lparr>w_fresh := n, w_db := (w_db w)\<lparr>containers := containers (w_db w) @ (?row # news)\<rparr>\<rparr>"
        by simp
      moreover have "\<forall>c \<in> set (?row # news). c_dockerId c = None \<and> c_stackId c = Some (s_id stack) \<and> c_hostId c = s_hostId stack"
        using rows by (simp add: blank_row_def)
      moreover have "\<forall>a. r = Inr a \<longrightarrow> map fst a = map ps_serviceName (service # services)"
        using names added(2) by auto
      ultimately show ?thesis by blast
    qed
  qed
qed

text \<open>
  A prepared attempt: one new row that is not resolved, for a stack that had none, resources
  for its new services, and the stack marked as deploying. Nothing else has changed.
\<close>

definition new_deployment :: "stack_row \<Rightarrow> revision_row \<Rightarrow> revision_row option \<Rightarrow> ApplyKind \<Rightarrow> AuthenticatedUser
    \<Rightarrow> string \<Rightarrow> string \<Rightarrow> deployment_row" where
  "new_deployment stack target from_revision kind actor actionId deploymentId =
     \<lparr>d_id = deploymentId, d_stackId = s_id stack, d_revisionId = r_id target,
      d_fromRevisionId = map_option r_id from_revision, d_hostId = s_hostId stack, d_kind = kind_text kind,
      d_status = ''running'', d_actionId = Some actionId, d_startedBy = Some (u_id actor),
      d_detail = None, d_failureCode = None, d_resolvedAt = None\<rparr>"

lemma prepare_Inr:
  assumes "prepare E stack target from_revision kind plan names existing actor context w
    = (Inr (deploymentId, actionId, allocated), w')"
  shows "\<exists>row n news. w' = w\<lparr>w_fresh := n, w_db := (w_db w)\<lparr>
      actions := actions (w_db w) @ [row],
      stackDeployments := stackDeployments (w_db w)
        @ [new_deployment stack target from_revision kind actor actionId deploymentId],
      containers := containers (w_db w) @ news,
      stacks := upd (\<lambda>s. s_id s = s_id stack) (\<lambda>s. s\<lparr>s_desiredRevisionId := Some (r_id target),
        s_status := ''deploying''\<rparr>) (stacks (w_db w))\<rparr>\<rparr>"
    and "deploymentId \<notin> d_id ` set (stackDeployments (w_db w))"
    and "map fst allocated = map ps_serviceName (sp_services plan)"
proof -
  obtain correlation n where corr: "correlated E context w = (correlation, n)" by fastforce
  define row where "row = running_action actor ''stack.deploy'' stack correlation (w_clock w) (e_uuid E n)"
  define u where "u = w\<lparr>w_fresh := Suc (Suc n), w_db := (w_db w)\<lparr>actions := actions (w_db w) @ [row],
    stackDeployments := stackDeployments (w_db w)
      @ [new_deployment stack target from_revision kind actor (e_uuid E n) (e_uuid E (Suc n))]\<rparr>\<rparr>"
  have fresh: "e_uuid E (Suc n) \<notin> d_id ` set (stackDeployments (w_db w))"
    and body: "bindE (allocate E stack (js_map names) (held_services existing) (sp_services plan)) (\<lambda>allocated.
      bindE (update_stack (s_id stack) (\<lambda>s. s\<lparr>s_desiredRevisionId := Some (r_id target),
        s_status := ''deploying''\<rparr>)) (\<lambda>_. retE (e_uuid E (Suc n), e_uuid E n, allocated))) u
      = (Inr (deploymentId, actionId, allocated), w')"
    using assms unfolding prepare_def transaction_Inr
    by (simp_all add: run corr row_def u_def new_deployment_def Let_def split: if_splits)
  from body obtain v where alloc: "allocate E stack (js_map names) (held_services existing) (sp_services plan) u
      = (Inr allocated, v)" and
    w': "w' = v\<lparr>w_db := (w_db v)\<lparr>stacks := upd (\<lambda>s. s_id s = s_id stack) (\<lambda>s. s\<lparr>s_desiredRevisionId := Some (r_id target),
        s_status := ''deploying''\<rparr>) (stacks (w_db v))\<rparr>\<rparr>" and
    ids: "deploymentId = e_uuid E (Suc n)" "actionId = e_uuid E n"
    by (auto simp: bindE_Inr [of "allocate _ _ _ _ _"] run)
  from allocate_run [OF alloc] obtain m news where
    v: "v = u\<lparr>w_fresh := m, w_db := (w_db u)\<lparr>containers := containers (w_db u) @ news\<rparr>\<rparr>" and
    fst: "map fst allocated = map ps_serviceName (sp_services plan)" by blast
  show "deploymentId \<notin> d_id ` set (stackDeployments (w_db w))" using fresh ids by simp
  show "map fst allocated = map ps_serviceName (sp_services plan)" by (rule fst)
  show "\<exists>row n news. w' = w\<lparr>w_fresh := n, w_db := (w_db w)\<lparr>
      actions := actions (w_db w) @ [row],
      stackDeployments := stackDeployments (w_db w)
        @ [new_deployment stack target from_revision kind actor actionId deploymentId],
      containers := containers (w_db w) @ news,
      stacks := upd (\<lambda>s. s_id s = s_id stack) (\<lambda>s. s\<lparr>s_desiredRevisionId := Some (r_id target),
        s_status := ''deploying''\<rparr>) (stacks (w_db w))\<rparr>\<rparr>"
    by (intro exI [of _ row] exI [of _ m] exI [of _ news]) (simp add: w' v u_def ids)
qed

lemma prepare_Inl:
  assumes "prepare E stack target from_revision kind plan names existing actor context w = (Inl e, w')"
  shows "\<exists>n. w' = w\<lparr>w_fresh := n\<rparr>"
proof -
  obtain correlation n where corr: "correlated E context w = (correlation, n)" by fastforce
  from assms show ?thesis
    unfolding prepare_def transaction_Inl
    by (auto simp: run corr Let_def bindE_Inl [of "allocate _ _ _ _ _"] dest!: allocate_run
        split: if_splits)
qed

section \<open>Settling\<close>

text \<open>The containers that go with a verdict.\<close>

definition swept :: "DispatchedApply \<Rightarrow> verdict \<Rightarrow> container_row list \<Rightarrow> container_row list" where
  "swept attempt v rows = (case v of
      Applied \<Rightarrow> del (orphanedServices attempt) rows
    | NotApplied \<Rightarrow> del (unclaimed (da_stackId attempt)) rows
    | _ \<Rightarrow> rows)"

text \<open>
  Settling implements the abstract specification: the verdict of the reading decides the status
  of the attempt, the row of the stack and which resources go; it succeeds exactly when the
  target was found on the host.
\<close>

text \<open>The row of an attempt once it is settled.\<close>

definition settled_row :: "DispatchedApply \<Rightarrow> ObservedService list \<Rightarrow> verdict \<Rightarrow> app_error option \<Rightarrow> int
    \<Rightarrow> deployment_row \<Rightarrow> deployment_row" where
  "settled_row attempt observed v failure t d = (case v of
      Applied \<Rightarrow> d\<lparr>d_status := attempt_status (da_fromRevisionId attempt) v,
        d_detail := Some (detail_of observed), d_resolvedAt := Some t\<rparr>
    | NotApplied \<Rightarrow> d\<lparr>d_status := attempt_status (da_fromRevisionId attempt) v,
        d_detail := Some (detail_of observed),
        d_failureCode := Some (or_default (map_option ae_code failure) ''STACK_APPLY_FAILED''),
        d_resolvedAt := Some t\<rparr>
    | Attention \<Rightarrow> d\<lparr>d_status := attempt_status (da_fromRevisionId attempt) v,
        d_detail := Some (detail_of observed), d_failureCode := Some ''STACK_DEPLOYMENT_PARTIAL'',
        d_resolvedAt := Some t\<rparr>
    | Undecided \<Rightarrow> d\<lparr>d_status := ''interrupted'', d_failureCode := Some ''HOST_NOT_READABLE''\<rparr>)"

definition settled_db :: "DispatchedApply \<Rightarrow> ObservedService list \<Rightarrow> verdict \<Rightarrow> app_error option \<Rightarrow> int \<Rightarrow> database
    \<Rightarrow> stack_row list \<times> deployment_row list \<times> operation_row list \<times> container_row list" where
  "settled_db attempt observed v failure t db =
     (upd (\<lambda>s. s_id s = da_stackId attempt)
        (stack_after (da_revisionId attempt) (da_fromRevisionId attempt) t v) (stacks db),
      upd (\<lambda>d. d_id d = da_deploymentId attempt) (settled_row attempt observed v failure t) (stackDeployments db),
      stackOperations db, swept attempt v (containers db))"

definition stack_tables :: "database \<Rightarrow> stack_row list \<times> deployment_row list \<times> operation_row list \<times> container_row list" where
  "stack_tables db = (stacks db, stackDeployments db, stackOperations db, containers db)"

lemma interrupted_run:
  "stack_tables (w_db (snd (interrupted E attempt code w))) = (stacks (w_db w),
     upd (\<lambda>d. d_id d = da_deploymentId attempt) (\<lambda>d. d\<lparr>d_status := ''interrupted'', d_failureCode := Some code\<rparr>)
       (stackDeployments (w_db w)), stackOperations (w_db w), containers (w_db w))"
  "isl (fst (interrupted E attempt code w))"
  by (simp_all add: interrupted_def audit_attempt_def run stack_tables_def)

lemma recordApplied_run:
  "stack_tables (w_db (snd (recordApplied E attempt (detail_of observed) w))) =
     settled_db attempt observed Applied failure (w_clock w) (w_db w)"
  "fst (recordApplied E attempt (detail_of observed) w) = Inr ()"
  by (simp_all add: recordApplied_def audit_attempt_def run stack_tables_def settled_db_def swept_def
      stack_after_def [abs_def] settled_row_def [abs_def] attempt_status_def Let_def)

lemma recordNotApplied_run:
  "stack_tables (w_db (snd (recordNotApplied E attempt (detail_of observed) failure w))) =
     settled_db attempt observed NotApplied failure (w_clock w) (w_db w)"
  "fst (recordNotApplied E attempt (detail_of observed) failure w) = Inr ()"
  by (simp_all add: recordNotApplied_def audit_attempt_def run stack_tables_def settled_db_def swept_def
      stack_after_def [abs_def] settled_row_def [abs_def] attempt_status_def Let_def)

lemma recordNeedsAttention_run:
  "stack_tables (w_db (snd (recordNeedsAttention E attempt (detail_of observed) reason w))) =
     settled_db attempt observed Attention failure (w_clock w) (w_db w)"
  "fst (recordNeedsAttention E attempt (detail_of observed) reason w) = Inr ()"
  by (simp_all add: recordNeedsAttention_def audit_attempt_def run stack_tables_def settled_db_def swept_def
      stack_after_def [abs_def] settled_row_def [abs_def] attempt_status_def Let_def)

text \<open>
  Settling implements the abstract specification: the verdict of the reading decides the status
  of the attempt, the row of the stack and which resources go; it succeeds exactly when the
  target was found on the host.
\<close>

lemma settle_refines:
  "stack_tables (w_db (snd (settle E attempt observed outcome failure w))) =
     settled_db attempt observed (apply_verdict outcome) failure (w_clock w) (w_db w)"
  "\<not> isl (fst (settle E attempt observed outcome failure w)) \<longleftrightarrow> apply_verdict outcome = Applied"
proof -
  show "stack_tables (w_db (snd (settle E attempt observed outcome failure w))) =
     settled_db attempt observed (apply_verdict outcome) failure (w_clock w) (w_db w)"
  proof (cases outcome)
    case (SA_unknown x5)
    then show ?thesis
      by (simp add: settle_def interrupted_run apply_verdict_def settled_db_def swept_def
          stack_after_def [abs_def] settled_row_def [abs_def])
  qed (simp_all add: settle_def apply_verdict_def snd_bind recordApplied_run(1) recordNotApplied_run(1)
      recordNeedsAttention_run(1) [where failure = failure])
  show "\<not> isl (fst (settle E attempt observed outcome failure w)) \<longleftrightarrow> apply_verdict outcome = Applied"
    by (cases outcome) (simp_all add: settle_def apply_verdict_def fst_bind interrupted_run(2) recordApplied_run(2))
qed

section \<open>Running an attempt\<close>

lemma interrupted_calm: "stable (keeps calm) (interrupted E attempt code)"
  unfolding interrupted_def audit_attempt_def by (intro calm_rules)

lemma records_calm:
  "stable (keeps calm) (recordApplied E attempt detail)"
  "stable (keeps calm) (recordNotApplied E attempt detail failure)"
  "stable (keeps calm) (recordNeedsAttention E attempt detail reason)"
  unfolding recordApplied_def recordNotApplied_def recordNeedsAttention_def audit_attempt_def
  by (intro calm_rules)+

lemma settle_calm: "stable (keeps calm) (settle E attempt observed outcome failure)"
  unfolding settle_def
  by (cases outcome; simp only: StackApplyOutcome.simps; intro frame.stable_rules stable_throw_app
      records_calm interrupted_calm)

lemma observe_Inr:
  "\<exists>whole v. observe E attempt w = (Inr (map observed_service (filter (\<lambda>c. c_stackId c = Some (da_stackId attempt))
        (containers (w_db v))), classifyStackApply
      \<lparr>sa_fromRevisionId = da_fromRevisionId attempt, sa_targetRevisionId = da_revisionId attempt,
       sa_targetServices = da_targetServices attempt, sa_fromServices = da_fromServices attempt,
       sa_observed = map observed_service (filter (\<lambda>c. c_stackId c = Some (da_stackId attempt)) (containers (w_db v))),
       sa_snapshotComplete = whole\<rparr>), v) \<and> outside_discovery v = outside_discovery w"
proof -
  obtain whole v where resync: "resync E (da_hostId attempt) w = (Inr whole, v)"
    using resync_total by blast
  with keepsD [OF stable_resync this] show ?thesis
    by (intro exI [of _ whole] exI [of _ v])
      (simp add: observe_def bindE_def [of "resync _ _"] run Let_def)
qed

text \<open>The reading an attempt was judged by, and the verdict.\<close>

definition judged :: "DispatchedApply \<Rightarrow> bool \<Rightarrow> container_row list \<Rightarrow> StackApplyOutcome" where
  "judged attempt whole rows = classifyStackApply
     \<lparr>sa_fromRevisionId = da_fromRevisionId attempt, sa_targetRevisionId = da_revisionId attempt,
      sa_targetServices = da_targetServices attempt, sa_fromServices = da_fromServices attempt,
      sa_observed = map observed_service (filter (\<lambda>c. c_stackId c = Some (da_stackId attempt)) rows),
      sa_snapshotComplete = whole\<rparr>"

definition deploy_request :: "DispatchedApply \<Rightarrow> request" where
  "deploy_request attempt = \<lparr>rq_agentId = da_agentId attempt, rq_capability = ''stack.deploy'',
     rq_payload = ApplyPlan (da_payload attempt)\<rparr>"

lemma deploy_mutates: "isMutating ''stack.deploy''"
  by (simp add: isMutating_def MUTATING_CAPABILITIES_def)

text \<open>
  An attempt asks the host for one change and leaves the tables as the abstract specification
  says for some verdict: undecided when the answer was lost, and otherwise the verdict of a
  reading of the host made after the answer.
\<close>

lemma run_attempt_refines:
  assumes "run_attempt E attempt w = (r, w')"
  shows "\<exists>v t g rows whole. mutations w' = mutations w @ [deploy_request attempt]
    \<and> w_held w' = w_held w
    \<and> stacks (w_db w') = upd (\<lambda>s. s_id s = da_stackId attempt)
        (stack_after (da_revisionId attempt) (da_fromRevisionId attempt) t v) (stacks (w_db w))
    \<and> stackDeployments (w_db w') = upd (\<lambda>d. d_id d = da_deploymentId attempt) g (stackDeployments (w_db w))
    \<and> (\<forall>d. d_status (g d) = attempt_status (da_fromRevisionId attempt) v \<and> d_id (g d) = d_id d
        \<and> d_stackId (g d) = d_stackId d \<and> d_revisionId (g d) = d_revisionId d)
    \<and> stackOperations (w_db w') = stackOperations (w_db w)
    \<and> (\<not> isl r \<longleftrightarrow> v = Applied)
    \<and> (v \<noteq> Undecided \<longrightarrow> v = apply_verdict (judged attempt whole rows) \<and> containers (w_db w') = swept attempt v rows)"
proof -
  define rq where "rq = deploy_request attempt"
  define u where "u = w\<lparr>w_sent := w_sent w @ [rq], w_clock := w_clock w + int (e_takes E rq)\<rparr>"
  have u: "mutations u = mutations w @ [rq]" "w_held u = w_held w" "w_db u = w_db w"
    unfolding u_def rq_def deploy_request_def by (simp_all add: mutations_def deploy_mutates)
  have "run_attempt E attempt w = (case e_answer E (w_sent w) rq of
      Inl error \<Rightarrow> if code_or ''DOCKER_OPERATION_FAILED'' error \<in> set UNKNOWN_OUTCOME
        then interrupted E attempt (code_or ''DOCKER_OPERATION_FAILED'' error) u
        else bindE (observe E attempt) (\<lambda>(observed, outcome). settle E attempt observed outcome (as_app_error error)) u
    | Inr _ \<Rightarrow> bindE (observe E attempt) (\<lambda>(observed, outcome). settle E attempt observed outcome None) u)"
    unfolding run_attempt_def run_try u_def rq_def deploy_request_def
    by (simp add: dispatch_request_def Let_def split: sum.split)
  then consider (lost) code where "interrupted E attempt code u = (r, w')"
    | (read) failure where "bindE (observe E attempt) (\<lambda>(observed, outcome). settle E attempt observed outcome failure) u = (r, w')"
    using assms by (auto split: sum.splits if_splits)
  then show ?thesis
  proof cases
    case lost
    have "stack_tables (w_db w') = (stacks (w_db w), upd (\<lambda>d. d_id d = da_deploymentId attempt)
        (\<lambda>d. d\<lparr>d_status := ''interrupted'', d_failureCode := Some code\<rparr>) (stackDeployments (w_db w)),
        stackOperations (w_db w), containers (w_db w))" "isl r"
      using interrupted_run [of E attempt code u] lost u by (metis fst_conv snd_conv)+
    moreover have "calm w' = calm u" using keepsD [OF interrupted_calm lost] .
    ultimately show ?thesis
      using u unfolding rq_def
      by (intro exI [of _ Undecided] exI [of _ 0] exI [of _ "\<lambda>d. d\<lparr>d_status := ''interrupted'', d_failureCode := Some code\<rparr>"])
        (simp add: stack_tables_def calm_def stack_after_def [abs_def] attempt_status_def)
  next
    case read
    from observe_Inr [of E attempt u] obtain whole v where
      seen: "observe E attempt u = (Inr (map observed_service (filter (\<lambda>c. c_stackId c = Some (da_stackId attempt))
        (containers (w_db v))), judged attempt whole (containers (w_db v))), v)" and
      same: "outside_discovery v = outside_discovery u"
      unfolding judged_def by blast
    let ?obs = "map observed_service (filter (\<lambda>c. c_stackId c = Some (da_stackId attempt)) (containers (w_db v)))"
    let ?oc = "judged attempt whole (containers (w_db v))"
    have settle: "settle E attempt ?obs ?oc failure v = (r, w')" using read seen by (simp add: bindE_def)
    have tables: "stack_tables (w_db w') = settled_db attempt ?obs (apply_verdict ?oc) failure (w_clock v) (w_db v)"
      "\<not> isl r \<longleftrightarrow> apply_verdict ?oc = Applied"
      using settle_refines [of E attempt ?obs ?oc failure v] settle by (metis fst_conv snd_conv)+
    have "calm w' = calm v" using keepsD [OF settle_calm settle] .
    with tables same u show ?thesis
      unfolding rq_def
      by (intro exI [of _ "apply_verdict ?oc"] exI [of _ "w_clock v"]
          exI [of _ "settled_row attempt ?obs (apply_verdict ?oc) failure (w_clock v)"]
          exI [of _ "containers (w_db v)"] exI [of _ whole])
        (auto simp: stack_tables_def settled_db_def calm_def outside_discovery_def settled_row_def
          attempt_status_def split: verdict.split)
  qed
qed

section \<open>The whole operation\<close>

lemma allocate_ids:
  "allocate E stack names held services w = (Inr allocated, w') \<Longrightarrow> (s, i) \<in> set allocated \<Longrightarrow>
   (\<exists>row. held s = Some row \<and> i = c_id row) \<or> (\<exists>n. i = e_uuid E n)"
proof (induction services arbitrary: w allocated w')
  case Nil
  then show ?case by (simp add: run)
next
  case (Cons service services)
  then show ?case
    by (auto simp: run bindE_Inr [of "allocate _ _ _ _ _"] split: option.splits)
qed

lemma held_services_range: "held_services rows s = Some row \<Longrightarrow> row \<in> set rows"
  unfolding held_services_def by (drule js_map_range) (auto simp: List.map_filter_def split: option.splits)

text \<open>Identifiers the database hands out are not empty.\<close>

definition ids_nonempty :: "env \<Rightarrow> database \<Rightarrow> bool" where
  "ids_nonempty E db \<longleftrightarrow> (\<forall>n. e_uuid E n \<noteq> []) \<and> (\<forall>c \<in> set (containers db). c_id c \<noteq> [])"

lemma prepare_ids:
  assumes "prepare E stack target from_revision kind plan names existing actor context w
      = (Inr (deploymentId, actionId, allocated), w')"
    and "\<forall>n. e_uuid E n \<noteq> []" and "\<forall>c \<in> set existing. c_id c \<noteq> []"
  shows "\<forall>p \<in> set allocated. snd p \<noteq> []"
proof -
  obtain correlation n where corr: "correlated E context w = (correlation, n)" by fastforce
  from assms(1) obtain u v where
    alloc: "allocate E stack (js_map names) (held_services existing) (sp_services plan) u = (Inr allocated, v)"
    unfolding prepare_def transaction_Inr
    by (auto simp: run corr Let_def bindE_Inr [of "allocate _ _ _ _ _"] split: if_splits)
  show ?thesis
  proof
    fix p assume "p \<in> set allocated"
    with allocate_ids [OF alloc, of "fst p" "snd p"] held_services_range assms(2,3)
    show "snd p \<noteq> []" by (metis prod.collapse)
  qed
qed

lemma plan_for_prepared:
  assumes "containerNames plan = Inr names" and "map fst allocated = map ps_serviceName (sp_services plan)"
    and "\<forall>p \<in> set allocated. snd p \<noteq> []"
  shows "\<exists>payload. agentPlanFor stackId revisionId plan allocated existing = Inr payload"
  unfolding agentPlanFor_ok_iff
proof
  fix s assume s: "s \<in> set (sp_services plan)"
  with assms(1) have "truthy (ps_containerName s)"
    by (auto simp: containerNames_def container_name_entries_Inr)
  moreover have "ps_serviceName s \<in> fst ` set allocated"
    using s assms(2) by (metis image_eqI image_set)
  then obtain i where i: "js_map allocated (ps_serviceName s) = Some i"
    using js_map_None_iff by fastforce
  with assms(3) js_map_SomeD [OF i] have "i \<noteq> []" by fastforce
  ultimately show "truthy (ps_containerName s) \<and> truthy (js_map allocated (ps_serviceName s))"
    using i by simp
qed

lemma stable_variable_value [intro!, simp]: "stable (keeps f) (variable_value E variable)"
  unfolding variable_value_def by (intro frame.stable_rules stable_liftE)

lemma stable_compile [intro!, simp]: "stable (keeps f) (compile E projectName revision)"
  unfolding compile_def
  by (intro frame.stable_rules stable_read_db stable_liftE stable_variable_value)
    (simp split: compile_result.split add: stable_throw_app frame.stable_ret)

lemma stable_assertNamesAreFree [intro!, simp]: "stable (keeps f) (assertNamesAreFree hostId names existing)"
  unfolding assertNamesAreFree_def Let_def by (intro frame.stable_rules stable_read_db stable_throw_app)

text \<open>Up to the moment the attempt is written down nothing changes; from then on it is an attempt.\<close>

lemma deploy_locked_cases:
  assumes "deploy_locked E stack target from_revision kind agentId actor context w = (r, w')"
  obtains (refused) n where "w' = w\<lparr>w_fresh := n\<rparr>" "isl r"
    | (stranded) row where "\<not> ids_nonempty E (w_db w)" "isl r" "mutations w' = mutations w"
      "d_id row \<notin> d_id ` set (stackDeployments (w_db w))" "d_stackId row = s_id stack" "d_status row = ''running''"
      "stackDeployments (w_db w') = stackDeployments (w_db w) @ [row]" "stackOperations (w_db w') = stackOperations (w_db w)"
      "stacks (w_db w') = upd (\<lambda>s. s_id s = s_id stack) (\<lambda>s. s\<lparr>s_desiredRevisionId := Some (r_id target),
        s_status := ''deploying''\<rparr>) (stacks (w_db w))"
    | (attempted) plan attempt u row news where
      "compile E (s_name stack) target w = (Inr plan, w)"
      "run_attempt E attempt u = (r, w')"
      "da_stackId attempt = s_id stack" "da_revisionId attempt = r_id target"
      "da_fromRevisionId attempt = map_option r_id from_revision" "da_agentId attempt = agentId"
      "da_targetServices attempt = map ps_serviceName (sp_services plan)"
      "da_deploymentId attempt \<notin> d_id ` set (stackDeployments (w_db w))"
      "stackDeployments (w_db u) = stackDeployments (w_db w) @ [row]" "d_id row = da_deploymentId attempt"
      "d_stackId row = s_id stack" "d_revisionId row = r_id target"
      "containers (w_db u) = containers (w_db w) @ news" "stackOperations (w_db u) = stackOperations (w_db w)"
      "stacks (w_db u) = upd (\<lambda>s. s_id s = s_id stack) (\<lambda>s. s\<lparr>s_desiredRevisionId := Some (r_id target),
        s_status := ''deploying''\<rparr>) (stacks (w_db w))"
      "mutations u = mutations w" "w_held u = w_held w"
proof -
  let ?prepare = "\<lambda>plan names existing. prepare E stack target from_revision kind plan names existing actor context"
  from assms(1) have "(w' = w \<and> isl r) \<or> (\<exists>plan names existing. compile E (s_name stack) target w = (Inr plan, w)
      \<and> containerNames plan = Inr names \<and> existing = filter (\<lambda>c. c_stackId c = Some (s_id stack)) (containers (w_db w))
      \<and> bindE (mapErrE claimed (?prepare plan names existing)) (\<lambda>(deploymentId, actionId, allocated).
    bindE (audit_stack E actor context (s_id stack) (s_name stack) (AUDIT_REQUESTED kind) ''success''
      (Some deploymentId)) (\<lambda>_.
    bindE (liftE (agentPlanFor (s_id stack) (r_id target) plan allocated (summaryVolumes from_revision))) (\<lambda>payload.
    run_attempt E \<lparr>da_deploymentId = deploymentId, da_actionId = Some actionId, da_kind = kind,
      da_stackId = s_id stack, da_stackName = s_name stack, da_hostId = s_hostId stack,
      da_revisionId = r_id target, da_fromRevisionId = map_option r_id from_revision,
      da_targetServices = map ps_serviceName (sp_services plan),
      da_fromServices = summaryServices from_revision, da_agentId = agentId, da_containers = allocated,
      da_payload = payload, da_actor = actor, da_context = context\<rparr>))) w = (r, w'))"
    unfolding deploy_locked_def
    by (elim bind_reads [OF stable_compile] bind_reads [OF stable_assertNamesAreFree])
      (auto simp: run elim!: bind_reads [OF stable_assertNamesAreFree] split: sum.splits)
  then show ?thesis
  proof (elim disjE exE conjE)
    assume "w' = w" "isl r"
    then show ?thesis by (intro refused [of "w_fresh w"]) simp_all
  next
    fix plan names existing
    assume plan: "compile E (s_name stack) target w = (Inr plan, w)" and names: "containerNames plan = Inr names"
      and existing: "existing = filter (\<lambda>c. c_stackId c = Some (s_id stack)) (containers (w_db w))"
      and rest: "bindE (mapErrE claimed (?prepare plan names existing)) (\<lambda>(deploymentId, actionId, allocated).
        bindE (audit_stack E actor context (s_id stack) (s_name stack) (AUDIT_REQUESTED kind) ''success''
          (Some deploymentId)) (\<lambda>_.
        bindE (liftE (agentPlanFor (s_id stack) (r_id target) plan allocated (summaryVolumes from_revision))) (\<lambda>payload.
        run_attempt E \<lparr>da_deploymentId = deploymentId, da_actionId = Some actionId, da_kind = kind,
          da_stackId = s_id stack, da_stackName = s_name stack, da_hostId = s_hostId stack,
          da_revisionId = r_id target, da_fromRevisionId = map_option r_id from_revision,
          da_targetServices = map ps_serviceName (sp_services plan),
          da_fromServices = summaryServices from_revision, da_agentId = agentId, da_containers = allocated,
          da_payload = payload, da_actor = actor, da_context = context\<rparr>))) w = (r, w')"
    obtain p u where prep: "?prepare plan names existing w = (p, u)" by fastforce
    show ?thesis
    proof (cases p)
      case (Inl e)
      with prep rest have "w' = u" "isl r" by (auto simp: bindE_def mapErrE_def)
      moreover obtain n where "u = w\<lparr>w_fresh := n\<rparr>" using prepare_Inl prep Inl by blast
      ultimately show ?thesis by (intro refused [of n]) simp_all
    next
      case (Inr t)
      obtain deploymentId actionId allocated where t: "t = (deploymentId, actionId, allocated)" by (cases t)
      note prepared = prep [unfolded Inr t]
      note facts = prepare_Inr [OF prepared]
      obtain arow n news where u: "u = w\<lparr>w_fresh := n, w_db := (w_db w)\<lparr>
          actions := actions (w_db w) @ [arow],
          stackDeployments := stackDeployments (w_db w)
            @ [new_deployment stack target from_revision kind actor actionId deploymentId],
          containers := containers (w_db w) @ news,
          stacks := upd (\<lambda>s. s_id s = s_id stack) (\<lambda>s. s\<lparr>s_desiredRevisionId := Some (r_id target),
            s_status := ''deploying''\<rparr>) (stacks (w_db w))\<rparr>\<rparr>"
        using facts(1) by blast
      let ?attempt = "\<lambda>payload. \<lparr>da_deploymentId = deploymentId, da_actionId = Some actionId, da_kind = kind,
          da_stackId = s_id stack, da_stackName = s_name stack, da_hostId = s_hostId stack,
          da_revisionId = r_id target, da_fromRevisionId = map_option r_id from_revision,
          da_targetServices = map ps_serviceName (sp_services plan),
          da_fromServices = summaryServices from_revision, da_agentId = agentId, da_containers = allocated,
          da_payload = payload, da_actor = actor, da_context = context\<rparr>"
      obtain entries where audited: "audit_stack E actor context (s_id stack) (s_name stack) (AUDIT_REQUESTED kind)
          ''success'' (Some deploymentId) u = (Inr (), u\<lparr>w_db := (w_db u)\<lparr>auditEntries := entries\<rparr>\<rparr>)"
        by (simp add: run)
      let ?v = "u\<lparr>w_db := (w_db u)\<lparr>auditEntries := entries\<rparr>\<rparr>"
      show ?thesis
      proof (cases "agentPlanFor (s_id stack) (r_id target) plan allocated (summaryVolumes from_revision)")
        case (Inl e)
        have "\<not> ids_nonempty E (w_db w)"
          using Inl plan_for_prepared [OF names facts(3)] prepare_ids [OF prepared] existing
          unfolding ids_nonempty_def by (metis (no_types, lifting) Inl_Inr_False mem_Collect_eq set_filter)
        moreover have "w' = ?v" "isl r"
          using rest prepared Inl audited by (auto simp: bindE_def mapErrE_def liftE_def throwE_def)
        ultimately show ?thesis
          by (intro stranded [of "new_deployment stack target from_revision kind actor actionId deploymentId"])
            (use facts(2) in \<open>simp_all add: u new_deployment_def\<close>)
      next
        case (Inr payload)
        then have "run_attempt E (?attempt payload) ?v = (r, w')"
          using rest prepared audited by (simp add: bindE_def mapErrE_def liftE_def retE_def)
        then show ?thesis
          by (rule attempted [OF plan, where
              row = "new_deployment stack target from_revision kind actor actionId deploymentId" and news = news])
            (use facts(2) in \<open>simp_all add: u new_deployment_def\<close>)
      qed
    qed
  qed
qed

lemma revision_of_SomeD:
  "revision_of stackId revisionId w = (Inr revision, w') \<Longrightarrow> r_id revision = revisionId \<and> w' = w"
  by (auto simp: revision_of_def run dest: find_SomeD split: option.splits)

lemma from_revision_reads: "stable (keeps f) (if truthy c then bindE (revision_of stackId (the c)) (\<lambda>r. retE (Some r)) else retE None)"
  by (intro frame.stable_rules stable_revision_of)

lemma deploy_cases:
  assumes "deploy E stackId revisionId actor context w = (r, w')"
  obtains (refused) "w' = w" "isl r"
    | (locked) stack target from_revision kind agentId where
      "s_id stack = stackId" "r_id target = revisionId" "\<not> unresolved_on stackId (w_db w)"
      "find (\<lambda>s. s_id s = stackId) (stacks (w_db w)) = Some stack"
      "with_lock (stackKey stackId) ''deploy''
        (deploy_locked E stack target from_revision kind agentId actor context) w = (r, w')"
  using assms [unfolded deploy_def]
proof (cases rule: bind_reads [OF stable_find_stack, consumes 1, case_names thrown continues])
  case (continues stack)
  note found = find_stack_SomeD [OF continues(1)]
  from continues(2) show ?thesis
  proof (cases rule: bind_reads [OF stable_revision_of, consumes 1, case_names thrown continues])
    case (continues target)
    note target = revision_of_SomeD [OF continues(1)]
    from continues(2) show ?thesis
    proof (cases rule: bind_reads [OF from_revision_reads, consumes 1, case_names thrown continues])
      case (continues from_revision)
      show ?thesis
      proof (cases "kindOf stack target from_revision")
        case None
        with continues(2) show ?thesis by (intro refused) (auto simp: run)
      next
        case (Some kind)
        from continues(2) [unfolded Some option.case] show ?thesis
        proof (cases rule: bind_reads [OF stable_connectedAgent, consumes 1, case_names thrown continues])
          case (continues agentId)
          then show ?thesis
            using found target
            by (cases "unresolved_on stackId (w_db w)")
              (auto simp: assertNoUnresolvedDeployment_def bindE_def [of "assertNothingUnresolved _"]
                assertNothingUnresolved_run intro: refused locked)
        qed (rule refused)
      qed
    qed (rule refused)
  qed (rule refused)
qed (rule refused)

text \<open>A stack while an attempt to apply a revision to it is running.\<close>

definition deploying :: "string \<Rightarrow> stack_row \<Rightarrow> stack_row" where
  "deploying revisionId s = s\<lparr>s_desiredRevisionId := Some revisionId, s_status := ''deploying''\<rparr>"

lemma deploying_simps [simp]:
  "s_id (deploying revisionId s) = s_id s" "s_currentRevisionId (deploying revisionId s) = s_currentRevisionId s"
  "s_latestRevisionId (deploying revisionId s) = s_latestRevisionId s"
  by (simp_all add: deploying_def)

text \<open>An attempt that succeeded was judged by a reading that shows the target.\<close>

lemma run_attempt_success:
  assumes "run_attempt E attempt w = (Inr outcome, w')"
  shows "\<exists>whole rows. judged attempt whole rows = SA_finalize_target
    \<and> containers (w_db w') = del (orphanedServices attempt) rows
    \<and> do_services outcome = map (\<lambda>s. (os_serviceName s, os_state s)) (filter (\<lambda>s. os_dockerId s \<noteq> None)
        (map observed_service (filter (\<lambda>c. c_stackId c = Some (da_stackId attempt)) rows)))"
proof -
  have no_return: "interrupted E attempt code u \<noteq> (Inr outcome, w')" for code u
    using interrupted_run(2) by (metis fst_conv sum.disc(2))
  obtain u failure where "bindE (observe E attempt) (\<lambda>(observed, oc). settle E attempt observed oc failure) u
      = (Inr outcome, w')"
    using assms no_return unfolding run_attempt_def run_try
    by (auto simp: dispatch_request_def Let_def split: sum.splits if_splits)
  moreover obtain whole v where "observe E attempt u = (Inr (map observed_service
      (filter (\<lambda>c. c_stackId c = Some (da_stackId attempt)) (containers (w_db v))),
      judged attempt whole (containers (w_db v))), v)"
    using observe_Inr [of E attempt u] unfolding judged_def by blast
  ultimately have settled: "settle E attempt (map observed_service (filter (\<lambda>c. c_stackId c = Some (da_stackId attempt))
      (containers (w_db v)))) (judged attempt whole (containers (w_db v))) failure v = (Inr outcome, w')"
    (is "settle E attempt ?obs ?oc failure v = _")
    by (simp add: bindE_def)
  have "apply_verdict ?oc = Applied" and tables: "stack_tables (w_db w') = settled_db attempt ?obs (apply_verdict ?oc) failure (w_clock v) (w_db v)"
    using settle_refines [of E attempt ?obs ?oc failure v] settled by auto
  then have target: "?oc = SA_finalize_target" by (simp add: apply_verdict_def split: StackApplyOutcome.splits)
  with tables have "containers (w_db w') = del (orphanedServices attempt) (containers (w_db v))"
    by (simp add: stack_tables_def settled_db_def swept_def apply_verdict_def)
  moreover have "do_services outcome = map (\<lambda>s. (os_serviceName s, os_state s)) (filter (\<lambda>s. os_dockerId s \<noteq> None) ?obs)"
    using settled target by (auto simp: settle_def bindE_Inr retE_eq)
  ultimately show ?thesis using target by blast
qed

lemma judged_target:
  assumes "judged attempt whole rows = SA_finalize_target"
  defines "live \<equiv> filter (\<lambda>s. os_dockerId s \<noteq> None)
    (map observed_service (filter (\<lambda>c. c_stackId c = Some (da_stackId attempt)) rows))"
  shows "set (map os_serviceName live) = set (da_targetServices attempt)"
    and "s \<in> set live \<Longrightarrow> os_revisionId s = Some (da_revisionId attempt) \<and> os_state s = Some ''running''"
proof -
  let ?in = "\<lparr>sa_fromRevisionId = da_fromRevisionId attempt, sa_targetRevisionId = da_revisionId attempt,
      sa_targetServices = da_targetServices attempt, sa_fromServices = da_fromServices attempt,
      sa_observed = map observed_service (filter (\<lambda>c. c_stackId c = Some (da_stackId attempt)) rows),
      sa_snapshotComplete = whole\<rparr>"
  have live: "live_services ?in = live" by (simp add: live_def)
  from assms(1) have names: "distinct (map os_serviceName live)" and m: "matches live (da_targetServices attempt) (da_revisionId attempt) True"
    unfolding judged_def finalize_target_kind apply_kind_table live by (auto split: if_splits)
  have "set (map os_serviceName live) \<subseteq> set (da_targetServices attempt)"
    "length (map os_serviceName live) = length (da_targetServices attempt)"
    using m by (auto simp: matches_def list_all_iff split: if_splits)
  with distinct_card [OF names] card_length [of "da_targetServices attempt"]
  show "set (map os_serviceName live) = set (da_targetServices attempt)"
    by (metis List.finite_set card_seteq)
  show "s \<in> set live \<Longrightarrow> os_revisionId s = Some (da_revisionId attempt) \<and> os_state s = Some ''running''"
    using m by (auto simp: matches_def list_all_iff split: if_splits)
qed

text \<open>Compiling does not depend on who holds which lock.\<close>

lemma variable_value_held:
  "variable_value E v (w\<lparr>w_held := h\<rparr>) = (fst (variable_value E v w), w\<lparr>w_held := h\<rparr>)"
  by (auto simp: variable_value_def liftE_def run exm_defs split: option.split sum.split)

lemma variable_values_held:
  "fst (mapE (variable_value E) vs (w\<lparr>w_held := h\<rparr>)) = fst (mapE (variable_value E) vs w)"
proof (induction vs)
  case (Cons v vs)
  have "variable_value E v w = (fst (variable_value E v w), w)"
    using readsD [OF stable_variable_value] by (metis prod.collapse)
  with Cons show ?case
    by (cases "fst (variable_value E v w)")
      (auto simp: bindE_def variable_value_held retE_def split: prod.split sum.split)
qed (simp add: retE_def)

lemma compile_held: "fst (compile E name revision (w\<lparr>w_held := h\<rparr>)) = fst (compile E name revision w)"
proof -
  let ?vs = "filter (\<lambda>v. v_revisionId v = r_id revision) (stackRevisionEnvironment (w_db w))"
  have reads: "mapE (variable_value E) ?vs u = (fst (mapE (variable_value E) ?vs u), u)" for u
    using readsD [of "mapE (variable_value E) ?vs" u] by (metis frame.stable_map prod.collapse stable_variable_value)
  obtain x where "mapE (variable_value E) ?vs w = (x, w)"
    "mapE (variable_value E) ?vs (w\<lparr>w_held := h\<rparr>) = (x, w\<lparr>w_held := h\<rparr>)"
    using reads variable_values_held by metis
  then show ?thesis
    unfolding compile_def
    by (cases x) (simp_all add: bindE_def read_db_def getE_def liftE_def retE_def throwE_def throw_app_def
        split: sum.split compile_result.split)
qed

section \<open>The example\<close>

definition shop_locked :: world where
  "shop_locked = shop_world\<lparr>w_held := [stackKey shop_id \<mapsto> ''deploy'']\<rparr>"

lemma shop_checked:
  "deploy shop_env shop_id shop_r1 shop_user shop_context shop_world =
     with_lock (stackKey shop_id) ''deploy'' (deploy_locked shop_env shop_stack (shop_revision shop_r1 1) None
       initial ''a1'' shop_user shop_context) shop_world"
proof -
  have "fst (find_stack shop_id ''its stacks cannot be deployed'' shop_world) = Inr shop_stack"
    "fst (revision_of shop_id shop_r1 shop_world) = Inr (shop_revision shop_r1 1)"
    "\<not> truthy (s_currentRevisionId shop_stack)"
    "kindOf shop_stack (shop_revision shop_r1 1) None = Some initial"
    "fst (connectedAgent ''the stack cannot be changed'' (s_hostId shop_stack) shop_world) = Inr ''a1''"
    "fst (assertNothingUnresolved shop_id shop_world) = Inr ()"
    by code_simp+
  then show ?thesis
    by (simp only: deploy_def bindE_read [OF stable_find_stack] bindE_read [OF stable_revision_of] if_False
        run_bind run_ret option.case bindE_read [OF stable_connectedAgent] assertNoUnresolvedDeployment_def
        bindE_read [OF stable_assertNothingUnresolved])
qed

definition shop_prepared :: world where
  "shop_prepared = snd (prepare shop_env shop_stack (shop_revision shop_r1 1) None initial shop_plan
     [(''web'', ''shop-web-1'')] [] shop_user shop_context shop_locked)"

definition shop_attempt :: DispatchedApply where
  "shop_attempt = \<lparr>da_deploymentId = ''id-2'', da_actionId = Some ''id-1'', da_kind = initial,
      da_stackId = s_id shop_stack, da_stackName = s_name shop_stack, da_hostId = s_hostId shop_stack,
      da_revisionId = r_id (shop_revision shop_r1 1), da_fromRevisionId = map_option r_id (None :: revision_row option),
      da_targetServices = map ps_serviceName (sp_services shop_plan),
      da_fromServices = summaryServices None, da_agentId = ''a1'', da_containers = [(''web'', ''id-3'')],
      da_payload = projr (agentPlanFor (s_id shop_stack) (r_id (shop_revision shop_r1 1)) shop_plan
        [(''web'', ''id-3'')] (summaryVolumes None)), da_actor = shop_user, da_context = shop_context\<rparr>"

definition shop_audited :: world where
  "shop_audited = snd (audit_stack shop_env shop_user shop_context (s_id shop_stack) (s_name shop_stack)
     (AUDIT_REQUESTED initial) ''success'' (Some ''id-2'') shop_prepared)"

lemma shop_attempted:
  "deploy_locked shop_env shop_stack (shop_revision shop_r1 1) None initial ''a1'' shop_user shop_context shop_locked
     = run_attempt shop_env shop_attempt shop_audited"
proof -
  have compiled: "fst (compile shop_env (s_name shop_stack) (shop_revision shop_r1 1) shop_locked) = Inr shop_plan"
    and names: "containerNames shop_plan = Inr [(''web'', ''shop-web-1'')]"
    and existing: "fst (stackContainers (s_id shop_stack) shop_locked) = Inr []"
    and free: "fst (assertNamesAreFree (s_hostId shop_stack) [(''web'', ''shop-web-1'')] [] shop_locked) = Inr ()"
    and prepared: "fst (mapErrE claimed (prepare shop_env shop_stack (shop_revision shop_r1 1) None initial shop_plan
     [(''web'', ''shop-web-1'')] [] shop_user shop_context) shop_locked) = Inr (''id-2'', ''id-1'', [(''web'', ''id-3'')])"
    and audited: "fst (audit_stack shop_env shop_user shop_context (s_id shop_stack) (s_name shop_stack)
     (AUDIT_REQUESTED initial) ''success'' (Some ''id-2'') shop_prepared) = Inr ()"
    and planned: "\<not> isl (agentPlanFor (s_id shop_stack) (r_id (shop_revision shop_r1 1)) shop_plan
        [(''web'', ''id-3'')] (summaryVolumes None))"
    by code_simp+
  have same: "snd (mapErrE claimed (prepare shop_env shop_stack (shop_revision shop_r1 1) None initial shop_plan
     [(''web'', ''shop-web-1'')] [] shop_user shop_context) shop_locked) = shop_prepared"
    by (simp add: mapErrE_def shop_prepared_def split: prod.split sum.split)
  obtain payload where payload: "agentPlanFor (s_id shop_stack) (r_id (shop_revision shop_r1 1)) shop_plan
        [(''web'', ''id-3'')] (summaryVolumes None) = Inr payload" using planned sum.collapse(2) by metis
  show ?thesis
    unfolding deploy_locked_def bindE_read [OF stable_compile compiled] names liftE_def sum.case run_ret
      bindE_read [OF stable_stackContainers existing] bindE_read [OF stable_assertNamesAreFree free]
      bindE_next [of "mapErrE _ _", OF prepared] same prod.case bindE_next [of "audit_stack _ _ _ _ _ _ _ _", OF audited] payload shop_audited_def [symmetric]
      shop_attempt_def sum.sel ..
qed

lemma shop_runs: "\<not> isl (fst (run_attempt shop_env shop_attempt shop_audited))"
proof -
  let ?dispatch = "tryE (dispatch_request shop_env (da_agentId shop_attempt) ''stack.deploy'' (ApplyPlan (da_payload shop_attempt)))"
  have asked: "fst (?dispatch shop_audited) = Inr (Inr Done)" by code_simp
  obtain whole v where observe: "observe shop_env shop_attempt (snd (?dispatch shop_audited)) =
      (Inr (map observed_service (filter (\<lambda>c. c_stackId c = Some (da_stackId shop_attempt))
        (containers (w_db v))), judged shop_attempt whole (containers (w_db v))), v)"
    using observe_Inr unfolding judged_def by blast
  have "snd (projr (fst (observe shop_env shop_attempt (snd (?dispatch shop_audited))))) = SA_finalize_target"
    by code_simp
  with observe have "judged shop_attempt whole (containers (w_db v)) = SA_finalize_target" by simp
  with observe settle_refines(2) [of shop_env shop_attempt _ SA_finalize_target None v] show ?thesis
    unfolding run_attempt_def bindE_next [of "tryE _", OF asked] by (simp add: bindE_def [of "observe _ _"] apply_verdict_def)
qed

lemma shop_deploys:
  "\<not> isl (fst (deploy shop_env shop_id shop_r1 shop_user shop_context shop_world))"
proof -
  have "shop_world\<lparr>w_held := (w_held shop_world)(stackKey shop_id \<mapsto> ''deploy'')\<rparr> = shop_locked"
    "\<not> isBusy (stackKey shop_id) (w_held shop_world)"
    by (simp_all add: shop_locked_def shop_world_def empty_world_def isBusy_def)
  with shop_runs show ?thesis
    unfolding shop_checked with_lock_def acquire_def
    by (cases "run_attempt shop_env shop_attempt shop_audited") (simp add: isBusy_def finallyE_def shop_attempted)
qed

lemma shop_deployed:
  obtains outcome w' where "deploy shop_env shop_id shop_r1 shop_user shop_context shop_world = (Inr outcome, w')"
proof -
  obtain r w' where run: "deploy shop_env shop_id shop_r1 shop_user shop_context shop_world = (r, w')" by fastforce
  with shop_deploys that show thesis by (cases r) simp_all
qed

lemma shop_nonempty: "ids_nonempty shop_env (w_db shop_world)"
  by (simp add: ids_nonempty_def shop_ids shop_world_def empty_db_def empty_world_def)

section \<open>What a deployment comes to\<close>

lemma deploy_outcome:
  assumes "deploy E stackId revisionId actor context w = (r, w')"
  shows "(mutations w' = mutations w \<and> isl r \<and> stack_tables (w_db w') = stack_tables (w_db w)) \<or>
    (\<exists>from_revision v t rq d. \<not> unresolved_on stackId (w_db w)
      \<and> mutations w' = mutations w @ [rq] \<and> rq_capability rq = ''stack.deploy''
      \<and> stackDeployments (w_db w') = stackDeployments (w_db w) @ [d]
      \<and> d_id d \<notin> d_id ` set (stackDeployments (w_db w))
      \<and> d_stackId d = stackId \<and> d_revisionId d = revisionId \<and> d_status d = attempt_status from_revision v
      \<and> stacks (w_db w') = upd (\<lambda>s. s_id s = stackId)
          (\<lambda>s. stack_after revisionId from_revision t v (deploying revisionId s)) (stacks (w_db w))
      \<and> stackOperations (w_db w') = stackOperations (w_db w)
      \<and> (\<not> isl r \<longleftrightarrow> v = Applied)) \<or>
    (\<exists>d. \<not> ids_nonempty E (w_db w) \<and> isl r \<and> mutations w' = mutations w \<and> \<not> unresolved_on stackId (w_db w)
      \<and> stackDeployments (w_db w') = stackDeployments (w_db w) @ [d]
      \<and> d_id d \<notin> d_id ` set (stackDeployments (w_db w)) \<and> d_stackId d = stackId \<and> d_status d = ''running''
      \<and> stacks (w_db w') = upd (\<lambda>s. s_id s = stackId) (deploying revisionId) (stacks (w_db w))
      \<and> stackOperations (w_db w') = stackOperations (w_db w))"
  using assms
proof (cases rule: deploy_cases [consumes 1, case_names refused locked])
  case refused
  then show ?thesis by simp
next
  case (locked stack target from_revision kind agentId)
  from locked(5) show ?thesis
  proof (cases rule: with_lock_cases [consumes 1, case_names busy locked])
    case busy
    then show ?thesis by simp
  next
    case body: (locked held t released)
    from body(1) show ?thesis
    proof (cases rule: deploy_locked_cases [consumes 1, case_names refused stranded attempted])
      case (refused n)
      then show ?thesis using body(2) by (simp add: stack_tables_def)
    next
      case (stranded row)
      then show ?thesis using body(2) locked(1-3)
        by (intro disjI2 exI [of _ row]) (simp add: deploying_def [abs_def])
    next
      case (attempted plan attempt u row news)
      from run_attempt_refines [OF attempted(2)] obtain v t' g where
        run: "mutations t = mutations u @ [deploy_request attempt]"
        "stacks (w_db t) = upd (\<lambda>s. s_id s = da_stackId attempt)
          (stack_after (da_revisionId attempt) (da_fromRevisionId attempt) t' v) (stacks (w_db u))"
        "stackDeployments (w_db t) = upd (\<lambda>d. d_id d = da_deploymentId attempt) g (stackDeployments (w_db u))"
        "\<forall>d. d_status (g d) = attempt_status (da_fromRevisionId attempt) v \<and> d_id (g d) = d_id d
          \<and> d_stackId (g d) = d_stackId d \<and> d_revisionId (g d) = d_revisionId d"
        "stackOperations (w_db t) = stackOperations (w_db u)" "\<not> isl r \<longleftrightarrow> v = Applied"
        by blast
      have deployments: "stackDeployments (w_db t) = stackDeployments (w_db w) @ [g row]"
        using upd_appended [of "da_deploymentId attempt" d_id "stackDeployments (w_db w)" row g]
          run(3) attempted(8-10) by simp
      have stacks: "stacks (w_db t) = upd (\<lambda>s. s_id s = stackId)
          (\<lambda>s. stack_after revisionId (da_fromRevisionId attempt) t' v (deploying revisionId s)) (stacks (w_db w))"
        using run(2) attempted(3,4,15) locked(1,2) by (simp add: upd_upd deploying_def)
      show ?thesis
        using deployments stacks run locked(1-3) attempted body(2)
        by (intro disjI2 [OF disjI1] exI [of _ "da_fromRevisionId attempt"] exI [of _ v] exI [of _ t']
            exI [of _ "deploy_request attempt"] exI [of _ "g row"])
          (simp add: deploy_request_def)
    qed
  qed
qed

section \<open>Properties\<close>

text \<open>
  C5: a deployment either changes nothing of any stack and asks no host for a change, or it
  refines one attempt of the abstract specification: there was nothing unresolved on the stack,
  exactly one request for a change was sent, exactly one attempt was written down, and the
  attempt and the stack end as one verdict says; the caller is told of success exactly when the
  verdict is that the revision was applied.
\<close>

theorem deploy_refines:
  assumes "deploy E stackId revisionId actor context w = (r, w')" and "ids_nonempty E (w_db w)"
  shows "(mutations w' = mutations w \<and> isl r \<and> stack_tables (w_db w') = stack_tables (w_db w)) \<or>
    (\<exists>from_revision v t rq d. \<not> unresolved_on stackId (w_db w)
      \<and> mutations w' = mutations w @ [rq] \<and> rq_capability rq = ''stack.deploy''
      \<and> stackDeployments (w_db w') = stackDeployments (w_db w) @ [d]
      \<and> d_stackId d = stackId \<and> d_revisionId d = revisionId \<and> d_status d = attempt_status from_revision v
      \<and> stacks (w_db w') = upd (\<lambda>s. s_id s = stackId)
          (\<lambda>s. stack_after revisionId from_revision t v (deploying revisionId s)) (stacks (w_db w))
      \<and> stackOperations (w_db w') = stackOperations (w_db w)
      \<and> (\<not> isl r \<longleftrightarrow> v = Applied))"
  using deploy_outcome [OF assms(1)] assms(2) by blast

theorem deploy_refines_witness:
  "\<exists>rq. mutations (snd (deploy shop_env shop_id shop_r1 shop_user shop_context shop_world)) = [rq]"
proof -
  obtain outcome w' where run: "deploy shop_env shop_id shop_r1 shop_user shop_context shop_world = (Inr outcome, w')"
    by (rule shop_deployed)
  have "mutations shop_world = []" by (simp add: mutations_def shop_world_def empty_world_def)
  with deploy_refines [OF run shop_nonempty] have "\<exists>rq. mutations w' = [rq]" by auto
  then show ?thesis unfolding run snd_conv .
qed

text \<open>
  C6: a caller who is told that a deployment succeeded can rely on what the host showed
  afterwards: the services reported are exactly those of the plan the revision compiles to, each
  of them running, and every container of the stack that is left runs the requested revision.
\<close>

theorem deploy_success_reading:
  assumes "deploy E stackId revisionId actor context w = (Inr outcome, w')"
  shows "\<exists>projectName target plan. r_id target = revisionId
    \<and> fst (compile E projectName target w) = Inr plan
    \<and> fst ` set (do_services outcome) = ps_serviceName ` set (sp_services plan)
    \<and> snd ` set (do_services outcome) \<subseteq> {Some ''running''}
    \<and> (\<forall>c \<in> set (containers (w_db w')). c_stackId c = Some stackId \<and> c_dockerId c \<noteq> None \<longrightarrow>
        c_state c = ''running'' \<and> c_stackRevisionId c = Some revisionId)"
  using assms
proof (cases rule: deploy_cases [consumes 1, case_names refused locked])
  case (locked stack target from_revision kind agentId)
  from locked(5) show ?thesis
  proof (cases rule: with_lock_cases [consumes 1, case_names busy locked])
    case body: (locked held t released)
    from body(1) show ?thesis
    proof (cases rule: deploy_locked_cases [consumes 1, case_names refused stranded attempted])
      case (attempted plan attempt u row news)
      from run_attempt_success [OF attempted(2)] obtain whole rows where
        judged: "judged attempt whole rows = SA_finalize_target" and
        rows: "containers (w_db t) = del (orphanedServices attempt) rows" and
        services: "do_services outcome = map (\<lambda>s. (os_serviceName s, os_state s)) (filter (\<lambda>s. os_dockerId s \<noteq> None)
          (map observed_service (filter (\<lambda>c. c_stackId c = Some (da_stackId attempt)) rows)))" by blast
      note live = judged_target [OF judged]
      have "c_state c = ''running'' \<and> c_stackRevisionId c = Some revisionId"
        if "c \<in> set (containers (w_db w'))" "c_stackId c = Some stackId" "c_dockerId c \<noteq> None" for c
        using live(2) [of "observed_service c"] that rows body(2) attempted(3,4) locked(1,2)
        by (auto simp: observed_service_def in_del_iff split: if_splits)
      moreover have "fst ` set (do_services outcome) = ps_serviceName ` set (sp_services plan)"
        using live(1) attempted(7) by (simp add: services image_image)
      moreover have "snd ` set (do_services outcome) \<subseteq> {Some ''running''}"
        using live(2) by (auto simp: services)
      moreover have "fst (compile E (s_name stack) target w) = Inr plan"
        using attempted(1) compile_held by (metis fst_conv)
      ultimately show ?thesis using locked(2) by blast
    qed simp_all
  qed simp
qed simp

theorem deploy_success_reading_witness:
  "\<exists>outcome w'. deploy shop_env shop_id shop_r1 shop_user shop_context shop_world = (Inr outcome, w')
     \<and> snd ` set (do_services outcome) \<subseteq> {Some ''running''}"
proof -
  obtain outcome w' where run: "deploy shop_env shop_id shop_r1 shop_user shop_context shop_world = (Inr outcome, w')"
    by (rule shop_deployed)
  from deploy_success_reading [OF run]
  have "snd ` set (do_services outcome) \<subseteq> {Some ''running''}" by (elim exE conjE)
  with run show ?thesis by (intro exI conjI)
qed

text \<open>An attempt to move a stack that is stopped to its second revision.\<close>

definition stopped_attempt :: DispatchedApply where
  "stopped_attempt = shop_attempt\<lparr>da_kind := redeploy, da_revisionId := shop_r2, da_fromRevisionId := Some shop_r1,
     da_fromServices := Some [''web'']\<rparr>"

text \<open>
  When a stack that was stopped is moved to another revision and the host refuses, so that a
  complete reading shows the old revision with its containers as they were, not running, the stack
  is recorded as running.
\<close>

theorem failed_redeploy_marks_running:
  "judged stopped_attempt True [shop_row ''exited''] = SA_finalize_from
   \<and> map s_status (stacks (w_db (shop_running ''stopped'' ''exited''))) = [''stopped'']
   \<and> map s_status (stacks (w_db (snd (settle shop_env stopped_attempt (map observed_service [shop_row ''exited''])
        SA_finalize_from None (shop_running ''stopped'' ''exited''))))) = [''running'']"
  by (intro conjI; code_simp)

end
