(* ===== verification/Stack_Lifecycle.thy ===== *)
theory Stack_Lifecycle
  imports Example_Host
begin

text \<open>
  Starting, stopping and restarting a stack, \<^verbatim>\<open>src/api/src/stacks/stack-lifecycle.service.ts\<close>. A
  restart changes nothing observable but the time Docker last started each container, so the
  services are inspected before and after it; a start and a stop are judged from their states.
  No operation here writes which revision a stack runs.
\<close>

section \<open>Tables\<close>

definition kind_name :: "StackLifecycleKind \<Rightarrow> string" where
  "kind_name operation = (case operation of start \<Rightarrow> ''start'' | stop \<Rightarrow> ''stop'' | restart \<Rightarrow> ''restart'')"

definition LIFECYCLE_PLAN_VERSION :: nat where "LIFECYCLE_PLAN_VERSION = 1"

definition CAPABILITY :: "StackLifecycleKind \<Rightarrow> string" where
  "CAPABILITY operation = (case operation of start \<Rightarrow> ''stack.start'' | stop \<Rightarrow> ''stack.stop''
     | restart \<Rightarrow> ''stack.restart'')"

definition RESULT_STATUS :: "StackLifecycleKind \<Rightarrow> string" where
  "RESULT_STATUS operation = (case operation of start \<Rightarrow> ''running'' | stop \<Rightarrow> ''stopped'' | restart \<Rightarrow> ''running'')"

definition FAILED :: "StackLifecycleKind \<Rightarrow> string" where
  "FAILED operation = (case operation of start \<Rightarrow> ''STACK_START_FAILED'' | stop \<Rightarrow> ''STACK_STOP_FAILED''
     | restart \<Rightarrow> ''STACK_RESTART_FAILED'')"

definition PAST :: "StackLifecycleKind \<Rightarrow> string" where
  "PAST operation = (case operation of start \<Rightarrow> ''started'' | stop \<Rightarrow> ''stopped'' | restart \<Rightarrow> ''restarted'')"

definition EVENT :: "StackLifecycleKind \<Rightarrow> string" where
  "EVENT operation = (case operation of start \<Rightarrow> ''stack.started'' | stop \<Rightarrow> ''stack.stopped''
     | restart \<Rightarrow> ''stack.restarted'')"

definition LIFECYCLE_AUDIT_REQUESTED :: "StackLifecycleKind \<Rightarrow> string" where
  "LIFECYCLE_AUDIT_REQUESTED operation = (case operation of start \<Rightarrow> ''stack.start.requested''
     | stop \<Rightarrow> ''stack.stop.requested'' | restart \<Rightarrow> ''stack.restart.requested'')"

definition LIFECYCLE_AUDIT_SUCCEEDED :: "StackLifecycleKind \<Rightarrow> string" where
  "LIFECYCLE_AUDIT_SUCCEEDED operation = (case operation of start \<Rightarrow> ''stack.started''
     | stop \<Rightarrow> ''stack.stopped'' | restart \<Rightarrow> ''stack.restarted'')"

definition AUDIT_FAILED :: "StackLifecycleKind \<Rightarrow> string" where
  "AUDIT_FAILED operation = (case operation of start \<Rightarrow> ''stack.start.failed''
     | stop \<Rightarrow> ''stack.stop.failed'' | restart \<Rightarrow> ''stack.restart.failed'')"

definition operation_claimed :: "js_error \<Rightarrow> js_error" where
  "operation_claimed error = (if error = ConstraintErr ''stack_operations_unresolved_unique''
     then AppErr (conflict ''STACK_OPERATION_CONFLICT''
       ''An operation on this stack was started elsewhere and has not been resolved yet.'')
     else error)"

record DispatchedOperation =
  dp_operationId :: string
  dp_actionId :: "string option"
  dp_operation :: StackLifecycleKind
  dp_stackId :: string
  dp_stackName :: string
  dp_hostId :: string
  dp_revisionId :: string
  dp_expectedServices :: "string list"
  dp_fingerprint :: "RuntimeFingerprint list option"
  dp_agentId :: string
  dp_payload :: AgentLifecyclePlan
  dp_actor :: AuthenticatedUser
  dp_context :: RequestContext

record StackOperationOutcome =
  so_operationId :: string
  so_stackId :: string
  so_operation :: StackLifecycleKind
  so_services :: "(string \<times> string option) list"

section \<open>Before the operation\<close>

definition operable :: "string \<Rightarrow> stack_row handler" where
  "operable stackId =
    bindE (find_stack stackId ''its stacks cannot be started, stopped or restarted'') (\<lambda>stack.
    if \<not> truthy (s_currentRevisionId stack)
    then throw_app (conflict ''STACK_NOT_DEPLOYED''
      ''This stack has never been deployed, so there is nothing to start or stop. Deploy a revision to it first.'')
    else if s_status stack = ''needs_attention''
    then throw_app (conflict ''STACK_NEEDS_ATTENTION''
      ''This stack is neither one revision nor another. Apply a revision to it before starting or stopping it.'')
    else bindE (assertNothingUnresolved stackId) (\<lambda>_. retE stack))"

record DeployedService =
  ds_serviceName :: string
  ds_containerId :: string
  ds_dockerId :: string
  ds_dependsOn :: "string list"

text \<open>The services of a revision with their containers; the first one without a container throws.\<close>

fun deployed_loop :: "(string \<rightharpoonup> container_row) \<Rightarrow> (string \<rightharpoonup> string list) \<Rightarrow> string \<Rightarrow> string list
    \<Rightarrow> js_error + DeployedService list" where
  "deployed_loop held dependsOn missing [] = Inr []"
| "deployed_loop held dependsOn missing (serviceName # names) =
    (case held serviceName of
       Some row \<Rightarrow> if truthy (c_dockerId row)
         then (case deployed_loop held dependsOn missing names of
             Inl e \<Rightarrow> Inl e
           | Inr services \<Rightarrow> Inr (\<lparr>ds_serviceName = serviceName, ds_containerId = c_id row,
               ds_dockerId = the (c_dockerId row),
               ds_dependsOn = or_default (dependsOn serviceName) []\<rparr> # services))
         else Inl (AppErr (conflict ''STACK_SERVICE_MISSING'' (serviceName @ missing)))
     | None \<Rightarrow> Inl (AppErr (conflict ''STACK_SERVICE_MISSING'' (serviceName @ missing))))"

definition summary_of :: "string \<Rightarrow> revision_summary option handler" where
  "summary_of revisionId = read_db (\<lambda>db.
     Option.bind (find (\<lambda>r. r_id r = revisionId) (stackRevisions db)) r_summary)"

definition services_of :: "revision_summary option \<Rightarrow> string list" where
  "services_of summary = (case summary of Some s \<Rightarrow> rs_services s | None \<Rightarrow> [])"

definition depends_of :: "revision_summary option \<Rightarrow> (string \<rightharpoonup> string list)" where
  "depends_of summary = (case Option.bind summary rs_dependsOn of Some ps \<Rightarrow> js_map ps | None \<Rightarrow> Map.empty)"

definition held_by_service :: "container_row list \<Rightarrow> (string \<rightharpoonup> container_row)" where
  "held_by_service rows = js_map (List.map_filter (\<lambda>row. map_option (\<lambda>s. (s, row)) (c_stackService row)) rows)"

definition deployedServices :: "string \<Rightarrow> string \<Rightarrow> DeployedService list handler" where
  "deployedServices stackId revisionId =
    bindE (summary_of revisionId) (\<lambda>summary.
    if services_of summary = []
    then throw_app (conflict ''STACK_NOT_DEPLOYED'' ''The deployed revision of this stack describes no services.'')
    else bindE (stackContainers stackId) (\<lambda>rows.
    liftE (deployed_loop (held_by_service rows) (depends_of summary)
      '' has no container on this host. Deploy a revision to this stack rather than starting what is not there.''
      (services_of summary))))"

definition fingerprint_of :: "env \<Rightarrow> DeployedService \<Rightarrow> RuntimeFingerprint handler" where
  "fingerprint_of E service =
    bindE (containerDetail E (ds_containerId service) True) (\<lambda>observed.
    retE \<lparr>rf_serviceName = ds_serviceName service, rf_containerId = ds_containerId service,
      rf_dockerId = or_default (map_option cd_dockerId (dr_detail observed)) (ds_dockerId service),
      rf_startedAt = Option.bind (dr_detail observed) cd_startedAt\<rparr>)"

definition fingerprintOf :: "env \<Rightarrow> DeployedService list \<Rightarrow> RuntimeFingerprint list handler" where
  "fingerprintOf E services = mapE (fingerprint_of E) services"

section \<open>Writing the operation down\<close>

definition prepare_operation :: "env \<Rightarrow> stack_row \<Rightarrow> string \<Rightarrow> StackLifecycleKind
    \<Rightarrow> RuntimeFingerprint list option \<Rightarrow> AuthenticatedUser \<Rightarrow> RequestContext \<Rightarrow> (string \<times> string) handler" where
  "prepare_operation E stack revisionId operation fingerprint actor context = transaction (
    bindE (insert_running_action E actor context (CAPABILITY operation) stack) (\<lambda>actionId.
    bindE (randomUUID E) (\<lambda>operationId.
    bindE (insert_operation \<lparr>o_id = operationId, o_stackId = s_id stack, o_revisionId = revisionId,
        o_hostId = s_hostId stack, o_type = kind_name operation, o_status = ''running'',
        o_actionId = Some actionId, o_startedBy = Some (u_id actor), o_fingerprint = fingerprint,
        o_detail = None, o_failureCode = None, o_resolvedAt = None\<rparr>) (\<lambda>_.
    retE (operationId, actionId)))))"

section \<open>What is recorded\<close>

definition audit_operation :: "env \<Rightarrow> DispatchedOperation \<Rightarrow> string \<Rightarrow> string \<Rightarrow> unit handler" where
  "audit_operation E attempt action result = audit_stack E (dp_actor attempt) (dp_context attempt)
     (dp_stackId attempt) (dp_stackName attempt) action result (Some (dp_operationId attempt))"

definition operation_interrupted :: "env \<Rightarrow> DispatchedOperation \<Rightarrow> string \<Rightarrow> 'a handler" where
  "operation_interrupted E attempt code =
    bindE (update_operation (dp_operationId attempt) (\<lambda>d. d\<lparr>o_status := ''interrupted'',
      o_failureCode := Some code\<rparr>)) (\<lambda>_.
    bindE (audit_operation E attempt ''stack.operation.interrupted'' ''failure'') (\<lambda>_.
    throw_app (AppError ''OPERATION_OUTCOME_UNKNOWN''
      ''The request reached the host but its result did not come back. Dockplane will establish what happened from the host and will not repeat the operation; the stack accepts no further operations until then.''
      503)))"

definition operation_applied :: "env \<Rightarrow> DispatchedOperation \<Rightarrow> service_detail list \<Rightarrow> unit handler" where
  "operation_applied E attempt detail =
    bindE now (\<lambda>t.
    bindE (transaction (
      bindE (update_operation (dp_operationId attempt) (\<lambda>d. d\<lparr>o_status := ''succeeded'',
        o_detail := Some detail, o_resolvedAt := Some t\<rparr>)) (\<lambda>_.
      bindE (update_stack (dp_stackId attempt) (\<lambda>s. s\<lparr>s_status := RESULT_STATUS (dp_operation attempt)\<rparr>)) (\<lambda>_.
      finish_action (dp_actionId attempt) ''succeeded'' t None)))) (\<lambda>_.
    bindE (audit_operation E attempt (LIFECYCLE_AUDIT_SUCCEEDED (dp_operation attempt)) ''success'') (\<lambda>_.
    stack_event (dp_hostId attempt) (EVENT (dp_operation attempt)) None (dp_stackId attempt)
      (dp_stackName attempt @ '' was '' @ PAST (dp_operation attempt) @ '' by '' @ u_email (dp_actor attempt) @ ''.'')
      (dp_operationId attempt))))"

definition operation_not_applied :: "env \<Rightarrow> DispatchedOperation \<Rightarrow> service_detail list \<Rightarrow> app_error option
    \<Rightarrow> unit handler" where
  "operation_not_applied E attempt detail failure =
    bindE now (\<lambda>t.
    bindE (transaction (
      bindE (update_operation (dp_operationId attempt) (\<lambda>d. d\<lparr>o_status := ''failed'', o_detail := Some detail,
        o_failureCode := Some (or_default (map_option ae_code failure) (FAILED (dp_operation attempt))),
        o_resolvedAt := Some t\<rparr>)) (\<lambda>_.
      finish_action (dp_actionId attempt) ''failed'' t (Some (map_option ae_code failure))))) (\<lambda>_.
    bindE (audit_operation E attempt (AUDIT_FAILED (dp_operation attempt)) ''failure'') (\<lambda>_.
    stack_event (dp_hostId attempt) ''stack.operation.failed'' (Some ''warning'') (dp_stackId attempt)
      (dp_stackName attempt @ '' was not '' @ PAST (dp_operation attempt) @ '': the host is as it was.'')
      (dp_operationId attempt))))"

definition operation_needs_attention :: "env \<Rightarrow> DispatchedOperation \<Rightarrow> service_detail list \<Rightarrow> string
    \<Rightarrow> unit handler" where
  "operation_needs_attention E attempt detail reason =
    bindE now (\<lambda>t.
    bindE (transaction (
      bindE (update_operation (dp_operationId attempt) (\<lambda>d. d\<lparr>o_status := ''needs_attention'',
        o_detail := Some detail, o_failureCode := Some ''STACK_LIFECYCLE_PARTIAL'',
        o_resolvedAt := Some t\<rparr>)) (\<lambda>_.
      bindE (update_stack (dp_stackId attempt) (\<lambda>s. s\<lparr>s_status := ''needs_attention''\<rparr>)) (\<lambda>_.
      finish_action (dp_actionId attempt) ''failed'' t (Some (Some ''STACK_LIFECYCLE_PARTIAL'')))))) (\<lambda>_.
    bindE (audit_operation E attempt ''stack.operation.needs_attention'' ''failure'') (\<lambda>_.
    stack_event (dp_hostId attempt) ''stack.operation.failed'' (Some ''critical'') (dp_stackId attempt)
      (dp_stackName attempt @ '' needs attention: '' @ reason @ ''.'') (dp_operationId attempt))))"

section \<open>Reading the host and settling\<close>

definition observed_runtime :: "env \<Rightarrow> bool \<Rightarrow> container_row \<Rightarrow> ObservedRuntime handler" where
  "observed_runtime E withStartTimes row =
    bindE (if withStartTimes \<and> truthy (c_dockerId row)
      then bindE (tryE (containerDetail E (c_id row) True)) (\<lambda>detail.
        retE (case detail of Inr d \<Rightarrow> Option.bind (dr_detail d) cd_startedAt | Inl _ \<Rightarrow> None))
      else retE None) (\<lambda>startedAt.
    retE \<lparr>or_serviceName = or_default (c_stackService row) [], or_containerId = c_id row,
      or_dockerId = c_dockerId row, or_state = (if truthy (c_dockerId row) then Some (c_state row) else None),
      or_revisionId = c_stackRevisionId row, or_startedAt = startedAt\<rparr>)"

definition observedRuntime :: "env \<Rightarrow> string \<Rightarrow> bool \<Rightarrow> ObservedRuntime list handler" where
  "observedRuntime E stackId withStartTimes =
    bindE (stackContainers stackId) (\<lambda>rows. mapE (observed_runtime E withStartTimes) rows)"

definition observe_operation :: "env \<Rightarrow> DispatchedOperation \<Rightarrow> (ObservedRuntime list \<times> StackLifecycleOutcome) handler" where
  "observe_operation E attempt =
    bindE (resync E (dp_hostId attempt)) (\<lambda>snapshotComplete.
    bindE (observedRuntime E (dp_stackId attempt) (dp_operation attempt = restart)) (\<lambda>observed.
    retE (observed, classifyStackLifecycle (e_legacy_date E)
      \<lparr>sl_operation = dp_operation attempt, sl_revisionId = dp_revisionId attempt,
       sl_expectedServices = dp_expectedServices attempt, sl_observed = observed,
       sl_fingerprint = dp_fingerprint attempt, sl_snapshotComplete = snapshotComplete\<rparr>)))"

definition runtime_detail :: "ObservedRuntime list \<Rightarrow> service_detail list" where
  "runtime_detail observed = service_details
     (map (\<lambda>s. (or_serviceName s, or_containerId s, or_dockerId s, or_state s)) observed)"

definition operation_failed_error :: "DispatchedOperation \<Rightarrow> app_error option \<Rightarrow> app_error" where
  "operation_failed_error attempt failure =
    (if map_option ae_code failure = Some ''STACK_STATE_AMBIGUOUS''
     then conflict ''STACK_REPAIR_AMBIGUOUS''
       ''The containers of this stack on its host do not add up. Dockplane will not guess which ones it means; resolve it on the host and try again.''
     else if map_option ae_code failure = Some ''STACK_SERVICE_MISSING''
     then conflict ''STACK_SERVICE_MISSING''
       ''A service of this stack has no container on its host. Deploy a revision to it rather than starting what is not there.''
     else AppError (FAILED (dp_operation attempt))
       (or_default (map_option ae_message failure) ''The stack was not changed.'') 409)"

definition settle_operation :: "env \<Rightarrow> DispatchedOperation \<Rightarrow> ObservedRuntime list \<Rightarrow> StackLifecycleOutcome
    \<Rightarrow> app_error option \<Rightarrow> StackOperationOutcome handler" where
  "settle_operation E attempt observed outcome failure = (case outcome of
      SL_unknown _ \<Rightarrow> operation_interrupted E attempt ''HOST_NOT_READABLE''
    | SL_applied \<Rightarrow>
        bindE (operation_applied E attempt (runtime_detail observed)) (\<lambda>_.
        retE \<lparr>so_operationId = dp_operationId attempt, so_stackId = dp_stackId attempt,
          so_operation = dp_operation attempt,
          so_services = map (\<lambda>s. (or_serviceName s, or_state s)) (filter (\<lambda>s. or_dockerId s \<noteq> None) observed)\<rparr>)
    | SL_needs_attention reason \<Rightarrow>
        bindE (operation_needs_attention E attempt (runtime_detail observed) reason) (\<lambda>_.
        throw_app (AppError ''STACK_LIFECYCLE_PARTIAL''
          ''Part of this stack moved and part of it did not. Nothing was undone; it accepts no further operations until somebody applies a revision to it.''
          409))
    | SL_not_applied \<Rightarrow>
        bindE (operation_not_applied E attempt (runtime_detail observed) failure) (\<lambda>_.
        throw_app (operation_failed_error attempt failure)))"

definition dispatchAndSettle :: "env \<Rightarrow> DispatchedOperation \<Rightarrow> StackOperationOutcome handler" where
  "dispatchAndSettle E attempt =
    bindE (tryE (dispatch_request E (dp_agentId attempt) (CAPABILITY (dp_operation attempt))
      (LifecyclePlan (dp_payload attempt)))) (\<lambda>reply.
    case reply of
      Inl error \<Rightarrow>
        (let code = code_or ''DOCKER_OPERATION_FAILED'' error in
         if code \<in> set UNKNOWN_OUTCOME then operation_interrupted E attempt code
         else bindE (observe_operation E attempt) (\<lambda>(observed, outcome).
           settle_operation E attempt observed outcome (as_app_error error)))
    | Inr _ \<Rightarrow> bindE (observe_operation E attempt) (\<lambda>(observed, outcome).
        settle_operation E attempt observed outcome None))"

section \<open>The operation\<close>

definition lifecycle_plan :: "string \<Rightarrow> string \<Rightarrow> DeployedService list \<Rightarrow> AgentLifecyclePlan" where
  "lifecycle_plan stackId revisionId services =
    \<lparr>lp_planVersion = LIFECYCLE_PLAN_VERSION, lp_stackId = stackId, lp_revisionId = revisionId,
     lp_services = map (\<lambda>s. \<lparr>lp_serviceName = ds_serviceName s, lp_containerId = ds_containerId s,
       lp_dependsOn = when_nonempty (Some (ds_dependsOn s))\<rparr>) services\<rparr>"

definition run_locked :: "env \<Rightarrow> StackLifecycleKind \<Rightarrow> stack_row \<Rightarrow> string \<Rightarrow> AuthenticatedUser
    \<Rightarrow> RequestContext \<Rightarrow> StackOperationOutcome handler" where
  "run_locked E operation stack agentId actor context =
    (let revisionId = the (s_currentRevisionId stack) in
    bindE (deployedServices (s_id stack) revisionId) (\<lambda>services.
    bindE (if operation = restart then bindE (fingerprintOf E services) (\<lambda>f. retE (Some f)) else retE None) (\<lambda>fingerprint.
    bindE (mapErrE operation_claimed (prepare_operation E stack revisionId operation fingerprint actor context))
      (\<lambda>(operationId, actionId).
    bindE (audit_stack E actor context (s_id stack) (s_name stack) (LIFECYCLE_AUDIT_REQUESTED operation) ''success''
      (Some operationId)) (\<lambda>_.
    dispatchAndSettle E \<lparr>dp_operationId = operationId, dp_actionId = Some actionId, dp_operation = operation,
      dp_stackId = s_id stack, dp_stackName = s_name stack, dp_hostId = s_hostId stack,
      dp_revisionId = revisionId, dp_expectedServices = map ds_serviceName services,
      dp_fingerprint = fingerprint, dp_agentId = agentId,
      dp_payload = lifecycle_plan (s_id stack) revisionId services,
      dp_actor = actor, dp_context = context\<rparr>)))))"

definition run_lifecycle :: "env \<Rightarrow> StackLifecycleKind \<Rightarrow> string \<Rightarrow> AuthenticatedUser \<Rightarrow> RequestContext
    \<Rightarrow> StackOperationOutcome handler" where
  "run_lifecycle E operation stackId actor context =
    bindE (operable stackId) (\<lambda>stack.
    bindE (connectedAgent ''the stack cannot be changed'' (s_hostId stack)) (\<lambda>agentId.
    with_lock (stackKey stackId) (kind_name operation) (run_locked E operation stack agentId actor context)))"

section \<open>Refusals\<close>

lemma stable_operable [intro!, simp]: "stable (keeps f) (operable stackId)"
  unfolding operable_def
  by (intro frame.stable_rules stable_find_stack stable_throw_app stable_assertNothingUnresolved)

lemma operable_SomeD:
  assumes "operable stackId w = (Inr stack, w')"
  shows "w' = w" "s_id stack = stackId" "\<not> unresolved_on stackId (w_db w)" "truthy (s_currentRevisionId stack)"
    "s_status stack \<noteq> ''needs_attention''" "find (\<lambda>s. s_id s = stackId) (stacks (w_db w)) = Some stack"
proof -
  obtain u where find: "find_stack stackId ''its stacks cannot be started, stopped or restarted'' w = (Inr stack, u)"
    and rest: "truthy (s_currentRevisionId stack)" "s_status stack \<noteq> ''needs_attention''" "\<not> unresolved_on stackId (w_db u)"
    using assms
    by (auto simp: operable_def bindE_Inr assertNothingUnresolved_run run throw_app_eq retE_eq split: if_splits)
  note found = find_stack_SomeD [OF find]
  show "w' = w" by (rule readsD [OF stable_operable assms])
  show "s_id stack = stackId" "find (\<lambda>s. s_id s = stackId) (stacks (w_db w)) = Some stack" by (rule found(2,3))+
  show "\<not> unresolved_on stackId (w_db w)" "truthy (s_currentRevisionId stack)" "s_status stack \<noteq> ''needs_attention''"
    using rest found(1) by simp_all
qed

section \<open>Settling\<close>

text \<open>What is left of the world outside the tables an operation writes.\<close>

lemma operation_interrupted_run:
  "settles_operation (dp_operationId attempt) (dp_stackId attempt) moved Undecided (w_db w)
     (w_db (snd (operation_interrupted E attempt code w)))"
  "isl (fst (operation_interrupted E attempt code w))"
  by (auto simp: operation_interrupted_def audit_operation_def run settles_operation_def stack_after_operation_def [abs_def]
      operation_status_def intro!: exI [of _ "\<lambda>d. d\<lparr>o_status := ''interrupted'', o_failureCode := Some code\<rparr>"])

lemma operation_applied_run:
  "settles_operation (dp_operationId attempt) (dp_stackId attempt) (RESULT_STATUS (dp_operation attempt)) Applied (w_db w)
     (w_db (snd (operation_applied E attempt detail w)))"
  "fst (operation_applied E attempt detail w) = Inr ()"
  by (auto simp: operation_applied_def audit_operation_def run settles_operation_def stack_after_operation_def [abs_def]
      operation_status_def intro!: exI [of _ "\<lambda>d. d\<lparr>o_status := ''succeeded'', o_detail := Some detail,
        o_resolvedAt := Some (w_clock w)\<rparr>"])

lemma operation_not_applied_run:
  "settles_operation (dp_operationId attempt) (dp_stackId attempt) moved NotApplied (w_db w)
     (w_db (snd (operation_not_applied E attempt detail failure w)))"
  "fst (operation_not_applied E attempt detail failure w) = Inr ()"
  by (auto simp: operation_not_applied_def audit_operation_def run settles_operation_def
      stack_after_operation_def [abs_def] operation_status_def
      intro!: exI [of _ "\<lambda>d. d\<lparr>o_status := ''failed'', o_detail := Some detail,
        o_failureCode := Some (or_default (map_option ae_code failure) (FAILED (dp_operation attempt))),
        o_resolvedAt := Some (w_clock w)\<rparr>"])

lemma operation_needs_attention_run:
  "settles_operation (dp_operationId attempt) (dp_stackId attempt) moved Attention (w_db w)
     (w_db (snd (operation_needs_attention E attempt detail reason w)))"
  "fst (operation_needs_attention E attempt detail reason w) = Inr ()"
  by (auto simp: operation_needs_attention_def audit_operation_def run settles_operation_def
      stack_after_operation_def [abs_def] operation_status_def
      intro!: exI [of _ "\<lambda>d. d\<lparr>o_status := ''needs_attention'', o_detail := Some detail,
        o_failureCode := Some ''STACK_LIFECYCLE_PARTIAL'', o_resolvedAt := Some (w_clock w)\<rparr>"])

lemma operation_records_calm:
  "stable (keeps calm) (operation_interrupted E attempt code)"
  "stable (keeps calm) (operation_applied E attempt detail)"
  "stable (keeps calm) (operation_not_applied E attempt detail failure)"
  "stable (keeps calm) (operation_needs_attention E attempt detail reason)"
  unfolding operation_interrupted_def operation_applied_def operation_not_applied_def operation_needs_attention_def
    audit_operation_def
  by (intro calm_rules)+

lemma settle_operation_calm: "stable (keeps calm) (settle_operation E attempt observed outcome failure)"
  unfolding settle_operation_def
  by (cases outcome; simp only: StackLifecycleOutcome.simps; intro frame.stable_rules stable_throw_app
      operation_records_calm)

lemma settle_operation_refines:
  "settles_operation (dp_operationId attempt) (dp_stackId attempt) (RESULT_STATUS (dp_operation attempt))
     (lifecycle_verdict outcome) (w_db w) (w_db (snd (settle_operation E attempt observed outcome failure w)))"
  "\<not> isl (fst (settle_operation E attempt observed outcome failure w)) \<longleftrightarrow> lifecycle_verdict outcome = Applied"
  by (cases outcome; simp add: settle_operation_def lifecycle_verdict_def snd_bind fst_bind operation_interrupted_run
      operation_applied_run operation_not_applied_run operation_needs_attention_run)+

section \<open>Running the operation\<close>

lemma observed_runtime_total: "\<exists>a v. observed_runtime E withStartTimes row w = (Inr a, v)"
  by (auto simp: observed_runtime_def run run_try split: prod.split)

lemma observed_runtime_outside: "stable (keeps outside_discovery) (observed_runtime E withStartTimes row)"
  unfolding observed_runtime_def
  by (intro frame.stable_rules containerDetail_keeps) (rule outside_detail_discovery)

lemma observedRuntime_outside: "stable (keeps outside_discovery) (observedRuntime E stackId withStartTimes)"
  unfolding observedRuntime_def by (intro frame.stable_rules stable_stackContainers observed_runtime_outside)

lemma observedRuntime_total: "\<exists>a v. observedRuntime E stackId withStartTimes w = (Inr a, v)"
  using mapE_total [OF observed_runtime_total]
  by (simp add: observedRuntime_def run)

lemma observe_operation_outside: "stable (keeps outside_discovery) (observe_operation E attempt)"
  unfolding observe_operation_def by (intro frame.stable_rules stable_resync observedRuntime_outside)

lemma observe_operation_total: "\<exists>a v. observe_operation E attempt w = (Inr a, v)"
proof -
  obtain whole u where "resync E (dp_hostId attempt) w = (Inr whole, u)" using resync_total by blast
  moreover obtain observed v where "observedRuntime E (dp_stackId attempt) (dp_operation attempt = restart) u = (Inr observed, v)"
    using observedRuntime_total by blast
  ultimately show ?thesis by (simp add: observe_operation_def bindE_def retE_def)
qed

definition operation_request :: "DispatchedOperation \<Rightarrow> request" where
  "operation_request attempt = \<lparr>rq_agentId = dp_agentId attempt, rq_capability = CAPABILITY (dp_operation attempt),
     rq_payload = LifecyclePlan (dp_payload attempt)\<rparr>"

lemma operation_mutates: "isMutating (CAPABILITY operation)"
  by (simp add: isMutating_def MUTATING_CAPABILITIES_def CAPABILITY_def split: StackLifecycleKind.split)

lemma settles_operation_cong:
  assumes "settles_operation oid sid moved v db db'"
    and "stacks db = stacks db0" "stackOperations db = stackOperations db0" "stackDeployments db = stackDeployments db0"
  shows "settles_operation oid sid moved v db0 db'"
  using assms by (simp add: settles_operation_def)

lemma dispatchAndSettle_refines:
  assumes "dispatchAndSettle E attempt w = (r, w')"
  shows "\<exists>v. mutations w' = mutations w @ [operation_request attempt] \<and> w_held w' = w_held w
    \<and> settles_operation (dp_operationId attempt) (dp_stackId attempt) (RESULT_STATUS (dp_operation attempt)) v (w_db w) (w_db w')
    \<and> (\<not> isl r \<longleftrightarrow> v = Applied)"
proof -
  define rq where "rq = operation_request attempt"
  define u where "u = w\<lparr>w_sent := w_sent w @ [rq], w_clock := w_clock w + int (e_takes E rq)\<rparr>"
  have u: "mutations u = mutations w @ [rq]" "w_held u = w_held w" "w_db u = w_db w"
    unfolding u_def rq_def operation_request_def by (simp_all add: mutations_def operation_mutates)
  have "dispatchAndSettle E attempt w = (case e_answer E (w_sent w) rq of
      Inl error \<Rightarrow> if code_or ''DOCKER_OPERATION_FAILED'' error \<in> set UNKNOWN_OUTCOME
        then operation_interrupted E attempt (code_or ''DOCKER_OPERATION_FAILED'' error) u
        else bindE (observe_operation E attempt) (\<lambda>(observed, outcome). settle_operation E attempt observed outcome (as_app_error error)) u
    | Inr _ \<Rightarrow> bindE (observe_operation E attempt) (\<lambda>(observed, outcome). settle_operation E attempt observed outcome None) u)"
    unfolding dispatchAndSettle_def run_try u_def rq_def operation_request_def
    by (simp add: dispatch_request_def Let_def split: sum.split)
  then consider (lost) code where "operation_interrupted E attempt code u = (r, w')"
    | (read) failure where "bindE (observe_operation E attempt) (\<lambda>(observed, outcome). settle_operation E attempt observed outcome failure) u = (r, w')"
    using assms by (auto split: sum.splits if_splits)
  then show ?thesis
  proof cases
    case lost
    have "calm w' = calm u" using keepsD [OF operation_records_calm(1) lost] .
    moreover have "settles_operation (dp_operationId attempt) (dp_stackId attempt) (RESULT_STATUS (dp_operation attempt))
        Undecided (w_db w) (w_db w')" "isl r"
      using operation_interrupted_run lost u(3) by (metis fst_conv snd_conv)+
    ultimately show ?thesis
      using u unfolding rq_def by (intro exI [of _ Undecided]) (simp add: calm_def)
  next
    case read
    obtain observed outcome v where seen: "observe_operation E attempt u = (Inr (observed, outcome), v)"
      using observe_operation_total [of E attempt u] by (metis surj_pair)
    then have settle: "settle_operation E attempt observed outcome failure v = (r, w')"
      using read by (simp add: bindE_def)
    have same: "outside_discovery v = outside_discovery u" using keepsD [OF observe_operation_outside seen] .
    have "calm w' = calm v" using keepsD [OF settle_operation_calm settle] .
    moreover have "settles_operation (dp_operationId attempt) (dp_stackId attempt) (RESULT_STATUS (dp_operation attempt))
        (lifecycle_verdict outcome) (w_db v) (w_db w')" "\<not> isl r \<longleftrightarrow> lifecycle_verdict outcome = Applied"
      using settle_operation_refines settle by (metis fst_conv snd_conv)+
    ultimately show ?thesis
      using same u unfolding rq_def
      by (intro exI [of _ "lifecycle_verdict outcome"])
        (auto simp: calm_def outside_discovery_def intro: settles_operation_cong)
  qed
qed


text \<open>Before the operation is written down nothing of a stack changes.\<close>

definition quiet :: "world \<Rightarrow> stack_row list \<times> deployment_row list \<times> operation_row list \<times> request list" where
  "quiet w = (stacks (w_db w), stackDeployments (w_db w), stackOperations (w_db w), mutations w)"

lemma quiet_outside: "outside_discovery w' = outside_discovery w \<Longrightarrow> quiet w' = quiet w"
  by (simp add: outside_discovery_def quiet_def)

lemma stable_deployedServices: "stable (keeps f) (deployedServices stackId revisionId)"
  unfolding deployedServices_def summary_of_def
  by (intro frame.stable_rules stable_read_db stable_throw_app stable_stackContainers stable_liftE)

lemma fingerprint_quiet: "stable (keeps quiet) (if b then bindE (fingerprintOf E services) (\<lambda>f. retE (Some f)) else retE None)"
  unfolding fingerprintOf_def fingerprint_of_def
  by (intro frame.stable_rules containerDetail_keeps) (rule quiet_outside, rule outside_detail_discovery)

lemma prepare_operation_Inr:
  assumes "prepare_operation E stack revisionId operation fingerprint actor context w = (Inr (operationId, actionId), w')"
  shows "\<exists>row. stackOperations (w_db w') = stackOperations (w_db w) @ [row] \<and> o_id row = operationId
      \<and> o_stackId row = s_id stack \<and> o_type row = kind_name operation \<and> o_revisionId row = revisionId"
    and "operationId \<notin> o_id ` set (stackOperations (w_db w))"
    and "stacks (w_db w') = stacks (w_db w)" and "stackDeployments (w_db w') = stackDeployments (w_db w)"
    and "mutations w' = mutations w"
proof -
  obtain correlation n where corr: "correlated E context w = (correlation, n)" by fastforce
  show "\<exists>row. stackOperations (w_db w') = stackOperations (w_db w) @ [row] \<and> o_id row = operationId
      \<and> o_stackId row = s_id stack \<and> o_type row = kind_name operation \<and> o_revisionId row = revisionId"
    "operationId \<notin> o_id ` set (stackOperations (w_db w))" "stacks (w_db w') = stacks (w_db w)"
    "stackDeployments (w_db w') = stackDeployments (w_db w)" "mutations w' = mutations w"
    using assms unfolding prepare_operation_def transaction_Inr
    by (auto simp: run corr Let_def split: if_splits)
qed

lemma prepare_operation_Inl:
  assumes "prepare_operation E stack revisionId operation fingerprint actor context w = (Inl e, w')"
  shows "quiet w' = quiet w"
proof -
  obtain correlation n where corr: "correlated E context w = (correlation, n)" by fastforce
  from assms show ?thesis
    unfolding prepare_operation_def transaction_Inl
    by (auto simp: run corr Let_def quiet_def split: if_splits)
qed

lemma run_locked_cases:
  assumes "run_locked E operation stack agentId actor context w = (r, w')"
  obtains (refused) "quiet w' = quiet w" "isl r"
    | (attempted) attempt u row where "dispatchAndSettle E attempt u = (r, w')"
      "dp_stackId attempt = s_id stack" "dp_operation attempt = operation" "dp_agentId attempt = agentId"
      "dp_operationId attempt \<notin> o_id ` set (stackOperations (w_db w))"
      "stackOperations (w_db u) = stackOperations (w_db w) @ [row]" "o_id row = dp_operationId attempt"
      "o_stackId row = s_id stack" "o_type row = kind_name operation"
      "stacks (w_db u) = stacks (w_db w)" "stackDeployments (w_db u) = stackDeployments (w_db w)"
      "mutations u = mutations w"
  using assms [unfolded run_locked_def Let_def]
proof (cases rule: bind_frame [OF stable_deployedServices [where f = quiet], consumes 1, case_names thrown continues])
  case (continues services v)
  note at_v = continues(2)
  from continues(3) show ?thesis
  proof (cases rule: bind_frame [OF fingerprint_quiet, consumes 1, case_names thrown continues])
    case (continues fingerprint x)
    note at_x = continues(2)
    let ?rev = "the (s_currentRevisionId stack)"
    obtain p u where prep: "prepare_operation E stack ?rev operation fingerprint actor context x = (p, u)" by fastforce
    show ?thesis
    proof (cases p)
      case (Inl e)
      with prep continues(3) have "w' = u" "isl r" by (auto simp: bindE_def mapErrE_def)
      with prepare_operation_Inl [OF prep [unfolded Inl]] at_v at_x show ?thesis by (intro refused) simp_all
    next
      case (Inr ids)
      obtain operationId actionId where ids: "ids = (operationId, actionId)" by (cases ids)
      note prepared = prepare_operation_Inr [OF prep [unfolded Inr ids]]
      obtain entries where audited: "audit_stack E actor context (s_id stack) (s_name stack)
          (LIFECYCLE_AUDIT_REQUESTED operation) ''success'' (Some operationId) u
          = (Inr (), u\<lparr>w_db := (w_db u)\<lparr>auditEntries := entries\<rparr>\<rparr>)"
        by (simp add: run)
      let ?attempt = "\<lparr>dp_operationId = operationId, dp_actionId = Some actionId, dp_operation = operation,
        dp_stackId = s_id stack, dp_stackName = s_name stack, dp_hostId = s_hostId stack,
        dp_revisionId = ?rev, dp_expectedServices = map ds_serviceName services,
        dp_fingerprint = fingerprint, dp_agentId = agentId,
        dp_payload = lifecycle_plan (s_id stack) ?rev services, dp_actor = actor, dp_context = context\<rparr>"
      have "dispatchAndSettle E ?attempt (u\<lparr>w_db := (w_db u)\<lparr>auditEntries := entries\<rparr>\<rparr>) = (r, w')"
        using continues(3) prep Inr ids audited by (simp add: bindE_def mapErrE_def)
      note dispatched = this
      obtain row where "stackOperations (w_db u) = stackOperations (w_db x) @ [row]" "o_id row = operationId"
        "o_stackId row = s_id stack" "o_type row = kind_name operation" using prepared(1) by blast
      with prepared at_v at_x show ?thesis
        by (intro attempted [OF dispatched, of row]) (simp_all add: quiet_def)
    qed
  qed (use at_v in \<open>auto intro: refused\<close>)
qed (auto intro: refused)

section \<open>What an operation comes to\<close>

lemma lifecycle_outcome:
  assumes "run_lifecycle E operation stackId actor context w = (r, w')"
  shows "(quiet w' = quiet w \<and> isl r) \<or>
    (\<exists>v rq d. \<not> unresolved_on stackId (w_db w)
      \<and> mutations w' = mutations w @ [rq] \<and> rq_capability rq = CAPABILITY operation
      \<and> stackOperations (w_db w') = stackOperations (w_db w) @ [d]
      \<and> o_id d \<notin> o_id ` set (stackOperations (w_db w))
      \<and> o_stackId d = stackId \<and> o_type d = kind_name operation \<and> o_status d = operation_status v
      \<and> stacks (w_db w') = upd (\<lambda>s. s_id s = stackId) (stack_after_operation (RESULT_STATUS operation) v) (stacks (w_db w))
      \<and> map s_currentRevisionId (stacks (w_db w')) = map s_currentRevisionId (stacks (w_db w))
      \<and> stackDeployments (w_db w') = stackDeployments (w_db w)
      \<and> (\<not> isl r \<longleftrightarrow> v = Applied))"
  using assms [unfolded run_lifecycle_def]
proof (cases rule: bind_reads [OF stable_operable, consumes 1, case_names thrown continues])
  case (continues stack)
  note ok = operable_SomeD [OF continues(1)]
  from continues(2) show ?thesis
  proof (cases rule: bind_reads [OF stable_connectedAgent, consumes 1, case_names thrown continues])
    case (continues agentId)
    from continues(2) show ?thesis
    proof (cases rule: with_lock_cases [consumes 1, case_names busy locked])
      case (locked held t released)
      from locked(1) show ?thesis
      proof (cases rule: run_locked_cases [consumes 1, case_names refused attempted])
        case refused
        then show ?thesis using locked(2) by (simp add: quiet_def mutations_def)
      next
        case (attempted attempt u row)
        from dispatchAndSettle_refines [OF attempted(1)] obtain v g where
          run: "mutations t = mutations u @ [operation_request attempt]" "\<not> isl r \<longleftrightarrow> v = Applied"
          "stacks (w_db t) = upd (\<lambda>s. s_id s = stackId) (stack_after_operation (RESULT_STATUS operation) v) (stacks (w_db w))"
          "stackOperations (w_db t) = upd (\<lambda>d. o_id d = dp_operationId attempt) g (stackOperations (w_db u))"
          "\<forall>d. o_status (g d) = operation_status v \<and> o_id (g d) = o_id d \<and> o_stackId (g d) = o_stackId d \<and> o_type (g d) = o_type d"
          "stackDeployments (w_db t) = stackDeployments (w_db w)"
          using attempted(2,3,10,11) ok(2) unfolding settles_operation_def by auto
        have "stackOperations (w_db t) = stackOperations (w_db w) @ [g row]"
          using upd_appended [of "dp_operationId attempt" o_id "stackOperations (w_db w)" row g]
            run(4) attempted(5-7) by simp
        then show ?thesis
          using run attempted ok(2,3) locked(2)
          by (intro disjI2 exI [of _ v] exI [of _ "operation_request attempt"] exI [of _ "g row"])
            (simp add: operation_request_def map_upd_same mutations_def)
      qed
    qed simp
  qed simp
qed simp

section \<open>Properties\<close>

text \<open>
  C7: starting, stopping or restarting a stack either changes nothing of any stack and asks no
  host for a change, or it refines one operation of the abstract specification: nothing was
  unresolved on the stack, exactly one request for that change was sent, exactly one operation
  was written down, and it and the stack end as one verdict says. Which revision a stack runs is
  never touched, and the caller is told of success exactly when the verdict is that the operation
  was applied.
\<close>

theorem lifecycle_refines:
  assumes "run_lifecycle E operation stackId actor context w = (r, w')"
  shows "(quiet w' = quiet w \<and> isl r) \<or>
    (\<exists>v rq d. \<not> unresolved_on stackId (w_db w)
      \<and> mutations w' = mutations w @ [rq] \<and> rq_capability rq = CAPABILITY operation
      \<and> stackOperations (w_db w') = stackOperations (w_db w) @ [d]
      \<and> o_stackId d = stackId \<and> o_type d = kind_name operation \<and> o_status d = operation_status v
      \<and> stacks (w_db w') = upd (\<lambda>s. s_id s = stackId) (stack_after_operation (RESULT_STATUS operation) v) (stacks (w_db w))
      \<and> map s_currentRevisionId (stacks (w_db w')) = map s_currentRevisionId (stacks (w_db w))
      \<and> stackDeployments (w_db w') = stackDeployments (w_db w)
      \<and> (\<not> isl r \<longleftrightarrow> v = Applied))"
  using lifecycle_outcome [OF assms] by blast

lemma shop_stops:
  obtains outcome w' where "run_lifecycle (shop_live ''running'') stop shop_id shop_user shop_context
    (shop_running ''running'' ''running'') = (Inr outcome, w')"
proof -
  let ?run = "run_lifecycle (shop_live ''running'') stop shop_id shop_user shop_context (shop_running ''running'' ''running'')"
  have stopped: "\<not> isl (fst ?run)" by code_simp
  obtain r w' where "?run = (r, w')" by fastforce
  with stopped that show thesis by (cases r) simp_all
qed

theorem lifecycle_refines_witness:
  "\<exists>outcome w' rq. run_lifecycle (shop_live ''running'') stop shop_id shop_user shop_context
      (shop_running ''running'' ''running'') = (Inr outcome, w') \<and> mutations w' = [rq] \<and> rq_capability rq = ''stack.stop''"
proof -
  obtain outcome w' where run: "run_lifecycle (shop_live ''running'') stop shop_id shop_user shop_context
    (shop_running ''running'' ''running'') = (Inr outcome, w')" by (rule shop_stops)
  have "mutations (shop_running ''running'' ''running'') = []"
    by (simp add: mutations_def shop_running_def shop_world_def empty_world_def)
  with lifecycle_refines [OF run] have "\<exists>rq. mutations w' = [rq] \<and> rq_capability rq = ''stack.stop''"
    by (auto simp: CAPABILITY_def)
  with run show ?thesis by blast
qed

text \<open>
  A restart the agent refuses, on a container that was started again since it was last read, when
  the reading that precedes the restart fails and the one that follows it does not.
\<close>

definition stale_inspect :: json where
  "stale_inspect = JObject [(''dockerId'', JString ''d-web-1''), (''name'', JString ''shop-web-1''),
     (''image'', JString ''nginx''), (''state'', JString ''running''), (''startedAt'', JString ''2026-07-01T11:00:00.000Z'')]"

definition stale_env :: env where
  "stale_env = (shop_live ''running'')\<lparr>e_answer := (\<lambda>history rq.
     if rq_capability rq = ''stack.restart'' then Inl (AppErr (conflict ''STACK_RESTART_FAILED'' ''refused''))
     else if rq_capability rq = ''container.inspect''
     then (if history = [] then Inl (AppErr (conflict ''AGENT_REQUEST_TIMEOUT'' ''late''))
           else Inr (InspectAnswer (Some stale_inspect)))
     else shop_answer [shop_summary ''running''] [] rq)\<rparr>"

definition stale_detail :: ContainerDetail where
  "stale_detail = \<lparr>cd_dockerId = ''d-web-1'', cd_name = ''shop-web-1'', cd_image = ''nginx'', cd_imageId = None,
     cd_state = ''running'', cd_status = [], cd_health = ''none'', cd_restartCount = 0, cd_restartPolicy = None,
     cd_createdAt = None, cd_startedAt = Some ''2026-07-01T10:00:00.000Z'', cd_finishedAt = None, cd_exitCode = None,
     cd_ports = [], cd_networks = [], cd_mounts = [], cd_limits = None, cd_labels = []\<rparr>"

definition stale_world :: world where
  "stale_world = (shop_running ''running'' ''running'')\<lparr>w_db := (w_db (shop_running ''running'' ''running''))\<lparr>
     containers := [(shop_row ''running'')\<lparr>c_detail := Some stale_detail, c_detailObservedAt := Some 0\<rparr>]\<rparr>\<rparr>"

text \<open>
  Such a restart is recorded as applied and reported as a success, although nothing was
  restarted: the fingerprint is taken from the stored projection when the host does not answer,
  and the older start time it carries makes any later reading look like a restart.
\<close>

theorem restart_from_stale_reading:
  "(case run_lifecycle stale_env restart shop_id shop_user shop_context stale_world of
      (r, w') \<Rightarrow> (isl r, map o_status (stackOperations (w_db w')))) = (False, [''succeeded''])
   \<and> (\<forall>history payload. isl (e_answer stale_env history
        \<lparr>rq_agentId = ''a1'', rq_capability = ''stack.restart'', rq_payload = payload\<rparr>))"
proof
  show "(case run_lifecycle stale_env restart shop_id shop_user shop_context stale_world of
      (r, w') \<Rightarrow> (isl r, map o_status (stackOperations (w_db w')))) = (False, [''succeeded''])"
    by code_simp
qed (simp add: stale_env_def)

end
