(* ===== verification/Stack_Delete.thy ===== *)
theory Stack_Delete
  imports Stack_Lifecycle
begin

text \<open>
  Deleting a stack, \<^verbatim>\<open>src/api/src/stacks/stack-delete.service.ts\<close>: a stack that never ran is removed
  once nothing on its host claims it; a deployed one has its containers removed by the agent
  first, and its configuration goes only when a complete reading shows the host clear.
\<close>

section \<open>Before the removal\<close>

definition deletable :: "string \<Rightarrow> stack_row handler" where
  "deletable stackId =
    bindE (find_stack stackId ''its stacks cannot be removed'') (\<lambda>stack.
    if s_status stack = ''needs_attention''
    then throw_app (conflict ''STACK_NEEDS_ATTENTION''
      ''This stack is neither one revision nor another. Apply a revision to it before deleting it.'')
    else bindE (assertNothingUnresolved stackId) (\<lambda>_. retE stack))"

definition removed_services :: "string \<Rightarrow> string \<Rightarrow> DeployedService list handler" where
  "removed_services stackId revisionId =
    bindE (summary_of revisionId) (\<lambda>summary.
    bindE (stackContainers stackId) (\<lambda>rows.
    liftE (deployed_loop (held_by_service rows) (depends_of summary)
      '' has no container on this host, so Dockplane cannot say what removing this stack would remove. Apply a revision to it first.''
      (services_of summary))))"

definition volumesOf :: "stack_row \<Rightarrow> string list handler" where
  "volumesOf stack = (let revisionId = or_null (s_currentRevisionId stack) (s_latestRevisionId stack) in
     if \<not> truthy revisionId then retE []
     else bindE (summary_of (the revisionId)) (\<lambda>summary.
       retE (case summary of Some s \<Rightarrow> rs_volumes s | None \<Rightarrow> [])))"

definition observedClaims :: "string \<Rightarrow> ObservedClaim list handler" where
  "observedClaims stackId = bindE (stackContainers stackId) (\<lambda>rows.
     retE (map (\<lambda>row. \<lparr>oc_serviceName = or_default (c_stackService row) [], oc_containerId = c_id row,
       oc_dockerId = c_dockerId row\<rparr>) rows))"

section \<open>Removing the configuration\<close>

definition purge :: "string \<Rightarrow> string option \<Rightarrow> unit handler" where
  "purge stackId actionId =
    bindE now (\<lambda>t. transaction (
      bindE (finish_action actionId ''succeeded'' t None) (\<lambda>_.
      bindE (delete_containers (\<lambda>c. c_stackId c = Some stackId)) (\<lambda>_.
      delete_stack stackId))))"

record DispatchedDelete =
  dd_operationId :: string
  dd_actionId :: "string option"
  dd_stackId :: string
  dd_stackName :: string
  dd_hostId :: string
  dd_revisionId :: string
  dd_expectedServices :: "string list"
  dd_retainedVolumes :: "string list"
  dd_agentId :: string
  dd_payload :: AgentLifecyclePlan
  dd_actor :: AuthenticatedUser
  dd_context :: RequestContext

record StackDeleteResult =
  dx_stackId :: string
  dx_retainedVolumes :: "string list"

definition deleteNeverDeployed :: "env \<Rightarrow> stack_row \<Rightarrow> string list \<Rightarrow> AuthenticatedUser \<Rightarrow> RequestContext
    \<Rightarrow> StackDeleteResult handler" where
  "deleteNeverDeployed E stack retainedVolumes actor context =
    bindE (read_db (\<lambda>db. find (\<lambda>c. c_stackId c = Some (s_id stack) \<and> c_dockerId c \<noteq> None) (containers db))) (\<lambda>claim.
    if claim \<noteq> None
    then throw_app (conflict ''STACK_STATE_AMBIGUOUS''
      ''This stack is not recorded as deployed, but containers on its host claim to belong to it. Dockplane will not delete its configuration while they are there.'')
    else bindE (read_db (\<lambda>db. find (\<lambda>d. d_stackId d = s_id stack) (stackDeployments db))) (\<lambda>attempted.
    bindE (if attempted \<noteq> None
      then bindE (read_db (\<lambda>db. find (\<lambda>a. a_hostId a = s_hostId stack \<and> a_revokedAt a = None) (agents db))) (\<lambda>agent.
        assertStackAttribution (Option.bind agent a_version)
          ''whether it left containers on the host cannot be established'')
      else retE ()) (\<lambda>_.
    bindE (purge (s_id stack) None) (\<lambda>_.
    bindE (audit_stack E actor context (s_id stack) (s_name stack) ''stack.deleted'' ''success'' None) (\<lambda>_.
    retE \<lparr>dx_stackId = s_id stack, dx_retainedVolumes = retainedVolumes\<rparr>)))))"

section \<open>What is recorded\<close>

definition prepare_delete :: "env \<Rightarrow> stack_row \<Rightarrow> AuthenticatedUser \<Rightarrow> RequestContext \<Rightarrow> (string \<times> string) handler" where
  "prepare_delete E stack actor context = transaction (
    bindE (insert_running_action E actor context ''stack.remove'' stack) (\<lambda>actionId.
    bindE (randomUUID E) (\<lambda>operationId.
    bindE (insert_operation \<lparr>o_id = operationId, o_stackId = s_id stack,
        o_revisionId = the (s_currentRevisionId stack), o_hostId = s_hostId stack, o_type = ''delete'',
        o_status = ''running'', o_actionId = Some actionId, o_startedBy = Some (u_id actor),
        o_fingerprint = None, o_detail = None, o_failureCode = None, o_resolvedAt = None\<rparr>) (\<lambda>_.
    retE (operationId, actionId)))))"

definition audit_delete :: "env \<Rightarrow> DispatchedDelete \<Rightarrow> string \<Rightarrow> string \<Rightarrow> unit handler" where
  "audit_delete E attempt action result = audit_stack E (dd_actor attempt) (dd_context attempt)
     (dd_stackId attempt) (dd_stackName attempt) action result (Some (dd_operationId attempt))"

definition delete_interrupted :: "env \<Rightarrow> DispatchedDelete \<Rightarrow> string \<Rightarrow> 'a handler" where
  "delete_interrupted E attempt code =
    bindE (update_operation (dd_operationId attempt) (\<lambda>d. d\<lparr>o_status := ''interrupted'',
      o_failureCode := Some code\<rparr>)) (\<lambda>_.
    bindE (audit_delete E attempt ''stack.delete.interrupted'' ''failure'') (\<lambda>_.
    throw_app (AppError ''OPERATION_OUTCOME_UNKNOWN''
      ''The request reached the host but its result did not come back. Dockplane will establish what happened from the host and will not repeat the operation; nothing has been deleted.''
      503)))"

definition delete_not_applied :: "env \<Rightarrow> DispatchedDelete \<Rightarrow> app_error option \<Rightarrow> unit handler" where
  "delete_not_applied E attempt failure =
    bindE now (\<lambda>t.
    bindE (transaction (
      bindE (update_operation (dd_operationId attempt) (\<lambda>d. d\<lparr>o_status := ''failed'',
        o_failureCode := Some (or_default (map_option ae_code failure) ''STACK_DELETE_FAILED''),
        o_resolvedAt := Some t\<rparr>)) (\<lambda>_.
      finish_action (dd_actionId attempt) ''failed'' t (Some (map_option ae_code failure))))) (\<lambda>_.
    audit_delete E attempt ''stack.delete.failed'' ''failure''))"

definition delete_needs_attention :: "env \<Rightarrow> DispatchedDelete \<Rightarrow> string \<Rightarrow> unit handler" where
  "delete_needs_attention E attempt reason =
    bindE now (\<lambda>t.
    bindE (transaction (
      bindE (update_operation (dd_operationId attempt) (\<lambda>d. d\<lparr>o_status := ''needs_attention'',
        o_failureCode := Some ''STACK_DELETE_PARTIAL'', o_resolvedAt := Some t\<rparr>)) (\<lambda>_.
      bindE (update_stack (dd_stackId attempt) (\<lambda>s. s\<lparr>s_status := ''needs_attention''\<rparr>)) (\<lambda>_.
      finish_action (dd_actionId attempt) ''failed'' t (Some (Some ''STACK_DELETE_PARTIAL'')))))) (\<lambda>_.
    bindE (audit_delete E attempt ''stack.delete.needs_attention'' ''failure'') (\<lambda>_.
    stack_event (dd_hostId attempt) ''stack.operation.failed'' (Some ''critical'') (dd_stackId attempt)
      (dd_stackName attempt @ '' needs attention: '' @ reason @ ''.'') (dd_operationId attempt))))"

section \<open>Asking the host and settling\<close>

definition settle_delete :: "env \<Rightarrow> DispatchedDelete \<Rightarrow> StackDeleteOutcome \<Rightarrow> app_error option
    \<Rightarrow> StackDeleteResult handler" where
  "settle_delete E attempt outcome failure = (case outcome of
      SD_unknown _ \<Rightarrow> delete_interrupted E attempt ''HOST_NOT_READABLE''
    | SD_finalize_deleted \<Rightarrow>
        bindE (purge (dd_stackId attempt) (dd_actionId attempt)) (\<lambda>_.
        bindE (audit_delete E attempt ''stack.deleted'' ''success'') (\<lambda>_.
        bindE (stack_event (dd_hostId attempt) ''stack.deleted'' None (dd_stackId attempt)
          (dd_stackName attempt @ '' was deleted by '' @ u_email (dd_actor attempt) @ ''. Its volumes were kept.'')
          (dd_operationId attempt)) (\<lambda>_.
        retE \<lparr>dx_stackId = dd_stackId attempt, dx_retainedVolumes = dd_retainedVolumes attempt\<rparr>)))
    | SD_needs_attention reason \<Rightarrow>
        bindE (delete_needs_attention E attempt reason) (\<lambda>_.
        throw_app (AppError ''STACK_DELETE_PARTIAL''
          ''Part of this stack was removed and part of it was not. Nothing was rebuilt and nothing was deleted from Dockplane; apply a revision to it before deleting it again.''
          409))
    | SD_finalize_not_applied \<Rightarrow>
        bindE (delete_not_applied E attempt failure) (\<lambda>_.
        throw_app (if map_option ae_code failure = Some ''STACK_STATE_AMBIGUOUS''
          then conflict ''STACK_REPAIR_AMBIGUOUS''
            ''The containers of this stack on its host do not add up. Dockplane will not guess which ones it means; resolve it on the host and try again.''
          else AppError ''STACK_DELETE_FAILED'' (or_default (map_option ae_message failure)
            ''The stack was not removed from its host, so nothing was deleted.'') 409)))"

definition observe_delete :: "env \<Rightarrow> DispatchedDelete \<Rightarrow> StackDeleteOutcome handler" where
  "observe_delete E attempt =
    bindE (resync E (dd_hostId attempt)) (\<lambda>snapshotComplete.
    bindE (observedClaims (dd_stackId attempt)) (\<lambda>observed.
    retE (classifyStackDelete \<lparr>sd_expectedServices = dd_expectedServices attempt, sd_observed = observed,
      sd_snapshotComplete = snapshotComplete\<rparr>)))"

definition removeThenFinalize :: "env \<Rightarrow> DispatchedDelete \<Rightarrow> StackDeleteResult handler" where
  "removeThenFinalize E attempt =
    bindE (tryE (dispatch_request E (dd_agentId attempt) ''stack.remove'' (LifecyclePlan (dd_payload attempt)))) (\<lambda>reply.
    case reply of
      Inl error \<Rightarrow>
        (let code = code_or ''DOCKER_OPERATION_FAILED'' error in
         if code \<in> set UNKNOWN_OUTCOME then delete_interrupted E attempt code
         else bindE (observe_delete E attempt) (\<lambda>outcome. settle_delete E attempt outcome (as_app_error error)))
    | Inr _ \<Rightarrow> bindE (observe_delete E attempt) (\<lambda>outcome. settle_delete E attempt outcome None))"

section \<open>The operation\<close>

definition delete_deployed :: "env \<Rightarrow> stack_row \<Rightarrow> string list \<Rightarrow> AuthenticatedUser \<Rightarrow> RequestContext
    \<Rightarrow> StackDeleteResult handler" where
  "delete_deployed E stack retainedVolumes actor context =
    (let revisionId = the (s_currentRevisionId stack) in
    bindE (connectedAgent ''this stack cannot be removed from its host'' (s_hostId stack)) (\<lambda>agentId.
    bindE (removed_services (s_id stack) revisionId) (\<lambda>services.
    bindE (mapErrE operation_claimed (prepare_delete E stack actor context)) (\<lambda>(operationId, actionId).
    bindE (audit_stack E actor context (s_id stack) (s_name stack) ''stack.delete.requested'' ''success''
      (Some operationId)) (\<lambda>_.
    removeThenFinalize E \<lparr>dd_operationId = operationId, dd_actionId = Some actionId,
      dd_stackId = s_id stack, dd_stackName = s_name stack, dd_hostId = s_hostId stack,
      dd_revisionId = revisionId, dd_expectedServices = map ds_serviceName services,
      dd_retainedVolumes = retainedVolumes, dd_agentId = agentId,
      dd_payload = lifecycle_plan (s_id stack) revisionId services,
      dd_actor = actor, dd_context = context\<rparr>)))))"

definition delete :: "env \<Rightarrow> string \<Rightarrow> AuthenticatedUser \<Rightarrow> RequestContext \<Rightarrow> StackDeleteResult handler" where
  "delete E stackId actor context =
    bindE (deletable stackId) (\<lambda>stack.
    with_lock (stackKey stackId) ''delete'' (
      bindE (volumesOf stack) (\<lambda>retainedVolumes.
      if \<not> truthy (s_currentRevisionId stack)
      then deleteNeverDeployed E stack retainedVolumes actor context
      else delete_deployed E stack retainedVolumes actor context)))"

section \<open>Settling a removal\<close>

definition delete_verdict :: "StackDeleteOutcome \<Rightarrow> verdict" where
  "delete_verdict outcome = (case outcome of SD_finalize_deleted \<Rightarrow> Applied | SD_finalize_not_applied \<Rightarrow> NotApplied
     | SD_needs_attention _ \<Rightarrow> Attention | SD_unknown _ \<Rightarrow> Undecided)"

text \<open>
  A stack whose configuration is gone: nothing of it is left in any table, and the container
  resources that went with it were of containers no reading had found.
\<close>

definition purged :: "string \<Rightarrow> container_row list \<Rightarrow> database \<Rightarrow> database \<Rightarrow> bool" where
  "purged sid rows db db' \<longleftrightarrow> stacks db' = del (\<lambda>s. s_id s = sid) (stacks db)
     \<and> stackRevisions db' = del (\<lambda>r. r_stackId r = sid) (stackRevisions db)
     \<and> stackDeployments db' = del (\<lambda>d. d_stackId d = sid) (stackDeployments db)
     \<and> stackOperations db' = del (\<lambda>d. o_stackId d = sid) (stackOperations db)
     \<and> containers db' = del (\<lambda>c. c_stackId c = Some sid) rows
     \<and> (\<forall>c \<in> set rows. c_stackId c = Some sid \<longrightarrow> c_dockerId c = None)"

lemma upd_del: "upd P f (del P rows) = del P rows"
  by (rule upd_none) (simp add: in_del_iff)

lemma purge_run:
  assumes "\<forall>c \<in> set (containers (w_db w)). c_stackId c = Some sid \<longrightarrow> c_dockerId c = None"
  shows "fst (purge sid actionId w) = Inr ()"
    and "purged sid (containers (w_db w)) (w_db w) (w_db (snd (purge sid actionId w)))"
  using assms by (simp_all add: purge_def transaction_def run cascade_stack_def Let_def purged_def upd_del)

lemma purge_calm: "stable (keeps calm) (purge sid actionId)"
  unfolding purge_def by (intro calm_rules)

lemma delete_records_calm:
  "stable (keeps calm) (delete_interrupted E attempt code)"
  "stable (keeps calm) (delete_not_applied E attempt failure)"
  "stable (keeps calm) (delete_needs_attention E attempt reason)"
  unfolding delete_interrupted_def delete_not_applied_def delete_needs_attention_def audit_delete_def
  by (intro calm_rules)+

lemma settle_delete_calm: "stable (keeps calm) (settle_delete E attempt outcome failure)"
  unfolding settle_delete_def audit_delete_def
  by (cases outcome; simp only: StackDeleteOutcome.simps; intro calm_rules purge_calm delete_records_calm)

lemma delete_interrupted_run:
  "settles_operation (dd_operationId attempt) (dd_stackId attempt) moved Undecided (w_db w)
     (w_db (snd (delete_interrupted E attempt code w)))"
  "stackRevisions (w_db (snd (delete_interrupted E attempt code w))) = stackRevisions (w_db w)"
  "isl (fst (delete_interrupted E attempt code w))"
  by (auto simp: delete_interrupted_def audit_delete_def run settles_operation_def stack_after_operation_def [abs_def]
      operation_status_def intro!: exI [of _ "\<lambda>d. d\<lparr>o_status := ''interrupted'', o_failureCode := Some code\<rparr>"])

lemma delete_not_applied_run:
  "settles_operation (dd_operationId attempt) (dd_stackId attempt) moved NotApplied (w_db w)
     (w_db (snd (delete_not_applied E attempt failure w)))"
  "stackRevisions (w_db (snd (delete_not_applied E attempt failure w))) = stackRevisions (w_db w)"
  by (auto simp: delete_not_applied_def audit_delete_def run settles_operation_def stack_after_operation_def [abs_def]
      operation_status_def intro!: exI [of _ "\<lambda>d. d\<lparr>o_status := ''failed'',
        o_failureCode := Some (or_default (map_option ae_code failure) ''STACK_DELETE_FAILED''),
        o_resolvedAt := Some (w_clock w)\<rparr>"])

lemma delete_needs_attention_run:
  "settles_operation (dd_operationId attempt) (dd_stackId attempt) moved Attention (w_db w)
     (w_db (snd (delete_needs_attention E attempt reason w)))"
  "stackRevisions (w_db (snd (delete_needs_attention E attempt reason w))) = stackRevisions (w_db w)"
  by (auto simp: delete_needs_attention_def audit_delete_def run settles_operation_def
      stack_after_operation_def [abs_def] operation_status_def
      intro!: exI [of _ "\<lambda>d. d\<lparr>o_status := ''needs_attention'',
        o_failureCode := Some ''STACK_DELETE_PARTIAL'', o_resolvedAt := Some (w_clock w)\<rparr>"])

lemma settle_delete_kept:
  assumes "outcome \<noteq> SD_finalize_deleted"
  shows "settles_operation (dd_operationId attempt) (dd_stackId attempt) moved (delete_verdict outcome) (w_db w)
      (w_db (snd (settle_delete E attempt outcome failure w)))"
    "stackRevisions (w_db (snd (settle_delete E attempt outcome failure w))) = stackRevisions (w_db w)"
    "isl (fst (settle_delete E attempt outcome failure w))"
  using assms
  by (cases outcome; simp add: settle_delete_def delete_verdict_def snd_bind fst_bind delete_interrupted_run
      delete_not_applied_run delete_needs_attention_run)+

lemma settle_delete_gone:
  assumes "\<forall>c \<in> set (containers (w_db w)). c_stackId c = Some (dd_stackId attempt) \<longrightarrow> c_dockerId c = None"
  shows "purged (dd_stackId attempt) (containers (w_db w)) (w_db w)
      (w_db (snd (settle_delete E attempt SD_finalize_deleted failure w)))"
    "\<not> isl (fst (settle_delete E attempt SD_finalize_deleted failure w))"
proof -
  note purge = purge_run [OF assms]
  obtain u where u: "purge (dd_stackId attempt) (dd_actionId attempt) w = (Inr (), u)"
    using purge(1) by (metis prod.collapse)
  with purge(2) [of "dd_actionId attempt"] show
    "purged (dd_stackId attempt) (containers (w_db w)) (w_db w)
      (w_db (snd (settle_delete E attempt SD_finalize_deleted failure w)))"
    "\<not> isl (fst (settle_delete E attempt SD_finalize_deleted failure w))"
    by (simp_all add: settle_delete_def bindE_def [of "purge _ _"] audit_delete_def run purged_def)
qed

text \<open>A reading that decides the stack is gone is complete and found no container of it.\<close>

lemma classifyStackDelete_gone:
  "classifyStackDelete input = SD_finalize_deleted \<Longrightarrow>
   sd_snapshotComplete input \<and> filter (\<lambda>c. oc_dockerId c \<noteq> None) (sd_observed input) = []"
  by (simp add: classifyStackDelete_def Let_def split: if_splits option.splits)

lemma observe_delete_run:
  "\<exists>whole v outcome. resync E (dd_hostId attempt) w = (Inr whole, v) \<and> observe_delete E attempt w = (Inr outcome, v)
    \<and> outside_discovery v = outside_discovery w
    \<and> (outcome = SD_finalize_deleted \<longrightarrow> whole \<and>
        (\<forall>c \<in> set (containers (w_db v)). c_stackId c = Some (dd_stackId attempt) \<longrightarrow> c_dockerId c = None))"
proof -
  obtain whole v where resync: "resync E (dd_hostId attempt) w = (Inr whole, v)"
    using resync_total by blast
  note same = keepsD [OF stable_resync resync]
  let ?in = "\<lparr>sd_expectedServices = dd_expectedServices attempt,
     sd_observed = map (\<lambda>row. \<lparr>oc_serviceName = or_default (c_stackService row) [], oc_containerId = c_id row,
       oc_dockerId = c_dockerId row\<rparr>) (filter (\<lambda>c. c_stackId c = Some (dd_stackId attempt)) (containers (w_db v))),
     sd_snapshotComplete = whole\<rparr>"
  have "observe_delete E attempt w = (Inr (classifyStackDelete ?in), v)"
    using resync by (simp add: observe_delete_def bindE_def [of "resync _ _"] observedClaims_def run)
  moreover have "whole \<and> (\<forall>c \<in> set (containers (w_db v)). c_stackId c = Some (dd_stackId attempt) \<longrightarrow> c_dockerId c = None)"
    if "classifyStackDelete ?in = SD_finalize_deleted"
    using classifyStackDelete_gone [OF that] by (auto simp: filter_empty_conv)
  ultimately show ?thesis using resync same by blast
qed

text \<open>
  A removal that was asked of the host: the configuration is purged on a complete reading that
  found nothing of the stack, and in every other case it is all kept and the operation and the
  stack are settled by the verdict.
\<close>

definition removal_settled :: "env \<Rightarrow> string \<Rightarrow> string \<Rightarrow> string \<Rightarrow> world \<Rightarrow> bool \<Rightarrow> world \<Rightarrow> bool" where
  "removal_settled E hostId oid sid u failed w' \<longleftrightarrow>
     (\<not> failed \<and> (\<exists>asked v. resync E hostId asked = (Inr True, v) \<and> mutations asked = mutations w'
        \<and> outside_discovery v = outside_discovery asked \<and> w_db asked = w_db u
        \<and> purged sid (containers (w_db v)) (w_db u) (w_db w'))) \<or>
     (failed \<and> stackRevisions (w_db w') = stackRevisions (w_db u)
        \<and> (\<exists>v. v \<noteq> Applied \<and> settles_operation oid sid [] v (w_db u) (w_db w')))"

definition removal_request :: "DispatchedDelete \<Rightarrow> request" where
  "removal_request attempt = \<lparr>rq_agentId = dd_agentId attempt, rq_capability = ''stack.remove'',
     rq_payload = LifecyclePlan (dd_payload attempt)\<rparr>"

text \<open>The request to remove a stack: of the agent of its host, for the revision it runs.\<close>

definition removal_of :: "stack_row \<Rightarrow> world \<Rightarrow> request \<Rightarrow> bool" where
  "removal_of stack w rq \<longleftrightarrow> reaches w (s_hostId stack) (rq_agentId rq) \<and> rq_capability rq = ''stack.remove''
     \<and> (\<exists>plan. rq_payload rq = LifecyclePlan plan \<and> lp_stackId plan = s_id stack
       \<and> lp_revisionId plan = the (s_currentRevisionId stack))"

lemma removal_mutates: "isMutating ''stack.remove''"
  by (simp add: isMutating_def MUTATING_CAPABILITIES_def)

lemma removeThenFinalize_refines:
  assumes "removeThenFinalize E attempt w = (r, w')"
  shows "mutations w' = mutations w @ [removal_request attempt]
    \<and> removal_settled E (dd_hostId attempt) (dd_operationId attempt) (dd_stackId attempt) w (isl r) w'"
proof -
  define rq where "rq = removal_request attempt"
  define u where "u = w\<lparr>w_sent := w_sent w @ [rq], w_clock := w_clock w + int (e_takes E rq)\<rparr>"
  have u: "mutations u = mutations w @ [rq]" "w_db u = w_db w"
    unfolding u_def rq_def removal_request_def by (simp_all add: mutations_def removal_mutates)
  have "removeThenFinalize E attempt w = (case e_answer E (w_sent w) rq of
      Inl error \<Rightarrow> if code_or ''DOCKER_OPERATION_FAILED'' error \<in> set UNKNOWN_OUTCOME
        then delete_interrupted E attempt (code_or ''DOCKER_OPERATION_FAILED'' error) u
        else bindE (observe_delete E attempt) (\<lambda>outcome. settle_delete E attempt outcome (as_app_error error)) u
    | Inr _ \<Rightarrow> bindE (observe_delete E attempt) (\<lambda>outcome. settle_delete E attempt outcome None) u)"
    unfolding removeThenFinalize_def run_try u_def rq_def removal_request_def
    by (simp add: dispatch_request_def Let_def split: sum.split)
  then consider (lost) code where "delete_interrupted E attempt code u = (r, w')"
    | (read) failure where "bindE (observe_delete E attempt) (\<lambda>outcome. settle_delete E attempt outcome failure) u = (r, w')"
    using assms by (auto split: sum.splits if_splits)
  then show ?thesis
  proof cases
    case lost
    have "calm w' = calm u" using keepsD [OF delete_records_calm(1) lost] .
    moreover have "isl r" "stackRevisions (w_db w') = stackRevisions (w_db w)"
      "settles_operation (dd_operationId attempt) (dd_stackId attempt) [] Undecided (w_db w) (w_db w')"
      using delete_interrupted_run lost u(2) by (metis fst_conv snd_conv)+
    ultimately show ?thesis using u unfolding rq_def removal_settled_def calm_def by auto
  next
    case read
    from observe_delete_run [of E attempt u] obtain whole v outcome where
      seen: "resync E (dd_hostId attempt) u = (Inr whole, v)" "observe_delete E attempt u = (Inr outcome, v)"
      and same: "outside_discovery v = outside_discovery u" and
      clear: "outcome = SD_finalize_deleted \<Longrightarrow> whole \<and>
        (\<forall>c \<in> set (containers (w_db v)). c_stackId c = Some (dd_stackId attempt) \<longrightarrow> c_dockerId c = None)" by blast
    have settle: "settle_delete E attempt outcome failure v = (r, w')" using read seen by (simp add: bindE_def)
    have mutations: "mutations w' = mutations u"
      using keepsD [OF settle_delete_calm settle] same by (simp add: calm_def outside_discovery_def)
    show ?thesis
    proof (cases "outcome = SD_finalize_deleted")
      case True
      with settle_delete_gone [of v attempt E failure] clear settle have
        "purged (dd_stackId attempt) (containers (w_db v)) (w_db v) (w_db w')" "\<not> isl r" by simp_all
      moreover from this(1) have "purged (dd_stackId attempt) (containers (w_db v)) (w_db w) (w_db w')"
        using same u(2) by (simp add: purged_def outside_discovery_def)
      ultimately show ?thesis using seen(1) clear [OF True] mutations same u
        unfolding rq_def removal_settled_def by (simp, intro exI [of _ u] exI [of _ v], simp)
    next
      case False
      have kept: "settles_operation (dd_operationId attempt) (dd_stackId attempt) [] (delete_verdict outcome) (w_db v) (w_db w')"
        "stackRevisions (w_db w') = stackRevisions (w_db v)" "isl r"
        using settle_delete_kept [OF False] settle by (metis fst_conv snd_conv)+
      have "delete_verdict outcome \<noteq> Applied"
        using False by (cases outcome) (simp_all add: delete_verdict_def)
      moreover have "settles_operation (dd_operationId attempt) (dd_stackId attempt) [] (delete_verdict outcome) (w_db w) (w_db w')"
        using settles_operation_cong [OF kept(1)] same u by (simp add: outside_discovery_def)
      moreover have "stackRevisions (w_db w') = stackRevisions (w_db w)"
        using kept(2) same u by (simp add: outside_discovery_def)
      ultimately show ?thesis using kept(3) mutations u(1) unfolding rq_def removal_settled_def by auto
    qed
  qed
qed

section \<open>Before the removal is asked for\<close>

lemma stable_deletable [intro!, simp]: "stable (keeps f) (deletable stackId)"
  unfolding deletable_def
  by (intro frame.stable_rules stable_find_stack stable_throw_app stable_assertNothingUnresolved)

lemma stable_volumesOf [intro!, simp]: "stable (keeps f) (volumesOf stack)"
  unfolding volumesOf_def summary_of_def by (intro frame.stable_rules stable_read_db)

lemma stable_removed_services: "stable (keeps f) (removed_services stackId revisionId)"
  unfolding removed_services_def summary_of_def
  by (intro frame.stable_rules stable_read_db stable_stackContainers stable_liftE)

lemma deletable_SomeD:
  assumes "deletable stackId w = (Inr stack, w')"
  shows "s_id stack = stackId" "\<not> unresolved_on stackId (w_db w)" "s_status stack \<noteq> ''needs_attention''"
    "find (\<lambda>s. s_id s = stackId) (stacks (w_db w)) = Some stack"
proof -
  obtain u where find: "find_stack stackId ''its stacks cannot be removed'' w = (Inr stack, u)"
    and rest: "s_status stack \<noteq> ''needs_attention''" "\<not> unresolved_on stackId (w_db u)"
    using assms
    by (auto simp: deletable_def bindE_Inr assertNothingUnresolved_run run throw_app_eq retE_eq split: if_splits)
  note found = find_stack_SomeD [OF find]
  show "s_id stack = stackId" "find (\<lambda>s. s_id s = stackId) (stacks (w_db w)) = Some stack" by (rule found(2,3))+
  show "\<not> unresolved_on stackId (w_db w)" "s_status stack \<noteq> ''needs_attention''"
    using rest found(1) by simp_all
qed

lemma prepare_delete_Inr:
  assumes "prepare_delete E stack actor context w = (Inr (operationId, actionId), w')"
  shows "\<exists>row. stackOperations (w_db w') = stackOperations (w_db w) @ [row] \<and> o_id row = operationId
      \<and> o_stackId row = s_id stack \<and> o_type row = ''delete''"
    and "operationId \<notin> o_id ` set (stackOperations (w_db w))"
    and "stacks (w_db w') = stacks (w_db w)" and "stackDeployments (w_db w') = stackDeployments (w_db w)"
    and "stackRevisions (w_db w') = stackRevisions (w_db w)" and "mutations w' = mutations w"
proof -
  obtain correlation n where corr: "correlated E context w = (correlation, n)" by fastforce
  show "\<exists>row. stackOperations (w_db w') = stackOperations (w_db w) @ [row] \<and> o_id row = operationId
      \<and> o_stackId row = s_id stack \<and> o_type row = ''delete''"
    "operationId \<notin> o_id ` set (stackOperations (w_db w))" "stacks (w_db w') = stacks (w_db w)"
    "stackDeployments (w_db w') = stackDeployments (w_db w)" "stackRevisions (w_db w') = stackRevisions (w_db w)"
    "mutations w' = mutations w"
    using assms unfolding prepare_delete_def transaction_Inr
    by (auto simp: run corr Let_def split: if_splits)
qed

lemma prepare_delete_Inl:
  assumes "prepare_delete E stack actor context w = (Inl e, w')"
  shows "\<exists>n. w' = w\<lparr>w_fresh := n\<rparr>"
proof -
  obtain correlation n where corr: "correlated E context w = (correlation, n)" by fastforce
  from assms show ?thesis
    unfolding prepare_delete_def transaction_Inl
    by (auto simp: run corr Let_def split: if_splits)
qed

lemma delete_deployed_cases:
  assumes "delete_deployed E stack volumes actor context w = (r, w')"
  obtains (refused) n where "w' = w\<lparr>w_fresh := n\<rparr>" "isl r"
    | (attempted) attempt u row where "removeThenFinalize E attempt u = (r, w')"
      "dd_stackId attempt = s_id stack" "dd_hostId attempt = s_hostId stack"
      "dd_operationId attempt \<notin> o_id ` set (stackOperations (w_db w))"
      "stackOperations (w_db u) = stackOperations (w_db w) @ [row]" "o_id row = dd_operationId attempt"
      "o_stackId row = s_id stack" "stackRevisions (w_db u) = stackRevisions (w_db w)"
      "stacks (w_db u) = stacks (w_db w)" "stackDeployments (w_db u) = stackDeployments (w_db w)"
      "mutations u = mutations w" "removal_of stack w (removal_request attempt)"
  using assms [unfolded delete_deployed_def Let_def]
proof (cases rule: bind_reads [OF stable_connectedAgent, consumes 1, case_names thrown continues])
  case (continues agentId)
  note agent = connectedAgent_Inr [OF continues(1)]
  from continues(2) show ?thesis
  proof (cases rule: bind_reads [OF stable_removed_services, consumes 1, case_names thrown continues])
    case (continues services)
    obtain p u where prep: "prepare_delete E stack actor context w = (p, u)" by fastforce
    show ?thesis
    proof (cases p)
      case (Inl e)
      with prep continues(2) have "w' = u" "isl r" by (auto simp: bindE_def mapErrE_def)
      with prepare_delete_Inl [OF prep [unfolded Inl]] show ?thesis by (auto intro: refused)
    next
      case (Inr ids)
      obtain operationId actionId where ids: "ids = (operationId, actionId)" by (cases ids)
      note prepared = prepare_delete_Inr [OF prep [unfolded Inr ids]]
      obtain entries where audited: "audit_stack E actor context (s_id stack) (s_name stack)
          ''stack.delete.requested'' ''success'' (Some operationId) u
          = (Inr (), u\<lparr>w_db := (w_db u)\<lparr>auditEntries := entries\<rparr>\<rparr>)"
        by (simp add: run)
      have dispatched: "removeThenFinalize E \<lparr>dd_operationId = operationId, dd_actionId = Some actionId,
          dd_stackId = s_id stack, dd_stackName = s_name stack, dd_hostId = s_hostId stack,
          dd_revisionId = the (s_currentRevisionId stack), dd_expectedServices = map ds_serviceName services,
          dd_retainedVolumes = volumes, dd_agentId = agentId,
          dd_payload = lifecycle_plan (s_id stack) (the (s_currentRevisionId stack)) services,
          dd_actor = actor, dd_context = context\<rparr> (u\<lparr>w_db := (w_db u)\<lparr>auditEntries := entries\<rparr>\<rparr>) = (r, w')"
        using continues(2) prep Inr ids audited by (simp add: bindE_def mapErrE_def)
      obtain row where "stackOperations (w_db u) = stackOperations (w_db w) @ [row]" "o_id row = operationId"
        "o_stackId row = s_id stack" using prepared(1) by blast
      with prepared agent show ?thesis
        by (intro attempted [OF dispatched, of row]) (simp_all add: removal_of_def removal_request_def lifecycle_plan_def)
    qed
  qed (auto intro: refused [of "w_fresh w"])
qed (auto intro: refused [of "w_fresh w"])

lemma deleteNeverDeployed_cases:
  assumes "deleteNeverDeployed E stack volumes actor context w = (r, w')"
  obtains (refused) "w' = w" "isl r"
    | (gone) "\<not> isl r" "mutations w' = mutations w" "purged (s_id stack) (containers (w_db w)) (w_db w) (w_db w')"
proof -
  let ?attribution = "if find (\<lambda>d. d_stackId d = s_id stack) (stackDeployments (w_db w)) \<noteq> None
      then bindE (read_db (\<lambda>db. find (\<lambda>a. a_hostId a = s_hostId stack \<and> a_revokedAt a = None) (agents db))) (\<lambda>agent.
        assertStackAttribution (Option.bind agent a_version)
          ''whether it left containers on the host cannot be established'') else retE ()"
  have reads: "stable (keeps f) ?attribution" for f
    by (intro frame.stable_rules stable_read_db stable_assertStackAttribution)
  show ?thesis
  proof (cases "find (\<lambda>c. c_stackId c = Some (s_id stack) \<and> c_dockerId c \<noteq> None) (containers (w_db w))")
    case (Some c)
    with assms show ?thesis by (intro refused) (auto simp: deleteNeverDeployed_def run)
  next
    case None
    then have clear: "\<forall>c \<in> set (containers (w_db w)). c_stackId c = Some (s_id stack) \<longrightarrow> c_dockerId c = None"
      by (auto simp: find_None_iff)
    from assms None have "bindE ?attribution (\<lambda>_. bindE (purge (s_id stack) None) (\<lambda>_.
        bindE (audit_stack E actor context (s_id stack) (s_name stack) ''stack.deleted'' ''success'' None) (\<lambda>_.
        retE \<lparr>dx_stackId = s_id stack, dx_retainedVolumes = volumes\<rparr>))) w = (r, w')"
      by (simp only: deleteNeverDeployed_def bind_read_db simp_thms if_False)
    then show ?thesis
    proof (cases rule: bind_reads [OF reads, consumes 1, case_names thrown continues])
      case (continues x)
      obtain u where u: "purge (s_id stack) None w = (Inr (), u)"
        using purge_run(1) [OF clear] by (metis prod.collapse)
      with continues(2) purge_run(2) [OF clear, of None] keepsD [OF purge_calm u] show ?thesis
        by (intro gone) (auto simp: bindE_def [of "purge _ _"] run purged_def calm_def mutations_def)
    qed (rule refused)
  qed
qed

text \<open>The same, told from before the operation was written down.\<close>

lemma removal_settled_from:
  assumes "removal_settled E hostId oid sid u failed w'"
    and "oid \<notin> o_id ` set (stackOperations (w_db w))" "stackOperations (w_db u) = stackOperations (w_db w) @ [row]"
    and "o_id row = oid" "o_stackId row = sid" "stackRevisions (w_db u) = stackRevisions (w_db w)"
    and "stacks (w_db u) = stacks (w_db w)" "stackDeployments (w_db u) = stackDeployments (w_db w)"
  shows "(\<not> failed \<and> (\<exists>asked v. resync E hostId asked = (Inr True, v) \<and> mutations asked = mutations w'
      \<and> purged sid (containers (w_db v)) (w_db w) (w_db w'))) \<or>
    (failed \<and> stackRevisions (w_db w') = stackRevisions (w_db w) \<and> (\<exists>v d. v \<noteq> Applied
      \<and> stackOperations (w_db w') = stackOperations (w_db w) @ [d] \<and> o_stackId d = sid
      \<and> o_id d \<notin> o_id ` set (stackOperations (w_db w))
      \<and> o_status d = operation_status v \<and> stackDeployments (w_db w') = stackDeployments (w_db w)
      \<and> stacks (w_db w') = upd (\<lambda>s. s_id s = sid) (stack_after_operation [] v) (stacks (w_db w))))"
proof (cases failed)
  case False
  have "purged sid rows (w_db u) db' \<Longrightarrow> purged sid rows (w_db w) db'" for rows db'
    using assms(3,5-8) by (simp add: purged_def del_def)
  with False assms(1) show ?thesis unfolding removal_settled_def by blast
next
  case True
  then obtain v g where "v \<noteq> Applied" "stackRevisions (w_db w') = stackRevisions (w_db w)"
    "stackOperations (w_db w') = upd (\<lambda>d. o_id d = oid) g (stackOperations (w_db u))"
    "\<forall>d. o_status (g d) = operation_status v \<and> o_stackId (g d) = o_stackId d \<and> o_id (g d) = o_id d"
    "stackDeployments (w_db w') = stackDeployments (w_db w)"
    "stacks (w_db w') = upd (\<lambda>s. s_id s = sid) (stack_after_operation [] v) (stacks (w_db w))"
    using assms(1,6-8) unfolding removal_settled_def settles_operation_def by auto
  with True upd_appended [of oid o_id "stackOperations (w_db w)" row g] assms(2-5) show ?thesis by auto
qed

section \<open>What a deletion comes to\<close>

lemma delete_outcome:
  assumes "delete E stackId actor context w = (r, w')"
  shows "(isl r \<and> quiet w' = quiet w \<and> stackRevisions (w_db w') = stackRevisions (w_db w)) \<or>
    (\<exists>stack. find (\<lambda>s. s_id s = stackId) (stacks (w_db w)) = Some stack \<and> s_status stack \<noteq> ''needs_attention''
      \<and> \<not> unresolved_on stackId (w_db w) \<and>
     ((\<not> truthy (s_currentRevisionId stack) \<and> \<not> isl r \<and> mutations w' = mutations w
        \<and> purged stackId (containers (w_db w)) (w_db w) (w_db w')) \<or>
      (truthy (s_currentRevisionId stack) \<and> (\<exists>rq. mutations w' = mutations w @ [rq] \<and> removal_of stack w rq) \<and>
        ((\<not> isl r \<and> (\<exists>asked v. resync E (s_hostId stack) asked = (Inr True, v) \<and> mutations asked = mutations w'
            \<and> purged stackId (containers (w_db v)) (w_db w) (w_db w'))) \<or>
         (isl r \<and> stackRevisions (w_db w') = stackRevisions (w_db w) \<and> (\<exists>v d. v \<noteq> Applied
            \<and> stackOperations (w_db w') = stackOperations (w_db w) @ [d] \<and> o_stackId d = stackId
            \<and> o_id d \<notin> o_id ` set (stackOperations (w_db w))
            \<and> o_status d = operation_status v \<and> stackDeployments (w_db w') = stackDeployments (w_db w)
            \<and> stacks (w_db w') = upd (\<lambda>s. s_id s = stackId) (stack_after_operation [] v) (stacks (w_db w))))))))"
  using assms [unfolded delete_def]
proof (cases rule: bind_reads [OF stable_deletable, consumes 1, case_names thrown continues])
  case (continues stack)
  note ok = deletable_SomeD [OF continues(1)]
  from continues(2) show ?thesis
  proof (cases rule: with_lock_cases [consumes 1, case_names busy locked])
    case (locked held t released)
    from locked(1) show ?thesis
    proof (cases rule: bind_reads [OF stable_volumesOf, consumes 1, case_names thrown continues])
      case thrown
      then show ?thesis using locked(2) by (simp add: quiet_def mutations_def)
    next
      case (continues volumes)
      show ?thesis
      proof (cases "truthy (s_currentRevisionId stack)")
        case False
        with continues(2) have "deleteNeverDeployed E stack volumes actor context (w\<lparr>w_held := held\<rparr>) = (r, t)" by simp
        then show ?thesis
          using ok locked(2) False
          by (cases rule: deleteNeverDeployed_cases [consumes 1]) (auto simp: quiet_def mutations_def)
      next
        case True
        with continues(2) have "delete_deployed E stack volumes actor context (w\<lparr>w_held := held\<rparr>) = (r, t)" by simp
        then show ?thesis
        proof (cases rule: delete_deployed_cases [consumes 1, case_names refused attempted])
          case (refused n)
          then show ?thesis using locked(2) by (simp add: quiet_def mutations_def)
        next
          case (attempted attempt u row)
          note removed = removeThenFinalize_refines [OF attempted(1)]
          have "\<exists>rq. mutations w' = mutations w @ [rq] \<and> removal_of stack w rq"
            using removed attempted(11,12) locked(2) by (simp add: removal_of_def mutations_def)
          moreover have "removal_settled E (s_hostId stack) (dd_operationId attempt) stackId u (isl r) w'"
            using removed [THEN conjunct2] attempted(2,3) ok(1) locked(2) by (simp add: removal_settled_def)
          note removal_settled_from [OF this, of w row]
          ultimately show ?thesis using attempted ok True by (intro disjI2 exI [of _ stack]) simp
        qed
      qed
    qed
  qed simp
qed simp

section \<open>Properties\<close>

text \<open>
  C8: deleting a stack forgets its configuration in exactly two ways. A stack that has no current
  revision is forgotten without asking its host, and only when no container the server knows of claims
  it. A stack that has one is forgotten after the agent of its host was asked exactly once to remove that
  revision and a complete reading of that host, made after the request, found no container of it.
  Otherwise the caller is told of a failure and either nothing has changed, or one operation was
  written down and settled by a verdict and the stack and all its revisions are still there. A stack that
  needs attention or has an open attempt is not deleted.
\<close>

theorem delete_refines:
  assumes "delete E stackId actor context w = (r, w')"
  shows "(isl r \<and> quiet w' = quiet w \<and> stackRevisions (w_db w') = stackRevisions (w_db w)) \<or>
    (\<exists>stack. find (\<lambda>s. s_id s = stackId) (stacks (w_db w)) = Some stack \<and> s_status stack \<noteq> ''needs_attention''
      \<and> \<not> unresolved_on stackId (w_db w) \<and>
     ((\<not> truthy (s_currentRevisionId stack) \<and> \<not> isl r \<and> mutations w' = mutations w
        \<and> purged stackId (containers (w_db w)) (w_db w) (w_db w')) \<or>
      (truthy (s_currentRevisionId stack) \<and> (\<exists>rq. mutations w' = mutations w @ [rq] \<and> removal_of stack w rq) \<and>
        ((\<not> isl r \<and> (\<exists>asked v. resync E (s_hostId stack) asked = (Inr True, v) \<and> mutations asked = mutations w'
            \<and> purged stackId (containers (w_db v)) (w_db w) (w_db w'))) \<or>
         (isl r \<and> stackRevisions (w_db w') = stackRevisions (w_db w) \<and> (\<exists>v d. v \<noteq> Applied
            \<and> stackOperations (w_db w') = stackOperations (w_db w) @ [d] \<and> o_stackId d = stackId
            \<and> o_status d = operation_status v \<and> stackDeployments (w_db w') = stackDeployments (w_db w)
            \<and> stacks (w_db w') = upd (\<lambda>s. s_id s = stackId) (stack_after_operation [] v) (stacks (w_db w))))))))"
  using delete_outcome [OF assms] by blast

theorem delete_refines_witness:
  "\<exists>result w'. delete (shop_live ''running'') shop_id shop_user shop_context (shop_running ''running'' ''running'')
     = (Inr result, w') \<and> stacks (w_db w') = []"
proof -
  let ?run = "delete (shop_live ''running'') shop_id shop_user shop_context (shop_running ''running'' ''running'')"
  have deleted: "\<not> isl (fst ?run)" by code_simp
  obtain r w' where run: "?run = (r, w')" by fastforce
  with deleted obtain result where r: "r = Inr result" by (cases r) simp_all
  have "del (\<lambda>s. s_id s = shop_id) (stacks (w_db (shop_running ''running'' ''running''))) = []"
    by (simp add: shop_running_def shop_world_def)
  with delete_refines [OF run] r have "stacks (w_db w') = []" by (auto simp: purged_def)
  with run r show ?thesis by blast
qed

end
