(* ===== verification/Stack_Recovery.thy ===== *)
theory Stack_Recovery
  imports Stack_Deployment Stack_Delete
begin

text \<open>
  Settling what was left open, \<^verbatim>\<open>src/api/src/stacks/stack-recovery.service.ts\<close>: attempts and operations
  of a host whose outcome nobody established are compared with a complete reading of the host
  and recorded as what they turned out to be. Nothing is ever dispatched again.
\<close>

section \<open>Tables\<close>

definition RECOVERED_STATUS :: "StackApplyOutcome \<Rightarrow> string" where
  "RECOVERED_STATUS outcome = (case outcome of SA_finalize_target \<Rightarrow> ''succeeded''
     | SA_finalize_from \<Rightarrow> ''rolled_back'' | SA_finalize_not_applied \<Rightarrow> ''failed''
     | SA_needs_attention _ \<Rightarrow> ''needs_attention'' | SA_unknown _ \<Rightarrow> ''interrupted'')"

definition FAILURE_CODE :: "StackApplyOutcome \<Rightarrow> string option" where
  "FAILURE_CODE outcome = (case outcome of SA_finalize_target \<Rightarrow> None
     | SA_finalize_from \<Rightarrow> Some ''STACK_APPLY_FAILED'' | SA_finalize_not_applied \<Rightarrow> Some ''STACK_APPLY_FAILED''
     | SA_needs_attention _ \<Rightarrow> Some ''STACK_DEPLOYMENT_PARTIAL'' | SA_unknown _ \<Rightarrow> None)"

definition RECOVERED_AUDIT :: "StackApplyOutcome \<Rightarrow> string" where
  "RECOVERED_AUDIT outcome = (case outcome of SA_finalize_target \<Rightarrow> ''stack.deploy.succeeded''
     | SA_finalize_from \<Rightarrow> ''stack.apply.rolled_back'' | SA_finalize_not_applied \<Rightarrow> ''stack.deploy.failed''
     | SA_needs_attention _ \<Rightarrow> ''stack.deploy.needs_attention'' | SA_unknown _ \<Rightarrow> ''stack.deploy.interrupted'')"

definition OPERATION_STATUS :: "StackLifecycleOutcome \<Rightarrow> string" where
  "OPERATION_STATUS outcome = (case outcome of SL_applied \<Rightarrow> ''succeeded'' | SL_not_applied \<Rightarrow> ''failed''
     | SL_needs_attention _ \<Rightarrow> ''needs_attention'' | SL_unknown _ \<Rightarrow> ''interrupted'')"

definition OPERATION_FAILED :: "StackLifecycleKind \<Rightarrow> string" where
  "OPERATION_FAILED type = (case type of start \<Rightarrow> ''STACK_START_FAILED'' | stop \<Rightarrow> ''STACK_STOP_FAILED''
     | restart \<Rightarrow> ''STACK_RESTART_FAILED'')"

definition RUNTIME_STATUS :: "StackLifecycleKind \<Rightarrow> string" where
  "RUNTIME_STATUS type = (case type of start \<Rightarrow> ''running'' | stop \<Rightarrow> ''stopped'' | restart \<Rightarrow> ''running'')"

definition OPERATION_AUDIT :: "StackLifecycleKind \<Rightarrow> string" where
  "OPERATION_AUDIT type = (case type of start \<Rightarrow> ''stack.started'' | stop \<Rightarrow> ''stack.stopped''
     | restart \<Rightarrow> ''stack.restarted'')"

definition OPERATION_AUDIT_FAILED :: "StackLifecycleKind \<Rightarrow> string" where
  "OPERATION_AUDIT_FAILED type = (case type of start \<Rightarrow> ''stack.start.failed'' | stop \<Rightarrow> ''stack.stop.failed''
     | restart \<Rightarrow> ''stack.restart.failed'')"

text \<open>The type column of an operation that is not a deletion.\<close>

definition lifecycle_kind :: "string \<Rightarrow> StackLifecycleKind" where
  "lifecycle_kind type = (if type = ''start'' then start else if type = ''stop'' then stop else restart)"

section \<open>What is open\<close>

record Unfinished =
  un_id :: string
  un_stackId :: string
  un_revisionId :: string
  un_fromRevisionId :: "string option"
  un_actionId :: "string option"
  un_name :: string

record UnfinishedOperation =
  uo_id :: string
  uo_stackId :: string
  uo_revisionId :: string
  uo_type :: string
  uo_fingerprint :: "RuntimeFingerprint list option"
  uo_actionId :: "string option"
  uo_name :: string

definition unfinishedDeployments :: "string \<Rightarrow> Unfinished list handler" where
  "unfinishedDeployments hostId = read_db (\<lambda>db. List.map_filter (\<lambda>d.
     if d_hostId d = hostId \<and> d_status d \<in> set UNRESOLVED_DEPLOYMENT
     then map_option (\<lambda>s. \<lparr>un_id = d_id d, un_stackId = d_stackId d, un_revisionId = d_revisionId d,
         un_fromRevisionId = d_fromRevisionId d, un_actionId = d_actionId d, un_name = s_name s\<rparr>)
       (find (\<lambda>s. s_id s = d_stackId d) (stacks db))
     else None) (stackDeployments db))"

definition unfinishedOperations :: "string \<Rightarrow> UnfinishedOperation list handler" where
  "unfinishedOperations hostId = read_db (\<lambda>db. List.map_filter (\<lambda>d.
     if o_hostId d = hostId \<and> o_status d \<in> set UNRESOLVED_OPERATION
     then map_option (\<lambda>s. \<lparr>uo_id = o_id d, uo_stackId = o_stackId d, uo_revisionId = o_revisionId d,
         uo_type = o_type d, uo_fingerprint = o_fingerprint d, uo_actionId = o_actionId d, uo_name = s_name s\<rparr>)
       (find (\<lambda>s. s_id s = o_stackId d) (stacks db))
     else None) (stackOperations db))"

definition services_of_revision :: "string \<Rightarrow> string list handler" where
  "services_of_revision revisionId = bindE (summary_of revisionId) (\<lambda>summary. retE (services_of summary))"

definition readCompletely :: "env \<Rightarrow> string \<Rightarrow> bool handler" where
  "readCompletely = resync"

definition audit_system :: "env \<Rightarrow> string \<Rightarrow> string \<Rightarrow> string \<Rightarrow> string \<Rightarrow> string \<Rightarrow> unit handler" where
  "audit_system E stackId stackName action result reason = audit_record E
     \<lparr>ar_action = action, ar_result = result, ar_actorUserId = None, ar_actorLabel = ''system'',
      ar_targetType = Some ''stack'', ar_targetId = Some stackId, ar_targetLabel = Some stackName,
      ar_reasonCode = Some reason, ar_sourceIp = None, ar_userAgent = None\<rparr>"

section \<open>Settling one attempt\<close>

definition recover_deployment :: "env \<Rightarrow> Unfinished \<Rightarrow> bool handler" where
  "recover_deployment E deployment =
    bindE (stackContainers (un_stackId deployment)) (\<lambda>rows.
    let observed = map observed_service rows in
    bindE (services_of_revision (un_revisionId deployment)) (\<lambda>targetServices.
    bindE (if truthy (un_fromRevisionId deployment)
      then bindE (services_of_revision (the (un_fromRevisionId deployment))) (\<lambda>s. retE (Some s))
      else retE None) (\<lambda>fromServices.
    let outcome = classifyStackApply
          \<lparr>sa_fromRevisionId = un_fromRevisionId deployment, sa_targetRevisionId = un_revisionId deployment,
           sa_targetServices = targetServices, sa_fromServices = fromServices,
           sa_observed = observed, sa_snapshotComplete = True\<rparr>;
        applied = (outcome = SA_finalize_target);
        attention = (case outcome of SA_needs_attention _ \<Rightarrow> True | _ \<Rightarrow> False) in
    if apply_unknown outcome then retE False
    else bindE now (\<lambda>t.
    bindE (transaction (
      bindE (update_deployment (un_id deployment) (\<lambda>d. d\<lparr>d_status := RECOVERED_STATUS outcome,
        d_detail := Some (detail_of observed), d_resolvedAt := Some t,
        d_failureCode := (if applied then d_failureCode d else FAILURE_CODE outcome)\<rparr>)) (\<lambda>_.
      bindE (if applied
        then update_stack (un_stackId deployment) (\<lambda>s. s\<lparr>s_currentRevisionId := Some (un_revisionId deployment),
          s_desiredRevisionId := None, s_status := ''running'', s_lastDeployedAt := Some t\<rparr>)
        else update_stack (un_stackId deployment) (\<lambda>s. s\<lparr>
          s_status := (if attention then ''needs_attention''
            else if truthy (un_fromRevisionId deployment) then ''running'' else ''not_deployed''),
          s_desiredRevisionId := None\<rparr>)) (\<lambda>_.
      bindE (if attention then retE () else delete_containers (unclaimed (un_stackId deployment))) (\<lambda>_.
      finish_action (un_actionId deployment) (if applied then ''succeeded'' else ''failed'') t
        (if applied then None else Some (FAILURE_CODE outcome))))))) (\<lambda>_.
    bindE (audit_system E (un_stackId deployment) (un_name deployment) (RECOVERED_AUDIT outcome)
      (if applied then ''success'' else ''failure'') (un_id deployment)) (\<lambda>_.
    retE True))))))"

definition recover_operation :: "env \<Rightarrow> UnfinishedOperation \<Rightarrow> bool handler" where
  "recover_operation E operation =
    (let type = lifecycle_kind (uo_type operation) in
    bindE (observedRuntime E (uo_stackId operation) (type = restart)) (\<lambda>observed.
    bindE (services_of_revision (uo_revisionId operation)) (\<lambda>expected.
    let outcome = classifyStackLifecycle (e_legacy_date E)
          \<lparr>sl_operation = type, sl_revisionId = uo_revisionId operation, sl_expectedServices = expected,
           sl_observed = observed, sl_fingerprint = uo_fingerprint operation, sl_snapshotComplete = True\<rparr>;
        applied = (outcome = SL_applied);
        attention = (case outcome of SL_needs_attention _ \<Rightarrow> True | _ \<Rightarrow> False);
        code = (if attention then ''STACK_LIFECYCLE_PARTIAL'' else OPERATION_FAILED type) in
    if lifecycle_unknown outcome then retE False
    else bindE now (\<lambda>t.
    bindE (transaction (
      bindE (update_operation (uo_id operation) (\<lambda>d. d\<lparr>o_status := OPERATION_STATUS outcome,
        o_detail := Some (runtime_detail observed), o_resolvedAt := Some t,
        o_failureCode := (if applied then o_failureCode d else Some code)\<rparr>)) (\<lambda>_.
      bindE (whenE (applied \<or> attention) (update_stack (uo_stackId operation) (\<lambda>s. s\<lparr>
        s_status := (if attention then ''needs_attention'' else RUNTIME_STATUS type)\<rparr>))) (\<lambda>_.
      finish_action (uo_actionId operation) (if applied then ''succeeded'' else ''failed'') t
        (if applied then None else Some (Some code)))))) (\<lambda>_.
    bindE (audit_system E (uo_stackId operation) (uo_name operation)
      (if applied then OPERATION_AUDIT type else if attention then ''stack.operation.needs_attention''
       else OPERATION_AUDIT_FAILED type) (if applied then ''success'' else ''failure'') (uo_id operation)) (\<lambda>_.
    retE True))))))"

definition recover_deletion :: "env \<Rightarrow> UnfinishedOperation \<Rightarrow> bool handler" where
  "recover_deletion E operation =
    bindE (observedClaims (uo_stackId operation)) (\<lambda>observed.
    bindE (services_of_revision (uo_revisionId operation)) (\<lambda>expected.
    let outcome = classifyStackDelete \<lparr>sd_expectedServices = expected, sd_observed = observed,
          sd_snapshotComplete = True\<rparr>;
        deleted = (outcome = SD_finalize_deleted);
        attention = (case outcome of SD_needs_attention _ \<Rightarrow> True | _ \<Rightarrow> False);
        code = (if attention then ''STACK_DELETE_PARTIAL'' else ''STACK_DELETE_FAILED'') in
    if delete_unknown outcome then retE False
    else bindE now (\<lambda>t.
    bindE (transaction (
      bindE (finish_action (uo_actionId operation) (if deleted then ''succeeded'' else ''failed'') t
        (if deleted then None else Some (Some code))) (\<lambda>_.
      if deleted
      then bindE (delete_containers (\<lambda>c. c_stackId c = Some (uo_stackId operation))) (\<lambda>_.
        delete_stack (uo_stackId operation))
      else bindE (update_operation (uo_id operation) (\<lambda>d. d\<lparr>
          o_status := (if attention then ''needs_attention'' else ''failed''),
          o_failureCode := Some code, o_resolvedAt := Some t\<rparr>)) (\<lambda>_.
        whenE attention (update_stack (uo_stackId operation) (\<lambda>s. s\<lparr>s_status := ''needs_attention''\<rparr>)))))) (\<lambda>_.
    bindE (audit_system E (uo_stackId operation) (uo_name operation)
      (if deleted then ''stack.deleted'' else if attention then ''stack.delete.needs_attention''
       else ''stack.delete.failed'') (if deleted then ''success'' else ''failure'') (uo_id operation)) (\<lambda>_.
    retE True)))))"

section \<open>The pass\<close>

definition stack_busy :: "string \<Rightarrow> bool handler" where
  "stack_busy stackId = getE (\<lambda>w. isBusy (stackKey stackId) (w_held w))"

fun recover_deployments :: "env \<Rightarrow> Unfinished list \<Rightarrow> nat \<Rightarrow> nat handler" where
  "recover_deployments E [] recovered = retE recovered"
| "recover_deployments E (d # ds) recovered =
    bindE (stack_busy (un_stackId d)) (\<lambda>busy.
    if busy then recover_deployments E ds recovered
    else bindE (recover_deployment E d) (\<lambda>settled.
      recover_deployments E ds (if settled then recovered + 1 else recovered)))"

fun recover_operations :: "env \<Rightarrow> UnfinishedOperation list \<Rightarrow> nat \<Rightarrow> nat handler" where
  "recover_operations E [] recovered = retE recovered"
| "recover_operations E (d # ds) recovered =
    bindE (stack_busy (uo_stackId d)) (\<lambda>busy.
    if busy then recover_operations E ds recovered
    else bindE (if uo_type d = ''delete'' then recover_deletion E d else recover_operation E d) (\<lambda>settled.
      recover_operations E ds (if settled then recovered + 1 else recovered)))"

definition recoverHost :: "env \<Rightarrow> string \<Rightarrow> nat handler" where
  "recoverHost E hostId =
    bindE (unfinishedDeployments hostId) (\<lambda>deployments.
    bindE (unfinishedOperations hostId) (\<lambda>operations.
    if deployments = [] \<and> operations = [] then retE 0
    else bindE (readCompletely E hostId) (\<lambda>complete.
    if \<not> complete then retE 0
    else bindE (recover_deployments E deployments 0) (\<lambda>recovered.
      recover_operations E operations recovered))))"

section \<open>A pass asks for no change\<close>

lemma calm_outside: "outside_discovery w' = outside_discovery w \<Longrightarrow> calm w' = calm w"
  by (simp add: outside_discovery_def calm_def)

lemma calm_steps:
  "stable (keeps calm) (services_of_revision revisionId)"
  "stable (keeps calm) (observedRuntime E stackId b)"
  "stable (keeps calm) (observedClaims stackId)"
  "stable (keeps calm) (audit_system E sid name action result reason)"
  "stable (keeps calm) (readCompletely E hostId)"
proof -
  show "stable (keeps calm) (services_of_revision revisionId)"
    unfolding services_of_revision_def summary_of_def by (intro frame.stable_rules stable_read_db)
  show "stable (keeps calm) (observedRuntime E stackId b)"
    by (rule stable_mono [OF observedRuntime_outside]) (unfold keeps_def, erule calm_outside)
  show "stable (keeps calm) (observedClaims stackId)"
    unfolding observedClaims_def by (intro frame.stable_rules stable_stackContainers)
  show "stable (keeps calm) (audit_system E sid name action result reason)"
    unfolding audit_system_def by (intro calm_rules)
  show "stable (keeps calm) (readCompletely E hostId)"
    unfolding readCompletely_def by (rule stable_mono [OF stable_resync]) (unfold keeps_def, erule calm_outside)
qed

lemma recover_deployment_calm: "stable (keeps calm) (recover_deployment E d)"
  unfolding recover_deployment_def
  by (intro calm_rules calm_steps stable_stackContainers)

lemma recover_operation_calm: "stable (keeps calm) (recover_operation E d)"
  unfolding recover_operation_def
  by (intro calm_rules calm_steps)

lemma recover_deletion_calm: "stable (keeps calm) (recover_deletion E d)"
  unfolding recover_deletion_def
  by (intro calm_rules calm_steps)

lemma recover_deployments_calm: "stable (keeps calm) (recover_deployments E ds n)"
  by (induction ds arbitrary: n) (auto simp: stack_busy_def intro!: frame.stable_rules recover_deployment_calm)

lemma recover_operations_calm: "stable (keeps calm) (recover_operations E ds n)"
  by (induction ds arbitrary: n)
    (auto simp: stack_busy_def intro!: frame.stable_rules recover_operation_calm recover_deletion_calm)

lemma recoverHost_calm: "stable (keeps calm) (recoverHost E hostId)"
  unfolding recoverHost_def unfinishedDeployments_def unfinishedOperations_def
  by (intro frame.stable_rules stable_read_db calm_steps recover_deployments_calm recover_operations_calm)

section \<open>Settling one attempt\<close>

definition services_at :: "string \<Rightarrow> database \<Rightarrow> string list" where
  "services_at revisionId db = services_of (Option.bind (find (\<lambda>r. r_id r = revisionId) (stackRevisions db)) r_summary)"

lemma run_services_of_revision [run]:
  "bindE (services_of_revision revisionId) f w = f (services_at revisionId (w_db w)) w"
  by (simp add: services_of_revision_def summary_of_def services_at_def run)

text \<open>What an open attempt is compared with.\<close>

definition attempt_reading :: "Unfinished \<Rightarrow> database \<Rightarrow> StackApplyInput" where
  "attempt_reading d db =
     \<lparr>sa_fromRevisionId = un_fromRevisionId d, sa_targetRevisionId = un_revisionId d,
      sa_targetServices = services_at (un_revisionId d) db,
      sa_fromServices = (if truthy (un_fromRevisionId d) then Some (services_at (the (un_fromRevisionId d)) db) else None),
      sa_observed = map observed_service (filter (\<lambda>c. c_stackId c = Some (un_stackId d)) (containers db)),
      sa_snapshotComplete = True\<rparr>"

lemma complete_apply_decides:
  "sa_snapshotComplete input \<Longrightarrow> apply_verdict (classifyStackApply input) \<noteq> Undecided"
  "sa_snapshotComplete input \<Longrightarrow> \<not> apply_unknown (classifyStackApply input)"
  using apply_kind_table [of input]
  by (auto simp: apply_verdict_def apply_unknown_def split: StackApplyOutcome.splits if_splits)

lemma finalize_from_had: "classifyStackApply input = SA_finalize_from \<Longrightarrow> sa_fromRevisionId input \<noteq> None"
  unfolding finalize_from_kind apply_kind_table by (auto split: if_splits)

lemma finalize_not_applied_had: "classifyStackApply input = SA_finalize_not_applied \<Longrightarrow> sa_fromRevisionId input = None"
  using apply_kind_table [of input] by (auto split: if_splits)

lemma recovered_status:
  assumes "classifyStackApply (attempt_reading d db) = outcome" and "un_fromRevisionId d \<noteq> Some []"
  shows "RECOVERED_STATUS outcome = attempt_status (un_fromRevisionId d) (apply_verdict outcome)"
    and "apply_verdict outcome = NotApplied \<Longrightarrow> (case outcome of SA_needs_attention _ \<Rightarrow> True | _ \<Rightarrow> False) = False"
  using finalize_from_had [of "attempt_reading d db"] finalize_not_applied_had [of "attempt_reading d db"] assms
  by (auto simp: RECOVERED_STATUS_def attempt_status_def apply_verdict_def attempt_reading_def truthy_iff
      split: StackApplyOutcome.splits option.splits)

lemma recover_deployment_run:
  assumes "classifyStackApply (attempt_reading d (w_db w)) = outcome"
  shows "fst (recover_deployment E d w) = Inr True"
    and "stacks (w_db (snd (recover_deployment E d w))) = upd (\<lambda>s. s_id s = un_stackId d)
      (stack_after (un_revisionId d) (un_fromRevisionId d) (w_clock w) (apply_verdict outcome)) (stacks (w_db w))"
    and "stackDeployments (w_db (snd (recover_deployment E d w))) = upd (\<lambda>r. d_id r = un_id d) (\<lambda>r. r\<lparr>
      d_status := RECOVERED_STATUS outcome, d_detail := Some (detail_of (sa_observed (attempt_reading d (w_db w)))),
      d_resolvedAt := Some (w_clock w),
      d_failureCode := (if outcome = SA_finalize_target then d_failureCode r else FAILURE_CODE outcome)\<rparr>)
      (stackDeployments (w_db w))"
    and "stackOperations (w_db (snd (recover_deployment E d w))) = stackOperations (w_db w)"
proof -
  have decided: "\<not> apply_unknown outcome"
    using complete_apply_decides(2) [of "attempt_reading d (w_db w)"] assms by (simp add: attempt_reading_def)
  show "fst (recover_deployment E d w) = Inr True"
    "stacks (w_db (snd (recover_deployment E d w))) = upd (\<lambda>s. s_id s = un_stackId d)
      (stack_after (un_revisionId d) (un_fromRevisionId d) (w_clock w) (apply_verdict outcome)) (stacks (w_db w))"
    "stackDeployments (w_db (snd (recover_deployment E d w))) = upd (\<lambda>r. d_id r = un_id d) (\<lambda>r. r\<lparr>
      d_status := RECOVERED_STATUS outcome, d_detail := Some (detail_of (sa_observed (attempt_reading d (w_db w)))),
      d_resolvedAt := Some (w_clock w),
      d_failureCode := (if outcome = SA_finalize_target then d_failureCode r else FAILURE_CODE outcome)\<rparr>)
      (stackDeployments (w_db w))"
    "stackOperations (w_db (snd (recover_deployment E d w))) = stackOperations (w_db w)"
    using assms decided
    by (cases outcome; cases "truthy (un_fromRevisionId d)";
        simp add: recover_deployment_def attempt_reading_def run audit_system_def apply_verdict_def
          apply_unknown_def stack_after_def [abs_def] Let_def)+
qed

lemma recover_deployment_refines:
  assumes "un_fromRevisionId d \<noteq> Some []"
  shows "settles_attempt (un_id d) (un_stackId d) (un_revisionId d) (un_fromRevisionId d) (w_clock w)
      (apply_verdict (classifyStackApply (attempt_reading d (w_db w)))) (w_db w) (w_db (snd (recover_deployment E d w)))"
  unfolding settles_attempt_def
  using recover_deployment_run [OF refl, of E d w] recovered_status(1) [OF refl assms, of "w_db w"] by auto

text \<open>Whatever the verdict, the attempt is not open any more and its stack is not shown as deploying.\<close>

definition closes_attempt :: "string \<Rightarrow> string \<Rightarrow> database \<Rightarrow> database \<Rightarrow> bool" where
  "closes_attempt did sid db db' \<longleftrightarrow>
     (\<exists>f. stacks db' = upd (\<lambda>s. s_id s = sid) f (stacks db) \<and> (\<forall>s. s_id (f s) = s_id s \<and> s_status (f s) \<noteq> ''deploying'')) \<and>
     (\<exists>g. stackDeployments db' = upd (\<lambda>d. d_id d = did) g (stackDeployments db) \<and>
        (\<forall>d. \<not> unresolved (d_status (g d)) \<and> d_id (g d) = d_id d \<and> d_stackId (g d) = d_stackId d
           \<and> d_hostId (g d) = d_hostId d)) \<and>
     stackOperations db' = stackOperations db"

lemma recover_deployment_closes:
  "closes_attempt (un_id d) (un_stackId d) (w_db w) (w_db (snd (recover_deployment E d w)))"
proof -
  define outcome where "outcome = classifyStackApply (attempt_reading d (w_db w))"
  note run = recover_deployment_run [OF outcome_def [symmetric], of E]
  have decided: "apply_verdict outcome \<noteq> Undecided"
    unfolding outcome_def by (rule complete_apply_decides) (simp add: attempt_reading_def)
  then have "\<not> unresolved (RECOVERED_STATUS outcome)"
    by (auto simp: RECOVERED_STATUS_def unresolved_def apply_verdict_def split: StackApplyOutcome.splits)
  moreover have "s_status (stack_after target f t (apply_verdict outcome) s) \<noteq> ''deploying''" for target f t s
    using decided by (auto simp: stack_after_def split: verdict.splits)
  ultimately show ?thesis unfolding closes_attempt_def run(2-4) by auto
qed

definition operation_reading :: "UnfinishedOperation \<Rightarrow> ObservedRuntime list \<Rightarrow> database \<Rightarrow> StackLifecycleInput" where
  "operation_reading d observed db =
     \<lparr>sl_operation = lifecycle_kind (uo_type d), sl_revisionId = uo_revisionId d,
      sl_expectedServices = services_at (uo_revisionId d) db, sl_observed = observed,
      sl_fingerprint = uo_fingerprint d, sl_snapshotComplete = True\<rparr>"

lemma recover_operation_refines:
  obtains (settled) observed v outcome where
      "observedRuntime E (uo_stackId d) (lifecycle_kind (uo_type d) = restart) w = (Inr observed, v)"
      "outcome = classifyStackLifecycle (e_legacy_date E) (operation_reading d observed (w_db v))"
      "fst (recover_operation E d w) = Inr True" "lifecycle_verdict outcome \<noteq> Undecided"
      "settles_operation (uo_id d) (uo_stackId d) (RUNTIME_STATUS (lifecycle_kind (uo_type d)))
         (lifecycle_verdict outcome) (w_db w) (w_db (snd (recover_operation E d w)))"
    | (undecided) observed v where
      "observedRuntime E (uo_stackId d) (lifecycle_kind (uo_type d) = restart) w = (Inr observed, v)"
      "lifecycle_unknown (classifyStackLifecycle (e_legacy_date E) (operation_reading d observed (w_db v)))"
      "recover_operation E d w = (Inr False, v)" "outside_discovery v = outside_discovery w"
proof -
  let ?kind = "lifecycle_kind (uo_type d)"
  obtain observed v where seen: "observedRuntime E (uo_stackId d) (?kind = restart) w = (Inr observed, v)"
    using observedRuntime_total by blast
  note same = keepsD [OF observedRuntime_outside seen]
  obtain outcome where outcome: "classifyStackLifecycle (e_legacy_date E) (operation_reading d observed (w_db v)) = outcome"
    by blast
  let ?code = "case outcome of SL_needs_attention _ \<Rightarrow> ''STACK_LIFECYCLE_PARTIAL'' | _ \<Rightarrow> OPERATION_FAILED ?kind"
  let ?g = "\<lambda>r. r\<lparr>o_status := OPERATION_STATUS outcome, o_detail := Some (runtime_detail observed),
      o_resolvedAt := Some (w_clock v), o_failureCode := (if outcome = SL_applied then o_failureCode r else Some ?code)\<rparr>"
  show ?thesis
  proof (cases "lifecycle_unknown outcome")
    case True
    with seen outcome have "recover_operation E d w = (Inr False, v)"
      by (simp add: recover_operation_def Let_def bindE_def [of "observedRuntime _ _ _"] operation_reading_def run)
    with True outcome same show ?thesis by (intro undecided [OF seen]) simp_all
  next
    case False
    have run: "fst (recover_operation E d w) = Inr True
      \<and> stacks (w_db (snd (recover_operation E d w))) = upd (\<lambda>s. s_id s = uo_stackId d)
          (stack_after_operation (RUNTIME_STATUS ?kind) (lifecycle_verdict outcome)) (stacks (w_db v))
      \<and> stackOperations (w_db (snd (recover_operation E d w))) = upd (\<lambda>r. o_id r = uo_id d) ?g (stackOperations (w_db v))
      \<and> stackDeployments (w_db (snd (recover_operation E d w))) = stackDeployments (w_db v)"
      using seen outcome False
      by (cases outcome)
        (simp_all add: recover_operation_def Let_def bindE_def [of "observedRuntime _ _ _"] operation_reading_def run
          audit_system_def lifecycle_verdict_def lifecycle_unknown_def stack_after_operation_def [abs_def] whenE_def)
    have "OPERATION_STATUS outcome = operation_status (lifecycle_verdict outcome)"
      by (simp add: OPERATION_STATUS_def operation_status_def lifecycle_verdict_def split: StackLifecycleOutcome.split)
    with run same have "settles_operation (uo_id d) (uo_stackId d) (RUNTIME_STATUS ?kind) (lifecycle_verdict outcome)
        (w_db w) (w_db (snd (recover_operation E d w)))"
      unfolding settles_operation_def by (auto simp: outside_discovery_def)
    moreover have "lifecycle_verdict outcome \<noteq> Undecided"
      using False by (cases outcome) (simp_all add: lifecycle_unknown_def lifecycle_verdict_def)
    ultimately show ?thesis using run by (intro settled [OF seen outcome [symmetric]]) simp_all
  qed
qed

lemma complete_lifecycle_decides:
  "sl_snapshotComplete input \<Longrightarrow> sl_operation input \<noteq> restart \<Longrightarrow>
   \<not> lifecycle_unknown (classifyStackLifecycle legacy input)"
  by (cases "sl_operation input")
    (simp_all add: classifyStackLifecycle_def lifecycle_unknown_def Let_def split: option.split list.split)

text \<open>An open deletion is always decided by a complete reading.\<close>

lemma recover_deletion_refines:
  shows "fst (recover_deletion E d w) = Inr True"
    and "(purged (uo_stackId d) (containers (w_db w)) (w_db w) (w_db (snd (recover_deletion E d w)))) \<or>
      (\<exists>v. v \<noteq> Applied \<and> v \<noteq> Undecided \<and> settles_operation (uo_id d) (uo_stackId d) [] v (w_db w) (w_db (snd (recover_deletion E d w))))"
proof -
  let ?claims = "map (\<lambda>row. \<lparr>oc_serviceName = or_default (c_stackService row) [], oc_containerId = c_id row,
      oc_dockerId = c_dockerId row\<rparr>) (filter (\<lambda>c. c_stackId c = Some (uo_stackId d)) (containers (w_db w)))"
  let ?in = "\<lparr>sd_expectedServices = services_at (uo_revisionId d) (w_db w), sd_observed = ?claims, sd_snapshotComplete = True\<rparr>"
  have "fst (recover_deletion E d w) = Inr True \<and>
    (purged (uo_stackId d) (containers (w_db w)) (w_db w) (w_db (snd (recover_deletion E d w))) \<or>
      (\<exists>v. v \<noteq> Applied \<and> v \<noteq> Undecided \<and> settles_operation (uo_id d) (uo_stackId d) [] v (w_db w) (w_db (snd (recover_deletion E d w)))))"
  proof (cases "classifyStackDelete ?in")
    case SD_finalize_deleted
    then have clear: "\<forall>c \<in> set (containers (w_db w)). c_stackId c = Some (uo_stackId d) \<longrightarrow> c_dockerId c = None"
      using classifyStackDelete_gone [of ?in] by (auto simp: filter_empty_conv)
    from SD_finalize_deleted clear show ?thesis
      by (simp add: recover_deletion_def observedClaims_def run Let_def delete_unknown_def audit_system_def purged_def
          cascade_stack_def upd_del)
  next
    case SD_finalize_not_applied
    let ?g = "\<lambda>r. r\<lparr>o_status := ''failed'', o_failureCode := Some ''STACK_DELETE_FAILED'', o_resolvedAt := Some (w_clock w)\<rparr>"
    have "fst (recover_deletion E d w) = Inr True \<and>
        settles_operation (uo_id d) (uo_stackId d) [] NotApplied (w_db w) (w_db (snd (recover_deletion E d w)))"
      using SD_finalize_not_applied
      by (auto simp: recover_deletion_def observedClaims_def run Let_def delete_unknown_def audit_system_def whenE_def
          settles_operation_def stack_after_operation_def [abs_def] operation_status_def intro!: exI [of _ ?g])
    then show ?thesis by blast
  next
    case (SD_needs_attention reason)
    let ?g = "\<lambda>r. r\<lparr>o_status := ''needs_attention'', o_failureCode := Some ''STACK_DELETE_PARTIAL'', o_resolvedAt := Some (w_clock w)\<rparr>"
    have "fst (recover_deletion E d w) = Inr True \<and>
        settles_operation (uo_id d) (uo_stackId d) [] Attention (w_db w) (w_db (snd (recover_deletion E d w)))"
      using SD_needs_attention
      by (auto simp: recover_deletion_def observedClaims_def run Let_def delete_unknown_def audit_system_def whenE_def
          settles_operation_def stack_after_operation_def [abs_def] operation_status_def intro!: exI [of _ ?g])
    then show ?thesis by blast
  next
    case (SD_unknown reason)
    then show ?thesis using delete_reading.conclusive_complete [of ?in]
      by (simp add: classifyStackDelete_def Let_def split: if_splits option.splits)
  qed
  then show "fst (recover_deletion E d w) = Inr True"
    "(purged (uo_stackId d) (containers (w_db w)) (w_db w) (w_db (snd (recover_deletion E d w)))) \<or>
      (\<exists>v. v \<noteq> Applied \<and> v \<noteq> Undecided \<and> settles_operation (uo_id d) (uo_stackId d) [] v (w_db w) (w_db (snd (recover_deletion E d w))))"
    by blast+
qed

text \<open>The live path implements the same relation.\<close>

lemma settle_settles:
  "settles_attempt (da_deploymentId attempt) (da_stackId attempt) (da_revisionId attempt) (da_fromRevisionId attempt)
     (w_clock w) (apply_verdict outcome) (w_db w) (w_db (snd (settle E attempt observed outcome failure w)))"
proof -
  note settled = settle_refines(1) [of E attempt observed outcome failure w]
  let ?g = "settled_row attempt observed (apply_verdict outcome) failure (w_clock w)"
  have "\<forall>d. d_status (?g d) = attempt_status (da_fromRevisionId attempt) (apply_verdict outcome) \<and> d_id (?g d) = d_id d
      \<and> d_stackId (?g d) = d_stackId d \<and> d_revisionId (?g d) = d_revisionId d \<and> d_hostId (?g d) = d_hostId d"
    by (simp add: settled_row_def attempt_status_def split: verdict.split)
  with settled show ?thesis unfolding settles_attempt_def stack_tables_def settled_db_def by auto
qed

lemma settles_attempt_statuses:
  assumes "settles_attempt did sid target f t v db db'"
  shows "map (\<lambda>d. (d_id d, d_status d)) (stackDeployments db')
    = map (\<lambda>d. (d_id d, if d_id d = did then attempt_status f v else d_status d)) (stackDeployments db)"
proof -
  obtain g where rows: "stackDeployments db' = upd (\<lambda>d. d_id d = did) g (stackDeployments db)"
    and g: "\<And>d. d_status (g d) = attempt_status f v \<and> d_id (g d) = d_id d"
    using assms unfolding settles_attempt_def by blast
  show ?thesis unfolding rows using g by (induction "stackDeployments db") (auto simp: upd_def)
qed

section \<open>The whole pass\<close>

text \<open>The attempts, and the operations of the kinds a complete reading always decides, that are still open.\<close>

definition open_attempts :: "database \<Rightarrow> (string \<times> string) set" where
  "open_attempts db = {(d_id d, d_hostId d) | d. d \<in> set (stackDeployments db) \<and> unresolved (d_status d)}"

definition open_operations :: "database \<Rightarrow> (string \<times> string) set" where
  "open_operations db = {(o_id d, o_hostId d) | d. d \<in> set (stackOperations db) \<and> unresolved (o_status d)
     \<and> o_type d \<in> {''start'', ''stop'', ''delete''}}"

lemma closes_attempt_open:
  assumes "closes_attempt did sid db db'"
  shows "open_attempts db' \<subseteq> {p \<in> open_attempts db. fst p \<noteq> did}"
proof -
  obtain g where rows: "stackDeployments db' = upd (\<lambda>d. d_id d = did) g (stackDeployments db)"
    and g: "\<And>d. \<not> unresolved (d_status (g d)) \<and> d_id (g d) = d_id d \<and> d_hostId (g d) = d_hostId d"
    using assms unfolding closes_attempt_def by blast
  show ?thesis unfolding open_attempts_def rows using g by (auto simp: in_upd_iff)
qed

lemma settles_operation_open:
  assumes "settles_operation oid sid moved v db db'"
  shows "open_attempts db' = open_attempts db" "open_operations db' \<subseteq> open_operations db \<or> v = Undecided"
    "v \<noteq> Undecided \<Longrightarrow> open_operations db' \<subseteq> {p \<in> open_operations db. fst p \<noteq> oid}"
proof -
  obtain g where rows: "stackOperations db' = upd (\<lambda>d. o_id d = oid) g (stackOperations db)"
    and g: "\<And>d. o_status (g d) = operation_status v \<and> o_id (g d) = o_id d \<and> o_hostId (g d) = o_hostId d \<and> o_type (g d) = o_type d"
    using assms unfolding settles_operation_def by blast
  show "open_attempts db' = open_attempts db"
    using assms by (simp add: settles_operation_def open_attempts_def)
  show settled: "v \<noteq> Undecided \<Longrightarrow> open_operations db' \<subseteq> {p \<in> open_operations db. fst p \<noteq> oid}"
    unfolding open_operations_def rows using g unresolved_verdicts(2) [of v] by (auto simp: in_upd_iff) (metis g)+
  then show "open_operations db' \<subseteq> open_operations db \<or> v = Undecided" by blast
qed

text \<open>The rows with the identifier of an operation are rows of its stack.\<close>

definition owned :: "UnfinishedOperation \<Rightarrow> database \<Rightarrow> bool" where
  "owned d db \<longleftrightarrow> (\<forall>r \<in> set (stackOperations db). o_id r = uo_id d \<longrightarrow> o_stackId r = uo_stackId d)"

lemma settles_operation_owned:
  assumes "settles_operation oid sid moved v db db'" and "owned d db"
  shows "owned d db'"
proof -
  obtain g where "stackOperations db' = upd (\<lambda>d. o_id d = oid) g (stackOperations db)"
    and "\<And>d. o_id (g d) = o_id d \<and> o_stackId (g d) = o_stackId d"
    using assms(1) unfolding settles_operation_def by blast
  with assms(2) show ?thesis by (auto simp: owned_def in_upd_iff split: if_splits)
qed

lemma purged_open:
  assumes "purged (uo_stackId d) rows db db'" and "owned d db"
  shows "open_attempts db' \<subseteq> open_attempts db"
    and "open_operations db' \<subseteq> {p \<in> open_operations db. fst p \<noteq> uo_id d}"
    and "owned e db \<Longrightarrow> owned e db'"
  using assms by (auto simp: purged_def open_attempts_def open_operations_def owned_def in_del_iff)

definition always_decided :: "UnfinishedOperation \<Rightarrow> bool" where
  "always_decided d \<longleftrightarrow> uo_type d \<in> {''start'', ''stop'', ''delete''}"

lemma recover_one:
  fixes E d w
  defines "step \<equiv> (if uo_type d = ''delete'' then recover_deletion E d else recover_operation E d) w"
  assumes "owned d (w_db w)"
  shows "\<not> isl (fst step)"
    and "open_attempts (w_db (snd step)) \<subseteq> open_attempts (w_db w)"
    and "open_operations (w_db (snd step)) \<subseteq> open_operations (w_db w)"
    and "always_decided d \<Longrightarrow> p \<in> open_operations (w_db (snd step)) \<Longrightarrow> fst p \<noteq> uo_id d"
    and "owned e (w_db w) \<Longrightarrow> owned e (w_db (snd step))"
proof -
  have "\<not> isl (fst step) \<and> open_attempts (w_db (snd step)) \<subseteq> open_attempts (w_db w)
    \<and> open_operations (w_db (snd step)) \<subseteq> open_operations (w_db w)
    \<and> (always_decided d \<longrightarrow> (\<forall>p \<in> open_operations (w_db (snd step)). fst p \<noteq> uo_id d))
    \<and> (\<forall>e. owned e (w_db w) \<longrightarrow> owned e (w_db (snd step)))"
  proof (cases "uo_type d = ''delete''")
    case True
    then have step: "step = recover_deletion E d w" by (simp add: step_def)
    from recover_deletion_refines(2) [of d w E] show ?thesis
    proof
      assume "purged (uo_stackId d) (containers (w_db w)) (w_db w) (w_db (snd (recover_deletion E d w)))"
      from purged_open [OF this assms(2)] show ?thesis
        unfolding step using recover_deletion_refines(1) [of E d w] by auto
    next
      assume "\<exists>v. v \<noteq> Applied \<and> v \<noteq> Undecided \<and>
        settles_operation (uo_id d) (uo_stackId d) [] v (w_db w) (w_db (snd (recover_deletion E d w)))"
      then obtain v where "v \<noteq> Undecided" and
        settles: "settles_operation (uo_id d) (uo_stackId d) [] v (w_db w) (w_db (snd (recover_deletion E d w)))" by blast
      with settles_operation_open [OF settles] settles_operation_owned [OF settles] show ?thesis
        unfolding step using recover_deletion_refines(1) [of E d w] by auto
    qed
  next
    case False
    then have step: "step = recover_operation E d w" by (simp add: step_def)
    show ?thesis
    proof (cases rule: recover_operation_refines [of E d w, case_names settled undecided])
      case (settled observed v outcome)
      with settles_operation_open [OF settled(5)] settles_operation_owned [OF settled(5)] show ?thesis
        unfolding step by auto
    next
      case (undecided observed v)
      have "\<not> always_decided d"
        using complete_lifecycle_decides [of "operation_reading d observed (w_db v)"] undecided(2) False
        by (auto simp: operation_reading_def always_decided_def lifecycle_kind_def split: if_splits)
      with undecided(3,4) show ?thesis
        unfolding step by (auto simp: outside_discovery_def open_attempts_def open_operations_def owned_def)
    qed
  qed
  then show "\<not> isl (fst step)" "open_attempts (w_db (snd step)) \<subseteq> open_attempts (w_db w)"
    "open_operations (w_db (snd step)) \<subseteq> open_operations (w_db w)"
    "always_decided d \<Longrightarrow> p \<in> open_operations (w_db (snd step)) \<Longrightarrow> fst p \<noteq> uo_id d"
    "owned e (w_db w) \<Longrightarrow> owned e (w_db (snd step))"
    by blast+
qed

text \<open>No operation of any stack is running in this process.\<close>

definition idle :: "world \<Rightarrow> bool" where
  "idle w \<longleftrightarrow> (\<forall>sid. \<not> isBusy (stackKey sid) (w_held w))"

lemma recover_operations_resolve:
  assumes "idle w" and "\<forall>d \<in> set ds. owned d (w_db w)"
  shows "\<exists>m w'. recover_operations E ds n w = (Inr m, w')
    \<and> open_attempts (w_db w') \<subseteq> open_attempts (w_db w)
    \<and> open_operations (w_db w') \<subseteq> {p \<in> open_operations (w_db w). fst p \<notin> uo_id ` {d \<in> set ds. always_decided d}}"
  using assms
proof (induction ds arbitrary: w n)
  case Nil
  then show ?case by (simp add: retE_def)
next
  case (Cons d ds)
  let ?step = "if uo_type d = ''delete'' then recover_deletion E d else recover_operation E d"
  have owned: "owned d (w_db w)" using Cons.prems by simp
  note one = recover_one [OF this]
  obtain settled u where step: "?step w = (Inr settled, u)"
    using one(1) [where E = E] by (cases "?step w"; cases "fst (?step w)") auto
  have "stable (keeps calm) ?step" by (intro frame.stable_if recover_deletion_calm recover_operation_calm)
  from keepsD [OF this step] have "idle u" using Cons.prems(1) by (simp add: idle_def calm_def)
  moreover have "\<forall>d \<in> set ds. owned d (w_db u)" using one(5) [where E = E] step Cons.prems(2) by (auto split: if_splits)
  ultimately obtain m w' where rest: "recover_operations E ds (if settled then n + 1 else n) u = (Inr m, w')"
    "open_attempts (w_db w') \<subseteq> open_attempts (w_db u)"
    "open_operations (w_db w') \<subseteq> {p \<in> open_operations (w_db u). fst p \<notin> uo_id ` {d \<in> set ds. always_decided d}}"
    using Cons.IH by blast
  have "recover_operations E (d # ds) n w = (Inr m, w')"
    using Cons.prems(1) step rest(1) by (simp add: stack_busy_def idle_def bindE_def getE_def)
  moreover have "open_attempts (w_db u) \<subseteq> open_attempts (w_db w)" "open_operations (w_db u) \<subseteq> open_operations (w_db w)"
    "\<And>p. always_decided d \<Longrightarrow> p \<in> open_operations (w_db u) \<Longrightarrow> fst p \<noteq> uo_id d"
    using one(2-4) [where E = E] step by (auto split: if_splits)
  ultimately show ?case using rest(2,3) by (intro exI [of _ m] exI [of _ w'] conjI) auto
qed

lemma recover_deployments_resolve:
  assumes "idle w"
  shows "\<exists>m w'. recover_deployments E ds n w = (Inr m, w') \<and> calm w' = calm w
    \<and> open_attempts (w_db w') \<subseteq> {p \<in> open_attempts (w_db w). fst p \<notin> un_id ` set ds}
    \<and> stackOperations (w_db w') = stackOperations (w_db w)"
  using assms
proof (induction ds arbitrary: w n)
  case Nil
  then show ?case by (simp add: retE_def)
next
  case (Cons d ds)
  obtain u where step: "recover_deployment E d w = (Inr True, u)"
    using recover_deployment_run(1) [OF refl] by (metis prod.collapse)
  have closes: "closes_attempt (un_id d) (un_stackId d) (w_db w) (w_db u)"
    using recover_deployment_closes [of d w E] step by simp
  have calm: "calm u = calm w" by (rule keepsD [OF recover_deployment_calm step])
  then have "idle u" using Cons.prems by (simp add: idle_def calm_def)
  then obtain m w' where rest: "recover_deployments E ds (n + 1) u = (Inr m, w')" "calm w' = calm u"
    "open_attempts (w_db w') \<subseteq> {p \<in> open_attempts (w_db u). fst p \<notin> un_id ` set ds}"
    "stackOperations (w_db w') = stackOperations (w_db u)"
    using Cons.IH [of u "n + 1"] by auto
  have "recover_deployments E (d # ds) n w = (Inr m, w')"
    using Cons.prems step rest(1) by (simp add: stack_busy_def idle_def bindE_def getE_def)
  moreover have "stackOperations (w_db u) = stackOperations (w_db w)" using closes by (simp add: closes_attempt_def)
  ultimately show ?case
    using rest(2-4) calm closes_attempt_open [OF closes]
    by (intro exI [of _ m] exI [of _ w'] conjI) auto
qed

text \<open>What the two queries find.\<close>

definition found_attempts :: "string \<Rightarrow> database \<Rightarrow> Unfinished list" where
  "found_attempts hostId db = List.map_filter (\<lambda>d.
     if d_hostId d = hostId \<and> d_status d \<in> set UNRESOLVED_DEPLOYMENT
     then map_option (\<lambda>s. \<lparr>un_id = d_id d, un_stackId = d_stackId d, un_revisionId = d_revisionId d,
         un_fromRevisionId = d_fromRevisionId d, un_actionId = d_actionId d, un_name = s_name s\<rparr>)
       (find (\<lambda>s. s_id s = d_stackId d) (stacks db))
     else None) (stackDeployments db)"

definition found_operations :: "string \<Rightarrow> database \<Rightarrow> UnfinishedOperation list" where
  "found_operations hostId db = List.map_filter (\<lambda>d.
     if o_hostId d = hostId \<and> o_status d \<in> set UNRESOLVED_OPERATION
     then map_option (\<lambda>s. \<lparr>uo_id = o_id d, uo_stackId = o_stackId d, uo_revisionId = o_revisionId d,
         uo_type = o_type d, uo_fingerprint = o_fingerprint d, uo_actionId = o_actionId d, uo_name = s_name s\<rparr>)
       (find (\<lambda>s. s_id s = o_stackId d) (stacks db))
     else None) (stackOperations db)"

lemma run_unfinished [run]:
  "bindE (unfinishedDeployments hostId) f w = f (found_attempts hostId (w_db w)) w"
  "bindE (unfinishedOperations hostId) g w = g (found_operations hostId (w_db w)) w"
  by (simp_all add: unfinishedDeployments_def unfinishedOperations_def found_attempts_def found_operations_def run)

lemma map_filter_iff: "y \<in> set (List.map_filter f xs) \<longleftrightarrow> (\<exists>x \<in> set xs. f x = Some y)"
  by (auto simp: List.map_filter_def image_iff)

lemma stack_found: "sid \<in> s_id ` set rows \<Longrightarrow> \<exists>s. find (\<lambda>s. s_id s = sid) rows = Some s"
  by (induction rows) auto

lemma found_attempts_all:
  assumes "\<forall>d \<in> set (stackDeployments db). d_stackId d \<in> s_id ` set (stacks db)"
    and "(i, hostId) \<in> open_attempts db"
  shows "i \<in> un_id ` set (found_attempts hostId db)"
proof -
  obtain d where d: "d \<in> set (stackDeployments db)" "d_id d = i" "d_hostId d = hostId" "unresolved (d_status d)"
    using assms(2) by (auto simp: open_attempts_def)
  obtain s where s: "find (\<lambda>s. s_id s = d_stackId d) (stacks db) = Some s" using stack_found assms(1) d(1) by blast
  show ?thesis
    by (rule image_eqI [of _ _ "\<lparr>un_id = d_id d, un_stackId = d_stackId d, un_revisionId = d_revisionId d,
         un_fromRevisionId = d_fromRevisionId d, un_actionId = d_actionId d, un_name = s_name s\<rparr>"])
      (use d s in \<open>auto simp: found_attempts_def map_filter_iff intro!: bexI [of _ d]\<close>)
qed

lemma found_operations_all:
  assumes "\<forall>d \<in> set (stackOperations db). o_stackId d \<in> s_id ` set (stacks db)"
    and "(i, hostId) \<in> open_operations db"
  shows "i \<in> uo_id ` {d \<in> set (found_operations hostId db). always_decided d}"
proof -
  obtain d where d: "d \<in> set (stackOperations db)" "o_id d = i" "o_hostId d = hostId" "unresolved (o_status d)"
    "o_type d \<in> {''start'', ''stop'', ''delete''}"
    using assms(2) unfolding open_operations_def by blast
  obtain s where s: "find (\<lambda>s. s_id s = o_stackId d) (stacks db) = Some s" using stack_found assms(1) d(1) by blast
  let ?x = "\<lparr>uo_id = o_id d, uo_stackId = o_stackId d, uo_revisionId = o_revisionId d,
         uo_type = o_type d, uo_fingerprint = o_fingerprint d, uo_actionId = o_actionId d, uo_name = s_name s\<rparr>"
  have "?x \<in> set (found_operations hostId db)"
    using d s by (auto simp: found_operations_def map_filter_iff intro!: bexI [of _ d])
  with d show ?thesis by (intro image_eqI [of _ _ ?x]) (simp_all add: always_decided_def)
qed

lemma found_operations_owned:
  assumes "distinct (map o_id (stackOperations db))" and "x \<in> set (found_operations hostId db)"
  shows "owned x db"
proof -
  obtain d where "d \<in> set (stackOperations db)" "uo_id x = o_id d" "uo_stackId x = o_stackId d"
    using assms(2) by (auto simp: found_operations_def map_filter_iff split: if_splits)
  with assms(1) show ?thesis unfolding owned_def by (metis distinct_map inj_onD)
qed

section \<open>Properties\<close>

text \<open>
  C12: whatever happened before, settling what was left open asks no host for any change, takes
  no lock and gives none back. An operation is never repeated.
\<close>

theorem recovery_asks_nothing:
  "mutations (snd (recoverHost E hostId w)) = mutations w \<and> w_held (snd (recoverHost E hostId w)) = w_held w"
  using recoverHost_calm [of E hostId] by (simp add: stable_def keeps_def calm_def)

text \<open>
  C11: nothing stays open forever. When the host can be read completely and no operation on a
  stack is running in this process, one pass settles every attempt of the host to apply a revision
  and every start, stop and deletion of its stacks; only a restart may stay undecided, when the
  host does not say when a container was started.
\<close>

theorem recoverHost_resolves:
  assumes "fst (resync E hostId w) = Inr True" and "idle w"
    and "distinct (map o_id (stackOperations (w_db w)))"
    and "\<forall>d \<in> set (stackDeployments (w_db w)). d_stackId d \<in> s_id ` set (stacks (w_db w))"
    and "\<forall>d \<in> set (stackOperations (w_db w)). o_stackId d \<in> s_id ` set (stacks (w_db w))"
  shows "\<exists>n w'. recoverHost E hostId w = (Inr n, w')
    \<and> (\<forall>d \<in> set (stackDeployments (w_db w')). d_hostId d = hostId \<longrightarrow> \<not> unresolved (d_status d))
    \<and> (\<forall>d \<in> set (stackOperations (w_db w')). o_hostId d = hostId \<and> o_type d \<in> {''start'', ''stop'', ''delete''} \<longrightarrow>
         \<not> unresolved (o_status d))"
proof -
  let ?ds = "found_attempts hostId (w_db w)" and ?os = "found_operations hostId (w_db w)"
  have closed: ?thesis if "recoverHost E hostId w = (Inr n, w')"
    "\<And>i. (i, hostId) \<notin> open_attempts (w_db w')" "\<And>i. (i, hostId) \<notin> open_operations (w_db w')" for n w'
    using that unfolding open_attempts_def open_operations_def by blast
  have all: "\<And>i. (i, hostId) \<in> open_attempts (w_db w) \<Longrightarrow> i \<in> un_id ` set ?ds"
    "\<And>i. (i, hostId) \<in> open_operations (w_db w) \<Longrightarrow> i \<in> uo_id ` {d \<in> set ?os. always_decided d}"
    using found_attempts_all found_operations_all assms(4,5) by blast+
  show ?thesis
  proof (cases "?ds = [] \<and> ?os = []")
    case True
    then show ?thesis using all by (intro closed [of 0 w]) (auto simp: recoverHost_def run)
  next
    case False
    obtain v where resync: "resync E hostId w = (Inr True, v)" using assms(1) by (metis prod.collapse)
    note same = keepsD [OF stable_resync resync]
    have "idle v" using assms(2) same by (simp add: idle_def outside_discovery_def)
    then obtain m u where deployments: "recover_deployments E ?ds 0 v = (Inr m, u)" "calm u = calm v"
      "open_attempts (w_db u) \<subseteq> {p \<in> open_attempts (w_db v). fst p \<notin> un_id ` set ?ds}"
      "stackOperations (w_db u) = stackOperations (w_db v)"
      using recover_deployments_resolve by blast
    have "idle u" using \<open>idle v\<close> deployments(2) by (simp add: idle_def calm_def)
    moreover have "\<forall>d \<in> set ?os. owned d (w_db u)"
      using found_operations_owned [OF assms(3)] deployments(4) same by (simp add: owned_def outside_discovery_def)
    ultimately obtain n w' where operations: "recover_operations E ?os m u = (Inr n, w')"
      "open_attempts (w_db w') \<subseteq> open_attempts (w_db u)"
      "open_operations (w_db w') \<subseteq> {p \<in> open_operations (w_db u). fst p \<notin> uo_id ` {d \<in> set ?os. always_decided d}}"
      using recover_operations_resolve by blast
    have "recoverHost E hostId w = (Inr n, w')"
      using False resync deployments(1) operations(1)
      by (auto simp: recoverHost_def run readCompletely_def bindE_def [of "resync _ _"] bindE_def [of "recover_deployments _ _ _"])
    moreover have "open_attempts (w_db v) = open_attempts (w_db w)" "open_operations (w_db u) = open_operations (w_db w)"
      using same deployments(4) by (simp_all add: outside_discovery_def open_attempts_def open_operations_def)
    ultimately show ?thesis
      using all deployments(3) operations(2,3) by (intro closed [of n w']) fastforce+
  qed
qed


text \<open>A server that went away while the first revision was being applied.\<close>

definition shop_left_open :: world where
  "shop_left_open = (shop_running ''deploying'' ''running'')\<lparr>w_db := (w_db (shop_running ''deploying'' ''running''))\<lparr>
     stackDeployments := [\<lparr>d_id = ''dep'', d_stackId = shop_id, d_revisionId = shop_r1, d_fromRevisionId = None,
       d_hostId = ''h1'', d_kind = ''initial'', d_status = ''interrupted'', d_actionId = None, d_startedBy = None,
       d_detail = None, d_failureCode = None, d_resolvedAt = None\<rparr>]\<rparr>\<rparr>"

theorem recoverHost_resolves_witness:
  "\<exists>n w'. recoverHost (shop_live ''running'') ''h1'' shop_left_open = (Inr n, w')
     \<and> \<not> (\<exists>d \<in> set (stackDeployments (w_db w')). d_hostId d = ''h1'' \<and> unresolved (d_status d))"
proof -
  have read: "fst (resync (shop_live ''running'') ''h1'' shop_left_open) = Inr True" by code_simp
  have "idle shop_left_open" "distinct (map o_id (stackOperations (w_db shop_left_open)))"
    "\<forall>d \<in> set (stackDeployments (w_db shop_left_open)).
       d_stackId d \<in> s_id ` set (stacks (w_db shop_left_open))"
    "\<forall>d \<in> set (stackOperations (w_db shop_left_open)). o_stackId d \<in> s_id ` set (stacks (w_db shop_left_open))"
    by (simp_all add: idle_def isBusy_def shop_left_open_def shop_running_def shop_world_def empty_world_def empty_db_def)
  from recoverHost_resolves [OF read this] show ?thesis by blast
qed

text \<open>
  C13: an attempt that is settled after a restart of the server is recorded as it would have been
  at once: on the same complete reading, the recovery and the live path give every stack the same
  row and every attempt the same status.
\<close>

theorem recovery_agrees_with_live:
  assumes "da_fromRevisionId attempt \<noteq> Some []"
    and "da_targetServices attempt = services_at (da_revisionId attempt) (w_db w)"
    and "da_fromServices attempt = (if truthy (da_fromRevisionId attempt)
      then Some (services_at (the (da_fromRevisionId attempt)) (w_db w)) else None)"
  shows "let rows = filter (\<lambda>c. c_stackId c = Some (da_stackId attempt)) (containers (w_db w));
      live = w_db (snd (settle E attempt (map observed_service rows) (judged attempt True (containers (w_db w))) failure w));
      recovered = w_db (snd (recover_deployment E \<lparr>un_id = da_deploymentId attempt, un_stackId = da_stackId attempt,
        un_revisionId = da_revisionId attempt, un_fromRevisionId = da_fromRevisionId attempt,
        un_actionId = da_actionId attempt, un_name = da_stackName attempt\<rparr> w)) in
    stacks recovered = stacks live \<and>
    map (\<lambda>d. (d_id d, d_status d)) (stackDeployments recovered) = map (\<lambda>d. (d_id d, d_status d)) (stackDeployments live)"
proof -
  let ?d = "\<lparr>un_id = da_deploymentId attempt, un_stackId = da_stackId attempt,
        un_revisionId = da_revisionId attempt, un_fromRevisionId = da_fromRevisionId attempt,
        un_actionId = da_actionId attempt, un_name = da_stackName attempt\<rparr>"
  have reading: "classifyStackApply (attempt_reading ?d (w_db w)) = judged attempt True (containers (w_db w))"
    using assms(2,3) by (simp add: attempt_reading_def judged_def)
  have from_ok: "un_fromRevisionId ?d \<noteq> Some []" using assms(1) by simp
  note recovered = recover_deployment_refines [OF from_ok, of w E, unfolded reading, simplified]
  note live = settle_settles [of attempt w "judged attempt True (containers (w_db w))" E _ failure]
  show ?thesis
    using settles_attempt_statuses [OF recovered] settles_attempt_statuses [OF live] recovered live
    by (simp add: settles_attempt_def)
qed

theorem recovery_agrees_with_live_witness:
  "stacks (w_db (snd (recover_deployment (shop_live ''running'') \<lparr>un_id = da_deploymentId shop_attempt,
       un_stackId = da_stackId shop_attempt, un_revisionId = da_revisionId shop_attempt,
       un_fromRevisionId = da_fromRevisionId shop_attempt, un_actionId = da_actionId shop_attempt,
       un_name = da_stackName shop_attempt\<rparr> shop_left_open)))
   = stacks (w_db (snd (settle (shop_live ''running'') shop_attempt
       (map observed_service (filter (\<lambda>c. c_stackId c = Some (da_stackId shop_attempt)) (containers (w_db shop_left_open))))
       (judged shop_attempt True (containers (w_db shop_left_open))) None shop_left_open)))"
proof -
  have "da_fromRevisionId shop_attempt \<noteq> Some []"
    "da_targetServices shop_attempt = services_at (da_revisionId shop_attempt) (w_db shop_left_open)"
    "da_fromServices shop_attempt = (if truthy (da_fromRevisionId shop_attempt)
      then Some (services_at (the (da_fromRevisionId shop_attempt)) (w_db shop_left_open)) else None)"
    by code_simp+
  from recovery_agrees_with_live [OF this] show ?thesis unfolding Let_def by (rule conjunct1)
qed

end
