(* ===== verification/Stack_Tables.thy ===== *)
theory Stack_Tables
  imports Config_Tables Stack_Recovery
begin

text \<open>
  What the stack services do to the containers and the configurations that hang off them: they
  add containers, change them by discovery and drop them, and do nothing else. So whatever relation
  \<open>container_steps\<close> asks for, every operation on a stack has, and the foreign keys and indexes of
  the configurations hold across all of them.
\<close>

context container_steps
begin

lemma step_reads: "stable (keeps (\<lambda>w. w)) m \<Longrightarrow> stable R m"
  by (erule stable_mono) (simp add: keeps_def step_refl)

lemma step_with_lock:
  assumes "stable R m"
  shows "stable R (with_lock key name m)"
proof (rule stableI)
  fix w
  obtain r w' where run: "with_lock key name m w = (r, w')" by fastforce
  then show "R w (snd (with_lock key name m w))"
  proof (cases rule: with_lock_cases [consumes 1, case_names busy locked])
    case busy
    then show ?thesis by (simp add: run step_refl)
  next
    case (locked held t released)
    have "R w (w\<lparr>w_held := held\<rparr>)" "R t (t\<lparr>w_held := released\<rparr>)" by (simp_all add: elsewhere kept_tables_def)
    with stableD [OF assms locked(1)] locked(2) show ?thesis by (metis run snd_conv step_trans)
  qed
qed

lemma step_rows:
  "stable R (insert_action a)" "stable R (insert_deployment d)" "stable R (insert_operation p)"
  by (rule step_keeps, (rule stable_insert_action stable_insert_deployment stable_insert_operation)?, simp add: kept_tables_def)+

lemma step_updates:
  "stable R (update_stack sid k)" "stable R (update_deployment did g)" "stable R (update_operation pid h)"
  "stable R (update_action aid i)"
  unfolding update_stack_def update_deployment_def update_operation_def update_action_def
  by (rule step_other_table, simp add: kept_tables_def)+

lemma step_records:
  "stable R (audit_stack E actor context sid name action result reason)"
  "stable R (stack_event hostId type severity sid message correlation)"
  "stable R (finish_action actionId status t errorCode)"
  "stable R (insert_running_action E actor context capability stack)"
  unfolding audit_stack_def stack_event_def finish_action_def insert_running_action_def
  by (intro steps step_rows step_updates)+

lemma step_delete_stack: "stable R (delete_stack sid)"
proof -
  have "R w (w\<lparr>w_db := cascade_stack sid (w_db w)\<rparr>)" for w
  proof -
    let ?u = "w\<lparr>w_db := (w_db w)\<lparr>containers := upd (\<lambda>c. c_stackId c = Some sid) (\<lambda>c. c\<lparr>c_stackId := None\<rparr>) (containers (w_db w))\<rparr>\<rparr>"
    have "R w ?u" by (rule changed) simp
    moreover have "R ?u (w\<lparr>w_db := cascade_stack sid (w_db w)\<rparr>)"
      by (rule elsewhere) (simp add: kept_tables_def cascade_stack_def Let_def)
    ultimately show ?thesis by (rule step_trans)
  qed
  then show ?thesis unfolding delete_stack_def write_db_def by (intro stable_mod)
qed

lemmas stack_steps = steps step_rows step_updates step_records step_delete_stack step_with_lock step_resync step_detail
  step_reads [OF stable_find_stack] step_reads [OF stable_connectedAgent] step_reads [OF stable_stackContainers]
  step_reads [OF stable_assertNothingUnresolved] step_reads [OF stable_assertStackAttribution]

subsection \<open>Deployment\<close>

lemma step_allocate: "stable R (allocate E stack names held services)"
  by (induction services) (auto intro!: stack_steps split: option.split)

lemma step_prepare: "stable R (prepare E stack target from_revision kind plan names existing actor context)"
  unfolding prepare_def by (intro stack_steps step_allocate)

lemma step_audit_attempt: "stable R (audit_attempt E attempt action result)"
  unfolding audit_attempt_def by (intro stack_steps)

lemma step_attempt_records:
  "stable R (interrupted E attempt code)" "stable R (recordApplied E attempt detail)"
  "stable R (recordNotApplied E attempt detail failure)" "stable R (recordNeedsAttention E attempt detail reason)"
  unfolding interrupted_def recordApplied_def recordNotApplied_def recordNeedsAttention_def
  by (intro stack_steps step_audit_attempt)+

lemma step_settle: "stable R (settle E attempt observed outcome failure)"
  by (cases outcome) (auto simp: settle_def intro!: stack_steps step_attempt_records)

lemma step_observe: "stable R (observe E attempt)"
  unfolding observe_def Let_def by (intro stack_steps)

lemma step_run_attempt: "stable R (run_attempt E attempt)"
  unfolding run_attempt_def Let_def by (intro stack_steps step_observe step_settle step_attempt_records)

lemma step_deploy: "stable R (deploy E stackId revisionId actor context)"
  unfolding deploy_def deploy_locked_def assertNoUnresolvedDeployment_def
  by (intro stack_steps step_prepare step_run_attempt step_reads [OF stable_revision_of] step_reads [OF stable_compile]
      step_reads [OF stable_assertNamesAreFree])

subsection \<open>Starting, stopping and restarting\<close>

lemma step_operation_records:
  "stable R (operation_interrupted E attempt' code)" "stable R (operation_applied E attempt' detail)"
  "stable R (operation_not_applied E attempt' detail failure)" "stable R (operation_needs_attention E attempt' detail reason)"
  unfolding operation_interrupted_def operation_applied_def operation_not_applied_def operation_needs_attention_def
    audit_operation_def
  by (intro stack_steps)+

lemma step_settle_operation: "stable R (settle_operation E attempt observed outcome failure)"
  by (cases outcome) (auto simp: settle_operation_def intro!: stack_steps step_operation_records)

lemma step_observedRuntime: "stable R (observedRuntime E stackId withStartTimes)"
  unfolding observedRuntime_def observed_runtime_def by (intro stack_steps)

lemma step_dispatchAndSettle: "stable R (dispatchAndSettle E attempt)"
  unfolding dispatchAndSettle_def observe_operation_def Let_def
  by (intro stack_steps step_observedRuntime step_settle_operation step_operation_records)

lemma step_prepare_operation:
  "stable R (prepare_operation E stack revisionId operation fingerprint actor context)"
  "stable R (prepare_delete E stack actor context)"
  unfolding prepare_operation_def prepare_delete_def by (intro stack_steps)+

lemma step_lifecycle: "stable R (run_lifecycle E operation stackId actor context)"
  unfolding run_lifecycle_def run_locked_def fingerprintOf_def fingerprint_of_def Let_def
  by (intro stack_steps step_reads [OF stable_operable] step_reads [OF stable_deployedServices] step_prepare_operation
      step_dispatchAndSettle)

subsection \<open>Deletion\<close>

lemma step_delete_records:
  "stable R (delete_interrupted E attempt code)" "stable R (delete_not_applied E attempt failure)"
  "stable R (delete_needs_attention E attempt reason)" "stable R (purge stackId actionId)"
  unfolding delete_interrupted_def delete_not_applied_def delete_needs_attention_def purge_def audit_delete_def
  by (intro stack_steps)+

lemma step_settle_delete: "stable R (settle_delete E attempt outcome failure)"
  by (cases outcome) (auto simp: settle_delete_def audit_delete_def intro!: stack_steps step_delete_records)

lemma step_removeThenFinalize: "stable R (removeThenFinalize E attempt)"
  unfolding removeThenFinalize_def observe_delete_def observedClaims_def Let_def
  by (intro stack_steps step_settle_delete step_delete_records)

lemma step_delete_op: "stable R (delete E stackId actor context)"
  unfolding delete_def delete_deployed_def deleteNeverDeployed_def Let_def
  by (intro stack_steps step_reads [OF stable_deletable] step_reads [OF stable_volumesOf]
      step_reads [OF stable_removed_services] step_prepare_operation step_removeThenFinalize step_delete_records)

subsection \<open>Recovery\<close>

lemma step_recover_one:
  "stable R (recover_deployment E d)" "stable R (recover_operation E operation)" "stable R (recover_deletion E operation)"
  unfolding recover_deployment_def recover_operation_def recover_deletion_def services_of_revision_def summary_of_def
    observedClaims_def audit_system_def Let_def
  by (intro stack_steps step_observedRuntime)+

lemma step_recover_deployments: "stable R (recover_deployments E ds n)"
  by (induction ds arbitrary: n) (auto simp: stack_busy_def intro!: stable_rules step_recover_one)

lemma step_recover_operations: "stable R (recover_operations E ds n)"
  by (induction ds arbitrary: n) (auto simp: stack_busy_def intro!: stable_rules step_recover_one)

lemma step_recoverHost: "stable R (recoverHost E hostId)"
  unfolding recoverHost_def unfinishedDeployments_def unfinishedOperations_def readCompletely_def
  by (intro stack_steps step_recover_deployments step_recover_operations)

end

end
