(* ===== verification/Container_Frames.thy ===== *)
theory Container_Frames
  imports Container_Lifecycle Stack_Tables
begin

text \<open>
  What the container services leave alone and keep: the rows of the stack services, the foreign keys
  and indexes of the configurations, the locks, and how often they ask a host.
\<close>

section \<open>The rows of the stacks\<close>

definition stack_rows :: "world \<Rightarrow> stack_row list \<times> deployment_row list \<times> operation_row list" where
  "stack_rows w = (stacks (w_db w), stackDeployments (w_db w), stackOperations (w_db w))"

lemma rows_outside: "outside_discovery w' = outside_discovery w \<Longrightarrow> stack_rows w' = stack_rows w"
  by (simp add: outside_discovery_def stack_rows_def)

lemma rows_resync: "stable (keeps stack_rows) (resync E hostId)"
  by (rule stable_mono [OF stable_resync], unfold keeps_def) (rule rows_outside)

lemma rows_detail: "stable (keeps stack_rows) (containerDetail E cid force)"
  by (rule containerDetail_keeps) (rule rows_outside, erule outside_detail_discovery)

lemma rows_dispatch: "stable (keeps stack_rows) (dispatch_request E a c p)"
  by (rule stable_dispatch) (simp add: stack_rows_def)

lemma rows_uuid: "stable (keeps stack_rows) (randomUUID E)"
  by (rule stable_randomUUID) (simp add: stack_rows_def)

lemma rows_transaction: "stable (keeps stack_rows) m \<Longrightarrow> stable (keeps stack_rows) (transaction m)"
  by (erule stable_db_transaction) (simp add: stack_rows_def)

lemma rows_tables:
  "stable (keeps stack_rows) (put_containers f)" "stable (keeps stack_rows) (put_configs g)"
  "stable (keeps stack_rows) (insert_variables vs)" "stable (keeps stack_rows) (insert_action a)"
  by (rule stable_put_containers stable_put_configs stable_insert_variables stable_insert_action, simp add: stack_rows_def)+

lemma rows_updates:
  "stable (keeps stack_rows) (update_action aid h)" "stable (keeps stack_rows) (audit_record E entry)"
  "stable (keeps stack_rows) (events_record ev)"
  unfolding update_action_def audit_record_def events_record_def
  by (rule stable_write_db, simp add: stack_rows_def)+

lemma rows_audit: "stable (keeps stack_rows) (audit_container E actor context cid name action result reason)"
  unfolding audit_container_def by (rule rows_updates)

lemmas rows_steps = frame.stable_rules stable_read_db stable_throw_app stable_now stable_isConnected rows_resync rows_detail rows_dispatch
  rows_uuid rows_transaction rows_tables rows_updates rows_audit

lemma rows_finalize: "stable (keeps stack_rows) (finalize E x decision)"
proof (rule stableI)
  fix w
  obtain r w' where fin: "finalize E x decision w = (r, w')" by fastforce
  then show "keeps stack_rows w (snd (finalize E x decision w))"
    by (cases rule: finalize_cases) (simp_all add: keeps_def stack_rows_def fin)
qed

lemma rows_reconcile: "stable (keeps stack_rows) (reconcileAndFinalize E operation)"
  unfolding reconcileAndFinalize_def classify_def claimedDockerIds_def by (intro rows_steps rows_finalize)

lemma rows_recover: "stable (keeps stack_rows) (recoverContainers E hostId)"
proof -
  have "stable (keeps stack_rows) (recover_changes E operations n)" for operations n
    by (induction operations arbitrary: n) (auto intro!: frame.stable_rules rows_reconcile)
  then show ?thesis unfolding recoverContainers_def unresolved_changes_def by (intro rows_steps)
qed

lemma rows_runOperation: "stable (keeps stack_rows) (runOperation E operation)"
proof -
  have "stable (keeps stack_rows) (report E operation decision failure)" for decision failure
    unfolding report_def by (intro rows_steps) (auto split: RecoveryDecision.split intro!: rows_steps)
  then show ?thesis
    unfolding runOperation_def settle_change_def unresolved_change_def Let_def by (intro rows_steps rows_reconcile)
qed

lemma rows_prepare:
  "stable (keeps stack_rows) (insert_container_action E actor context cap cid hostId)"
  "stable (keeps stack_rows) (prepareCreate E request hostId actor context)"
  "stable (keeps stack_rows) (prepareReplace E cid request' actor context)"
proof -
  show action: "stable (keeps stack_rows) (insert_container_action E actor context cap cid hostId)" for cap cid hostId
    unfolding insert_container_action_def by (intro rows_steps)
  have env: "stable (keeps stack_rows) (resolveEnvironment E entries previous)" for entries previous
    by (rule resolveEnvironment_keeps) (simp add: stack_rows_def)
  show "stable (keeps stack_rows) (prepareCreate E request hostId actor context)"
    "stable (keeps stack_rows) (prepareReplace E cid request' actor context)"
    unfolding prepareCreate_def prepareReplace_def insert_candidate_def Let_def
    by (intro rows_steps action env stable_stored_spec)+
qed

lemma rows_lock: "stable (keeps stack_rows) m \<Longrightarrow> stable (keeps stack_rows) (with_lock key name m)"
  by (erule stable_with_lock) (simp add: stack_rows_def)

lemma rows_changes:
  "stable (keeps stack_rows) (create_container E request actor context)"
  "stable (keeps stack_rows) (replace_container E cid change actor context)"
  "stable (keeps stack_rows) (remove_container E cid removal actor context)"
  unfolding create_container_def create_body_def replace_container_def replace_body_def remove_container_def remove_body_def
  by (intro rows_steps rows_lock rows_prepare rows_runOperation stable_change_host stable_reachableAgent stable_assertNameFree
      stable_mutable stable_current_dockerId)+


section \<open>Operating a container, step by step\<close>

lemma run_operation_cases:
  assumes "run_operation E operation cid actor context w = (r, w')"
  obtains (refused) "w' = w" "isl r"
    | (unwritten) held target e where "requested E operation target actor context (w\<lparr>w_held := held\<rparr>) = (Inl e, w')"
    | (asked) held target agentId aid u t released where
      "requested E operation target actor context (w\<lparr>w_held := held\<rparr>) = (Inr aid, u)"
      "carry_out E agentId aid operation target actor context u = (r, t)" "w' = t\<lparr>w_held := released\<rparr>"
  using assms unfolding run_operation_def
proof (cases rule: bind_reads [OF stable_assertOperable, consumes 1, case_names thrown continues])
  case (continues _)
  from continues(2) show ?thesis
  proof (cases rule: bind_reads [OF stable_resolve, consumes 1, case_names thrown continues])
    case (continues target)
    from continues(2) show ?thesis
    proof (cases rule: bind_reads [OF stable_reachableAgent, consumes 1, case_names thrown continues])
      case (continues agentId)
      show ?thesis
      proof (cases "acquire cid (operation_name operation) (w_held w)")
        case (Inl e)
        with continues(2) show ?thesis by (intro refused) auto
      next
        case (Inr leased)
        obtain lease held where leased: "leased = (lease, held)" by (cases leased)
        obtain q u where req: "requested E operation target actor context (w\<lparr>w_held := held\<rparr>) = (q, u)" by fastforce
        show ?thesis
        proof (cases q)
          case (Inl e)
          with req continues(2) Inr leased show ?thesis by (intro unwritten) (auto simp: bindE_def)
        next
          case (Inr aid)
          obtain r1 t where body: "carry_out E agentId aid operation target actor context u = (r1, t)" by fastforce
          with req continues(2) Inr leased \<open>acquire cid (operation_name operation) (w_held w) = Inr leased\<close>
          have "r1 = r" "w' = t\<lparr>w_held := snd (release lease (w_held t))\<rparr>"
            by (auto simp: bindE_def finallyE_def)
          with req Inr body show ?thesis by (intro asked) auto
        qed
      qed
    qed (rule refused)
  qed (rule refused)
qed (rule refused)

lemma run_operation_keeps:
  assumes "\<And>w h. f (w\<lparr>w_held := h\<rparr>) = f w" and "\<And>target. stable (keeps f) (requested E operation target actor context)"
    and "\<And>agentId aid target. stable (keeps f) (carry_out E agentId aid operation target actor context)"
  shows "stable (keeps f) (run_operation E operation cid actor context)"
proof (rule stableI)
  fix w
  obtain r w' where run: "run_operation E operation cid actor context w = (r, w')" by fastforce
  then show "keeps f w (snd (run_operation E operation cid actor context w))"
  proof (cases rule: run_operation_cases)
    case (unwritten held target e)
    from keepsD [OF assms(2) unwritten] show ?thesis by (simp add: keeps_def run assms(1))
  next
    case (asked held target agentId aid u t released)
    from keepsD [OF assms(2) asked(1)] keepsD [OF assms(3) asked(2)] asked(3) show ?thesis
      by (simp add: keeps_def run assms(1))
  qed (simp add: keeps_def run)
qed

lemma rows_operation: "stable (keeps stack_rows) (run_operation E operation cid actor context)"
proof (rule run_operation_keeps)
  have again: "stable (keeps stack_rows) (reread E target)" for target
    unfolding reread_def by (intro rows_steps)
  show "stable (keeps stack_rows) (requested E operation target actor context)" for target
    unfolding requested_def audit_action_def by (intro rows_steps rows_prepare)
  show "stable (keeps stack_rows) (carry_out E agentId aid operation target actor context)" for agentId aid target
    unfolding carry_out_def succeed_def fail_def audit_action_def observed_or_def Let_def
    by (intro rows_steps again)
qed (simp add: stack_rows_def)

section \<open>How often a host is asked\<close>

definition asks_at_most_once :: "world \<Rightarrow> world \<Rightarrow> bool" where
  "asks_at_most_once w w' \<longleftrightarrow> (\<exists>rqs. mutations w' = mutations w @ rqs \<and> length rqs \<le> 1)"

lemma asks_nothing: "mutations w' = mutations w \<Longrightarrow> asks_at_most_once w w'"
  by (auto simp: asks_at_most_once_def)

lemma asks_one: "mutations w' = mutations w @ [rq] \<Longrightarrow> asks_at_most_once w w'"
  by (auto simp: asks_at_most_once_def)

lemma runOperation_asks:
  assumes "runOperation E operation s = (r, w')"
  shows "asks_at_most_once s w'" "w_held w' = w_held s"
proof -
  obtain reply u where ask: "tryE (dispatch_request E (dg_agentId operation) (dg_capability operation) (dg_payload operation)) s = (Inr reply, u)"
    by (auto simp: tryE_def dispatch_request_def Let_def split: sum.split)
  have "asks_at_most_once s u" "w_held u = w_held s"
    using ask by (auto simp: tryE_def dispatch_request_def Let_def asks_at_most_once_def mutations_def split: sum.splits)
  moreover have "stable (keeps calm) (unresolved_change E operation code)" for code
    unfolding unresolved_change_def by (intro change_calm)
  then have "stable (keeps calm) (case reply of Inl error \<Rightarrow>
        (let code = code_or ''DOCKER_OPERATION_FAILED'' error in
         if code \<in> set UNKNOWN_OUTCOME then unresolved_change E operation code else settle_change E operation (as_app_error error))
      | Inr _ \<Rightarrow> settle_change E operation None)"
    using settle_change_calm by (auto simp: Let_def split: sum.split)
  then have "calm w' = calm u"
    using assms ask unfolding runOperation_def bindE_def by (auto dest: keepsD)
  ultimately show "asks_at_most_once s w'" "w_held w' = w_held s" by (simp_all add: calm_def asks_at_most_once_def)
qed


lemma prepared_asks:
  assumes "stable (keeps calm) m" and "\<And>a. \<exists>op. k a = runOperation E op" and "bindE m k w = (r, w')"
  shows "asks_at_most_once w w'" "w_held w' = w_held w"
proof -
  have "asks_at_most_once w w' \<and> w_held w' = w_held w"
    using assms(1,3)
  proof (cases rule: bind_frame [consumes 2, case_names thrown continues])
    case thrown
    then show ?thesis by (auto simp: calm_def intro: asks_nothing)
  next
    case (continues a u)
    obtain op where op: "k a = runOperation E op" using assms(2) by blast
    from runOperation_asks [of E op u r w'] continues(2,3) show ?thesis
      by (simp add: op calm_def asks_at_most_once_def)
  qed
  then show "asks_at_most_once w w'" "w_held w' = w_held w" by simp_all
qed

text \<open>A handler that asks at most once and gives back the locks it found.\<close>

definition modest :: "'a handler \<Rightarrow> bool" where
  "modest m \<longleftrightarrow> (\<forall>w. asks_at_most_once w (snd (m w)) \<and> w_held (snd (m w)) = w_held w)"

lemma modest_prepared:
  assumes "stable (keeps calm) m" and "\<And>a. \<exists>op. k a = runOperation E op"
  shows "modest (bindE m k)"
  unfolding modest_def
proof (intro allI)
  fix w
  obtain r w' where run: "bindE m k w = (r, w')" by fastforce
  from prepared_asks [OF assms run] show "asks_at_most_once w (snd (bindE m k w)) \<and> w_held (snd (bindE m k w)) = w_held w"
    by (simp add: run)
qed

lemma modest_reads:
  assumes "stable (keeps (\<lambda>w. w)) m" and "\<And>a. modest (k a)"
  shows "modest (bindE m k)"
  unfolding modest_def
proof (intro allI)
  fix w
  obtain r w' where run: "bindE m k w = (r, w')" by fastforce
  from assms(1) run show "asks_at_most_once w (snd (bindE m k w)) \<and> w_held (snd (bindE m k w)) = w_held w"
  proof (cases rule: bind_reads [consumes 2, case_names thrown continues])
    case (continues a)
    with assms(2) [of a, unfolded modest_def, THEN spec, of w] run show ?thesis by simp
  qed (simp add: run asks_nothing)
qed

lemma bindE_assoc: "bindE (bindE m f) g = bindE m (\<lambda>a. bindE (f a) g)"
  by (rule ext) (simp add: bindE_def split: prod.split sum.split)

lemma bindE_retE: "bindE (retE a) f = f a"
  by (rule ext) (simp add: bindE_def retE_def)

lemma modest_create_body: "modest (create_body E request hostId agentId actor context)"
  unfolding create_body_def by (rule modest_prepared [OF prepareCreate_calm]) blast

lemma modest_replace_body: "modest (replace_body E cid change hostId agentId actor context)"
  unfolding replace_body_def
  by (rule modest_reads [OF stable_current_dockerId], rule modest_prepared [OF prepareReplace_calm]) blast

lemma modest_remove_body: "modest (remove_body E cid removal target agentId actor context)"
proof -
  let ?tx = "bindE (transaction (insert_container_action E actor context ''container.remove'' cid (mt_hostId target))) (\<lambda>actionId.
    bindE (audit_container E actor context (mt_containerId target) (mt_name target) ''container.remove.requested'' ''success''
      (Some actionId)) (\<lambda>_. retE actionId))"
  have calm: "stable (keeps calm) ?tx" by (intro change_calm insert_container_action_calm)
  have body: "remove_body E cid removal target agentId actor context = bindE (current_dockerId cid) (\<lambda>dockerId.
    bindE ?tx (\<lambda>actionId. runOperation E \<lparr>dg_operation = remove, dg_capability = ''container.remove'', dg_agentId = agentId,
      dg_containerId = cid, dg_containerName = mt_name target, dg_hostId = mt_hostId target,
      dg_actionId = Some actionId, dg_actor = actor, dg_context = context,
      dg_payload = RemoveContainer dockerId (rq_stopFirst removal)\<rparr>))"
    by (simp only: remove_body_def bindE_assoc bindE_retE)
  show ?thesis unfolding body
    by (rule modest_reads [OF stable_current_dockerId], rule modest_prepared [OF calm]) blast
qed

text \<open>Under a lock, the locks are given back unless the empty text was held for the key.\<close>

definition modest_from :: "world \<Rightarrow> string \<Rightarrow> 'a handler \<Rightarrow> bool" where
  "modest_from w key m \<longleftrightarrow> asks_at_most_once w (snd (m w)) \<and> (w_held w key \<noteq> Some [] \<longrightarrow> w_held (snd (m w)) = w_held w)"

lemma modest_lock:
  assumes "modest body"
  shows "modest_from w key (with_lock key name body)"
proof -
  obtain r w' where run: "with_lock key name body w = (r, w')" by fastforce
  have "asks_at_most_once w w'"
    using run
  proof (cases rule: with_lock_cases [consumes 1, case_names busy locked])
    case (locked held t released)
    have "asks_at_most_once (w\<lparr>w_held := held\<rparr>) t" using assms [unfolded modest_def, THEN spec, of "w\<lparr>w_held := held\<rparr>"] locked(1) by simp
    with locked(2) show ?thesis by (simp add: asks_at_most_once_def)
  qed (simp add: asks_nothing)
  moreover have "stable (keeps w_held) body" using assms by (intro stableI) (simp add: keeps_def modest_def)
  ultimately show ?thesis using with_lock_restores [of body w key name] by (simp add: modest_from_def run)
qed

lemma modest_from_reads:
  assumes "stable (keeps (\<lambda>w. w)) m" and "\<And>a. m w = (Inr a, w) \<Longrightarrow> modest_from w key (k a)"
  shows "modest_from w key (bindE m k)"
proof -
  obtain r w' where run: "bindE m k w = (r, w')" by fastforce
  from assms(1) run show ?thesis
  proof (cases rule: bind_reads [consumes 2, case_names thrown continues])
    case (continues a)
    with assms(2) [of a] run show ?thesis by (simp add: modest_from_def)
  qed (simp add: modest_from_def run asks_nothing)
qed

lemma create_asks:
  "modest_from w (nameKey (cq_hostId request) (cq_name request)) (create_container E request actor context)"
  unfolding create_container_def
  by (intro modest_from_reads stable_change_host stable_reachableAgent stable_assertNameFree)
    (simp add: change_host_id modest_lock modest_create_body)

lemma replace_asks: "modest_from w cid (replace_container E cid change actor context)"
  unfolding replace_container_def
  by (intro modest_from_reads stable_mutable stable_reachableAgent modest_lock modest_replace_body)

lemma remove_asks: "modest_from w cid (remove_container E cid removal actor context)"
  unfolding remove_container_def
  by (intro modest_from_reads stable_mutable stable_reachableAgent modest_lock modest_remove_body)

lemma operation_asks:
  assumes "run_operation E operation cid actor context w = (r, w')"
  shows "asks_at_most_once w w'"
  using assms
proof (cases rule: run_operation_cases)
  case refused
  then show ?thesis by (simp add: asks_nothing)
next
  case (unwritten held target e)
  from unwritten show ?thesis
    by (cases rule: requested_cases) (auto intro: asks_nothing)
next
  case (asked held target agentId aid u t released)
  have u: "mutations u = mutations w" using asked(1) by (cases rule: requested_cases) auto
  from carry_out_closes [OF asked(2)] obtain v where "mutations v = mutations u @ [operate_request agentId operation target]"
    "mutations t = mutations v" by (auto simp: operation_closed_def)
  with u asked(3) show ?thesis by (auto intro: asks_one)
qed

section \<open>Foreign keys and indexes\<close>

lemma runOperation_linked:
  assumes "runOperation E operation s = (r, w')" and "linked (w_db s)"
  shows "linked (w_db w')"
proof -
  obtain reply u where ask: "tryE (dispatch_request E (dg_agentId operation) (dg_capability operation) (dg_payload operation)) s = (Inr reply, u)"
    and u: "w_db u = w_db s"
    by (auto simp: tryE_def dispatch_request_def Let_def split: sum.split)
  have unresolved: "linked (w_db (snd (unresolved_change E operation code u)))" for code
    using assms(2) u by (simp add: unresolved_change_def audit_container_def run linked_iff)
  have settled: "linked (w_db (snd (settle_change E operation failure u)))" for failure
  proof -
    obtain decision v where "reconcileAndFinalize E (pending_change operation) u = (Inr decision, v)" and v: "linked (w_db v)"
      using reconcile_total assms(2) u by metis
    then have "settle_change E operation failure u = report E operation decision failure v" by (simp add: settle_change_def bindE_def)
    moreover obtain es vs where "snd (report E operation decision failure v) = v\<lparr>w_db := (w_db v)\<lparr>auditEntries := es, events := vs\<rparr>\<rparr>"
      using report_run(1) by blast
    ultimately show ?thesis using v by (simp add: linked_iff)
  qed
  have "w' = snd (case reply of Inl error \<Rightarrow>
        (let code = code_or ''DOCKER_OPERATION_FAILED'' error in
         if code \<in> set UNKNOWN_OUTCOME then unresolved_change E operation code u else settle_change E operation (as_app_error error) u)
      | Inr _ \<Rightarrow> settle_change E operation None u)"
    using assms(1) ask by (auto simp: runOperation_def bindE_def Let_def split: sum.splits if_splits)
  with unresolved settled show ?thesis by (simp add: Let_def split: sum.split)
qed


lemma linked_records [simp]:
  "linked (db\<lparr>actions := as\<rparr>) = linked db" "linked (db\<lparr>auditEntries := es\<rparr>) = linked db"
  "linked (db\<lparr>events := vs\<rparr>) = linked db"
  by (simp_all add: linked_iff)

lemma bodies_linked:
  "create_body E request hostId agentId actor context w = (r, w') \<Longrightarrow> linked (w_db w) \<Longrightarrow> linked (w_db w')"
  "replace_body E cid change hostId agentId actor context w = (r, w') \<Longrightarrow> linked (w_db w) \<Longrightarrow> linked (w_db w')"
  "remove_body E cid removal target agentId actor context w = (r, w') \<Longrightarrow> linked (w_db w) \<Longrightarrow> linked (w_db w')"
proof -
  assume body: "create_body E request hostId agentId actor context w = (r, w')" and "linked (w_db w)"
  obtain q u where prep: "prepareCreate E request hostId actor context w = (q, u)" by fastforce
  then have u: "linked (w_db u)"
    using \<open>linked (w_db w)\<close> by (cases rule: prepareCreate_cases) (auto simp: wrote_def)
  with body prep show "linked (w_db w')"
    by (cases q) (auto simp: create_body_def bindE_def dest: runOperation_linked)
next
  assume body: "replace_body E cid change hostId agentId actor context w = (r, w')" and "linked (w_db w)"
  from body show "linked (w_db w')" unfolding replace_body_def
  proof (cases rule: bind_reads [OF stable_current_dockerId, consumes 1, case_names thrown continues])
    case (continues dockerId)
    obtain q u where prep: "prepareReplace E cid change actor context w = (q, u)" by fastforce
    then have u: "linked (w_db u)"
      using \<open>linked (w_db w)\<close> by (cases rule: prepareReplace_cases) (auto simp: wrote_def)
    with continues(2) prep show ?thesis by (cases q) (auto simp: bindE_def dest: runOperation_linked)
  qed (simp add: \<open>linked (w_db w)\<close>)
next
  assume body: "remove_body E cid removal target agentId actor context w = (r, w')" and "linked (w_db w)"
  from body show "linked (w_db w')" unfolding remove_body_def
  proof (cases rule: bind_reads [OF stable_current_dockerId, consumes 1, case_names thrown continues])
    case (continues dockerId)
    obtain q u where tx: "transaction (insert_container_action E actor context ''container.remove'' cid (mt_hostId target)) w = (q, u)"
      by fastforce
    then have u: "linked (w_db u)"
      using \<open>linked (w_db w)\<close> by (cases rule: transaction_cases) (auto elim!: insert_container_action_Inr)
    with continues(2) tx show ?thesis
      by (cases q) (auto simp: bindE_def [of "transaction _"] audit_container_def run dest: runOperation_linked)
  qed (simp add: \<open>linked (w_db w)\<close>)
qed


definition keeps_linked :: "'a handler \<Rightarrow> bool" where
  "keeps_linked m \<longleftrightarrow> stable (preserves (\<lambda>w. linked (w_db w))) m"

lemma linked_step: "stable linked_rel m \<Longrightarrow> keeps_linked m"
  unfolding keeps_linked_def by (erule stable_mono) (simp add: linked_rel_def preserves_def)

lemma linked_reads: "stable (keeps (\<lambda>w. w)) m \<Longrightarrow> (\<And>a. keeps_linked (k a)) \<Longrightarrow> keeps_linked (bindE m k)"
  unfolding keeps_linked_def
  by (intro inv.stable_bind) (auto elim!: stable_mono simp: keeps_def preserves_def)

lemma linked_body:
  assumes "\<And>w r w'. body w = (r, w') \<Longrightarrow> linked (w_db w) \<Longrightarrow> linked (w_db w')"
  shows "keeps_linked body"
  unfolding keeps_linked_def
proof (rule stableI)
  fix w
  obtain r w' where "body w = (r, w')" by fastforce
  with assms [OF this] show "preserves (\<lambda>w. linked (w_db w)) w (snd (body w))" by (simp add: preserves_def)
qed

lemma linked_lock:
  assumes "keeps_linked body"
  shows "keeps_linked (with_lock key name body)"
proof (rule linked_body)
  fix w r w'
  assume "with_lock key name body w = (r, w')" "linked (w_db w)"
  then show "linked (w_db w')"
  proof (cases rule: with_lock_cases [consumes 1, case_names busy locked])
    case (locked held t released)
    with stableD [OF assms [unfolded keeps_linked_def] locked(1)] \<open>linked (w_db w)\<close> show ?thesis by (simp add: preserves_def)
  qed simp
qed

lemma changes_linked:
  "keeps_linked (create_container E request actor context)"
  "keeps_linked (replace_container E cid change actor context)"
  "keeps_linked (remove_container E cid removal actor context)"
proof -
  have bodies: "keeps_linked (create_body E request hostId agentId actor context)"
    "keeps_linked (replace_body E cid change hostId agentId actor context)"
    "keeps_linked (remove_body E cid removal target agentId actor context)" for hostId agentId target
    by (rule linked_body, erule bodies_linked, assumption)+
  show "keeps_linked (create_container E request actor context)"
    "keeps_linked (replace_container E cid change actor context)"
    "keeps_linked (remove_container E cid removal actor context)"
    unfolding create_container_def replace_container_def remove_container_def
    by (intro linked_reads linked_lock bodies stable_change_host stable_reachableAgent stable_assertNameFree stable_mutable)+
qed

lemma recover_linked: "linked (w_db w) \<Longrightarrow> linked (w_db (snd (recover_changes E operations n w)))"
proof (induction operations arbitrary: n w)
  case (Cons operation operations)
  obtain decision u where step: "reconcileAndFinalize E operation w = (Inr decision, u)" "linked (w_db u)"
    using reconcile_total [OF Cons.prems] by blast
  with Cons show ?case by (simp add: bindE_def getE_def)
qed (simp add: retE_def)

lemma recoverContainers_linked: "keeps_linked (recoverContainers E hostId)"
  unfolding recoverContainers_def unresolved_changes_def
proof (intro linked_reads stable_read_db linked_body)
  fix a w r w'
  assume go: "recover_changes E a 0 w = (r, w')" and "linked (w_db w)"
  from recover_linked [OF \<open>linked (w_db w)\<close>, of E a 0] go show "linked (w_db w')" by simp
qed

lemma operation_linked: "keeps_linked (run_operation E operation cid actor context)"
proof (rule linked_body)
  fix w r w'
  assume go: "run_operation E operation cid actor context w = (r, w')" and w: "linked (w_db w)"
  have requested: "stable linked_rel (requested E operation target actor context)" for target
    unfolding requested_def insert_container_action_def audit_action_def audit_container_def
    by (intro discovering.steps discovering.step_rows)
  have again: "stable linked_rel (reread E target)" for target
    unfolding reread_def by (intro discovering.steps discovering.step_detail)
  have out: "stable linked_rel (carry_out E agentId aid operation target actor context)" for agentId aid target
    unfolding carry_out_def succeed_def fail_def audit_action_def audit_container_def observed_or_def Let_def
    by (intro discovering.steps discovering.step_updates again)
  from go show "linked (w_db w')"
  proof (cases rule: run_operation_cases)
    case (unwritten held target e)
    with stableD [OF requested unwritten] w show ?thesis by (simp add: linked_rel_def)
  next
    case (asked held target agentId aid u t released)
    with stableD [OF requested asked(1)] stableD [OF out asked(2)] w show ?thesis by (simp add: linked_rel_def)
  qed (simp add: w)
qed

section \<open>Secrets stay sealed\<close>

lemma sealed_keeps: "stable (keeps (\<lambda>w. containerEnvironmentVariables (w_db w))) m \<Longrightarrow> stable (sealed_rel E plain) m"
  by (erule stable_mono) (simp add: keeps_def sealed_rel_def sealed_def)

text \<open>A step whose result is used in a state that was sealed when it began.\<close>

lemma sealed_bind:
  assumes "stable (sealed_rel E plain) m" and "\<And>a w u. m w = (Inr a, u) \<Longrightarrow> sealed E plain (w_db w) \<Longrightarrow> stable (sealed_rel E plain) (f a)"
  shows "stable (sealed_rel E plain) (bindE m f)"
proof (rule stableI)
  fix w
  obtain r u where m: "m w = (r, u)" by fastforce
  have u: "sealed_rel E plain w u" by (rule stableD [OF assms(1) m])
  show "sealed_rel E plain w (snd (bindE m f w))"
  proof (cases r)
    case (Inl e)
    with m u show ?thesis by (simp add: bindE_def)
  next
    case (Inr a)
    with assms(2) m have "sealed E plain (w_db w) \<Longrightarrow> sealed_rel E plain u (snd (f a u))" by (simp add: stable_def)
    with m Inr u show ?thesis by (auto simp: bindE_def sealed_rel_def)
  qed
qed

lemma sealed_candidate:
  assumes "list_all (sealed_variable E plain) environment"
  shows "stable (sealed_rel E plain) (insert_candidate E actor cid aid config environment)"
proof -
  have "stable (sealed_rel E plain) (put_configs g)" for g
    by (rule sealed_keeps, rule stable_put_configs) simp
  moreover have "stable (sealed_rel E plain) (insert_variables (map (\<lambda>variable. \<lparr>cv_desiredConfigId = configId, cv_variable = variable\<rparr>) environment))"
    for configId
    by (rule stableI) (use assms in \<open>auto simp: insert_variables_def Let_def sealed_rel_def sealed_def list_all_iff split: option.split\<close>)
  ultimately show ?thesis unfolding insert_candidate_def by (intro sealing.steps)
qed

lemma sealed_action: "stable (sealed_rel E plain) (insert_container_action E' actor context cap cid hostId)"
  unfolding insert_container_action_def by (intro sealing.steps sealing.step_rows)

lemma sealed_resolve: "stable (sealed_rel E plain) (resolveEnvironment E' entries previous)"
  by (rule sealed_keeps, rule resolveEnvironment_keeps) simp

lemma sealed_audit: "stable (sealed_rel E plain) (audit_container E' actor context cid name action result reason)"
  unfolding audit_container_def by (intro sealing.steps)

lemma sealed_spec: "stable (sealed_rel E plain) (stored_spec E' name configId)"
  by (rule sealed_keeps) (rule stable_stored_spec)

lemma sealed_prepareCreate:
  assumes "\<And>key value. set_entry key value \<in> set (cq_environment request) \<Longrightarrow> plain key value"
  shows "stable (sealed_rel E plain) (prepareCreate E request hostId actor context)"
  unfolding prepareCreate_def
proof (rule sealed_bind [OF sealed_resolve])
  fix environment and w u :: world
  assume "resolveEnvironment E (cq_environment request) [] w = (Inr environment, u)"
  from resolveEnvironment_sealed [OF _ assms this] have "list_all (sealed_variable E plain) environment" by simp
  from sealed_candidate [OF this] show "stable (sealed_rel E plain) (bindE (transaction (
      bindE (randomUUID E) (\<lambda>containerId.
      bindE now (\<lambda>observedAt.
      bindE (put_containers (\<lambda>rows. rows @ [(blank_row containerId hostId)\<lparr>c_name := cq_name request,
        c_image := cq_image request, c_state := ''creating'', c_observedAt := Some observedAt\<rparr>])) (\<lambda>_.
      bindE (insert_container_action E actor context ''container.create'' containerId hostId) (\<lambda>actionId.
      bindE (insert_candidate E actor containerId actionId (configurationOf request) environment) (\<lambda>configId.
      retE (containerId, actionId, configId)))))))) (\<lambda>(containerId, actionId, configId).
    bindE (audit_container E actor context containerId (cq_name request) ''container.create.requested'' ''success''
      (Some actionId)) (\<lambda>_.
    bindE (stored_spec E (cq_name request) configId) (\<lambda>spec.
    retE \<lparr>pr_containerId = containerId, pr_actionId = actionId, pr_desiredConfigId = configId,
      pr_name = cq_name request, pr_spec = spec\<rparr>))))"
    by (intro sealing.steps sealed_action sealed_audit sealed_spec)
qed

lemma sealed_from_stored:
  assumes "\<And>environment. list_all (sealed_variable E plain) environment \<Longrightarrow> stable (sealed_rel E plain) (k environment)"
    and "\<And>key value. set_entry key value \<in> set entries \<Longrightarrow> plain key value"
  shows "stable (sealed_rel E plain) (bindE (read_db (stored_variables configId)) (\<lambda>previous. bindE (resolveEnvironment E entries previous) k))"
proof (rule sealed_bind [OF sealing.step_read], rule sealed_bind [OF sealed_resolve])
  fix previous environment and w u w' u' :: world
  assume "read_db (stored_variables configId) w = (Inr previous, u)" "sealed E plain (w_db w)"
  then have "list_all (sealed_variable E plain) previous" by (auto simp: read_db_eq stored_variables_def sealed_def list_all_iff)
  moreover assume "resolveEnvironment E entries previous w' = (Inr environment, u')"
  ultimately have "list_all (sealed_variable E plain) environment"
    using resolveEnvironment_sealed assms(2) by blast
  then show "stable (sealed_rel E plain) (k environment)" by (rule assms(1))
qed

lemma sealed_prepareReplace:
  assumes "\<And>key value. set_entry key value \<in> set (cq_environment request) \<Longrightarrow> plain key value"
  shows "stable (sealed_rel E plain) (prepareReplace E cid request actor context)"
  unfolding prepareReplace_def Let_def
  by (rule sealing.stable_bind [OF sealing.step_read], rule sealing.stable_bind [OF sealing.step_read], rule sealing.stable_option,
      rule sealing.step_throw_app, rule sealed_from_stored)
    (intro sealing.steps sealed_action sealed_candidate sealed_audit sealed_spec, assumption, erule assms)

lemma variables_settled:
  "set (containerEnvironmentVariables (settled_tables x decision db)) \<subseteq> set (containerEnvironmentVariables db)"
  using variables_dropped by (cases decision) (auto simp: settled_tables_def Let_def)

lemma sealed_finalize: "stable (sealed_rel E plain) (finalize E' x decision)"
proof (rule stableI)
  fix w
  obtain r w' where fin: "finalize E' x decision w = (r, w')" by fastforce
  then show "sealed_rel E plain w (snd (finalize E' x decision w))"
  proof (cases rule: finalize_cases)
    case (finalized entry)
    with variables_settled [of x decision "w_db w"] fin show ?thesis by (auto simp: sealed_rel_def sealed_def)
  qed (simp add: fin sealed_rel_def)
qed

lemma sealed_reconcile: "stable (sealed_rel E plain) (reconcileAndFinalize E' operation)"
  unfolding reconcileAndFinalize_def classify_def claimedDockerIds_def
  by (intro sealing.steps sealing.step_resync sealed_finalize)

lemma sealed_recover: "stable (sealed_rel E plain) (recoverContainers E' hostId)"
proof -
  have "stable (sealed_rel E plain) (recover_changes E' operations n)" for operations n
    by (induction operations arbitrary: n) (auto intro!: sealing.stable_rules sealed_reconcile)
  then show ?thesis unfolding recoverContainers_def unresolved_changes_def by (intro sealing.steps)
qed

lemma sealed_runOperation: "stable (sealed_rel E plain) (runOperation E' operation)"
proof -
  have "stable (sealed_rel E plain) (report E' operation decision failure)" for decision failure
    unfolding report_def by (intro sealing.steps sealed_audit) (auto split: RecoveryDecision.split intro!: sealing.steps)
  then show ?thesis
    unfolding runOperation_def settle_change_def unresolved_change_def Let_def by (intro sealing.steps sealed_audit sealed_reconcile)
qed

lemma changes_sealed:
  "(\<And>key value. set_entry key value \<in> set (cq_environment request) \<Longrightarrow> plain key value) \<Longrightarrow>
     stable (sealed_rel E plain) (create_container E request actor context)"
  "(\<And>key value. set_entry key value \<in> set (cq_environment change) \<Longrightarrow> plain key value) \<Longrightarrow>
     stable (sealed_rel E plain) (replace_container E cid change actor context)"
  "stable (sealed_rel E plain) (remove_container E cid removal actor context)"
  unfolding create_container_def create_body_def replace_container_def replace_body_def remove_container_def remove_body_def
  by (intro sealing.steps sealing.step_with_lock sealed_prepareCreate sealed_prepareReplace sealed_runOperation sealed_action
      sealed_audit sealing.step_reads [OF stable_change_host] sealing.step_reads [OF stable_reachableAgent]
      sealing.step_reads [OF stable_assertNameFree] sealing.step_reads [OF stable_mutable]
      sealing.step_reads [OF stable_current_dockerId] | assumption)+

lemma requests_sealed:
  assumes "sealed E plain (w_db w)"
  shows "sealed E (said_plain (cq_environment request) (w_db w)) (w_db (snd (create_container E request actor context w)))"
    "sealed E (said_plain (cq_environment change) (w_db w)) (w_db (snd (replace_container E cid change actor context w)))"
proof -
  have first: "sealed E (said_plain entries (w_db w)) (w_db w)" for entries
    using assms by (rule sealed_said)
  have after: "sealed E p (w_db (snd (m w)))" if "stable (sealed_rel E p) m" "sealed E p (w_db w)" for p and m :: "'a handler"
    using that by (simp add: stable_def sealed_rel_def)
  show "sealed E (said_plain (cq_environment request) (w_db w)) (w_db (snd (create_container E request actor context w)))"
    by (rule after [OF changes_sealed(1) first]) (simp add: said_plain_def)
  show "sealed E (said_plain (cq_environment change) (w_db w)) (w_db (snd (replace_container E cid change actor context w)))"
    by (rule after [OF changes_sealed(2) first]) (simp add: said_plain_def)
qed

lemma operation_sealed: "stable (sealed_rel E plain) (run_operation E' operation cid actor context)"
proof (rule stableI)
  fix w
  have requested: "stable (sealed_rel E plain) (requested E' operation target actor context)" for target
    unfolding requested_def audit_action_def by (intro sealing.steps sealed_action sealed_audit)
  have again: "stable (sealed_rel E plain) (reread E' target)" for target
    unfolding reread_def by (intro sealing.steps sealing.step_detail)
  have out: "stable (sealed_rel E plain) (carry_out E' agentId aid operation target actor context)" for agentId aid target
    unfolding carry_out_def succeed_def fail_def audit_action_def observed_or_def Let_def
    by (intro sealing.steps sealing.step_updates sealed_audit again)
  obtain r w' where go: "run_operation E' operation cid actor context w = (r, w')" by fastforce
  then show "sealed_rel E plain w (snd (run_operation E' operation cid actor context w))"
  proof (cases rule: run_operation_cases)
    case (unwritten held target e)
    with stableD [OF requested unwritten] go show ?thesis by (simp add: sealed_rel_def)
  next
    case (asked held target agentId aid u t released)
    with stableD [OF requested asked(1)] stableD [OF out asked(2)] go show ?thesis by (simp add: sealed_rel_def)
  qed (simp add: go sealed_rel_def)
qed

end
