(* ===== verification/Server.thy ===== *)
theory Server
  imports Container_Frames
begin

text \<open>
  The server as a whole: the operations of the stack services and of the container services,
  discovery, detailed readings and recovery as the steps of one state machine, together with what
  happens to the process around them. Agents connect and disconnect, time passes, and the process may stop and start again,
  which empties its locks and may strand an attempt that was already written down.
\<close>

section \<open>Steps\<close>

definition rebooted :: "world \<Rightarrow> world" where
  "rebooted w = w\<lparr>w_held := Map.empty, w_registered := None\<rparr>"

inductive server_step :: "env \<Rightarrow> world \<Rightarrow> world \<Rightarrow> bool" for E where
  deployed: "server_step E w (snd (deploy E stackId revisionId actor context w))"
| operated: "server_step E w (snd (run_lifecycle E operation stackId actor context w))"
| deleted: "server_step E w (snd (delete E stackId actor context w))"
| recovered: "server_step E w (snd (recoverHost E hostId w))"
| discovered: "server_step E w (snd (sync E agentId w))"
| inspected: "server_step E w (snd (containerDetail E cid force w))"
| created: "server_step E w (snd (create_container E request actor context w))"
| replaced: "server_step E w (snd (replace_container E cid change actor context w))"
| removed: "server_step E w (snd (remove_container E cid removal actor context w))"
| container_operated: "server_step E w (snd (run_operation E container_operation cid actor context w))"
| containers_recovered: "server_step E w (snd (recoverContainers E hostId w))"
| connected: "server_step E w (w\<lparr>w_connected := up\<rparr>)"
| waited: "server_step E w (w\<lparr>w_clock := w_clock w + int n\<rparr>)"
| restarted: "server_step E w (rebooted w)"
| crashed_deploying: "\<lbrakk>\<not> unresolved_on (s_id stack) (w_db w);
    prepare E stack target from_revision kind plan names existing actor context w = (Inr prepared, v)\<rbrakk>
    \<Longrightarrow> server_step E w (rebooted v)"
| crashed_operating: "\<lbrakk>\<not> unresolved_on (s_id stack) (w_db w);
    prepare_operation E stack revisionId operation fingerprint actor context w = (Inr prepared, v)\<rbrakk>
    \<Longrightarrow> server_step E w (rebooted v)"
| crashed_deleting: "\<lbrakk>\<not> unresolved_on (s_id stack) (w_db w);
    prepare_delete E stack actor context w = (Inr prepared, v)\<rbrakk>
    \<Longrightarrow> server_step E w (rebooted v)"
| crashed_creating: "prepareCreate E request hostId actor context w = (created_change, v) \<Longrightarrow> server_step E w (rebooted v)"
| crashed_replacing: "prepareReplace E cid change actor context w = (replaced_change, v) \<Longrightarrow> server_step E w (rebooted v)"
| crashed_removing: "transaction (insert_container_action E actor context ''container.remove'' cid hostId) w = (removed_change, v)
    \<Longrightarrow> server_step E w (rebooted v)"

inductive_cases server_stepE: "server_step E w w'"

section \<open>What every step keeps\<close>

text \<open>
  At most one attempt or operation of a stack is open, identifiers are not given out twice, and
  a stack that is shown as deploying has an attempt that is open.
\<close>

definition open_on :: "string \<Rightarrow> database \<Rightarrow> nat" where
  "open_on sid db = length (filter (\<lambda>d. d_stackId d = sid \<and> unresolved (d_status d)) (stackDeployments db))
     + length (filter (\<lambda>d. o_stackId d = sid \<and> unresolved (o_status d)) (stackOperations db))"

definition well_kept :: "database \<Rightarrow> bool" where
  "well_kept db \<longleftrightarrow> (\<forall>sid. open_on sid db \<le> 1)
     \<and> distinct (map d_id (stackDeployments db)) \<and> distinct (map o_id (stackOperations db))
     \<and> (\<forall>s \<in> set (stacks db). s_status s = ''deploying'' \<longrightarrow>
          (\<exists>d \<in> set (stackDeployments db). d_stackId d = s_id s \<and> unresolved (d_status d)))"

lemma open_on_0: "open_on sid db = 0 \<longleftrightarrow> \<not> unresolved_on sid db"
  by (simp add: open_on_def unresolved_on_def filter_empty_conv list_ex_iff)

lemma well_kept_cong:
  "stacks db' = stacks db \<Longrightarrow> stackDeployments db' = stackDeployments db \<Longrightarrow> stackOperations db' = stackOperations db \<Longrightarrow>
   well_kept db' = well_kept db"
  by (simp add: well_kept_def open_on_def)

text \<open>A new attempt or operation of a stack on which nothing was open.\<close>

lemma well_kept_attempt:
  assumes "well_kept db" and "\<not> unresolved_on sid db"
    and "stackDeployments db' = stackDeployments db @ [d]" "d_id d \<notin> d_id ` set (stackDeployments db)" "d_stackId d = sid"
    and "stackOperations db' = stackOperations db"
    and "\<And>s. s \<in> set (stacks db') \<Longrightarrow> s_status s = ''deploying'' \<Longrightarrow>
      (s_id s = sid \<and> unresolved (d_status d)) \<or> (\<exists>s0 \<in> set (stacks db). s_id s0 = s_id s \<and> s_status s0 = ''deploying'')"
  shows "well_kept db'"
proof -
  have open_sid: "open_on i db' = open_on i db + (if i = sid \<and> unresolved (d_status d) then 1 else 0)" for i
    using assms(3,5,6) by (simp add: open_on_def)
  have "open_on i db' \<le> 1" for i
    using open_sid [of i] assms(1,2) open_on_0 [of sid db] by (auto simp: well_kept_def)
  moreover have "\<exists>d \<in> set (stackDeployments db'). d_stackId d = s_id s \<and> unresolved (d_status d)"
    if "s \<in> set (stacks db')" "s_status s = ''deploying''" for s
    using assms(7) [OF that] assms(1,3,5) unfolding well_kept_def by fastforce
  ultimately show ?thesis using assms(1,3,4,6) by (auto simp: well_kept_def)
qed

lemma well_kept_operation:
  assumes "well_kept db" and "\<not> unresolved_on sid db"
    and "stackOperations db' = stackOperations db @ [d]" "o_id d \<notin> o_id ` set (stackOperations db)" "o_stackId d = sid"
    and "stackDeployments db' = stackDeployments db"
    and "stacks db' = upd (\<lambda>s. s_id s = sid) f (stacks db)" "\<And>s. s_id (f s) = s_id s"
      "\<And>s. s_status s \<noteq> ''deploying'' \<Longrightarrow> s_status (f s) \<noteq> ''deploying''"
  shows "well_kept db'"
proof -
  have "open_on i db' = open_on i db + (if i = sid \<and> unresolved (o_status d) then 1 else 0)" for i
    using assms(3,5,6) by (simp add: open_on_def)
  then have "open_on i db' \<le> 1" for i
    using assms(1,2) open_on_0 [of sid db] by (auto simp: well_kept_def)
  moreover have "s_status s \<noteq> ''deploying''" if s: "s \<in> set (stacks db')" "s_id s = sid" for s
  proof -
    obtain s0 where "s0 \<in> set (stacks db)" "s_id s0 = sid" "s = f s0"
      using s assms(7,8) by (auto simp: in_upd_iff split: if_splits)
    with assms(1,2,9) show ?thesis unfolding well_kept_def unresolved_on_def list_ex_iff by metis
  qed
  then have "\<exists>d \<in> set (stackDeployments db'). d_stackId d = s_id s \<and> unresolved (d_status d)"
    if s: "s \<in> set (stacks db')" "s_status s = ''deploying''" for s
  proof -
    obtain r where "r \<in> set (stacks db)" "s = (if s_id r = sid then f r else r)"
      using s(1) unfolding assms(7) in_upd_iff by blast
    with \<open>\<And>s. s \<in> set (stacks db') \<Longrightarrow> s_id s = sid \<Longrightarrow> s_status s \<noteq> ''deploying''\<close> [OF s(1)] s(2)
    have "s \<in> set (stacks db)" by (auto simp: assms(8) split: if_splits)
    with assms(1,6) s(2) show ?thesis unfolding well_kept_def by auto
  qed
  ultimately show ?thesis using assms(1,3,4,6) by (auto simp: well_kept_def)
qed

text \<open>Settling what is open keeps it.\<close>

lemma closes_attempt_kept:
  assumes "closes_attempt did sid db db'" and "well_kept db"
    and own: "\<forall>r \<in> set (stackDeployments db). d_id r = did \<longrightarrow> d_stackId r = sid"
  shows "well_kept db'"
proof -
  obtain f g where stacks: "stacks db' = upd (\<lambda>s. s_id s = sid) f (stacks db)"
    and f: "\<And>s. s_id (f s) = s_id s \<and> s_status (f s) \<noteq> ''deploying''"
    and rows: "stackDeployments db' = upd (\<lambda>d. d_id d = did) g (stackDeployments db)"
    and g: "\<And>d. \<not> unresolved (d_status (g d)) \<and> d_id (g d) = d_id d \<and> d_stackId (g d) = d_stackId d"
    and ops: "stackOperations db' = stackOperations db"
    using assms(1) unfolding closes_attempt_def by blast
  have "open_on i db' \<le> open_on i db" for i
    unfolding open_on_def rows ops using g by (intro add_mono filter_upd_le) auto
  then have "open_on i db' \<le> 1" for i using assms(2) le_trans unfolding well_kept_def by blast
  moreover have "\<exists>d \<in> set (stackDeployments db'). d_stackId d = s_id s \<and> unresolved (d_status d)"
    if s: "s \<in> set (stacks db')" "s_status s = ''deploying''" for s
  proof -
    obtain r where "r \<in> set (stacks db)" "s = (if s_id r = sid then f r else r)"
      using s(1) unfolding stacks in_upd_iff by blast
    with s(2) f have "s \<in> set (stacks db)" "s_id s \<noteq> sid" by (metis (full_types))+
    then obtain d where d: "d \<in> set (stackDeployments db)" "d_stackId d = s_id s" "unresolved (d_status d)"
      using assms(2) s(2) unfolding well_kept_def by blast
    with own \<open>s_id s \<noteq> sid\<close> have "d_id d \<noteq> did" by auto
    with d show ?thesis unfolding rows by (intro bexI [of _ d]) (auto simp: in_upd_iff)
  qed
  ultimately show ?thesis
    using assms(2) g unfolding well_kept_def rows ops by (simp add: map_upd_same)
qed

lemma settles_operation_kept:
  assumes "settles_operation oid sid moved v db db'" and "well_kept db" and "v \<noteq> Undecided" and "moved \<noteq> ''deploying''"
  shows "well_kept db'"
proof -
  obtain g where stacks: "stacks db' = upd (\<lambda>s. s_id s = sid) (stack_after_operation moved v) (stacks db)"
    and rows: "stackOperations db' = upd (\<lambda>d. o_id d = oid) g (stackOperations db)"
    and g: "\<And>d. o_status (g d) = operation_status v \<and> o_id (g d) = o_id d \<and> o_stackId (g d) = o_stackId d"
    and same: "stackDeployments db' = stackDeployments db"
    using assms(1) unfolding settles_operation_def by blast
  have "open_on i db' \<le> open_on i db" for i
    unfolding open_on_def rows same using g unresolved_verdicts(2) [of v] assms(3) by (intro add_mono filter_upd_le) auto
  then have "open_on i db' \<le> 1" for i using assms(2) le_trans unfolding well_kept_def by blast
  moreover have "\<exists>s0 \<in> set (stacks db). s_id s0 = s_id s \<and> s_status s0 = ''deploying''"
    if "s \<in> set (stacks db')" "s_status s = ''deploying''" for s
    using that assms(4) unfolding stacks
    by (cases v) (auto simp: in_upd_iff stack_after_operation_def split: if_splits)
  ultimately show ?thesis
    using assms(2) g unfolding well_kept_def rows same by (simp add: map_upd_same) metis
qed

lemma purged_kept:
  assumes "purged sid rows db db'" and "well_kept db"
  shows "well_kept db'"
proof -
  have "open_on i db' \<le> open_on i db" for i
    using assms(1) unfolding open_on_def purged_def by (simp add: add_mono filter_del_le)
  then have "open_on i db' \<le> 1" for i using assms(2) le_trans unfolding well_kept_def by blast
  moreover have "distinct (map d_id (stackDeployments db'))" "distinct (map o_id (stackOperations db'))"
    using assms unfolding purged_def well_kept_def by (simp_all add: del_def distinct_map_filter)
  moreover have "\<exists>d \<in> set (stackDeployments db'). d_stackId d = s_id s \<and> unresolved (d_status d)"
    if s: "s \<in> set (stacks db')" "s_status s = ''deploying''" for s
  proof -
    have "s \<in> set (stacks db)" "s_id s \<noteq> sid" using s(1) assms(1) by (simp_all add: purged_def in_del_iff)
    then obtain d where "d \<in> set (stackDeployments db)" "d_stackId d = s_id s" "unresolved (d_status d)"
      using assms(2) s(2) unfolding well_kept_def by blast
    with \<open>s_id s \<noteq> sid\<close> assms(1) show ?thesis by (intro bexI [of _ d]) (simp_all add: purged_def in_del_iff)
  qed
  ultimately show ?thesis unfolding well_kept_def by blast
qed

section \<open>Recovery\<close>

definition owned_attempt :: "Unfinished \<Rightarrow> database \<Rightarrow> bool" where
  "owned_attempt d db \<longleftrightarrow> (\<forall>r \<in> set (stackDeployments db). d_id r = un_id d \<longrightarrow> d_stackId r = un_stackId d)"

lemma closes_attempt_owned:
  assumes "closes_attempt did sid db db'" and "owned_attempt d db"
  shows "owned_attempt d db'"
proof -
  obtain g where "stackDeployments db' = upd (\<lambda>d. d_id d = did) g (stackDeployments db)"
    and "\<And>d. d_id (g d) = d_id d \<and> d_stackId (g d) = d_stackId d"
    using assms(1) unfolding closes_attempt_def by blast
  with assms(2) show ?thesis by (auto simp: owned_attempt_def in_upd_iff split: if_splits)
qed

lemma found_attempts_owned:
  assumes "distinct (map d_id (stackDeployments db))" and "x \<in> set (found_attempts hostId db)"
  shows "owned_attempt x db"
proof -
  obtain d where "d \<in> set (stackDeployments db)" "un_id x = d_id d" "un_stackId x = d_stackId d"
    using assms(2) by (auto simp: found_attempts_def map_filter_iff split: if_splits)
  with assms(1) show ?thesis unfolding owned_attempt_def by (metis distinct_map inj_onD)
qed

lemma recover_deployments_kept:
  "well_kept (w_db w) \<Longrightarrow> \<forall>d \<in> set ds. owned_attempt d (w_db w) \<Longrightarrow>
   well_kept (w_db (snd (recover_deployments E ds n w)))"
proof (induction ds arbitrary: w n)
  case Nil
  then show ?case by (simp add: retE_def)
next
  case (Cons d ds)
  obtain u where step: "recover_deployment E d w = (Inr True, u)"
    using recover_deployment_run(1) [OF refl] by (metis prod.collapse)
  have closes: "closes_attempt (un_id d) (un_stackId d) (w_db w) (w_db u)"
    using recover_deployment_closes [of d w E] step by simp
  have "well_kept (w_db u)"
    using closes_attempt_kept [OF closes Cons.prems(1)] Cons.prems(2) by (simp add: owned_attempt_def)
  moreover have "\<forall>d \<in> set ds. owned_attempt d (w_db u)" using closes_attempt_owned [OF closes] Cons.prems(2) by simp
  ultimately show ?case
    using Cons step by (simp add: stack_busy_def bindE_def getE_def)
qed

lemma recover_one_kept:
  assumes "well_kept (w_db w)"
  shows "well_kept (w_db (snd ((if uo_type d = ''delete'' then recover_deletion E d else recover_operation E d) w)))"
proof (cases "uo_type d = ''delete''")
  case True
  with recover_deletion_refines(2) [of d w E] purged_kept settles_operation_kept [of _ _ "[]"] assms
  show ?thesis by auto
next
  case False
  have "RUNTIME_STATUS k \<noteq> ''deploying''" for k by (cases k) (simp_all add: RUNTIME_STATUS_def)
  note moved = this
  show ?thesis
  proof (cases rule: recover_operation_refines [of E d w, case_names settled undecided])
    case (settled observed v outcome)
    from settles_operation_kept [OF settled(5) assms settled(4) moved] show ?thesis using False by simp
  next
    case (undecided observed v)
    with assms well_kept_cong [of "w_db v" "w_db w"] show ?thesis using False by (simp add: outside_discovery_def)
  qed
qed

lemma recover_operations_kept:
  "well_kept (w_db w) \<Longrightarrow> well_kept (w_db (snd (recover_operations E ds n w)))"
proof (induction ds arbitrary: w n)
  case (Cons d ds)
  let ?step = "if uo_type d = ''delete'' then recover_deletion E d else recover_operation E d"
  obtain r u where step: "?step w = (r, u)" by fastforce
  then have "well_kept (w_db u)" using recover_one_kept [OF Cons.prems, of d E] by simp
  with Cons step show ?case
    by (cases r) (auto simp: stack_busy_def bindE_def getE_def)
qed (simp add: retE_def)

lemma recoverHost_kept:
  assumes "well_kept (w_db w)"
  shows "well_kept (w_db (snd (recoverHost E hostId w)))"
proof -
  let ?ds = "found_attempts hostId (w_db w)" and ?os = "found_operations hostId (w_db w)"
  obtain whole v where resync: "resync E hostId w = (Inr whole, v)" using resync_total by blast
  note same = keepsD [OF stable_resync resync]
  then have v: "well_kept (w_db v)" using assms well_kept_cong [of "w_db v" "w_db w"] by (simp add: outside_discovery_def)
  have "\<forall>d \<in> set ?ds. owned_attempt d (w_db v)"
    using found_attempts_owned assms same by (auto simp: well_kept_def owned_attempt_def outside_discovery_def)
  note kept = recover_deployments_kept [OF v this, of E 0]
  obtain r u where loop: "recover_deployments E ?ds 0 v = (r, u)" by fastforce
  with kept have "well_kept (w_db u)" by simp
  then show ?thesis
    using resync loop assms v recover_operations_kept [of u E ?os]
    by (cases r) (auto simp: recoverHost_def run readCompletely_def bindE_def [of "resync _ _"]
        bindE_def [of "recover_deployments _ _ _"])
qed

section \<open>Every step\<close>

lemma deploying_status:
  "s_status (stack_after target f t v (deploying target s)) = ''deploying'' \<longleftrightarrow> v = Undecided"
  by (simp add: stack_after_def deploying_def split: verdict.split)

lemma deploy_kept:
  assumes "well_kept (w_db w)"
  shows "well_kept (w_db (snd (deploy E stackId revisionId actor context w)))"
proof -
  obtain r w' where run: "deploy E stackId revisionId actor context w = (r, w')" by fastforce
  from deploy_outcome [OF run] have "well_kept (w_db w')"
  proof (elim disjE exE conjE)
    assume "stack_tables (w_db w') = stack_tables (w_db w)"
    then show ?thesis using assms well_kept_cong [of "w_db w'" "w_db w"] by (simp add: stack_tables_def)
  next
    fix f v t rq d
    assume open': "\<not> unresolved_on stackId (w_db w)" and d: "stackDeployments (w_db w') = stackDeployments (w_db w) @ [d]"
      "d_id d \<notin> d_id ` set (stackDeployments (w_db w))" "d_stackId d = stackId" "d_status d = attempt_status f v"
      and ops: "stackOperations (w_db w') = stackOperations (w_db w)"
      and stacks: "stacks (w_db w') = upd (\<lambda>s. s_id s = stackId)
          (\<lambda>s. stack_after revisionId f t v (deploying revisionId s)) (stacks (w_db w))"
    show ?thesis
      by (rule well_kept_attempt [OF assms open' d(1-3) ops])
        (auto simp: stacks in_upd_iff d(4) deploying_status unresolved_verdicts split: if_splits)
  next
    fix d
    assume open': "\<not> unresolved_on stackId (w_db w)" and d: "stackDeployments (w_db w') = stackDeployments (w_db w) @ [d]"
      "d_id d \<notin> d_id ` set (stackDeployments (w_db w))" "d_stackId d = stackId" "d_status d = ''running''"
      and ops: "stackOperations (w_db w') = stackOperations (w_db w)"
      and stacks: "stacks (w_db w') = upd (\<lambda>s. s_id s = stackId) (deploying revisionId) (stacks (w_db w))"
    show ?thesis
      by (rule well_kept_attempt [OF assms open' d(1-3) ops])
        (auto simp: stacks in_upd_iff d(4) unresolved_def split: if_splits)
  qed
  with run show ?thesis by simp
qed

lemma operation_status_kept:
  "moved \<noteq> ''deploying'' \<Longrightarrow> s_status s \<noteq> ''deploying'' \<Longrightarrow> s_status (stack_after_operation moved v s) \<noteq> ''deploying''"
  by (simp add: stack_after_operation_def split: verdict.split)

lemma lifecycle_kept:
  assumes "well_kept (w_db w)"
  shows "well_kept (w_db (snd (run_lifecycle E operation stackId actor context w)))"
proof -
  obtain r w' where run: "run_lifecycle E operation stackId actor context w = (r, w')" by fastforce
  have moved: "RESULT_STATUS operation \<noteq> ''deploying''" by (cases operation) (simp_all add: RESULT_STATUS_def)
  from lifecycle_outcome [OF run] have "well_kept (w_db w')"
  proof (elim disjE exE conjE)
    assume "quiet w' = quiet w"
    then show ?thesis using assms well_kept_cong [of "w_db w'" "w_db w"] by (simp add: quiet_def)
  next
    fix v rq d
    assume "\<not> unresolved_on stackId (w_db w)" "stackOperations (w_db w') = stackOperations (w_db w) @ [d]"
      "o_id d \<notin> o_id ` set (stackOperations (w_db w))" "o_stackId d = stackId"
      "stackDeployments (w_db w') = stackDeployments (w_db w)"
      "stacks (w_db w') = upd (\<lambda>s. s_id s = stackId) (stack_after_operation (RESULT_STATUS operation) v) (stacks (w_db w))"
    from well_kept_operation [OF assms this] operation_status_kept [OF moved] show ?thesis by simp
  qed
  with run show ?thesis by simp
qed

lemma delete_kept:
  assumes "well_kept (w_db w)"
  shows "well_kept (w_db (snd (delete E stackId actor context w)))"
proof -
  obtain r w' where run: "delete E stackId actor context w = (r, w')" by fastforce
  from delete_outcome [OF run] have "well_kept (w_db w')"
  proof (elim disjE exE conjE)
    assume "quiet w' = quiet w"
    then show ?thesis using assms well_kept_cong [of "w_db w'" "w_db w"] by (simp add: quiet_def)
  next
    fix stack :: stack_row and rq v d
    assume "\<not> unresolved_on stackId (w_db w)" "stackOperations (w_db w') = stackOperations (w_db w) @ [d]"
      "o_id d \<notin> o_id ` set (stackOperations (w_db w))" "o_stackId d = stackId"
      "stackDeployments (w_db w') = stackDeployments (w_db w)"
      "stacks (w_db w') = upd (\<lambda>s. s_id s = stackId) (stack_after_operation [] v) (stacks (w_db w))"
    from well_kept_operation [OF assms this] operation_status_kept [of "[]"] show ?thesis by simp
  qed (rule purged_kept [OF _ assms], assumption)+
  with run show ?thesis by simp
qed

lemma rebooted_kept [simp]: "w_db (rebooted w) = w_db w" "mutations (rebooted w) = mutations w"
  by (simp_all add: rebooted_def mutations_def)

lemma prepare_kept:
  assumes "prepare E stack target from_revision kind plan names existing actor context w = (Inr prepared, v)"
    and "\<not> unresolved_on (s_id stack) (w_db w)" and "well_kept (w_db w)"
  shows "well_kept (w_db v)" "mutations v = mutations w"
proof -
  obtain did aid allocated where p: "prepared = (did, aid, allocated)" by (cases prepared)
  note facts = prepare_Inr [OF assms(1) [unfolded p]]
  obtain row n news where v: "v = w\<lparr>w_fresh := n, w_db := (w_db w)\<lparr>
      actions := actions (w_db w) @ [row],
      stackDeployments := stackDeployments (w_db w) @ [new_deployment stack target from_revision kind actor aid did],
      containers := containers (w_db w) @ news,
      stacks := upd (\<lambda>s. s_id s = s_id stack) (\<lambda>s. s\<lparr>s_desiredRevisionId := Some (r_id target),
        s_status := ''deploying''\<rparr>) (stacks (w_db w))\<rparr>\<rparr>"
    using facts(1) by blast
  show "mutations v = mutations w" by (simp add: v)
  show "well_kept (w_db v)"
    by (rule well_kept_attempt [OF assms(3,2), of _ "new_deployment stack target from_revision kind actor aid did"])
      (use facts(2) in \<open>auto simp: v new_deployment_def in_upd_iff unresolved_def split: if_splits\<close>)
qed

text \<open>The container services do not touch the rows of the stacks.\<close>

lemma rows_kept:
  assumes "stable (keeps stack_rows) m" and "well_kept (w_db w)"
  shows "well_kept (w_db (snd (m w)))"
  using assms well_kept_cong [of "w_db (snd (m w))" "w_db w"] by (simp add: stable_def keeps_def stack_rows_def)

lemma crash_rows_kept:
  assumes "stable (keeps stack_rows) m" and "m w = (r, v)" and "well_kept (w_db w)"
  shows "well_kept (w_db (rebooted v))"
  using rows_kept [OF assms(1,3)] assms(2) by simp

lemma server_step_kept: "server_step E w w' \<Longrightarrow> well_kept (w_db w) \<Longrightarrow> well_kept (w_db w')"
proof (induction rule: server_step.induct)
  case (discovered w agentId)
  with sync_outside [of E agentId] well_kept_cong [of "w_db (snd (sync E agentId w))" "w_db w"] show ?case
    by (simp add: stable_def keeps_def outside_discovery_def)
next
  case (inspected w cid force)
  have "stable (keeps outside_discovery) (containerDetail E cid force)"
    by (rule containerDetail_keeps) (rule outside_detail_discovery)
  with inspected well_kept_cong [of "w_db (snd (containerDetail E cid force w))" "w_db w"] show ?case
    by (simp add: stable_def keeps_def outside_discovery_def)
next
  case (crashed_operating stack w revisionId operation fingerprint actor _ prepared v)
  obtain oid aid where p: "prepared = (oid, aid)" by (cases prepared)
  note facts = prepare_operation_Inr [OF crashed_operating(2) [unfolded p]]
  from facts(1) obtain row where row: "stackOperations (w_db v) = stackOperations (w_db w) @ [row]" "o_id row = oid"
    "o_stackId row = s_id stack" by blast
  show ?case
    using well_kept_operation [OF crashed_operating(3,1) row(1) _ row(3) facts(4), of "\<lambda>s. s"] facts(2,3) row(2)
    by (simp add: rebooted_def)
next
  case (crashed_deleting stack w actor _ prepared v)
  obtain oid aid where p: "prepared = (oid, aid)" by (cases prepared)
  note facts = prepare_delete_Inr [OF crashed_deleting(2) [unfolded p]]
  from facts(1) obtain row where row: "stackOperations (w_db v) = stackOperations (w_db w) @ [row]" "o_id row = oid"
    "o_stackId row = s_id stack" by blast
  show ?case
    using well_kept_operation [OF crashed_deleting(3,1) row(1) _ row(3) facts(4), of "\<lambda>s. s"] facts(2,3) row(2)
    by (simp add: rebooted_def)
next
  case (crashed_creating request hostId actor _ w _ v)
  from crash_rows_kept [OF rows_prepare(2) this] show ?case .
next
  case (crashed_replacing cid change actor _ w _ v)
  from crash_rows_kept [OF rows_prepare(3) this] show ?case .
next
  case (crashed_removing actor _ cid hostId w _ v)
  from crash_rows_kept [OF rows_transaction [OF rows_prepare(1)] this] show ?case .
qed (simp_all add: deploy_kept lifecycle_kept delete_kept recoverHost_kept prepare_kept rows_kept rows_changes rows_operation rows_recover)

section \<open>Locks\<close>

lemma held_outside: "stable (keeps outside_discovery) m \<Longrightarrow> stable (keeps w_held) m"
  by (erule stable_mono) (simp add: keeps_def outside_discovery_def)

lemma held_calm: "stable (keeps calm) m \<Longrightarrow> stable (keeps w_held) m"
  by (erule stable_mono) (simp add: keeps_def calm_def)

lemma held_ignores: "ignores_db w_held"
  by (simp add: ignores_db_def)

lemma held_insert_action: "stable (keeps w_held) (insert_running_action E actor context capability stack)"
  unfolding insert_running_action_def
  by (intro frame.stable_rules stable_now table_steps held_ignores stable_randomUUID) simp_all

lemma held_allocate: "stable (keeps w_held) (allocate E stack names held services)"
  by (induction services)
    (auto intro!: frame.stable_rules table_steps held_ignores stable_randomUUID split: option.split)

lemma held_prepare:
  "stable (keeps w_held) (prepare E stack target from_revision kind plan names existing actor context)"
  "stable (keeps w_held) (prepare_operation E stack revisionId operation fingerprint actor context)"
  "stable (keeps w_held) (prepare_delete E stack actor context)"
  unfolding prepare_def prepare_operation_def prepare_delete_def
  by (intro table_transaction held_ignores frame.stable_rules table_steps held_insert_action held_allocate
      stable_randomUUID; simp)+

lemma held_dispatch: "stable (keeps w_held) (dispatch_request E a c p)"
  by (intro stable_dispatch) simp

lemma held_run_attempt: "stable (keeps w_held) (run_attempt E attempt)"
  using run_attempt_refines by (intro stableI) (metis keeps_def prod.collapse)

lemma held_dispatchAndSettle: "stable (keeps w_held) (dispatchAndSettle E attempt)"
  using dispatchAndSettle_refines by (intro stableI) (metis keeps_def prod.collapse)

lemma held_removeThenFinalize: "stable (keeps w_held) (removeThenFinalize E attempt)"
  unfolding removeThenFinalize_def observe_delete_def observedClaims_def Let_def
  by (intro frame.stable_rules held_dispatch held_outside [OF stable_resync] stable_stackContainers
      held_calm [OF settle_delete_calm] held_calm [OF delete_records_calm(1)])

lemma held_deploy_locked:
  "stable (keeps w_held) (deploy_locked E stack target from_revision kind agentId actor context)"
  unfolding deploy_locked_def
  by (intro frame.stable_rules stable_compile stable_liftE stable_stackContainers stable_assertNamesAreFree
      held_prepare table_steps held_ignores held_run_attempt)

lemma held_run_locked: "stable (keeps w_held) (run_locked E operation stack agentId actor context)"
proof -
  have "stable (keeps w_held) (containerDetail E cid force)" for cid force
    by (rule containerDetail_keeps) (simp add: outside_detail_def)
  then show ?thesis
    unfolding run_locked_def fingerprintOf_def fingerprint_of_def
    by (intro frame.stable_rules stable_deployedServices held_prepare table_steps held_ignores held_dispatchAndSettle)
qed

lemma held_delete_body:
  "stable (keeps w_held) (delete_deployed E stack volumes actor context)"
  "stable (keeps w_held) (deleteNeverDeployed E stack volumes actor context)"
  unfolding delete_deployed_def deleteNeverDeployed_def
  by (intro frame.stable_rules stable_connectedAgent stable_removed_services held_prepare table_steps held_ignores
      held_removeThenFinalize stable_read_db stable_throw_app stable_assertStackAttribution
      held_calm [OF purge_calm])+

text \<open>Whatever comes before an operation takes its lock only reads.\<close>

lemma bind_held:
  assumes "stable (keeps (\<lambda>w. w)) m" and "\<And>a. w_held (snd (f a w)) = w_held w"
  shows "w_held (snd (bindE m f w)) = w_held w"
proof -
  obtain r w' where run: "bindE m f w = (r, w')" by fastforce
  from assms(1) run show ?thesis
  proof (cases rule: bind_reads [consumes 2, case_names thrown continues])
    case (continues a)
    with assms(2) [of a] run show ?thesis by simp
  qed (simp add: run)
qed

lemma deploy_held:
  assumes "w_held w (stackKey stackId) \<noteq> Some []"
  shows "w_held (snd (deploy E stackId revisionId actor context w)) = w_held w"
  unfolding deploy_def
  by (intro bind_held stable_find_stack stable_revision_of from_revision_reads)
    (auto simp: throw_app_def throwE_def assertNoUnresolvedDeployment_def split: option.split
      intro!: bind_held with_lock_restores held_deploy_locked assms)

lemma lifecycle_held:
  assumes "w_held w (stackKey stackId) \<noteq> Some []"
  shows "w_held (snd (run_lifecycle E operation stackId actor context w)) = w_held w"
  unfolding run_lifecycle_def
  by (intro bind_held stable_operable stable_connectedAgent with_lock_restores held_run_locked assms)

lemma delete_held:
  assumes "w_held w (stackKey stackId) \<noteq> Some []"
  shows "w_held (snd (delete E stackId actor context w)) = w_held w"
  unfolding delete_def
  by (intro bind_held stable_deletable with_lock_restores frame.stable_rules stable_volumesOf held_delete_body assms)

section \<open>Refusals and requests\<close>

lemma lifecycle_blocked:
  assumes "unresolved_on stackId (w_db w)"
  shows "\<exists>e. run_lifecycle E operation stackId actor context w = (Inl (AppErr e), w)"
proof -
  have "\<exists>e. operable stackId w = (Inl (AppErr e), w)"
    using assms
    by (auto simp: operable_def find_stack_def assertNotArchived_def assertNothingUnresolved_run run
        bindE_def [of "assertNothingUnresolved stackId"] split: option.split)
  then show ?thesis by (auto simp: run_lifecycle_def bindE_def [of "operable _"])
qed

lemma delete_blocked:
  assumes "unresolved_on stackId (w_db w)"
  shows "\<exists>e. delete E stackId actor context w = (Inl (AppErr e), w)"
proof -
  have "\<exists>e. deletable stackId w = (Inl (AppErr e), w)"
    using assms
    by (auto simp: deletable_def find_stack_def assertNotArchived_def assertNothingUnresolved_run run
        bindE_def [of "assertNothingUnresolved stackId"] split: option.split)
  then show ?thesis by (auto simp: delete_def bindE_def [of "deletable _"])
qed

text \<open>How many changes a step asks of the hosts.\<close>

lemma operations_ask:
  "asks_at_most_once w (snd (deploy E stackId revisionId actor context w))"
  "asks_at_most_once w (snd (run_lifecycle E operation stackId actor context w))"
  "asks_at_most_once w (snd (delete E stackId actor context w))"
proof -
  obtain r v where run: "deploy E stackId revisionId actor context w = (r, v)" by fastforce
  with deploy_outcome [OF run] show "asks_at_most_once w (snd (deploy E stackId revisionId actor context w))"
    by (auto intro: asks_nothing asks_one)
next
  obtain r v where run: "run_lifecycle E operation stackId actor context w = (r, v)" by fastforce
  with lifecycle_outcome [OF run] show "asks_at_most_once w (snd (run_lifecycle E operation stackId actor context w))"
    by (auto simp: quiet_def intro: asks_nothing asks_one)
next
  obtain r v where run: "delete E stackId actor context w = (r, v)" by fastforce
  with delete_outcome [OF run] show "asks_at_most_once w (snd (delete E stackId actor context w))"
    by (auto simp: quiet_def intro: asks_nothing asks_one)
qed

lemma changes_ask:
  "asks_at_most_once w (snd (create_container E request actor context w))"
  "asks_at_most_once w (snd (replace_container E cid change actor context w))"
  "asks_at_most_once w (snd (remove_container E cid removal actor context w))"
  "asks_at_most_once w (snd (run_operation E operation cid actor context w))"
  "asks_at_most_once w (snd (recoverContainers E hostId w))"
proof -
  show "asks_at_most_once w (snd (create_container E request actor context w))"
    "asks_at_most_once w (snd (replace_container E cid change actor context w))"
    "asks_at_most_once w (snd (remove_container E cid removal actor context w))"
    using create_asks replace_asks remove_asks by (simp_all add: modest_from_def)
  obtain r v where run: "run_operation E operation cid actor context w = (r, v)" by fastforce
  from operation_asks [OF run] show "asks_at_most_once w (snd (run_operation E operation cid actor context w))"
    by (simp add: run)
  show "asks_at_most_once w (snd (recoverContainers E hostId w))" using recoverContainers_calm [of E hostId]
    by (intro asks_nothing) (simp add: stable_def keeps_def calm_def)
qed

lemma calm_asks_nothing: "stable (keeps calm) m \<Longrightarrow> m w = (r, v) \<Longrightarrow> asks_at_most_once w (rebooted v)"
  by (drule (1) keepsD) (simp add: calm_def asks_nothing)

lemma server_step_asks: "server_step E w w' \<Longrightarrow> asks_at_most_once w w'"
proof (induction rule: server_step.induct)
  case (recovered w hostId)
  show ?case using recoverHost_calm [of E hostId]
    by (intro asks_nothing) (simp add: stable_def keeps_def calm_def)
next
  case (discovered w agentId)
  show ?case using sync_outside [of E agentId]
    by (intro asks_nothing) (simp add: stable_def keeps_def outside_discovery_def)
next
  case (inspected w cid force)
  have "stable (keeps mutations) (containerDetail E cid force)"
    by (rule containerDetail_keeps) (simp add: outside_detail_def)
  then show ?case by (intro asks_nothing) (simp add: stable_def keeps_def)
next
  case (crashed_deploying stack w target from_revision kind plan names existing actor _ prepared v)
  then show ?case by (cases prepared) (auto intro!: asks_nothing dest!: prepare_Inr(1))
next
  case (crashed_operating stack w revisionId operation fingerprint actor _ prepared v)
  then show ?case by (cases prepared) (auto intro!: asks_nothing dest!: prepare_operation_Inr(5))
next
  case (crashed_deleting stack w actor _ prepared v)
  then show ?case by (cases prepared) (auto intro!: asks_nothing dest!: prepare_delete_Inr(6))
next
  case (restarted w)
  show ?case by (intro asks_nothing) simp
next
  case (crashed_creating request hostId actor _ w _ v)
  then show ?case by (rule calm_asks_nothing [OF prepareCreate_calm])
next
  case (crashed_replacing cid change actor _ w _ v)
  then show ?case by (rule calm_asks_nothing [OF prepareReplace_calm])
next
  case (crashed_removing actor _ cid hostId w _ v)
  have "stable (keeps calm) (transaction (insert_container_action E actor c ''container.remove'' cid hostId))" for c
    by (intro change_calm insert_container_action_calm)
  from calm_asks_nothing [OF this crashed_removing] show ?case .
qed (simp_all add: operations_ask changes_ask asks_nothing mutations_def)

section \<open>Foreign keys and indexes\<close>

lemma linked_after: "keeps_linked m \<Longrightarrow> linked (w_db w) \<Longrightarrow> linked (w_db (snd (m w)))"
  by (simp add: keeps_linked_def stable_def preserves_def)

lemma linked_crash: "stable linked_rel m \<Longrightarrow> m w = (r, v) \<Longrightarrow> linked (w_db w) \<Longrightarrow> linked (w_db (rebooted v))"
  by (drule (1) stableD) (simp add: linked_rel_def)

lemma server_step_linked: "server_step E w w' \<Longrightarrow> linked (w_db w) \<Longrightarrow> linked (w_db w')"
proof (induction rule: server_step.induct)
  case (crashed_deploying stack w target from_revision kind plan names existing actor _ prepared v)
  from linked_crash [OF discovering.step_prepare this(2,3)] show ?case .
next
  case (crashed_operating stack w revisionId operation fingerprint actor _ prepared v)
  from linked_crash [OF discovering.step_prepare_operation(1) this(2,3)] show ?case .
next
  case (crashed_deleting stack w actor _ prepared v)
  from linked_crash [OF discovering.step_prepare_operation(2) this(2,3)] show ?case .
next
  case (crashed_creating request hostId actor _ w _ v)
  from crashed_creating(1) crashed_creating(2) show ?case by (cases rule: prepareCreate_cases) (auto simp: wrote_def)
next
  case (crashed_replacing cid change actor _ w _ v)
  from crashed_replacing(1) crashed_replacing(2) show ?case by (cases rule: prepareReplace_cases) (auto simp: wrote_def)
next
  case (crashed_removing actor _ cid hostId w _ v)
  from crashed_removing(1) crashed_removing(2) show ?case
    by (cases rule: transaction_cases) (auto elim!: insert_container_action_Inr)
qed (simp_all add: linked_after changes_linked operation_linked recoverContainers_linked linked_step discovering.step_deploy
    discovering.step_lifecycle discovering.step_delete_op discovering.step_recoverHost discovering.step_sync discovering.step_detail)

section \<open>Secrets\<close>

lemma sealed_after: "stable (sealed_rel E plain) m \<Longrightarrow> sealed E plain (w_db w) \<Longrightarrow> sealed E plain (w_db (snd (m w)))"
  by (simp add: sealed_rel_def stable_def)

lemma sealed_crash: "stable (sealed_rel E plain) m \<Longrightarrow> m w = (r, v) \<Longrightarrow> sealed E plain (w_db w) \<Longrightarrow> sealed E plain (w_db (rebooted v))"
  by (drule (1) stableD) (simp add: sealed_rel_def)

text \<open>Any text may be in plain text here; what a single request may leave so is said by \<open>requests_sealed\<close>.\<close>

abbreviation anything :: "string \<Rightarrow> string \<Rightarrow> bool" where
  "anything \<equiv> \<lambda>_ _. True"

lemma server_step_sealed: "server_step E w w' \<Longrightarrow> sealed E anything (w_db w) \<Longrightarrow> sealed E anything (w_db w')"
proof (induction rule: server_step.induct)
  case (crashed_deploying stack w target from_revision kind plan names existing actor _ prepared v)
  from sealed_crash [OF sealing.step_prepare this(2,3)] show ?case .
next
  case (crashed_operating stack w revisionId operation fingerprint actor _ prepared v)
  from sealed_crash [OF sealing.step_prepare_operation(1) this(2,3)] show ?case .
next
  case (crashed_deleting stack w actor _ prepared v)
  from sealed_crash [OF sealing.step_prepare_operation(2) this(2,3)] show ?case .
next
  case (crashed_creating request hostId actor _ w _ v)
  from sealed_crash [OF sealed_prepareCreate [OF TrueI] this] show ?case .
next
  case (crashed_replacing cid change actor _ w _ v)
  from sealed_crash [OF sealed_prepareReplace [OF TrueI] this] show ?case .
next
  case (crashed_removing actor _ cid hostId w _ v)
  from sealed_crash [OF sealing.step_transaction [OF sealed_action] this] show ?case .
qed (simp_all add: sealed_after changes_sealed operation_sealed sealed_recover sealing.step_deploy
    sealing.step_lifecycle sealing.step_delete_op sealing.step_recoverHost sealing.step_sync sealing.step_detail)

end
