(* ===== verification/Agent_Versions.thy ===== *)
theory Agent_Versions
  imports Semver Protocol "HOL-Library.Multiset"
begin

text \<open>
  What the fleet is running, \<^verbatim>\<open>src/api/src/version/agent-versions.ts\<close>. A \<^verbatim>\<open>Map\<close> that is
  iterated is an association list in insertion order. \<^verbatim>\<open>Array.prototype.sort\<close> is the stable
  sort by a comparator, which ECMAScript fixes for a consistent comparator only; the order
  of \<open>versions\<close> is not relied upon here, because the comparator of the source is not
  consistent. \<^verbatim>\<open>localeCompare\<close> depends on the locale and is an argument.
\<close>

section \<open>The summary\<close>

record AgentVersionCount =
  avc_version :: "string option"
  avc_count :: nat

record AgentVersionSummary =
  total :: nat
  versions :: "AgentVersionCount list"
  mixedVersions :: bool
  unknownCount :: nat
  protocolUnsupportedCount :: nat
  oldestVersion :: "string option"
  newestVersion :: "string option"

record AgentVersionRow =
  avr_version :: "string option"
  avr_protocolVersion :: int

definition normalise :: "string option \<Rightarrow> string option" where
  "normalise version = (case version of
      None \<Rightarrow> None
    | Some v \<Rightarrow> if trim v \<noteq> [] then Some (trim v) else None)"

text \<open>\<^verbatim>\<open>map.set(k, f(map.get(k)))\<close>: in place where the key is there, at the end otherwise.\<close>

fun assoc_update :: "'k \<Rightarrow> ('v option \<Rightarrow> 'v) \<Rightarrow> ('k \<times> 'v) list \<Rightarrow> ('k \<times> 'v) list" where
  "assoc_update k f [] = [(k, f None)]"
| "assoc_update k f ((k', v) # rest) =
     (if k = k' then (k', f (Some v)) # rest else (k', v) # assoc_update k f rest)"

fun insert_by :: "('a \<Rightarrow> 'a \<Rightarrow> int) \<Rightarrow> 'a \<Rightarrow> 'a list \<Rightarrow> 'a list" where
  "insert_by cmp x [] = [x]"
| "insert_by cmp x (y # ys) = (if cmp x y \<le> 0 then x # y # ys else y # insert_by cmp x ys)"

definition js_sort :: "('a \<Rightarrow> 'a \<Rightarrow> int) \<Rightarrow> 'a list \<Rightarrow> 'a list" where
  "js_sort cmp xs = foldr (insert_by cmp) xs []"

record version_scan =
  vs_counts :: "(string option \<times> nat) list"
  vs_readable :: "(string \<times> ParsedVersion) list"
  vs_unknown :: nat
  vs_unsupported :: nat

definition scan_row :: "AgentVersionRow \<Rightarrow> version_scan \<Rightarrow> version_scan" where
  "scan_row row scan =
    (let version = normalise (avr_version row);
         parsed = (case version of None \<Rightarrow> None | Some v \<Rightarrow> parseVersion (Some v));
         scan1 = scan\<lparr>vs_counts := assoc_update version
                   (\<lambda>old. (case old of None \<Rightarrow> 0 | Some n \<Rightarrow> n) + 1) (vs_counts scan)\<rparr>;
         scan2 = (case parsed of
             Some p \<Rightarrow> scan1\<lparr>vs_readable := assoc_update (the version) (\<lambda>_. p) (vs_readable scan1)\<rparr>
           | None \<Rightarrow> scan1\<lparr>vs_unknown := vs_unknown scan1 + 1\<rparr>) in
     if of_int (avr_protocolVersion row) < MINIMUM_PROTOCOL_VERSION
        \<or> PROTOCOL_VERSION < of_int (avr_protocolVersion row)
     then scan2\<lparr>vs_unsupported := vs_unsupported scan2 + 1\<rparr> else scan2)"

definition scan_rows :: "AgentVersionRow list \<Rightarrow> version_scan" where
  "scan_rows rows = fold scan_row rows
     \<lparr>vs_counts = [], vs_readable = [], vs_unknown = 0, vs_unsupported = 0\<rparr>"

definition compare_counts :: "(string \<Rightarrow> string \<Rightarrow> int) \<Rightarrow> (string \<rightharpoonup> ParsedVersion)
    \<Rightarrow> AgentVersionCount \<Rightarrow> AgentVersionCount \<Rightarrow> int" where
  "compare_counts localeCompare readable a b =
    (if avc_count a \<noteq> avc_count b then int (avc_count b) - int (avc_count a)
     else (case (avc_version a, avc_version b) of
         (None, _) \<Rightarrow> 1
       | (_, None) \<Rightarrow> -1
       | (Some va, Some vb) \<Rightarrow> (case (readable va, readable vb) of
             (Some left, Some right) \<Rightarrow> compareParsed right left
           | _ \<Rightarrow> localeCompare va vb)))"

definition summariseAgentVersions ::
    "(string \<Rightarrow> string \<Rightarrow> int) \<Rightarrow> AgentVersionRow list \<Rightarrow> AgentVersionSummary" where
  "summariseAgentVersions localeCompare rows =
    (let scan = scan_rows rows;
         ordered = js_sort (\<lambda>(_, a) (_, b). compareParsed a b) (vs_readable scan) in
     \<lparr>total = length rows,
      versions = js_sort (compare_counts localeCompare (map_of (vs_readable scan)))
        (map (\<lambda>(version, count). \<lparr>avc_version = version, avc_count = count\<rparr>) (vs_counts scan)),
      mixedVersions = length (vs_readable scan) > 1,
      unknownCount = vs_unknown scan,
      protocolUnsupportedCount = vs_unsupported scan,
      oldestVersion = (if ordered = [] then None else Some (fst (hd ordered))),
      newestVersion = (if ordered = [] then None else Some (fst (last ordered)))\<rparr>)"

section \<open>Lemmas on maps and sorting\<close>

lemma assoc_update_map_of:
  "map_of (assoc_update k f ps) = (map_of ps)(k \<mapsto> f (map_of ps k))"
  by (induction k f ps rule: assoc_update.induct) auto

lemma assoc_update_keys: "fst ` set (assoc_update k f ps) = insert k (fst ` set ps)"
  by (induction k f ps rule: assoc_update.induct) auto

lemma assoc_update_distinct:
  "distinct (map fst ps) \<Longrightarrow> distinct (map fst (assoc_update k f ps))"
proof (induction k f ps rule: assoc_update.induct)
  case (2 k f k' v rest)
  then show ?case using assoc_update_keys [of k f rest] by (auto simp flip: set_map)
qed simp

lemma mset_insert_by: "mset (insert_by cmp x ys) = add_mset x (mset ys)"
  by (induction ys) auto

lemma mset_js_sort: "mset (js_sort cmp xs) = mset xs"
  by (induction xs) (simp_all add: js_sort_def mset_insert_by)

lemma set_js_sort [simp]: "set (js_sort cmp xs) = set xs"
  by (rule mset_eq_setD) (rule mset_js_sort)

lemma js_sort_Nil_iff [simp]: "js_sort cmp xs = [] \<longleftrightarrow> xs = []"
  by (metis mset_js_sort mset_zero_iff)

text \<open>A comparator that compares keys of a linear order sorts by that key.\<close>

lemma insert_by_sorted:
  assumes "\<forall>a \<in> insert x (set ys). \<forall>b \<in> insert x (set ys). cmp a b = three_way (key a) (key b)"
    and "sorted (map key ys)"
  shows "sorted (map key (insert_by cmp x ys))"
  using assms
proof (induction ys)
  case (Cons y ys)
  have set: "set (insert_by cmp x ys) = insert x (set ys)"
    using mset_insert_by [of cmp x ys] by (metis set_mset_add_mset_insert set_mset_mset)
  from Cons.prems have "sorted (map key (insert_by cmp x ys))" by (intro Cons.IH) auto
  with Cons.prems show ?case
    by (auto simp: three_way_le set)
qed simp

lemma js_sort_sorted:
  assumes "\<forall>a \<in> set xs. \<forall>b \<in> set xs. cmp a b = three_way (key a) (key b)"
  shows "sorted (map key (js_sort cmp xs))"
  using assms
proof (induction xs)
  case (Cons x xs)
  have "sorted (map key (insert_by cmp x (js_sort cmp xs)))"
    by (rule insert_by_sorted) (use Cons in auto)
  then show ?case by (simp add: js_sort_def)
qed (simp add: js_sort_def)

lemma sorted_ends:
  assumes "sorted (map key xs)" and "x \<in> set xs"
  shows "key (hd xs) \<le> key x" and "key x \<le> key (last xs)"
  using assms by (induction xs) (auto simp: sorted_wrt_map)

section \<open>Lemmas on the scan\<close>

definition readable_version :: "AgentVersionRow \<Rightarrow> ParsedVersion option" where
  "readable_version row = Option.bind (normalise (avr_version row)) (\<lambda>v. parseVersion (Some v))"

definition reported :: "AgentVersionRow list \<Rightarrow> string option list" where
  "reported rows = map (\<lambda>row. normalise (avr_version row)) rows"

lemma scan_rows_snoc: "scan_rows (rows @ [row]) = scan_row row (scan_rows rows)"
  by (simp add: scan_rows_def)

lemmas scan_simps = scan_rows_snoc scan_row_def readable_version_def Let_def

lemma scan_counts:
  "map_of (vs_counts (scan_rows rows)) v =
    (if v \<in> set (reported rows) then Some (count_list (reported rows) v) else None)"
proof (induction rows rule: rev_induct)
  case Nil
  then show ?case by (simp add: scan_rows_def reported_def)
next
  case (snoc row rows)
  then show ?case
    by (auto simp: scan_simps reported_def assoc_update_map_of count_list_0_iff split: option.splits)
qed

lemma scan_readable:
  "map_of (vs_readable (scan_rows rows)) v =
    (if Some v \<in> set (reported rows) then parseVersion (Some v) else None)"
proof (induction rows rule: rev_induct)
  case Nil
  then show ?case by (simp add: scan_rows_def reported_def)
next
  case (snoc row rows)
  then show ?case
    by (auto simp: scan_simps reported_def assoc_update_map_of split: option.splits)
qed

lemma scan_distinct:
  "distinct (map fst (vs_counts (scan_rows rows))) \<and> distinct (map fst (vs_readable (scan_rows rows)))"
proof (induction rows rule: rev_induct)
  case Nil
  then show ?case by (simp add: scan_rows_def)
next
  case (snoc row rows)
  then show ?case
    by (auto simp: scan_simps assoc_update_distinct split: option.splits)
qed

lemma scan_unknown:
  "vs_unknown (scan_rows rows) = length (filter (\<lambda>row. readable_version row = None) rows)"
proof (induction rows rule: rev_induct)
  case Nil
  then show ?case by (simp add: scan_rows_def)
next
  case (snoc row rows)
  then show ?case by (auto simp: scan_simps split: option.splits)
qed

lemma scan_unsupported:
  "vs_unsupported (scan_rows rows) =
     length (filter (\<lambda>row. \<not> isSupportedProtocolVersion (Some (Finite (of_int (avr_protocolVersion row))))) rows)"
proof (induction rows rule: rev_induct)
  case Nil
  then show ?case by (simp add: scan_rows_def)
next
  case (snoc row rows)
  then show ?case
    by (auto simp: scan_simps isSupportedProtocolVersion_def split: option.splits)
qed

lemma readable_set:
  "(v, p) \<in> set (vs_readable (scan_rows rows)) \<longleftrightarrow> Some v \<in> set (reported rows) \<and> parseVersion (Some v) = Some p"
proof -
  have "(v, p) \<in> set (vs_readable (scan_rows rows)) \<longleftrightarrow> map_of (vs_readable (scan_rows rows)) v = Some p"
    using scan_distinct [of rows] by (simp add: map_of_eq_Some_iff)
  then show ?thesis by (auto simp: scan_readable)
qed

lemma counts_set:
  "(v, n) \<in> set (vs_counts (scan_rows rows)) \<longleftrightarrow>
   v \<in> set (reported rows) \<and> n = count_list (reported rows) v"
proof -
  have "(v, n) \<in> set (vs_counts (scan_rows rows)) \<longleftrightarrow> map_of (vs_counts (scan_rows rows)) v = Some n"
    using scan_distinct [of rows] by (simp add: map_of_eq_Some_iff)
  then show ?thesis by (auto simp: scan_counts)
qed

section \<open>Properties\<close>

text \<open>
  The summary counts every agent once: a version is listed exactly when some agent reports
  it (up to white space; an absent one as unknown), once, with the number of agents that do;
  the agents without a readable version and those with a protocol this build does not
  support are counted as such.
\<close>

theorem summariseAgentVersions_counts:
  "let s = summariseAgentVersions localeCompare rows in
     set (versions s) = (\<lambda>v. \<lparr>avc_version = v, avc_count = count_list (reported rows) v\<rparr>) ` set (reported rows)
     \<and> distinct (map avc_version (versions s))
     \<and> total s = length rows
     \<and> unknownCount s = length (filter (\<lambda>row. readable_version row = None) rows)
     \<and> protocolUnsupportedCount s = length (filter (\<lambda>row. \<not> isSupportedProtocolVersion
          (Some (Finite (of_int (avr_protocolVersion row))))) rows)"
proof -
  define entries where "entries = map (\<lambda>(v, n). \<lparr>avc_version = v, avc_count = n\<rparr>) (vs_counts (scan_rows rows))"
  define sorted where "sorted = js_sort
    (compare_counts localeCompare (map_of (vs_readable (scan_rows rows)))) entries"
  have "set entries = (\<lambda>v. \<lparr>avc_version = v, avc_count = count_list (reported rows) v\<rparr>) ` set (reported rows)"
    by (auto simp: entries_def counts_set image_iff)
  moreover have "mset (map avc_version sorted) = mset (map fst (vs_counts (scan_rows rows)))"
    by (simp add: sorted_def mset_js_sort entries_def case_prod_unfold image_mset.compositionality comp_def)
  then have "distinct (map avc_version sorted)"
    using scan_distinct [of rows] by (metis mset_eq_imp_distinct_iff)
  ultimately show ?thesis
    by (simp add: summariseAgentVersions_def Let_def scan_unknown scan_unsupported
      flip: entries_def sorted_def) (simp add: sorted_def)
qed

text \<open>
  The oldest and the newest version of the summary are versions in use that can be read, of
  the lowest and of the highest precedence among them; they are absent only when no agent has a
  readable version, and the fleet is mixed exactly when two different ones are in use.
\<close>

theorem summariseAgentVersions_extremes:
  assumes "\<forall>v p. Some v \<in> set (reported rows) \<and> parseVersion (Some v) = Some p \<longrightarrow> finite_version p"
  shows "let s = summariseAgentVersions localeCompare rows;
      readable = {v. Some v \<in> set (reported rows) \<and> parseVersion (Some v) \<noteq> None};
      key = (\<lambda>v. version_key (the (parseVersion (Some v)))) in
    (readable = {} \<longrightarrow> oldestVersion s = None \<and> newestVersion s = None) \<and>
    (readable \<noteq> {} \<longrightarrow> (\<exists>lo \<in> readable. \<exists>hi \<in> readable. oldestVersion s = Some lo \<and> newestVersion s = Some hi
       \<and> (\<forall>v \<in> readable. key lo \<le> key v \<and> key v \<le> key hi))) \<and>
    (mixedVersions s \<longleftrightarrow> card readable > 1)"
proof -
  let ?rs = "vs_readable (scan_rows rows)"
  let ?readable = "{v. Some v \<in> set (reported rows) \<and> parseVersion (Some v) \<noteq> None}"
  let ?key = "\<lambda>v. version_key (the (parseVersion (Some v)))"
  define ordered where "ordered = js_sort (\<lambda>(_, a) (_, b). compareParsed a b) ?rs"
  have fsts: "fst ` set ?rs = ?readable" 
  proof (intro set_eqI iffI)
    fix v assume "v \<in> fst ` set ?rs"
    then obtain p where "(v, p) \<in> set ?rs" by force
    then show "v \<in> ?readable" by (simp add: readable_set)
  next
    fix v assume "v \<in> ?readable"
    then obtain p where "(v, p) \<in> set ?rs" by (auto simp: readable_set)
    then show "v \<in> fst ` set ?rs" by force
  qed
  have snds: "version_key (snd x) = ?key (fst x)" if "x \<in> set ?rs" for x
    using that readable_set [of "fst x" "snd x" rows] by simp
  have "sorted (map (version_key \<circ> snd) ordered)"
    unfolding ordered_def
    by (rule js_sort_sorted) (use assms in \<open>auto simp: readable_set compareParsed_key\<close>)
  note ends = sorted_ends [OF this]
  have set: "set ordered = set ?rs" by (simp add: ordered_def)
  have card: "card ?readable = length ?rs"
    using fsts scan_distinct [of rows] distinct_card [of "map fst ?rs"] by simp
  have summary: "oldestVersion (summariseAgentVersions localeCompare rows)
        = (if ordered = [] then None else Some (fst (hd ordered)))"
      "newestVersion (summariseAgentVersions localeCompare rows)
        = (if ordered = [] then None else Some (fst (last ordered)))"
      "mixedVersions (summariseAgentVersions localeCompare rows) \<longleftrightarrow> length ?rs > 1"
    by (simp_all add: summariseAgentVersions_def Let_def ordered_def)
  have between: "?key (fst (hd ordered)) \<le> ?key v \<and> ?key v \<le> ?key (fst (last ordered))"
    if v: "v \<in> ?readable" for v
  proof -
    from v have "v \<in> fst ` set ordered" unfolding set fsts .
    then obtain x where x: "x \<in> set ordered" "fst x = v" by blast
    then have "ordered \<noteq> []" by auto
    then have "hd ordered \<in> set ?rs" "last ordered \<in> set ?rs" "x \<in> set ?rs"
      unfolding set [symmetric] using x(1) by simp_all
    then show ?thesis using ends [OF x(1)] x(2) by (simp only: comp_apply snds)
  qed
  show ?thesis
  proof (cases "ordered = []")
    case True
    then have "?rs = []" using set by simp
    with fsts have "?readable = {}" by simp
    with True summary card show ?thesis by (simp only: Let_def) auto
  next
    case False
    then have "fst (hd ordered) \<in> ?readable" "fst (last ordered) \<in> ?readable"
      unfolding fsts [symmetric] set [symmetric] by simp_all
    then show ?thesis
      unfolding Let_def summary card using False between by (simp only: if_False) blast
  qed
qed

definition fleet :: "AgentVersionRow list" where
  "fleet = [\<lparr>avr_version = Some ''0.9.0'', avr_protocolVersion = 1\<rparr>,
     \<lparr>avr_version = Some '' 0.10.0 '', avr_protocolVersion = 1\<rparr>,
     \<lparr>avr_version = None, avr_protocolVersion = 2\<rparr>]"

lemma fleet_reported: "reported fleet = [Some ''0.9.0'', Some ''0.10.0'', None]"
  unfolding fleet_def by code_simp

lemma fleet_parses:
  "parseVersion (Some ''0.9.0'') = Some \<lparr>major = Num 0, minor = Num 9, patch = Num 0, prerelease = []\<rparr>"
  "parseVersion (Some ''0.10.0'') = Some \<lparr>major = Num 0, minor = Num 10, patch = Num 0, prerelease = []\<rparr>"
  by code_simp+

lemma fleet_readable:
  "{v. Some v \<in> set (reported fleet) \<and> parseVersion (Some v) \<noteq> None} = {''0.9.0'', ''0.10.0''}"
  by (auto simp: fleet_reported fleet_parses)

lemma fleet_finite:
  "\<forall>v p. Some v \<in> set (reported fleet) \<and> parseVersion (Some v) = Some p \<longrightarrow> finite_version p"
  by (auto simp: fleet_reported fleet_parses finite_version_def)

theorem summariseAgentVersions_extremes_witness:
  "mixedVersions (summariseAgentVersions (\<lambda>_ _. 0) fleet)"
  using summariseAgentVersions_extremes [OF fleet_finite, of "\<lambda>_ _. 0"]
  unfolding fleet_readable Let_def by simp

end
