(* ===== verification/Spec2Isabelle.thy ===== *)
theory Spec2Isabelle
  imports Agent_Gateway Server Recovery_Classify Agent_Versions
begin

text \<open>
  A verification development of the Dockplane control server, \<^verbatim>\<open>src/api/src\<close>.

  \<^bold>\<open>The program.\<close> The control server keeps a PostgreSQL database of hosts, containers, Compose
  projects and stacks, and talks to one agent per host over a socket. Discovery asks an agent
  what its host holds and writes it down. A stack is a Compose file kept as a series of
  revisions; applying a revision, starting, stopping, restarting and deleting a stack each write
  an attempt down, ask the agent once, read the host again and record what the host showed,
  never what the agent said. Single containers are created, replaced and removed the same way,
  with the configuration they are to have kept as a candidate until a reading shows it. What stays
  open because the answer or the reading was missing is settled later by recovery, which only
  reads. A registry in memory keeps two operations on one resource apart.

  \<^bold>\<open>How it is modelled.\<close> A handler is a function from a \<open>world\<close> to a result or an exception and the
  world afterwards (\<open>exm\<close> of \<open>Prelude\<close>, \<open>handler\<close> of \<open>Database\<close>). The world holds the tables
  as lists of rows, the locks of the process, the connected agents, the requests sent so far,
  the clock and a supply of identifiers. A transaction that throws gives the tables back; unique
  indexes and foreign-key actions of the schema are part of the operations that write. Everything
  the code calls and does not contain is a field of \<open>env\<close>: what an agent answers to a request
  (a function of all the requests before it), the compiler process, the cipher, the identifiers
  drawn, the dates that ECMAScript leaves to the engine, the text PostgreSQL accepts as a UUID.
  No theorem assumes more of them than it says in its premises, and every premise has an example
  in which it holds: \<open>Example_Host\<close> and \<open>Example_Site\<close> compute the answers of hosts that behave. All definitions
  are total and executable: the loops of the source run over lists, so that no fuel and no bound
  is chosen anywhere. One handler runs at a time, and what another handler may do is a
  step of its own in \<open>Server\<close>, before or after it. The registry of locks looks a key up and takes it
  without an \<^verbatim>\<open>await\<close>, so two operations cannot both take it; but the services wait for the
  database and for the lookup of the agent before they ask for the lock, and what others do in that
  window of the source is not modelled. Only the agents' side below interleaves handlers at their waits.

  \<^bold>\<open>The theories\<close>, each named after the code it models.
  \<^item> \<open>Prelude\<close>: JavaScript values, the monad, tables, and the locale \<open>step_rel\<close> of relations between
    the world before and after that every handler built from related steps satisfies; it carries
    the frame and invariant proofs of the services.
  \<^item> \<open>Js_Date\<close>, \<open>Js_Time\<close>: \<^verbatim>\<open>Date.parse\<close> and \<^verbatim>\<open>toISOString\<close>.
  \<^item> \<open>Protocol\<close> (\<^verbatim>\<open>agents/capabilities.ts\<close>, \<^verbatim>\<open>agents/protocol.ts\<close>), \<open>App_Error\<close>
    (\<^verbatim>\<open>common/errors.ts\<close>), \<open>Semver\<close> and \<open>Agent_Versions\<close> (\<^verbatim>\<open>version/semver.ts\<close>,
    \<^verbatim>\<open>version/agent-versions.ts\<close>, \<^verbatim>\<open>stacks/stack-attribution.ts\<close>), \<open>Stack_Plan\<close>
    (\<^verbatim>\<open>stacks/stack-plan.ts\<close>): pure code. Messages are read back as written, versions are ordered
    as Semantic Versioning orders them, a plan names the services of the compiled file and refers
    to nothing it does not create.
  \<^item> \<open>Stack_Classify\<close> (\<^verbatim>\<open>stacks/stack-deployment.ts\<close>, \<^verbatim>\<open>stack-lifecycle.ts\<close>,
    \<^verbatim>\<open>stack-delete.ts\<close>) and \<open>Recovery_Classify\<close> (\<^verbatim>\<open>containers/recovery.ts\<close>): what a reading of a host
    says about an attempt. The locale \<open>reading_classifier\<close> states what every classifier promises,
    and each conclusion is characterised by the readings that lead to it.
  \<^item> \<open>Database\<close> (\<^verbatim>\<open>database/schema.ts\<close>, \<^verbatim>\<open>audit/audit.service.ts\<close>, \<^verbatim>\<open>events/events.service.ts\<close>),
    \<open>Mutation_Registry\<close> (\<^verbatim>\<open>operations/mutation-registry.ts\<close>, \<^verbatim>\<open>inventory/host-archive.ts\<close>):
    the world. The locale \<open>lock_table\<close> is the contract of the registry.
  \<^item> \<open>Discovery\<close>, \<open>Detail\<close> (\<^verbatim>\<open>discovery/discovery.service.ts\<close>, \<^verbatim>\<open>detail.service.ts\<close>): a pass
    leaves alone what the stack services own, removes nothing unless it was complete and changes no
    row of another host but for three columns of a container; what a host sends is sanitised before it is kept.
  \<^item> \<open>Stack_Common\<close>, \<open>Stack_Deployment\<close>, \<open>Stack_Lifecycle\<close>, \<open>Stack_Delete\<close>
    (\<^verbatim>\<open>stacks/stack-deployment.service.ts\<close>, \<^verbatim>\<open>stack-lifecycle.service.ts\<close>,
    \<^verbatim>\<open>stack-delete.service.ts\<close>): the operations. Each refines an abstract account of an attempt:
    it is refused and nothing changed, or it was written down, asked for once, and its row and
    its stack say what the reading of the host showed (\<open>settles_attempt\<close>, \<open>settles_operation\<close>,
    \<open>purged\<close>).
  \<^item> \<open>Stack_Recovery\<close> (\<^verbatim>\<open>stacks/stack-recovery.service.ts\<close>): recovery settles everything it finds
    on a host that it could read, asks for nothing, and records what the live path would have.
  \<^item> \<open>Container_Spec\<close>, \<open>Pending_Guard\<close>, \<open>Container_Management\<close>, \<open>Container_Change\<close>
    (\<^verbatim>\<open>containers/container-spec.ts\<close>, \<^verbatim>\<open>desired-config.ts\<close>, \<^verbatim>\<open>pending-guard.ts\<close>,
    \<^verbatim>\<open>container-management.service.ts\<close>): single containers. Every change implements the account
    \<open>refused\<close>, \<open>stranded\<close> or \<open>accounted\<close>: the agent of the container's host was asked once, and
    unless its answer was lost, the request is answered with success exactly when the reading made
    after it was complete and shows the change (\<open>shows_change\<close>), and the tables follow that reading
    (\<open>change_after\<close>).
  \<^item> \<open>Recovery_Finalizer\<close>, \<open>Reconciliation\<close> (\<^verbatim>\<open>containers/recovery-finalizer.ts\<close>,
    \<^verbatim>\<open>reconciliation.service.ts\<close>, \<^verbatim>\<open>recovery.orchestrator.ts\<close>): what an interrupted change is
    settled to, once, and when it can be.
  \<^item> \<open>Container_Lifecycle\<close> (\<^verbatim>\<open>operations/lifecycle.service.ts\<close>): starting, stopping and restarting a
    container, with the one case in which its lock is not given back (\<open>locked_out\<close>).
  \<^item> \<open>Config_Tables\<close>, \<open>Stack_Tables\<close>, \<open>Container_Frames\<close>: what all these services do to the tables of
    containers and configurations. The locale \<open>container_steps\<close> names the few steps they may take; its
    interpretation on \<open>linked_rel\<close> carries the foreign keys and indexes through every handler, the one on
    \<open>sealed_rel\<close> that no secret is stored but as something the cipher made.
  \<^item> \<open>Agent_Dispatch\<close>, \<open>Agent_Gateway\<close> (\<^verbatim>\<open>agents/agent-dispatch.service.ts\<close>,
    \<^verbatim>\<open>connection-manager.service.ts\<close>, \<^verbatim>\<open>agent-gateway.service.ts\<close>, \<^verbatim>\<open>agent-registry.service.ts\<close>): the
    connections of the agents, with a state of their own. Here handlers do overlap: every wait of a
    handler is a step, and the step relations \<open>hub_step\<close> and \<open>gateway_step\<close> interleave them with
    closing sockets, timers and revocations. The locale \<open>hub_moves\<close> names the seven moves of the
    dispatcher; each of its interpretations is an invariant. Requests are answered once and in
    time, streams are in order, replies come from where the request went, and a connection speaks
    for the agent of its certificate. The text a connection is taking in is bounded, the queue of
    chunks that wait for a handler is not.
  \<^item> \<open>Server\<close>: the services as one step relation, with agents coming and going and the process stopping
    half way, and the invariant of the tables. The properties that span the services are below.

  \<^bold>\<open>Not modelled.\<close> Logging; HTTP controllers, guards and the rendering of answers, which call the
  services modelled here; TLS, certificates, passwords and the shell script that
  installs an agent, which are input and output or cryptography; the agent and the compiler,
  which are Go programs the server sees through the answers they give; the web application. The
  coalescing of two concurrent readings of one container is not modelled, because handlers do not
  overlap here. Not modelled yet, in the order in which they are to follow: the configuration of
  stacks (\<^verbatim>\<open>stacks/stack.service.ts\<close>), log streams (\<^verbatim>\<open>logs\<close>), enrolment (\<^verbatim>\<open>agents\<close>), access
  control (\<^verbatim>\<open>rbac\<close>), sessions and throttling (\<^verbatim>\<open>auth\<close>).
\<close>

section \<open>Properties of the server\<close>

text \<open>
  C1: while an attempt or an operation of a stack is open, nothing can be done to the stack: a
  deployment, a start, stop or restart, and a deletion are refused with an error of the API, and
  the refusal leaves the world exactly as it was.
\<close>

theorem stack_operations_blocked:
  assumes "unresolved_on stackId (w_db w)"
  shows "(\<exists>e. deploy E stackId revisionId actor context w = (Inl (AppErr e), w))
    \<and> (\<exists>e. run_lifecycle E operation stackId actor context w = (Inl (AppErr e), w))
    \<and> (\<exists>e. delete E stackId actor context w = (Inl (AppErr e), w))"
  using deploy_blocked [OF assms] lifecycle_blocked [OF assms] delete_blocked [OF assms] by blast

theorem stack_operations_blocked_witness:
  "\<exists>e. delete (shop_live ''running'') shop_id shop_user shop_context shop_left_open = (Inl (AppErr e), shop_left_open)"
proof -
  have "unresolved_on shop_id (w_db shop_left_open)"
    by (simp add: unresolved_on_def unresolved_def shop_left_open_def)
  from stack_operations_blocked [OF this] show ?thesis by blast
qed

text \<open>
  C3: whatever the server does, one handler after the other, with agents coming and going, the
  process stopping and starting again and attempts stranded half way: no stack ever has more than
  one attempt or operation open, no identifier is given out twice, and a stack that is shown as
  deploying has an attempt that is open.
\<close>

theorem reachable_well_kept:
  assumes "(server_step E)\<^sup>*\<^sup>* w w'" and "well_kept (w_db w)"
  shows "well_kept (w_db w')"
  using assms by (induction rule: rtranclp_induct) (auto intro: server_step_kept)

theorem reachable_well_kept_witness:
  "well_kept (w_db (rebooted (snd (deploy shop_env shop_id shop_r1 shop_user shop_context shop_world))))"
proof -
  have "(server_step shop_env)\<^sup>*\<^sup>* shop_world
      (rebooted (snd (deploy shop_env shop_id shop_r1 shop_user shop_context shop_world)))"
    using deployed restarted by (metis r_into_rtranclp rtranclp.rtrancl_into_rtrancl)
  moreover have "well_kept (w_db shop_world)"
    by (simp add: well_kept_def open_on_def shop_world_def empty_world_def empty_db_def)
  ultimately show ?thesis by (rule reachable_well_kept)
qed

text \<open>
  C4: the same steps keep the tables of the containers consistent: every configuration belongs to a
  container, which has at most one that is current and one candidate, every variable belongs to a
  configuration, once per name; and whatever is kept as a secret is kept as something the cipher made,
  with no plain value beside it. In whatever state they find the tables, a create and a replacement leave
  in plain text only what the request itself sets in plain text and what was in plain text before: what
  is set as a secret is not stored but as a secret.
\<close>

theorem reachable_linked:
  assumes "(server_step E)\<^sup>*\<^sup>* w w'" and "linked (w_db w)" and "sealed E anything (w_db w)"
  shows "linked (w_db w') \<and> sealed E anything (w_db w') \<and>
    sealed E (said_plain (cq_environment request) (w_db w')) (w_db (snd (create_container E request actor context w'))) \<and>
    sealed E (said_plain (cq_environment change) (w_db w')) (w_db (snd (replace_container E cid change actor context w')))"
proof -
  have "linked (w_db w') \<and> sealed E anything (w_db w')"
    using assms by (induction rule: rtranclp_induct) (auto intro: server_step_linked server_step_sealed)
  then show ?thesis using requests_sealed by blast
qed

theorem reachable_linked_witness:
  "sealed (site_env []) anything (w_db (snd (sync (site_env []) ''a1'' (snd (create_container (site_env []) site_request shop_user shop_context shop_world)))))
   \<and> map cv_variable (containerEnvironmentVariables
       (w_db (snd (create_container (site_env []) site_request shop_user shop_context shop_world))))
     = [\<lparr>sv_key = ''MODE'', sv_value = Some ''a'', sv_valueEncrypted = None, sv_isSecret = False\<rparr>,
        \<lparr>sv_key = ''TOKEN'', sv_value = None, sv_valueEncrypted = Some ''#s'', sv_isSecret = True\<rparr>]"
proof -
  have "(server_step (site_env []))\<^sup>*\<^sup>* shop_world
      (snd (sync (site_env []) ''a1'' (snd (create_container (site_env []) site_request shop_user shop_context shop_world))))"
    using created discovered by (metis r_into_rtranclp rtranclp.rtrancl_into_rtrancl)
  moreover have "linked (w_db shop_world)" by code_simp
  moreover have "sealed (site_env []) anything (w_db shop_world)" by (simp add: sealed_def shop_world_def empty_world_def empty_db_def)
  ultimately have "sealed (site_env []) anything (w_db (snd (sync (site_env []) ''a1''
      (snd (create_container (site_env []) site_request shop_user shop_context shop_world)))))"
    using reachable_linked by blast
  moreover have "map cv_variable (containerEnvironmentVariables
       (w_db (snd (create_container (site_env []) site_request shop_user shop_context shop_world))))
     = [\<lparr>sv_key = ''MODE'', sv_value = Some ''a'', sv_valueEncrypted = None, sv_isSecret = False\<rparr>,
        \<lparr>sv_key = ''TOKEN'', sv_value = None, sv_valueEncrypted = Some ''#s'', sv_isSecret = True\<rparr>]" by code_simp
  ultimately show ?thesis by blast
qed

text \<open>
  C17: no step of the server asks the hosts for more than one change, and it never takes a
  request back: what was asked before stays asked.
\<close>

theorem step_asks_at_most_once:
  assumes "server_step E w w'"
  shows "\<exists>rqs. mutations w' = mutations w @ rqs \<and> length rqs \<le> 1"
  using server_step_asks [OF assms] by (simp add: asks_at_most_once_def)

theorem step_asks_at_most_once_witness:
  "length (mutations (snd (deploy shop_env shop_id shop_r1 shop_user shop_context shop_world))) \<le> 1"
proof -
  have "mutations shop_world = []" by (simp add: mutations_def shop_world_def empty_world_def)
  with step_asks_at_most_once [OF deployed] show ?thesis by (metis append_Nil)
qed



end
